(* ===== verification/Prelude.thy ===== *)
theory Prelude
  imports Main "HOL-Library.Word"
begin

text \<open>
  Shared vocabulary of the development: Rust's fixed-width counters written out on
  \<open>nat\<close> (checked, saturating), the result type of fallible operations, the named
  theorem collections the component theories feed, and generic list lemmas.
\<close>

section \<open>Theorem collections\<close>

named_theorems rust_arith \<open>definitions of the checked and saturating integer operations\<close>
named_theorems state_defs \<open>definitions of the state operations of a component\<close>
named_theorems inv_intros \<open>one lemma per operation: the operation keeps the invariant\<close>

section \<open>Fallible results\<close>

type_synonym ('e, 'a) result = "'e + 'a"

definition is_ok :: "('e, 'a) result \<Rightarrow> bool" where
  "is_ok r = (case r of Inl _ \<Rightarrow> False | Inr _ \<Rightarrow> True)"

lemma is_ok_simps [simp]: "is_ok (Inr x)" "\<not> is_ok (Inl e)"
  by (simp_all add: is_ok_def)

lemma is_ok_iff: "is_ok r \<longleftrightarrow> (\<exists>x. r = Inr x)"
  by (cases r) auto

text \<open>\<open>filter\<close> of Rust's \<open>Option\<close>.\<close>

definition opt_filter :: "('a \<Rightarrow> bool) \<Rightarrow> 'a option \<Rightarrow> 'a option" where
  "opt_filter P x = (case x of None \<Rightarrow> None | Some v \<Rightarrow> if P v then Some v else None)"

lemma opt_filter_simps [simp]:
  "opt_filter P None = None"
  "opt_filter P (Some v) = (if P v then Some v else None)"
  by (simp_all add: opt_filter_def)

lemma opt_filter_eq_Some [simp]: "opt_filter P x = Some v \<longleftrightarrow> x = Some v \<and> P v"
  by (cases x) auto

lemma opt_filter_eq_None [simp]: "opt_filter P x = None \<longleftrightarrow> (\<forall>v. x = Some v \<longrightarrow> \<not> P v)"
  by (cases x) auto

section \<open>Unsigned 64-bit counters on \<open>nat\<close>\<close>

definition u64_max :: nat where
  "u64_max = 18446744073709551615"

lemma u64_max_eq: "u64_max = 2 ^ 64 - 1"
  by (simp add: u64_max_def)

lemma u64_max_pos [simp]: "0 < u64_max"
  by (simp add: u64_max_def)

definition checked_add64 :: "nat \<Rightarrow> nat \<Rightarrow> nat option" where
  [rust_arith]: "checked_add64 a b = (if a + b \<le> u64_max then Some (a + b) else None)"

definition sat_add64 :: "nat \<Rightarrow> nat \<Rightarrow> nat" where
  [rust_arith]: "sat_add64 a b = min u64_max (a + b)"

lemma checked_add64_eq_Some [simp]:
  "checked_add64 a b = Some c \<longleftrightarrow> c = a + b \<and> a + b \<le> u64_max"
  by (auto simp: checked_add64_def)

lemma checked_add64_eq_None [simp]: "checked_add64 a b = None \<longleftrightarrow> u64_max < a + b"
  by (auto simp: checked_add64_def)

lemma sat_add64_le_max [simp]: "sat_add64 a b \<le> u64_max"
  by (simp add: sat_add64_def)

lemma sat_add64_mono: "a \<le> u64_max \<Longrightarrow> a \<le> sat_add64 a b"
  by (simp add: sat_add64_def)

lemma sat_add64_exact: "a + b \<le> u64_max \<Longrightarrow> sat_add64 a b = a + b"
  by (simp add: sat_add64_def)

section \<open>Event sequences\<close>

text \<open>Run a sequence of events on a state, count the events with a property along the
  run, and require a side condition of every event at the state it happens in.\<close>

fun run_events :: "('e \<Rightarrow> 's \<Rightarrow> 's) \<Rightarrow> 'e list \<Rightarrow> 's \<Rightarrow> 's" where
  "run_events f [] s = s"
| "run_events f (e # es) s = run_events f es (f e s)"

fun count_events :: "('e \<Rightarrow> 's \<Rightarrow> 's) \<Rightarrow> ('e \<Rightarrow> 's \<Rightarrow> bool) \<Rightarrow> 'e list \<Rightarrow> 's \<Rightarrow> nat" where
  "count_events f P [] s = 0"
| "count_events f P (e # es) s = (if P e s then 1 else 0) + count_events f P es (f e s)"

fun all_events :: "('e \<Rightarrow> 's \<Rightarrow> 's) \<Rightarrow> ('e \<Rightarrow> 's \<Rightarrow> bool) \<Rightarrow> 'e list \<Rightarrow> 's \<Rightarrow> bool" where
  "all_events f P [] s = True"
| "all_events f P (e # es) s = (P e s \<and> all_events f P es (f e s))"

lemma all_events_True: "all_events f (\<lambda>_ _. True) es s"
  by (induction es arbitrary: s) auto

lemma run_events_append: "run_events f (xs @ ys) s = run_events f ys (run_events f xs s)"
  by (induction xs arbitrary: s) auto

lemma all_events_append:
  "all_events f P (xs @ ys) s \<longleftrightarrow> all_events f P xs s \<and> all_events f P ys (run_events f xs s)"
  by (induction xs arbitrary: s) auto

lemma run_events_inv:
  assumes step: "\<And>e s. I s \<Longrightarrow> P e s \<Longrightarrow> I (f e s)"
    and "I s" "all_events f P es s"
  shows "I (run_events f es s)"
  using assms(2,3) by (induction es arbitrary: s) (auto intro: step)

section \<open>Lists\<close>

text \<open>The first element of a list with a property: \<open>Iterator::find\<close>.\<close>

lemma find_Some_set: "find P xs = Some x \<Longrightarrow> x \<in> set xs \<and> P x"
  by (auto simp: find_Some_iff)

lemma find_None_set: "find P xs = None \<longleftrightarrow> (\<forall>x \<in> set xs. \<not> P x)"
  by (auto simp: find_None_iff)

lemma set_map_filter_iff: "y \<in> set (List.map_filter f xs) \<longleftrightarrow> (\<exists>x \<in> set xs. f x = Some y)"
  by (induction xs) (auto split: option.splits)

lemma map_filter_total:
  "(\<And>x. x \<in> set xs \<Longrightarrow> f x \<noteq> None) \<Longrightarrow> List.map_filter f xs = map (the \<circ> f) xs"
proof (induction xs)
  case (Cons x xs)
  obtain y where "f x = Some y" using Cons.prems [of x] by auto
  then show ?case using Cons by simp
qed simp

lemma map_filter_append [simp]:
  "List.map_filter f (xs @ ys) = List.map_filter f xs @ List.map_filter f ys"
  by (induction xs) (auto split: option.splits)

lemma map_filter_cong_set:
  "(\<And>x. x \<in> set xs \<Longrightarrow> f x = g x) \<Longrightarrow> List.map_filter f xs = List.map_filter g xs"
  by (induction xs) (auto split: option.splits)

text \<open>A bounded double-ended queue: push at the back, drop the oldest when full.\<close>

definition push_bounded :: "nat \<Rightarrow> 'a \<Rightarrow> 'a list \<Rightarrow> 'a list" where
  "push_bounded limit x xs = (let ys = xs @ [x] in if length ys > limit then tl ys else ys)"

lemma length_push_bounded: "length xs \<le> limit \<Longrightarrow> length (push_bounded limit x xs) \<le> limit"
  by (simp add: push_bounded_def Let_def)

lemma length_push_bounded_eq:
  "length xs \<le> limit \<Longrightarrow> length (push_bounded limit x xs) = min limit (Suc (length xs))"
  by (auto simp: push_bounded_def Let_def)

lemma last_push_bounded: "0 < limit \<Longrightarrow> length xs \<le> limit \<Longrightarrow> last (push_bounded limit x xs) = x"
  by (cases xs) (auto simp: push_bounded_def Let_def)

lemma push_bounded_set: "set (push_bounded limit x xs) \<subseteq> insert x (set xs)"
  by (cases xs) (auto simp: push_bounded_def Let_def)

lemma distinct_map_filter_removeAll:
  "distinct xs \<Longrightarrow> distinct (filter (\<lambda>y. y \<noteq> x) xs)"
  by simp

lemma length_filter_neq_distinct:
  "distinct xs \<Longrightarrow> x \<in> set xs \<Longrightarrow> Suc (length (filter (\<lambda>y. y \<noteq> x) xs)) = length xs"
proof (induction xs)
  case (Cons y ys)
  then show ?case
    by (cases "y = x") (auto simp: filter_id_conv intro!: arg_cong [where f = length])
qed simp

end
