(* ===== verification/Rust_Str.thy ===== *)
theory Rust_Str
  imports Prelude "HOL-Library.List_Lexorder"
begin

text \<open>
  Rust strings as the components use them: a \<open>str\<close> is the list of its Unicode scalar
  values, so that the trimming, prefix, splitting and length operations of the standard
  library compute. The order of the lists is the order of \<open>str\<close> (comparison of
  UTF-8 bytes agrees with comparison of code points). A literal of the source is written
  \<open>lit ''...''\<close>; its value is the list of the code points of its characters.
\<close>

type_synonym rstr = "int list"

definition lit :: "string \<Rightarrow> rstr" where
  "lit s = map of_char s"

lemma of_char_int_inj [simp]: "(of_char c :: int) = of_char d \<longleftrightarrow> c = d"
  by (rule of_char_eq_iff)

lemma lit_inject [simp]: "lit s = lit t \<longleftrightarrow> s = t"
  unfolding lit_def by (rule inj_map_eq_map) (simp add: inj_def)

lemma lit_eq_Nil [simp]: "lit s = [] \<longleftrightarrow> s = []" "[] = lit s \<longleftrightarrow> s = []"
  by (simp_all add: lit_def)

section \<open>UTF-8 lengths\<close>

definition utf8_width :: "int \<Rightarrow> nat" where
  "utf8_width c = (if c < 128 then 1 else if c < 2048 then 2 else if c < 65536 then 3 else 4)"

definition byte_len :: "rstr \<Rightarrow> nat" where
  "byte_len s = sum_list (map utf8_width s)"

lemma utf8_width_bounds: "1 \<le> utf8_width c" "utf8_width c \<le> 4"
  by (simp_all add: utf8_width_def)

lemma byte_len_simps [simp]:
  "byte_len [] = 0"
  "byte_len (c # s) = utf8_width c + byte_len s"
  "byte_len (s @ t) = byte_len s + byte_len t"
  by (simp_all add: byte_len_def)

lemma length_le_byte_len: "length s \<le> byte_len s"
proof (induction s)
  case (Cons c s)
  then show ?case using utf8_width_bounds(1) [of c] by simp
qed simp

lemma byte_len_le: "byte_len s \<le> 4 * length s"
proof (induction s)
  case (Cons c s)
  then show ?case using utf8_width_bounds(2) [of c] by simp
qed simp

lemma byte_len_eq_0 [simp]: "byte_len s = 0 \<longleftrightarrow> s = []"
  using length_le_byte_len [of s] by (cases s) auto

text \<open>The prefix of a string of exactly \<open>n\<close> bytes, when a character boundary is there:
  \<open>str::is_char_boundary\<close> and \<open>str::get(..n)\<close>.\<close>

fun take_bytes :: "nat \<Rightarrow> rstr \<Rightarrow> rstr option" where
  "take_bytes n [] = (if n = 0 then Some [] else None)"
| "take_bytes n (c # s) =
    (if n = 0 then Some []
     else if utf8_width c \<le> n then map_option ((#) c) (take_bytes (n - utf8_width c) s)
     else None)"

lemma take_bytes_Some:
  "take_bytes n s = Some p \<Longrightarrow> byte_len p = n \<and> (\<exists>q. s = p @ q)"
  by (induction n s arbitrary: p rule: take_bytes.induct) (auto split: if_splits)

section \<open>Whitespace and trimming\<close>

text \<open>The Unicode \<open>White_Space\<close> property, as \<open>char::is_whitespace\<close> documents it.\<close>

definition is_whitespace :: "int \<Rightarrow> bool" where
  "is_whitespace c =
    ((9 \<le> c \<and> c \<le> 13) \<or> c = 32 \<or> c = 133 \<or> c = 160 \<or> c = 5760 \<or> (8192 \<le> c \<and> c \<le> 8202)
     \<or> c = 8232 \<or> c = 8233 \<or> c = 8239 \<or> c = 8287 \<or> c = 12288)"

definition trim_start :: "rstr \<Rightarrow> rstr" where
  "trim_start s = dropWhile is_whitespace s"

definition trim_end :: "rstr \<Rightarrow> rstr" where
  "trim_end s = rev (dropWhile is_whitespace (rev s))"

definition trim :: "rstr \<Rightarrow> rstr" where
  "trim s = trim_end (trim_start s)"

lemma trim_end_Nil [simp]: "trim_end [] = []"
  by (simp add: trim_end_def)

lemma trim_end_snoc:
  "trim_end (s @ [c]) = (if is_whitespace c then trim_end s else s @ [c])"
  by (simp add: trim_end_def)

lemma trim_end_cons:
  "trim_end (c # s) = (if trim_end s = [] \<and> is_whitespace c then [] else c # trim_end s)"
  by (induction s rule: rev_induct)
     (auto simp: trim_end_snoc simp flip: append_Cons, auto simp: trim_end_def)

lemma trim_start_fix: "s = [] \<or> \<not> is_whitespace (hd s) \<Longrightarrow> trim_start s = s"
  by (cases s) (auto simp: trim_start_def)

lemma trim_end_fix: "s = [] \<or> \<not> is_whitespace (last s) \<Longrightarrow> trim_end s = s"
  by (cases s rule: rev_cases) (auto simp: trim_end_def)

lemma trim_end_last: "trim_end s = [] \<or> \<not> is_whitespace (last (trim_end s))"
  by (induction s rule: rev_induct) (auto simp: trim_end_snoc)

lemma hd_trim_end: "trim_end s \<noteq> [] \<Longrightarrow> hd (trim_end s) = hd s"
  by (cases s) (auto simp: trim_end_cons)

lemma trim_start_hd: "trim_start s = [] \<or> \<not> is_whitespace (hd (trim_start s))"
  using hd_dropWhile [of is_whitespace s] unfolding trim_start_def by blast

lemma trim_ends: "trim s = [] \<or> (\<not> is_whitespace (hd (trim s)) \<and> \<not> is_whitespace (last (trim s)))"
proof (cases "trim s = []")
  case False
  have "hd (trim s) = hd (trim_start s)" and "trim_start s \<noteq> []"
    using False hd_trim_end [of "trim_start s"] by (auto simp: trim_def)
  then show ?thesis
    using trim_start_hd [of s] trim_end_last [of "trim_start s"] by (auto simp: trim_def)
qed simp

lemma trim_idem [simp]: "trim (trim s) = trim s"
proof -
  have "trim_start (trim s) = trim s"
    using trim_ends [of s] by (intro trim_start_fix) auto
  moreover have "trim_end (trim s) = trim s"
    using trim_ends [of s] by (intro trim_end_fix) auto
  ultimately show ?thesis by (simp add: trim_def)
qed

lemma trim_Nil [simp]: "trim [] = []"
  by (simp add: trim_def trim_start_def)

lemma length_trim_le: "length (trim s) \<le> length s"
  unfolding trim_def trim_end_def trim_start_def
  by (metis length_dropWhile_le length_rev order_trans)

section \<open>Prefixes, splitting and joining\<close>

fun strip_prefix :: "rstr \<Rightarrow> rstr \<Rightarrow> rstr option" where
  "strip_prefix [] s = Some s"
| "strip_prefix (c # p) [] = None"
| "strip_prefix (c # p) (d # s) = (if c = d then strip_prefix p s else None)"

definition starts_with :: "rstr \<Rightarrow> rstr \<Rightarrow> bool" where
  "starts_with s p = (strip_prefix p s \<noteq> None)"

lemma strip_prefix_Some [simp]: "strip_prefix p s = Some r \<longleftrightarrow> s = p @ r"
  by (induction p s rule: strip_prefix.induct) auto

lemma starts_with_iff: "starts_with s p \<longleftrightarrow> (\<exists>r. s = p @ r)"
  by (auto simp: starts_with_def)

text \<open>\<open>str::split\<close> at a character.\<close>

fun split_at_char :: "int \<Rightarrow> rstr \<Rightarrow> rstr list" where
  "split_at_char d [] = [[]]"
| "split_at_char d (c # s) =
    (if c = d then [] # split_at_char d s
     else (case split_at_char d s of [] \<Rightarrow> [[c]] | w # ws \<Rightarrow> (c # w) # ws))"

text \<open>\<open>str::split_whitespace\<close>: the maximal runs of non-whitespace characters.\<close>

function split_whitespace :: "rstr \<Rightarrow> rstr list" where
  "split_whitespace s =
    (let t = trim_start s in
     if t = [] then []
     else takeWhile (\<lambda>c. \<not> is_whitespace c) t # split_whitespace (dropWhile (\<lambda>c. \<not> is_whitespace c) t))"
  by pat_completeness auto
termination
proof (relation "measure length")
  fix s t :: rstr
  assume t: "t = trim_start s" and ne: "t \<noteq> []"
  then obtain c r where cr: "t = c # r" and "\<not> is_whitespace c"
    using trim_start_hd [of s] by (metis list.sel(1) neq_Nil_conv)
  then have "length (dropWhile (\<lambda>c. \<not> is_whitespace c) t) \<le> length r"
    by (simp add: length_dropWhile_le)
  also have "\<dots> < length t" by (simp add: cr)
  also have "\<dots> \<le> length s" by (simp add: t trim_start_def length_dropWhile_le)
  finally show "(dropWhile (\<lambda>c. \<not> is_whitespace c) t, s) \<in> measure length" by simp
qed simp

declare split_whitespace.simps [simp del]

fun join :: "rstr \<Rightarrow> rstr list \<Rightarrow> rstr" where
  "join sep [] = []"
| "join sep [w] = w"
| "join sep (w # v # ws) = w @ sep @ join sep (v # ws)"

lemma split_at_char_nonempty: "split_at_char d s \<noteq> []"
  by (induction s) (auto split: list.splits)

lemma join_split_at_char: "join [d] (split_at_char d s) = s"
proof (induction s)
  case (Cons c s)
  obtain w ws where "split_at_char d s = w # ws"
    using split_at_char_nonempty by (metis neq_Nil_conv)
  with Cons show ?case by (cases ws) auto
qed simp

text \<open>\<open>str::split_once\<close> at a character.\<close>

definition split_once :: "int \<Rightarrow> rstr \<Rightarrow> (rstr \<times> rstr) option" where
  "split_once d s = (case dropWhile (\<lambda>c. c \<noteq> d) s of [] \<Rightarrow> None | _ # rest \<Rightarrow> Some (takeWhile (\<lambda>c. c \<noteq> d) s, rest))"

lemma split_once_field: "d \<notin> set a \<Longrightarrow> split_once d (a @ d # b) = Some (a, b)"
  by (simp add: split_once_def dropWhile_append takeWhile_append)

lemma split_once_Some: "split_once d v = Some (a, b) \<Longrightarrow> v = a @ d # b"
proof -
  assume v: "split_once d v = Some (a, b)"
  then obtain x where x: "dropWhile (\<lambda>c. c \<noteq> d) v = x # b" and a: "a = takeWhile (\<lambda>c. c \<noteq> d) v"
    by (auto simp: split_once_def split: list.splits)
  have "x = d" using x dropWhile_eq_Cons_conv [of "\<lambda>c. c \<noteq> d" v x b] by blast
  then show ?thesis using x a takeWhile_dropWhile_id [of "\<lambda>c. c \<noteq> d" v] by simp
qed


text \<open>\<open>str::strip_suffix\<close>\<close>

definition strip_suffix :: "rstr \<Rightarrow> rstr \<Rightarrow> rstr option" where
  "strip_suffix p s = map_option rev (strip_prefix (rev p) (rev s))"

section \<open>ASCII case\<close>

definition to_ascii_lower :: "int \<Rightarrow> int" where
  "to_ascii_lower c = (if 65 \<le> c \<and> c \<le> 90 then c + 32 else c)"

definition eq_ignore_ascii_case :: "rstr \<Rightarrow> rstr \<Rightarrow> bool" where
  "eq_ignore_ascii_case a b = (map to_ascii_lower a = map to_ascii_lower b)"

text \<open>Decimal rendering of an unsigned integer (\<open>to_string\<close>, \<open>{}\<close> in \<open>format!\<close>).\<close>

fun decimal :: "nat \<Rightarrow> rstr" where
  "decimal n = (if n < 10 then [48 + int n] else decimal (n div 10) @ [48 + int (n mod 10)])"

declare decimal.simps [simp del]

end
