(* ===== verification/Json.thy ===== *)
theory Json
  imports Rust_Str
begin

text \<open>
  The JSON values the program exchanges with the Codex app-server and with its clients,
  as \<open>serde_json::Value\<close> has them. Objects are kept in key order (the build does not
  enable \<open>preserve_order\<close>, so the map is a \<open>BTreeMap\<close>): \<open>obj_insert\<close> inserts
  at the sorted position. The accessors are the methods of \<open>Value\<close> the sources call.
  A floating-point number is kept as its bit pattern; no component computes with one.
\<close>

datatype jnum = JInt int | JFloat "64 word"

datatype json =
    JNull
  | JBool bool
  | JNum jnum
  | JStr rstr
  | JArr "json list"
  | JObj "(rstr \<times> json) list"

type_synonym jobject = "(rstr \<times> json) list"

section \<open>Objects\<close>

definition obj_get :: "jobject \<Rightarrow> string \<Rightarrow> json option" where
  "obj_get ob k = map_of ob (lit k)"

fun obj_insert :: "rstr \<Rightarrow> json \<Rightarrow> jobject \<Rightarrow> jobject" where
  "obj_insert k v [] = [(k, v)]"
| "obj_insert k v ((k', v') # r) =
    (if k = k' then (k, v) # r
     else if k < k' then (k, v) # (k', v') # r
     else (k', v') # obj_insert k v r)"

definition obj_remove :: "string \<Rightarrow> jobject \<Rightarrow> jobject" where
  "obj_remove k ob = filter (\<lambda>e. fst e \<noteq> lit k) ob"

definition obj_contains :: "jobject \<Rightarrow> string \<Rightarrow> bool" where
  "obj_contains ob k = (obj_get ob k \<noteq> None)"

definition obj_of :: "(string \<times> json) list \<Rightarrow> jobject" where
  "obj_of kvs = fold (\<lambda>(k, v) ob. obj_insert (lit k) v ob) kvs []"

definition json_object :: "(string \<times> json) list \<Rightarrow> json" where
  "json_object kvs = JObj (obj_of kvs)"

text \<open>An object value of \<open>serde_json\<close> has strictly increasing keys.\<close>

definition obj_wf :: "jobject \<Rightarrow> bool" where
  "obj_wf ob = sorted_wrt (<) (map fst ob)"

lemma map_of_obj_insert [simp]: "map_of (obj_insert k v ob) = (map_of ob)(k \<mapsto> v)"
  by (induction ob) (auto simp: fun_eq_iff)

lemma obj_get_insert:
  "obj_get (obj_insert (lit k) v ob) k' = (if k' = k then Some v else obj_get ob k')"
  by (simp add: obj_get_def)

lemma map_of_filter_key: "map_of (filter (\<lambda>e. fst e \<noteq> k) ob) j = (if j = k then None else map_of ob j)"
  by (induction ob) auto

lemma obj_get_remove [simp]: "obj_get (obj_remove k ob) k' = (if k' = k then None else obj_get ob k')"
  by (simp add: obj_get_def obj_remove_def map_of_filter_key)

lemma map_of_fold_obj_insert:
  "obj_get (fold (\<lambda>(k, v) ob. obj_insert (lit k) v ob) kvs ob) k =
    (case map_of (rev kvs) k of Some v \<Rightarrow> Some v | None \<Rightarrow> obj_get ob k)"
  by (induction kvs arbitrary: ob)
     (auto simp: obj_get_insert map_add_def split: option.splits)

lemma obj_get_obj_of [simp]: "obj_get (obj_of kvs) k = map_of (rev kvs) k"
  by (simp add: obj_of_def map_of_fold_obj_insert obj_get_def [of "[]"] split: option.splits)

lemma set_fst_obj_insert: "fst ` set (obj_insert k v ob) = insert k (fst ` set ob)"
proof (induction ob)
  case (Cons e ob)
  then show ?case by (cases e) (simp add: insert_commute)
qed simp

lemma obj_wf_Cons: "obj_wf (e # ob) \<longleftrightarrow> (\<forall>k \<in> fst ` set ob. fst e < k) \<and> obj_wf ob"
  by (simp add: obj_wf_def)

lemma obj_wf_insert: "obj_wf ob \<Longrightarrow> obj_wf (obj_insert k v ob)"
proof (induction ob)
  case (Cons e ob)
  obtain k' v' where e: "e = (k', v')" by (cases e)
  have tail: "\<forall>j \<in> fst ` set ob. k' < j" "obj_wf ob"
    using Cons.prems e by (simp_all add: obj_wf_Cons)
  consider "k = k'" | "k < k'" | "k' < k" by (rule linorder_cases [of k k'])
  then show ?case
  proof cases
    case 3
    then show ?thesis
      using Cons.IH tail by (auto simp: e obj_wf_Cons set_fst_obj_insert)
  qed (use tail in \<open>auto simp: e obj_wf_Cons intro: less_trans\<close>)
qed (simp add: obj_wf_def)

lemma obj_wf_obj_of: "obj_wf (obj_of kvs)"
proof -
  have "obj_wf ob \<Longrightarrow> obj_wf (fold (\<lambda>(k, v) ob. obj_insert (lit k) v ob) kvs ob)" for ob
    by (induction kvs arbitrary: ob) (auto intro: obj_wf_insert)
  then show ?thesis by (simp add: obj_of_def obj_wf_def)
qed

section \<open>Accessors of \<open>Value\<close>\<close>

definition as_str :: "json \<Rightarrow> rstr option" where
  "as_str v = (case v of JStr s \<Rightarrow> Some s | _ \<Rightarrow> None)"

definition as_object :: "json \<Rightarrow> jobject option" where
  "as_object v = (case v of JObj ob \<Rightarrow> Some ob | _ \<Rightarrow> None)"

definition as_array :: "json \<Rightarrow> json list option" where
  "as_array v = (case v of JArr xs \<Rightarrow> Some xs | _ \<Rightarrow> None)"

definition as_bool :: "json \<Rightarrow> bool option" where
  "as_bool v = (case v of JBool b \<Rightarrow> Some b | _ \<Rightarrow> None)"

definition i64_range :: "int \<Rightarrow> bool" where
  "i64_range i = (-9223372036854775808 \<le> i \<and> i \<le> 9223372036854775807)"

definition as_i64 :: "json \<Rightarrow> int option" where
  "as_i64 v = (case v of JNum (JInt i) \<Rightarrow> if i64_range i then Some i else None | _ \<Rightarrow> None)"

definition as_u64 :: "json \<Rightarrow> nat option" where
  "as_u64 v = (case v of JNum (JInt i) \<Rightarrow> if 0 \<le> i then Some (nat i) else None | _ \<Rightarrow> None)"

definition is_null :: "json \<Rightarrow> bool" where
  "is_null v = (v = JNull)"

definition is_object :: "json \<Rightarrow> bool" where
  "is_object v = (as_object v \<noteq> None)"

text \<open>\<open>Value::get\<close> with a string index: \<open>None\<close> on anything that is not an object.\<close>

definition jget :: "json \<Rightarrow> string \<Rightarrow> json option" where
  "jget v k = (case v of JObj ob \<Rightarrow> obj_get ob k | _ \<Rightarrow> None)"

text \<open>The composites \<open>get(key).and_then(Value::as_str)\<close> and the like.\<close>

abbreviation jget_str :: "json \<Rightarrow> string \<Rightarrow> rstr option" where
  "jget_str v k \<equiv> Option.bind (jget v k) as_str"

abbreviation obj_get_str :: "jobject \<Rightarrow> string \<Rightarrow> rstr option" where
  "obj_get_str ob k \<equiv> Option.bind (obj_get ob k) as_str"

lemma as_simps [simp]:
  "as_str JNull = None" "as_str (JBool b) = None" "as_str (JNum n) = None"
  "as_str (JStr s) = Some s" "as_str (JArr xs) = None" "as_str (JObj ob) = None"
  "as_object JNull = None" "as_object (JBool b) = None" "as_object (JNum n) = None"
  "as_object (JStr s) = None" "as_object (JArr xs) = None" "as_object (JObj ob) = Some ob"
  "as_array JNull = None" "as_array (JBool b) = None" "as_array (JNum n) = None"
  "as_array (JStr s) = None" "as_array (JArr xs) = Some xs" "as_array (JObj ob) = None"
  by (simp_all add: as_str_def as_object_def as_array_def)

lemma as_eq_Some [simp]:
  "as_str v = Some s \<longleftrightarrow> v = JStr s"
  "as_object v = Some ob \<longleftrightarrow> v = JObj ob"
  "as_array v = Some xs \<longleftrightarrow> v = JArr xs"
  by (cases v; auto)+

lemma as_i64_int [simp]: "as_i64 (JNum (JInt i)) = (if i64_range i then Some i else None)"
  "as_i64 JNull = None"
  by (simp_all add: as_i64_def)

lemma as_i64_range: "as_i64 v = Some i \<Longrightarrow> i64_range i"
  by (auto simp: as_i64_def split: json.splits jnum.splits if_splits)

lemma jget_obj [simp]: "jget (JObj ob) k = obj_get ob k"
  by (simp add: jget_def)

lemma jget_json_object [simp]: "jget (json_object kvs) k = map_of (rev kvs) k"
  by (simp add: json_object_def)

lemma as_object_json_object [simp]: "as_object (json_object kvs) = Some (obj_of kvs)"
  by (simp add: json_object_def)

lemma is_null_simps [simp]: "is_null JNull" "\<not> is_null (JStr s)" "\<not> is_null (JObj ob)"
  "\<not> is_null (json_object kvs)"
  by (simp_all add: is_null_def json_object_def)

end
