(* ===== verification/Rpc.thy ===== *)
theory Rpc
  imports Json
begin

text \<open>
  The wire messages of the Codex app-server protocol (\<open>cdr-app-server/src/rpc.rs\<close>) and
  the errors of the app-server client (\<open>cdr-app-server/src/error.rs\<close>): request ids,
  server requests with their occurrence, notifications, the classification of an incoming
  JSON value, the outgoing frames, and the structured usage-limit test. The random
  occurrence of a server request is an argument of \<open>classify\<close>.
\<close>

section \<open>Identifiers and messages\<close>

datatype request_id = IdString rstr | IdInteger int

text \<open>\<open>RequestId::Integer\<close> holds an \<open>i64\<close>.\<close>

definition request_id_wf :: "request_id \<Rightarrow> bool" where
  "request_id_wf rid = (case rid of IdString _ \<Rightarrow> True | IdInteger i \<Rightarrow> i64_range i)"

type_synonym occurrence = "8 word list"

record server_request =
  rq_id :: request_id
  rq_occurrence :: occurrence
  rq_method :: rstr
  rq_params :: json

record notification =
  nt_method :: rstr
  nt_params :: json

record rpc_error_payload =
  pe_code :: int
  pe_message :: rstr
  pe_data :: "json option"

datatype incoming_message =
    InServerRequest server_request
  | InResponse request_id "(rpc_error_payload, json) result"
  | InNotification notification
  | InIgnored

section \<open>Errors of the client\<close>

datatype app_server_error =
    StartupHeld rstr
  | MutationHeld rstr
  | MutationOutcomeUnknown rstr rstr
  | IdleRelease rstr
  | DeadGenerationFence rstr
  | Spawn rstr rstr
  | WindowsProcess rstr
  | EnvironmentEncoding rstr
  | Io rstr
  | Json rstr
  | Timeout rstr nat
  | ResponseChannelClosed rstr
  | Remote rstr int rstr "json option"
  | TransportClosed rstr rstr
  | Closed
  | MissingPipe rstr
  | InvalidReply rstr
  | GenerationMismatch nat nat
  | GenerationQuarantined nat
  | StaleServerRequest request_id
  | ServerRequestResponseInFlight request_id
  | ServerRequestResponseIndeterminate request_id
  | StartupCleanup app_server_error app_server_error
  | StartupCleanupTask rstr
  | ReplacementState rstr

section \<open>Decoding of typed values\<close>

text \<open>\<open>serde_json::from_value\<close> for the untagged \<open>RequestId\<close>: a string, or an integer
  that fits \<open>i64\<close>; every other value is a decoding error.\<close>

definition request_id_of_json :: "json \<Rightarrow> request_id option" where
  "request_id_of_json v = (case v of
      JStr s \<Rightarrow> Some (IdString s)
    | _ \<Rightarrow> map_option IdInteger (as_i64 v))"

definition json_of_request_id :: "request_id \<Rightarrow> json" where
  "json_of_request_id rid = (case rid of IdString s \<Rightarrow> JStr s | IdInteger i \<Rightarrow> JNum (JInt i))"

text \<open>The derived decoder of \<open>RpcErrorPayload\<close>: an object with exactly the known fields,
  \<open>data\<close> optional (and \<open>null\<close> meaning absent), or the positional sequence form that
  a derived struct decoder accepts as well.\<close>

definition optional_value :: "json option \<Rightarrow> json option" where
  "optional_value v = opt_filter (\<lambda>x. \<not> is_null x) v"

definition payload_fields :: "json option \<Rightarrow> json option \<Rightarrow> json option \<Rightarrow> rpc_error_payload option" where
  "payload_fields c m d =
    (case (Option.bind c as_i64, Option.bind m as_str) of
       (Some code, Some msg) \<Rightarrow> Some \<lparr>pe_code = code, pe_message = msg, pe_data = optional_value d\<rparr>
     | _ \<Rightarrow> None)"

definition rpc_error_payload_of_json :: "json \<Rightarrow> rpc_error_payload option" where
  "rpc_error_payload_of_json v = (case v of
      JObj ob \<Rightarrow>
        if list_all (\<lambda>e. fst e \<in> {lit ''code'', lit ''message'', lit ''data''}) ob
        then payload_fields (obj_get ob ''code'') (obj_get ob ''message'') (obj_get ob ''data'')
        else None
    | JArr [c, m] \<Rightarrow> payload_fields (Some c) (Some m) None
    | JArr [c, m, d] \<Rightarrow> payload_fields (Some c) (Some m) (Some d)
    | _ \<Rightarrow> None)"

definition json_of_rpc_error_payload :: "rpc_error_payload \<Rightarrow> json" where
  "json_of_rpc_error_payload e = json_object
    [(''code'', JNum (JInt (pe_code e))),
     (''message'', JStr (pe_message e)),
     (''data'', (case pe_data e of None \<Rightarrow> JNull | Some d \<Rightarrow> d))]"

section \<open>Classification of an incoming value\<close>

definition empty_object :: json where
  "empty_object = JObj []"

text \<open>\<open>take_id\<close>: the decoded id and the object without it; \<open>None\<close> is a decoding error.\<close>

definition take_id :: "jobject \<Rightarrow> (request_id option \<times> jobject) option" where
  "take_id ob = (case obj_get ob ''id'' of
      None \<Rightarrow> Some (None, obj_remove ''id'' ob)
    | Some v \<Rightarrow> (case request_id_of_json v of
        None \<Rightarrow> None
      | Some rid \<Rightarrow> Some (Some rid, obj_remove ''id'' ob)))"

definition value_or_empty :: "json option \<Rightarrow> json" where
  "value_or_empty v = (case v of None \<Rightarrow> empty_object | Some x \<Rightarrow> x)"

definition classify_response :: "request_id \<Rightarrow> jobject \<Rightarrow> incoming_message option" where
  "classify_response rid ob = (case obj_get ob ''error'' of
      Some err \<Rightarrow> map_option (\<lambda>p. InResponse rid (Inl p)) (rpc_error_payload_of_json err)
    | None \<Rightarrow> Some (InResponse rid (Inr (value_or_empty (obj_get ob ''result'')))))"

definition classify :: "occurrence \<Rightarrow> json \<Rightarrow> incoming_message option" where
  "classify fresh value = (case value of
      JObj object0 \<Rightarrow> (case take_id object0 of
          None \<Rightarrow> None
        | Some (rid_opt, object1) \<Rightarrow>
            (let meth = obj_get_str object1 ''method'';
                 object2 = obj_remove ''method'' object1
             in case (rid_opt, meth) of
                  (Some rid, Some m) \<Rightarrow>
                    if \<not> obj_contains object2 ''result'' \<and> \<not> obj_contains object2 ''error''
                    then Some (InServerRequest \<lparr>rq_id = rid, rq_occurrence = fresh, rq_method = m,
                                 rq_params = value_or_empty (obj_get object2 ''params'')\<rparr>)
                    else classify_response rid object2
                | (Some rid, None) \<Rightarrow> classify_response rid object2
                | (None, Some m) \<Rightarrow>
                    Some (InNotification \<lparr>nt_method = m,
                            nt_params = value_or_empty (obj_get object2 ''params'')\<rparr>)
                | (None, None) \<Rightarrow> Some InIgnored))
    | _ \<Rightarrow> Some InIgnored)"

section \<open>Outgoing frames\<close>

definition request_value :: "request_id \<Rightarrow> rstr \<Rightarrow> json \<Rightarrow> json" where
  "request_value rid m params =
    json_object [(''id'', json_of_request_id rid), (''method'', JStr m), (''params'', params)]"

definition notification_value :: "rstr \<Rightarrow> json \<Rightarrow> json" where
  "notification_value m params = json_object [(''method'', JStr m), (''params'', params)]"

definition response_value :: "request_id \<Rightarrow> json \<Rightarrow> json" where
  "response_value rid res = json_object [(''id'', json_of_request_id rid), (''result'', res)]"

definition error_value :: "request_id \<Rightarrow> rpc_error_payload \<Rightarrow> json" where
  "error_value rid e =
    json_object [(''id'', json_of_request_id rid), (''error'', json_of_rpc_error_payload e)]"

section \<open>The usage-limit test of \<open>error.rs\<close>\<close>

definition usage_token :: "rstr \<Rightarrow> bool" where
  "usage_token s = (s \<in> {lit ''usageLimitExceeded'', lit ''UsageLimitExceeded'',
     lit ''usage_limit_exceeded'', lit ''usage_limit_reached'', lit ''usage_limit''})"

text \<open>\<open>visit\<close> stops once the depth exceeds 4; the number of levels left, counted down from
  5, is what the recursion is on.\<close>

fun usage_visit :: "nat \<Rightarrow> json \<Rightarrow> bool" where
  "usage_visit 0 v = False"
| "usage_visit (Suc left) v = (case v of
      JStr s \<Rightarrow> usage_token s
    | JObj ob \<Rightarrow> (case opt_filter (\<lambda>x. \<not> is_null x) (obj_get ob ''codexErrorInfo'') of
          Some info \<Rightarrow> usage_visit left info
        | None \<Rightarrow>
            list_ex (\<lambda>k. case obj_get_str ob k of None \<Rightarrow> False | Some s \<Rightarrow> usage_token s)
              [''type'', ''errorType'', ''reason'', ''code'']
            \<or> (case obj_get ob ''data'' of None \<Rightarrow> False | Some d \<Rightarrow> usage_visit left d))
    | _ \<Rightarrow> False)"

definition is_usage_limit_error :: "json option \<Rightarrow> bool" where
  "is_usage_limit_error d = (case d of None \<Rightarrow> False | Some v \<Rightarrow> usage_visit 5 v)"

section \<open>Lemmas\<close>

lemma request_id_of_json_json_of [simp]:
  "request_id_wf rid \<Longrightarrow> request_id_of_json (json_of_request_id rid) = Some rid"
  by (cases rid) (simp_all add: request_id_wf_def request_id_of_json_def json_of_request_id_def)

lemma request_id_of_json_wf: "request_id_of_json v = Some rid \<Longrightarrow> request_id_wf rid"
  by (auto simp: request_id_of_json_def request_id_wf_def dest: as_i64_range
      split: json.splits request_id.splits)

lemma request_id_of_json_inverse: "request_id_of_json v = Some rid \<Longrightarrow> json_of_request_id rid = v"
  by (auto simp: request_id_of_json_def json_of_request_id_def as_i64_def
      split: json.splits request_id.splits jnum.splits if_splits)

definition payload_wf :: "rpc_error_payload \<Rightarrow> bool" where
  "payload_wf e = (i64_range (pe_code e) \<and> pe_data e \<noteq> Some JNull)"

lemma fst_set_obj_of: "fst ` set (obj_of kvs) = lit ` fst ` set kvs"
proof -
  have "fst ` set (fold (\<lambda>(k, v) ob. obj_insert (lit k) v ob) kvs ob) = fst ` set ob \<union> lit ` fst ` set kvs" for ob
    by (induction kvs arbitrary: ob) (auto simp: set_fst_obj_insert split: prod.splits)
  then show ?thesis by (simp add: obj_of_def)
qed

lemma payload_of_json_json_of [simp]:
  assumes "payload_wf e"
  shows "rpc_error_payload_of_json (json_of_rpc_error_payload e) = Some e"
proof -
  have keys: "list_all (\<lambda>x. fst x \<in> {lit ''code'', lit ''message'', lit ''data''})
      (obj_of [(''code'', c), (''message'', m), (''data'', d)])" for c m d
    using fst_set_obj_of [of "[(''code'', c), (''message'', m), (''data'', d)]"]
    by (auto simp: list_all_iff)
  show ?thesis
    using assms keys
    by (cases e) (auto simp: rpc_error_payload_of_json_def json_of_rpc_error_payload_def json_object_def
        payload_fields_def payload_wf_def optional_value_def is_null_def split: option.splits)
qed

lemma classify_request [simp]:
  "request_id_wf rid \<Longrightarrow> classify occ (request_value rid m p) =
    Some (InServerRequest \<lparr>rq_id = rid, rq_occurrence = occ, rq_method = m, rq_params = p\<rparr>)"
  by (simp add: classify_def request_value_def json_object_def take_id_def obj_contains_def
      value_or_empty_def)

lemma classify_notification [simp]:
  "classify occ (notification_value m p) = Some (InNotification \<lparr>nt_method = m, nt_params = p\<rparr>)"
  by (simp add: classify_def notification_value_def json_object_def take_id_def value_or_empty_def)

lemma classify_result [simp]:
  "request_id_wf rid \<Longrightarrow> classify occ (response_value rid res) = Some (InResponse rid (Inr res))"
  by (simp add: classify_def response_value_def json_object_def take_id_def classify_response_def
      value_or_empty_def)

lemma classify_error [simp]:
  "request_id_wf rid \<Longrightarrow> payload_wf e \<Longrightarrow> classify occ (error_value rid e) = Some (InResponse rid (Inl e))"
  by (simp add: classify_def error_value_def json_object_def take_id_def classify_response_def)

lemma usage_visit_null_info:
  "usage_visit (Suc (Suc n)) (JObj ob) \<longleftrightarrow> usage_token s"
  if "obj_get ob ''codexErrorInfo'' = Some (JStr s)"
  using that by simp

section \<open>Properties\<close>

text \<open>C39: the frames the client writes are read back by the classifier as what they are:
  a request as a server request with the fresh occurrence, a result and an error as the
  response to that id, a notification as a notification.\<close>

theorem classify_roundtrip:
  assumes "request_id_wf rid" and "payload_wf e"
  shows "classify occ (request_value rid m p) =
      Some (InServerRequest \<lparr>rq_id = rid, rq_occurrence = occ, rq_method = m, rq_params = p\<rparr>)
    \<and> classify occ (response_value rid res) = Some (InResponse rid (Inr res))
    \<and> classify occ (error_value rid e) = Some (InResponse rid (Inl e))
    \<and> classify occ (notification_value m p) = Some (InNotification \<lparr>nt_method = m, nt_params = p\<rparr>)"
  using assms by simp

theorem classify_roundtrip_witness:
  "classify [7] (response_value (IdInteger 4) JNull) = Some (InResponse (IdInteger 4) (Inr JNull))"
  using classify_roundtrip [of "IdInteger 4" "\<lparr>pe_code = - 32600, pe_message = lit ''bad'', pe_data = None\<rparr>"
      "[7]" "[]" JNull JNull]
  by (simp add: request_id_wf_def payload_wf_def i64_range_def)

end
