(* ===== verification/Hash_Map.thy ===== *)
theory Hash_Map
  imports Prelude "HOL-Library.AList"
begin

text \<open>
  The standard library's \<open>HashMap\<close>, \<open>BTreeMap\<close> and \<open>HashSet\<close> as the components use
  them: an association list with distinct keys, so that lookup, insertion, removal,
  \<open>retain\<close>, \<open>len\<close> and iteration over the values all compute. The iteration order of
  a hash map is unspecified in Rust; the order of the list is one choice of it, and the
  laws of the interface (\<open>key_store\<close>) do not mention it.
\<close>

type_synonym ('k, 'v) hmap = "('k \<times> 'v) list"

definition hm_get :: "('k, 'v) hmap \<Rightarrow> 'k \<Rightarrow> 'v option" where
  "hm_get m k = map_of m k"

definition hm_insert :: "'k \<Rightarrow> 'v \<Rightarrow> ('k, 'v) hmap \<Rightarrow> ('k, 'v) hmap" where
  "hm_insert k v m = AList.update k v m"

definition hm_remove :: "'k \<Rightarrow> ('k, 'v) hmap \<Rightarrow> ('k, 'v) hmap" where
  "hm_remove k m = filter (\<lambda>e. fst e \<noteq> k) m"

definition hm_retain :: "('k \<Rightarrow> 'v \<Rightarrow> bool) \<Rightarrow> ('k, 'v) hmap \<Rightarrow> ('k, 'v) hmap" where
  "hm_retain P m = filter (\<lambda>e. P (fst e) (snd e)) m"

definition hm_len :: "('k, 'v) hmap \<Rightarrow> nat" where
  "hm_len m = length m"

definition hm_contains :: "('k, 'v) hmap \<Rightarrow> 'k \<Rightarrow> bool" where
  "hm_contains m k = (hm_get m k \<noteq> None)"

definition hm_values :: "('k, 'v) hmap \<Rightarrow> 'v list" where
  "hm_values m = map snd m"

definition hm_wf :: "('k, 'v) hmap \<Rightarrow> bool" where
  "hm_wf m = distinct (map fst m)"

text \<open>In-place update of the values (\<open>values_mut\<close>, \<open>get_mut\<close>): keys are untouched.\<close>

definition hm_map_values :: "('k \<Rightarrow> 'v \<Rightarrow> 'v) \<Rightarrow> ('k, 'v) hmap \<Rightarrow> ('k, 'v) hmap" where
  "hm_map_values f m = map (\<lambda>e. (fst e, f (fst e) (snd e))) m"

section \<open>The interface the components rely on\<close>

locale key_store =
  fixes empty :: 'm
    and lookup :: "'m \<Rightarrow> 'k \<Rightarrow> 'v option"
    and insert_at :: "'k \<Rightarrow> 'v \<Rightarrow> 'm \<Rightarrow> 'm"
    and remove_at :: "'k \<Rightarrow> 'm \<Rightarrow> 'm"
    and size_of :: "'m \<Rightarrow> nat"
    and wf :: "'m \<Rightarrow> bool"
  assumes wf_empty: "wf empty"
    and wf_insert: "wf m \<Longrightarrow> wf (insert_at k v m)"
    and wf_remove: "wf m \<Longrightarrow> wf (remove_at k m)"
    and lookup_empty: "lookup empty k = None"
    and lookup_insert: "lookup (insert_at k v m) k' = (if k' = k then Some v else lookup m k')"
    and lookup_remove: "lookup (remove_at k m) k' = (if k' = k then None else lookup m k')"
    and size_empty: "size_of empty = 0"
    and size_insert_new: "lookup m k = None \<Longrightarrow> size_of (insert_at k v m) = Suc (size_of m)"
    and size_insert_old: "lookup m k = Some w \<Longrightarrow> size_of (insert_at k v m) = size_of m"
    and size_remove: "wf m \<Longrightarrow> lookup m k = Some w \<Longrightarrow> Suc (size_of (remove_at k m)) = size_of m"
begin

lemma claim_then_release:
  "lookup m k = None \<Longrightarrow> lookup (remove_at k (insert_at k v m)) = lookup m"
  by (rule ext) (simp add: lookup_insert lookup_remove)

lemma size_insert_le: "size_of (insert_at k v m) \<le> Suc (size_of m)"
  by (cases "lookup m k") (simp_all add: size_insert_new size_insert_old)

lemma bounded_insert:
  "size_of m < cap \<Longrightarrow> size_of (insert_at k v m) \<le> cap"
  using size_insert_le [of k v m] by linarith

lemma size_swap:
  assumes "wf m" "lookup m k = Some w" "lookup m k' = None" "k' \<noteq> k"
  shows "size_of (insert_at k' v (remove_at k m)) = size_of m"
proof -
  have "lookup (remove_at k m) k' = None"
    using assms by (simp add: lookup_remove)
  then have "size_of (insert_at k' v (remove_at k m)) = Suc (size_of (remove_at k m))"
    by (rule size_insert_new)
  also have "\<dots> = size_of m"
    using assms by (intro size_remove)
  finally show ?thesis .
qed

end

section \<open>The association list implements the interface\<close>

lemma hm_get_empty [simp]: "hm_get [] k = None"
  by (simp add: hm_get_def)

lemma hm_get_insert [simp]: "hm_get (hm_insert k v m) k' = (if k' = k then Some v else hm_get m k')"
  by (simp add: hm_get_def hm_insert_def update_conv)

lemma hm_get_remove [simp]: "hm_get (hm_remove k m) k' = (if k' = k then None else hm_get m k')"
  by (induction m) (auto simp: hm_get_def hm_remove_def)

lemma hm_wf_empty [simp]: "hm_wf []"
  by (simp add: hm_wf_def)

lemma hm_wf_insert [simp, intro]: "hm_wf m \<Longrightarrow> hm_wf (hm_insert k v m)"
  by (simp add: hm_wf_def hm_insert_def distinct_update)

lemma hm_wf_filter: "hm_wf m \<Longrightarrow> hm_wf (filter P m)"
  by (simp add: hm_wf_def distinct_map_filter)

lemma hm_wf_remove [simp, intro]: "hm_wf m \<Longrightarrow> hm_wf (hm_remove k m)"
  by (simp add: hm_remove_def hm_wf_filter)

lemma hm_wf_retain [simp, intro]: "hm_wf m \<Longrightarrow> hm_wf (hm_retain P m)"
  by (simp add: hm_retain_def hm_wf_filter)

lemma hm_wf_map_values [simp]: "hm_wf (hm_map_values f m) = hm_wf m"
  by (simp add: hm_wf_def hm_map_values_def comp_def)

lemma hm_len_insert_new: "hm_get m k = None \<Longrightarrow> hm_len (hm_insert k v m) = Suc (hm_len m)"
  by (induction m) (auto simp: hm_get_def hm_insert_def hm_len_def split: if_splits)

lemma hm_len_insert_old: "hm_get m k = Some w \<Longrightarrow> hm_len (hm_insert k v m) = hm_len m"
  by (induction m) (auto simp: hm_get_def hm_insert_def hm_len_def split: if_splits)

lemma hm_get_None_remove: "hm_get m k = None \<Longrightarrow> hm_remove k m = m"
  by (auto simp: hm_get_def hm_remove_def map_of_eq_None_iff filter_id_conv rev_image_eqI)

lemma hm_len_remove:
  "hm_wf m \<Longrightarrow> hm_get m k = Some w \<Longrightarrow> Suc (hm_len (hm_remove k m)) = hm_len m"
proof (induction m)
  case Nil
  then show ?case by simp
next
  case (Cons e m)
  then show ?case
    using hm_get_None_remove [of m k]
    by (auto simp: hm_get_def hm_remove_def hm_len_def hm_wf_def map_of_eq_None_iff split: if_splits)
qed

interpretation hm: key_store "[]" hm_get hm_insert hm_remove hm_len hm_wf
  by unfold_locales (auto simp: hm_len_def [of "[]"] hm_len_insert_new hm_len_insert_old hm_len_remove)

section \<open>Further facts on the association list\<close>

lemma hm_get_retain:
  "hm_wf m \<Longrightarrow> hm_get (hm_retain P m) k = opt_filter (P k) (hm_get m k)"
proof (induction m)
  case Nil
  then show ?case by (simp add: hm_retain_def)
next
  case (Cons e m)
  have IH: "hm_get (hm_retain P m) k = opt_filter (P k) (hm_get m k)"
    using Cons by (simp add: hm_wf_def)
  have "map_of m k = None" if "fst e = k"
    using Cons.prems that by (auto simp: hm_wf_def map_of_eq_None_iff)
  with IH show ?case
    by (cases e) (auto simp: hm_get_def hm_retain_def)
qed

lemma hm_get_map_values: "hm_get (hm_map_values f m) k = map_option (f k) (hm_get m k)"
  by (induction m) (auto simp: hm_get_def hm_map_values_def)

lemma hm_get_Some_in: "hm_get m k = Some v \<Longrightarrow> (k, v) \<in> set m"
  by (auto simp: hm_get_def map_of_SomeD)

lemma hm_in_get: "hm_wf m \<Longrightarrow> (k, v) \<in> set m \<Longrightarrow> hm_get m k = Some v"
  by (simp add: hm_get_def hm_wf_def)

lemma hm_get_iff: "hm_wf m \<Longrightarrow> hm_get m k = Some v \<longleftrightarrow> (k, v) \<in> set m"
  using hm_get_Some_in hm_in_get by metis

lemma hm_values_get: "hm_wf m \<Longrightarrow> v \<in> set (hm_values m) \<longleftrightarrow> (\<exists>k. hm_get m k = Some v)"
  by (force simp: hm_values_def hm_get_iff)

text \<open>To evaluate concrete tables.\<close>

lemmas hm_defs = hm_get_def hm_insert_def hm_remove_def hm_retain_def hm_len_def hm_contains_def hm_values_def
  hm_map_values_def

lemma hm_get_values: "hm_get m k = Some v \<Longrightarrow> v \<in> set (hm_values m)"
  by (auto simp: hm_values_def hm_get_def dest: map_of_SomeD intro: rev_image_eqI)

lemma hm_empty_iff: "m = [] \<longleftrightarrow> (\<forall>k. hm_get m k = None)"
proof
  assume "\<forall>k. hm_get m k = None"
  then show "m = []"
    by (cases m) (auto simp: hm_get_def dest: spec [of _ "fst (hd m)"] split: if_splits)
qed simp

lemma hm_len_retain: "hm_len (hm_retain P m) \<le> hm_len m"
  by (simp add: hm_len_def hm_retain_def)

lemma hm_len_remove_le: "hm_len (hm_remove k m) \<le> hm_len m"
  by (simp add: hm_len_def hm_remove_def)

lemma hm_len_map_values [simp]: "hm_len (hm_map_values f m) = hm_len m"
  by (simp add: hm_len_def hm_map_values_def)

lemma hm_contains_simps [simp]:
  "\<not> hm_contains [] k"
  "hm_contains (hm_insert k v m) k' = (k' = k \<or> hm_contains m k')"
  "hm_contains (hm_remove k m) k' = (k' \<noteq> k \<and> hm_contains m k')"
  by (simp_all add: hm_contains_def)

lemma hm_nil_simps [simp]: "hm_len [] = 0" "hm_values [] = []"
  by (simp_all add: hm_len_def hm_values_def)

lemma hm_insert_new: "hm_get m k = None \<Longrightarrow> hm_insert k v m = m @ [(k, v)]"
  by (induction m) (auto simp: hm_get_def hm_insert_def split: if_splits)

lemma hm_insert_twice: "hm_insert k w (hm_insert k v m) = hm_insert k w m"
  by (induction m) (auto simp: hm_insert_def)

end
