(* ===== verification/Server_Requests.thy ===== *)
theory Server_Requests
  imports Rpc Hash_Map
begin

text \<open>
  The ledger of server requests (\<open>cdr-app-server/src/state/server_requests.rs\<close>): every
  request of the app-server that a user still has to answer is pending, claimed by a
  response in flight (or of indeterminate delivery), or deferred behind a claimed request
  that reuses its id. \<open>sr_inv\<close> is the invariant of the four containers, \<open>phase\<close> the
  abstract life of one occurrence, and the locale \<open>response_ledger\<close> the contract that
  the response path of the client relies on.
\<close>

section \<open>State\<close>

definition MAX_UNSETTLED_SERVER_REQUESTS :: nat where
  "MAX_UNSETTLED_SERVER_REQUESTS = 500"

type_synonym server_request_key = "request_id \<times> occurrence"

definition key_for_request :: "server_request \<Rightarrow> server_request_key" where
  "key_for_request r = (rq_id r, rq_occurrence r)"

datatype response_status = Responding | Indeterminate

record claimed_server_request =
  cl_request :: server_request
  cl_status :: response_status

datatype server_request_record_error = Conflict request_id | Saturated request_id

datatype server_request_record_outcome = Broadcast server_request | Duplicate | Deferred

record server_request_state =
  sr_order :: "server_request_key list"
  sr_pending :: "(request_id, server_request) hmap"
  sr_claimed :: "(server_request_key, claimed_server_request) hmap"
  sr_deferred :: "(request_id, server_request) hmap"

definition sr_default :: server_request_state where
  "sr_default = \<lparr>sr_order = [], sr_pending = [], sr_claimed = [], sr_deferred = []\<rparr>"

section \<open>Operations\<close>

definition same_call :: "server_request \<Rightarrow> server_request \<Rightarrow> bool" where
  "same_call a b = (rq_method a = rq_method b \<and> rq_params a = rq_params b)"

definition ensure_capacity ::
    "server_request_state \<Rightarrow> request_id \<Rightarrow> (server_request_record_error, unit) result" where
  "ensure_capacity st rid =
    (if length (sr_order st) \<ge> MAX_UNSETTLED_SERVER_REQUESTS then Inl (Saturated rid) else Inr ())"

definition sr_record ::
    "server_request \<Rightarrow> server_request_state \<Rightarrow>
     (server_request_record_error, server_request_record_outcome \<times> server_request_state) result" where
  "sr_record request st = (let rid = rq_id request in
    case hm_get (sr_pending st) rid of
      Some existing \<Rightarrow>
        if same_call existing request then Inr (Duplicate, st) else Inl (Conflict rid)
    | None \<Rightarrow>
        (case find (\<lambda>c. rq_id (cl_request c) = rid) (hm_values (sr_claimed st)) of
           Some claimed \<Rightarrow>
             if same_call (cl_request claimed) request then Inr (Duplicate, st)
             else (case hm_get (sr_deferred st) rid of
                 Some existing \<Rightarrow>
                   if same_call existing request then Inr (Deferred, st) else Inl (Conflict rid)
               | None \<Rightarrow> (case ensure_capacity st rid of
                     Inl e \<Rightarrow> Inl e
                   | Inr _ \<Rightarrow> Inr (Deferred,
                       st\<lparr>sr_order := sr_order st @ [key_for_request request],
                          sr_deferred := hm_insert rid request (sr_deferred st)\<rparr>)))
         | None \<Rightarrow> (case ensure_capacity st rid of
               Inl e \<Rightarrow> Inl e
             | Inr _ \<Rightarrow> Inr (Broadcast request,
                 st\<lparr>sr_order := sr_order st @ [key_for_request request],
                    sr_pending := hm_insert rid request (sr_pending st)\<rparr>))))"

definition response_candidate ::
    "request_id \<Rightarrow> occurrence \<Rightarrow> server_request_state \<Rightarrow> (app_server_error, server_request) result" where
  "response_candidate rid occ st = (case hm_get (sr_claimed st) (rid, occ) of
      Some claimed \<Rightarrow> Inl (case cl_status claimed of
          Responding \<Rightarrow> ServerRequestResponseInFlight rid
        | Indeterminate \<Rightarrow> ServerRequestResponseIndeterminate rid)
    | None \<Rightarrow> (case hm_get (sr_pending st) rid of
          None \<Rightarrow> Inl (StaleServerRequest rid)
        | Some request \<Rightarrow>
            if rq_occurrence request \<noteq> occ then Inl (StaleServerRequest rid) else Inr request))"

text \<open>The \<open>expect\<close> of \<open>begin_response\<close> cannot fire: the candidate it removes is the one
  \<open>response_candidate\<close> has just found.\<close>

definition begin_response ::
    "request_id \<Rightarrow> occurrence \<Rightarrow> server_request_state \<Rightarrow> (app_server_error, server_request_state) result" where
  "begin_response rid occ st = (case response_candidate rid occ st of
      Inl e \<Rightarrow> Inl e
    | Inr request \<Rightarrow> Inr (st\<lparr>sr_pending := hm_remove rid (sr_pending st),
        sr_claimed := hm_insert (rid, occ) \<lparr>cl_request = request, cl_status = Responding\<rparr> (sr_claimed st)\<rparr>))"

definition mark_indeterminate ::
    "request_id \<Rightarrow> occurrence \<Rightarrow> server_request_state \<Rightarrow> server_request_state" where
  "mark_indeterminate rid occ st = (case hm_get (sr_claimed st) (rid, occ) of
      Some claimed \<Rightarrow>
        if cl_status claimed = Responding
        then st\<lparr>sr_claimed := hm_insert (rid, occ) (claimed\<lparr>cl_status := Indeterminate\<rparr>) (sr_claimed st)\<rparr>
        else st
    | None \<Rightarrow> st)"

definition sr_resolve ::
    "request_id \<Rightarrow> occurrence \<Rightarrow> server_request_state \<Rightarrow>
     (app_server_error, server_request option \<times> server_request_state) result" where
  "sr_resolve rid occ st = (case hm_get (sr_claimed st) (rid, occ) of
      None \<Rightarrow> Inl (StaleServerRequest rid)
    | Some _ \<Rightarrow>
        (let st1 = st\<lparr>sr_claimed := hm_remove (rid, occ) (sr_claimed st),
                      sr_order := filter (\<lambda>ordered. ordered \<noteq> (rid, occ)) (sr_order st)\<rparr>;
             promoted = hm_get (sr_deferred st1) rid;
             st2 = st1\<lparr>sr_deferred := hm_remove rid (sr_deferred st1)\<rparr>
         in Inr (promoted, (case promoted of
              None \<Rightarrow> st2
            | Some request \<Rightarrow> st2\<lparr>sr_pending := hm_insert rid request (sr_pending st2)\<rparr>))))"

section \<open>Reading thread and turn ids (\<open>state.rs\<close>)\<close>

definition nonempty :: "json option \<Rightarrow> rstr option" where
  "nonempty v = opt_filter (\<lambda>s. s \<noteq> []) (map_option trim (Option.bind v as_str))"

definition or_else :: "'a option \<Rightarrow> 'a option \<Rightarrow> 'a option" where
  "or_else a b = (case a of None \<Rightarrow> b | Some x \<Rightarrow> Some x)"

definition extract_thread_id :: "json \<Rightarrow> rstr option" where
  "extract_thread_id params =
    or_else (nonempty (jget params ''threadId''))
     (or_else (nonempty (jget params ''conversationId''))
       (or_else (Option.bind (jget params ''thread'') (\<lambda>thread. nonempty (jget thread ''id'')))
         (Option.bind (jget params ''turn'') (\<lambda>turn.
            or_else (nonempty (jget turn ''threadId'')) (nonempty (jget turn ''conversationId''))))))"

definition extract_turn_id :: "json \<Rightarrow> rstr option" where
  "extract_turn_id params =
    or_else (nonempty (jget params ''turnId''))
     (or_else (nonempty (jget params ''id''))
       (Option.bind (jget params ''turn'') (\<lambda>turn. nonempty (jget turn ''id''))))"

section \<open>Queries\<close>

definition matches_thread :: "server_request \<Rightarrow> rstr option \<Rightarrow> bool" where
  "matches_thread request thread_id = (case thread_id of
      None \<Rightarrow> True
    | Some target \<Rightarrow> extract_thread_id (rq_params request) = Some target)"

definition sr_pending_requests :: "rstr option \<Rightarrow> server_request_state \<Rightarrow> server_request list" where
  "sr_pending_requests thread_id st =
    filter (\<lambda>r. matches_thread r thread_id)
      (List.map_filter (\<lambda>key. opt_filter (\<lambda>r. rq_occurrence r = snd key) (hm_get (sr_pending st) (fst key)))
        (sr_order st))"

definition request_for_key :: "server_request_state \<Rightarrow> server_request_key \<Rightarrow> server_request option" where
  "request_for_key st key =
    or_else (opt_filter (\<lambda>r. rq_occurrence r = snd key) (hm_get (sr_pending st) (fst key)))
     (or_else (map_option cl_request (hm_get (sr_claimed st) key))
       (opt_filter (\<lambda>r. rq_occurrence r = snd key) (hm_get (sr_deferred st) (fst key))))"

definition sr_unsettled :: "rstr option \<Rightarrow> server_request_state \<Rightarrow> server_request list" where
  "sr_unsettled thread_id st =
    filter (\<lambda>r. matches_thread r thread_id) (List.map_filter (request_for_key st) (sr_order st))"

definition sr_has_unsettled :: "server_request_state \<Rightarrow> bool" where
  "sr_has_unsettled st = (sr_pending st \<noteq> [] \<or> sr_claimed st \<noteq> [] \<or> sr_deferred st \<noteq> [])"

definition sr_settle_dead_generation :: "server_request_state \<Rightarrow> server_request_state" where
  "sr_settle_dead_generation st =
    st\<lparr>sr_order := [], sr_pending := [], sr_claimed := [], sr_deferred := []\<rparr>"

section \<open>Invariant\<close>

definition pending_ok :: "server_request_state \<Rightarrow> bool" where
  "pending_ok st = (hm_wf (sr_pending st) \<and> hm_wf (sr_deferred st) \<and> hm_wf (sr_claimed st)
    \<and> (\<forall>rid r. hm_get (sr_pending st) rid = Some r \<longrightarrow> rq_id r = rid)
    \<and> (\<forall>rid r. hm_get (sr_deferred st) rid = Some r \<longrightarrow> rq_id r = rid)
    \<and> (\<forall>key c. hm_get (sr_claimed st) key = Some c \<longrightarrow> key_for_request (cl_request c) = key))"

definition claim_ok :: "server_request_state \<Rightarrow> bool" where
  "claim_ok st =
    ((\<forall>rid occ. hm_get (sr_claimed st) (rid, occ) \<noteq> None \<longrightarrow> hm_get (sr_pending st) rid = None)
    \<and> (\<forall>rid o1 o2. hm_get (sr_claimed st) (rid, o1) \<noteq> None \<longrightarrow> hm_get (sr_claimed st) (rid, o2) \<noteq> None
         \<longrightarrow> o1 = o2)
    \<and> (\<forall>rid r. hm_get (sr_deferred st) rid = Some r \<longrightarrow>
         (\<exists>occ. occ \<noteq> rq_occurrence r \<and> hm_get (sr_claimed st) (rid, occ) \<noteq> None)))"

definition order_ok :: "server_request_state \<Rightarrow> bool" where
  "order_ok st = (distinct (sr_order st)
    \<and> (\<forall>key. key \<in> set (sr_order st) \<longleftrightarrow> request_for_key st key \<noteq> None)
    \<and> length (sr_order st) \<le> MAX_UNSETTLED_SERVER_REQUESTS)"

definition sr_inv :: "server_request_state \<Rightarrow> bool" where
  "sr_inv st = (pending_ok st \<and> claim_ok st \<and> order_ok st)"

section \<open>The life of one occurrence\<close>

datatype phase = Absent | Awaiting | Queued | InFlight | Unknown

definition phase :: "server_request_state \<Rightarrow> server_request_key \<Rightarrow> phase" where
  "phase st key = (case hm_get (sr_claimed st) key of
      Some c \<Rightarrow> (case cl_status c of Responding \<Rightarrow> InFlight | Indeterminate \<Rightarrow> Unknown)
    | None \<Rightarrow>
        if opt_filter (\<lambda>r. rq_occurrence r = snd key) (hm_get (sr_pending st) (fst key)) \<noteq> None then Awaiting
        else if opt_filter (\<lambda>r. rq_occurrence r = snd key) (hm_get (sr_deferred st) (fst key)) \<noteq> None
        then Queued else Absent)"

section \<open>Lemmas on the containers\<close>

declare split_paired_All [simp del] split_paired_Ex [simp del]

lemma or_else_simps [simp]: "or_else None b = b" "or_else (Some x) b = Some x" "or_else a None = a"
  by (cases a; simp add: or_else_def)+

lemma or_else_eq_None [simp]: "or_else a b = None \<longleftrightarrow> a = None \<and> b = None"
  by (cases a) auto

lemma nonempty_Some: "nonempty v = Some s \<Longrightarrow> s \<noteq> [] \<and> trim s = s"
  by (auto simp: nonempty_def)

lemma sr_invD:
  assumes "sr_inv st"
  shows "pending_ok st" "claim_ok st" "order_ok st"
  using assms by (auto simp: sr_inv_def)

lemma claimed_find_None:
  assumes "pending_ok st"
  shows "find (\<lambda>c. rq_id (cl_request c) = rid) (hm_values (sr_claimed st)) = None
    \<longleftrightarrow> (\<forall>occ. hm_get (sr_claimed st) (rid, occ) = None)"
proof -
  have wf: "hm_wf (sr_claimed st)"
    and keys: "\<And>key c. hm_get (sr_claimed st) key = Some c \<Longrightarrow> key_for_request (cl_request c) = key"
    using assms by (auto simp: pending_ok_def)
  show ?thesis
  proof
    assume none: "find (\<lambda>c. rq_id (cl_request c) = rid) (hm_values (sr_claimed st)) = None"
    show "\<forall>occ. hm_get (sr_claimed st) (rid, occ) = None"
    proof (rule ccontr)
      assume "\<not> ?thesis"
      then obtain occ c where c: "hm_get (sr_claimed st) (rid, occ) = Some c" by auto
      then have "c \<in> set (hm_values (sr_claimed st))" using wf by (auto simp: hm_values_get)
      moreover have "rq_id (cl_request c) = rid" using keys [OF c] by (simp add: key_for_request_def)
      ultimately show False using none by (auto simp: find_None_set)
    qed
  next
    assume "\<forall>occ. hm_get (sr_claimed st) (rid, occ) = None"
    then show "find (\<lambda>c. rq_id (cl_request c) = rid) (hm_values (sr_claimed st)) = None"
      using wf keys by (fastforce simp: find_None_set hm_values_get key_for_request_def)
  qed
qed

lemma claimed_find_Some:
  assumes "pending_ok st"
    and "find (\<lambda>c. rq_id (cl_request c) = rid) (hm_values (sr_claimed st)) = Some c"
  shows "hm_get (sr_claimed st) (rid, rq_occurrence (cl_request c)) = Some c"
proof -
  have "c \<in> set (hm_values (sr_claimed st))" "rq_id (cl_request c) = rid"
    using find_Some_set [OF assms(2)] by auto
  then show ?thesis
    using assms(1) by (auto simp: pending_ok_def hm_values_get key_for_request_def)
qed

lemma request_for_key_key:
  assumes "pending_ok st" "request_for_key st key = Some r"
  shows "key_for_request r = key"
  using assms
  by (cases key)
     (auto simp: pending_ok_def request_for_key_def or_else_def key_for_request_def split: option.splits)

lemma request_for_key_None:
  "request_for_key st key = None \<longleftrightarrow> phase st key = Absent"
  by (auto simp: request_for_key_def phase_def or_else_def split: option.splits response_status.splits)

lemma order_iff_phase: "sr_inv st \<Longrightarrow> key \<in> set (sr_order st) \<longleftrightarrow> phase st key \<noteq> Absent"
  by (simp add: sr_inv_def order_ok_def request_for_key_None)

subsection \<open>Recording\<close>

lemma rfk_add_deferred:
  "hm_get (sr_deferred st) (rq_id r) = None \<Longrightarrow> request_for_key st (key_for_request r) = None \<Longrightarrow>
    request_for_key (st\<lparr>sr_order := ks, sr_deferred := hm_insert (rq_id r) r (sr_deferred st)\<rparr>) key =
      (if key = key_for_request r then Some r else request_for_key st key)"
  by (cases key) (auto simp: request_for_key_def key_for_request_def or_else_def split: option.splits)

lemma rfk_add_pending:
  "hm_get (sr_pending st) (rq_id r) = None \<Longrightarrow> request_for_key st (key_for_request r) = None \<Longrightarrow>
    request_for_key (st\<lparr>sr_order := ks, sr_pending := hm_insert (rq_id r) r (sr_pending st)\<rparr>) key =
      (if key = key_for_request r then Some r else request_for_key st key)"
  by (cases key) (auto simp: request_for_key_def key_for_request_def or_else_def split: option.splits)

lemma order_ok_append:
  assumes "order_ok st" "new_key \<notin> set (sr_order st)" "length (sr_order st) < MAX_UNSETTLED_SERVER_REQUESTS"
    and "sr_order st' = sr_order st @ [new_key]"
    and "\<And>key. request_for_key st' key = (if key = new_key then Some r else request_for_key st key)"
  shows "order_ok st'"
  using assms by (auto simp: order_ok_def)

inductive recorded :: "server_request \<Rightarrow> server_request_state \<Rightarrow> server_request_state \<Rightarrow> bool" for r st where
  recorded_same: "recorded r st st"
| recorded_deferred:
    "hm_get (sr_pending st) (rq_id r) = None \<Longrightarrow> hm_get (sr_deferred st) (rq_id r) = None \<Longrightarrow>
     hm_get (sr_claimed st) (rq_id r, occ) \<noteq> None \<Longrightarrow>
     length (sr_order st) < MAX_UNSETTLED_SERVER_REQUESTS \<Longrightarrow>
     recorded r st (st\<lparr>sr_order := sr_order st @ [key_for_request r],
                       sr_deferred := hm_insert (rq_id r) r (sr_deferred st)\<rparr>)"
| recorded_pending:
    "hm_get (sr_pending st) (rq_id r) = None \<Longrightarrow> (\<And>occ. hm_get (sr_claimed st) (rq_id r, occ) = None) \<Longrightarrow>
     length (sr_order st) < MAX_UNSETTLED_SERVER_REQUESTS \<Longrightarrow>
     recorded r st (st\<lparr>sr_order := sr_order st @ [key_for_request r],
                       sr_pending := hm_insert (rq_id r) r (sr_pending st)\<rparr>)"

lemma sr_record_recorded:
  assumes "pending_ok st" "sr_record r st = Inr (outcome, st')"
  shows "recorded r st st'"
proof (cases "hm_get (sr_pending st) (rq_id r)")
  case (Some existing)
  then show ?thesis
    using assms by (auto simp: sr_record_def Let_def recorded_same split: if_splits)
next
  case None
  show ?thesis
  proof (cases "find (\<lambda>c. rq_id (cl_request c) = rq_id r) (hm_values (sr_claimed st))")
    case find: (Some c)
    have "hm_get (sr_claimed st) (rq_id r, rq_occurrence (cl_request c)) \<noteq> None"
      using claimed_find_Some [OF assms(1) find] by simp
    then show ?thesis
      using assms(2) None find
      by (auto simp: sr_record_def Let_def ensure_capacity_def recorded_same
          intro: recorded_deferred split: if_splits option.splits)
  next
    case find: None
    then show ?thesis
      using assms(2) None claimed_find_None [OF assms(1), of "rq_id r"]
      by (auto simp: sr_record_def Let_def ensure_capacity_def intro: recorded_pending split: if_splits)
  qed
qed

lemma recorded_inv:
  assumes "recorded r st st'" "sr_inv st" "key_for_request r \<notin> set (sr_order st)"
  shows "sr_inv st'"
  using assms(1)
proof cases
  case recorded_same
  then show ?thesis using assms(2) by simp
next
  case (recorded_deferred occ)
  have fresh: "request_for_key st (key_for_request r) = None"
    using assms(2,3) by (simp add: sr_inv_def order_ok_def)
  have "occ \<noteq> rq_occurrence r"
    using fresh recorded_deferred by (auto simp: request_for_key_def key_for_request_def)
  then have "claim_ok st'" "pending_ok st'"
    using recorded_deferred assms(2) by (auto simp: sr_inv_def claim_ok_def pending_ok_def)
  moreover have "order_ok st'"
    using order_ok_append [OF sr_invD(3) [OF assms(2)] assms(3)] recorded_deferred fresh
    by (simp add: rfk_add_deferred)
  ultimately show ?thesis by (simp add: sr_inv_def)
next
  case recorded_pending
  have fresh: "request_for_key st (key_for_request r) = None"
    using assms(2,3) by (simp add: sr_inv_def order_ok_def)
  have "claim_ok st'" "pending_ok st'"
    using recorded_pending assms(2) by (auto simp: sr_inv_def claim_ok_def pending_ok_def)
  moreover have "order_ok st'"
    using order_ok_append [OF sr_invD(3) [OF assms(2)] assms(3)] recorded_pending fresh
    by (simp add: rfk_add_pending)
  ultimately show ?thesis by (simp add: sr_inv_def)
qed

lemma sr_record_inv [inv_intros]:
  "sr_inv st \<Longrightarrow> key_for_request r \<notin> set (sr_order st) \<Longrightarrow> sr_record r st = Inr (out, st') \<Longrightarrow> sr_inv st'"
  using recorded_inv sr_record_recorded sr_invD(1) by blast

lemma recorded_phase:
  assumes "recorded r st st'" "key \<noteq> key_for_request r" "sr_inv st"
  shows "phase st' key = phase st key"
  using assms(1)
proof cases
  case (recorded_deferred occ)
  then show ?thesis
    using assms(2) by (cases key) (auto simp: phase_def key_for_request_def split: option.splits)
next
  case recorded_pending
  then show ?thesis
    using assms(2) by (cases key) (auto simp: phase_def key_for_request_def split: option.splits)
qed simp

subsection \<open>Claiming, tainting and resolving\<close>

lemma response_candidate_ok:
  "response_candidate rid occ st = Inr r \<longleftrightarrow>
    hm_get (sr_claimed st) (rid, occ) = None \<and> hm_get (sr_pending st) rid = Some r \<and> rq_occurrence r = occ"
  by (auto simp: response_candidate_def split: option.splits)

lemma candidate_ok_phase: "is_ok (response_candidate rid occ st) \<longleftrightarrow> phase st (rid, occ) = Awaiting"
  by (auto simp: is_ok_iff response_candidate_ok phase_def split: option.splits response_status.splits)

lemma begin_ok_phase: "is_ok (begin_response rid occ st) \<longleftrightarrow> phase st (rid, occ) = Awaiting"
  by (cases "response_candidate rid occ st") (simp_all add: begin_response_def flip: candidate_ok_phase)

lemma begin_responseE:
  assumes "begin_response rid occ st = Inr st'"
  obtains r where "hm_get (sr_claimed st) (rid, occ) = None" "hm_get (sr_pending st) rid = Some r"
    "rq_occurrence r = occ"
    "st' = st\<lparr>sr_pending := hm_remove rid (sr_pending st),
        sr_claimed := hm_insert (rid, occ) \<lparr>cl_request = r, cl_status = Responding\<rparr> (sr_claimed st)\<rparr>"
  using assms by (auto simp: begin_response_def response_candidate_ok split: sum.splits)

lemma begin_phase:
  assumes "begin_response rid occ st = Inr st'"
  shows "phase st' = (phase st)((rid, occ) := InFlight)"
  using assms
proof (rule begin_responseE)
  fix r
  assume r: "hm_get (sr_claimed st) (rid, occ) = None" "hm_get (sr_pending st) rid = Some r"
    "rq_occurrence r = occ" and st': "st' = st\<lparr>sr_pending := hm_remove rid (sr_pending st),
        sr_claimed := hm_insert (rid, occ) \<lparr>cl_request = r, cl_status = Responding\<rparr> (sr_claimed st)\<rparr>"
  show ?thesis
  proof
    fix key :: server_request_key
    obtain i j where "key = (i, j)" by (cases key)
    then show "phase st' key = ((phase st)((rid, occ) := InFlight)) key"
      using r by (cases "i = rid") (auto simp: st' phase_def)
  qed
qed

lemma mark_phase:
  "phase (mark_indeterminate rid occ st) =
    (if phase st (rid, occ) = InFlight then (phase st)((rid, occ) := Unknown) else phase st)"
  by (rule ext) (auto simp: mark_indeterminate_def phase_def split: option.splits response_status.splits)

lemma resolve_ok_phase: "is_ok (sr_resolve rid occ st) \<longleftrightarrow> phase st (rid, occ) \<in> {InFlight, Unknown}"
  by (auto simp: sr_resolve_def phase_def Let_def split: option.splits response_status.splits if_splits)

lemma begin_inv [inv_intros]:
  assumes "sr_inv st" "begin_response rid occ st = Inr st'"
  shows "sr_inv st'"
proof -
  obtain r where r: "hm_get (sr_claimed st) (rid, occ) = None" "hm_get (sr_pending st) rid = Some r"
      "rq_occurrence r = occ"
    and st': "st' = st\<lparr>sr_pending := hm_remove rid (sr_pending st),
        sr_claimed := hm_insert (rid, occ) \<lparr>cl_request = r, cl_status = Responding\<rparr> (sr_claimed st)\<rparr>"
    using assms(2) by (rule begin_responseE)
  have no_claim: "hm_get (sr_claimed st) (rid, o1) = None" for o1
    using sr_invD(2) [OF assms(1)] r(2) unfolding claim_ok_def by (metis option.distinct(1))
  have no_defer: "hm_get (sr_deferred st) rid = None"
    using sr_invD(2) [OF assms(1)] no_claim unfolding claim_ok_def by (metis not_None_eq)
  have "pending_ok st'"
    using assms(1) r by (auto simp: st' sr_inv_def pending_ok_def key_for_request_def)
  moreover have "claim_ok st'"
    using sr_invD(2) [OF assms(1)] no_claim no_defer
    by (auto simp: st' claim_ok_def) (metis option.distinct(1))
  moreover have "request_for_key st' key = request_for_key st key" for key
    using r by (cases key) (auto simp: st' request_for_key_def or_else_def split: option.splits)
  then have "order_ok st'"
    using sr_invD(3) [OF assms(1)] by (simp add: order_ok_def) (simp add: st')
  ultimately show ?thesis by (simp add: sr_inv_def)
qed

lemma mark_inv [inv_intros]:
  assumes "sr_inv st" shows "sr_inv (mark_indeterminate rid occ st)"
proof (cases "phase st (rid, occ) = InFlight")
  case False
  then have "mark_indeterminate rid occ st = st"
    by (auto simp: mark_indeterminate_def phase_def split: option.splits response_status.splits)
  then show ?thesis using assms by simp
next
  case True
  then obtain c where c: "hm_get (sr_claimed st) (rid, occ) = Some c" "cl_status c = Responding"
    by (auto simp: phase_def split: option.splits response_status.splits if_splits)
  then have eq: "mark_indeterminate rid occ st =
      st\<lparr>sr_claimed := hm_insert (rid, occ) (c\<lparr>cl_status := Indeterminate\<rparr>) (sr_claimed st)\<rparr>"
    by (simp add: mark_indeterminate_def)
  have "request_for_key (mark_indeterminate rid occ st) key = request_for_key st key" for key
    using c by (auto simp: eq request_for_key_def)
  then have "order_ok (mark_indeterminate rid occ st)"
    using sr_invD(3) [OF assms] by (simp add: order_ok_def) (simp add: eq)
  moreover have "pending_ok (mark_indeterminate rid occ st)"
    using sr_invD(1) [OF assms] c by (auto simp: eq pending_ok_def)
  moreover have "claim_ok (mark_indeterminate rid occ st)"
    using sr_invD(2) [OF assms] c unfolding claim_ok_def eq by (simp, metis option.distinct(1))
  ultimately show ?thesis by (simp add: sr_inv_def)
qed

text \<open>What resolving a claimed occurrence does, under the invariant: nothing is pending under
  its id, and the request deferred behind it has another occurrence.\<close>

lemma sr_resolveE:
  assumes "sr_inv st" "sr_resolve rid occ st = Inr (promoted, st')"
  obtains c where "hm_get (sr_claimed st) (rid, occ) = Some c" "hm_get (sr_pending st) rid = None"
    "promoted = hm_get (sr_deferred st) rid"
    "\<And>r. promoted = Some r \<Longrightarrow> rq_id r = rid \<and> rq_occurrence r \<noteq> occ"
    "\<And>o1. o1 \<noteq> occ \<Longrightarrow> hm_get (sr_claimed st) (rid, o1) = None"
    "st' = \<lparr>sr_order = filter (\<lambda>ordered. ordered \<noteq> (rid, occ)) (sr_order st),
            sr_pending = (case promoted of None \<Rightarrow> sr_pending st | Some r \<Rightarrow> hm_insert rid r (sr_pending st)),
            sr_claimed = hm_remove (rid, occ) (sr_claimed st),
            sr_deferred = hm_remove rid (sr_deferred st)\<rparr>"
proof -
  obtain c where c: "hm_get (sr_claimed st) (rid, occ) = Some c"
    using assms(2) by (auto simp: sr_resolve_def split: option.splits)
  have pend: "hm_get (sr_pending st) rid = None"
    and uniq: "\<And>o1. o1 \<noteq> occ \<Longrightarrow> hm_get (sr_claimed st) (rid, o1) = None"
    using sr_invD(2) [OF assms(1)] c unfolding claim_ok_def by (metis option.distinct(1))+
  have def_occ: "rq_id r = rid \<and> rq_occurrence r \<noteq> occ" if "hm_get (sr_deferred st) rid = Some r" for r
    using sr_invD(1,2) [OF assms(1)] that uniq unfolding claim_ok_def pending_ok_def by (metis option.distinct(1))
  show thesis
    using assms(2) c pend uniq def_occ
    by (intro that [of c]) (auto simp: sr_resolve_def Let_def split: option.splits)
qed

lemma resolve_phase:
  assumes "sr_inv st" "sr_resolve rid occ st = Inr (promoted, st')"
  shows "phase st' key = (if key = (rid, occ) then Absent
    else if fst key = rid \<and> phase st key = Queued then Awaiting else phase st key)"
  using assms
proof (rule sr_resolveE)
  fix c
  assume c: "hm_get (sr_claimed st) (rid, occ) = Some c" "hm_get (sr_pending st) rid = None"
    and p: "promoted = hm_get (sr_deferred st) rid"
      "\<And>r. promoted = Some r \<Longrightarrow> rq_id r = rid \<and> rq_occurrence r \<noteq> occ"
    and u: "\<And>o1. o1 \<noteq> occ \<Longrightarrow> hm_get (sr_claimed st) (rid, o1) = None"
    and st': "st' = \<lparr>sr_order = filter (\<lambda>ordered. ordered \<noteq> (rid, occ)) (sr_order st),
            sr_pending = (case promoted of None \<Rightarrow> sr_pending st | Some r \<Rightarrow> hm_insert rid r (sr_pending st)),
            sr_claimed = hm_remove (rid, occ) (sr_claimed st),
            sr_deferred = hm_remove rid (sr_deferred st)\<rparr>"
  obtain i j where k: "key = (i, j)" by (cases key)
  show ?thesis
  proof (cases "hm_get (sr_deferred st) rid")
    case None
    then show ?thesis using c u p by (auto simp: k st' phase_def)
  next
    case (Some r)
    then have r: "rq_occurrence r \<noteq> occ" using p by simp
    show ?thesis using c u r p(1) Some by (cases "i = rid") (auto simp: k st' phase_def)
  qed
qed

lemma resolve_pending_claim_ok:
  assumes "sr_inv st" "sr_resolve rid occ st = Inr (promoted, st')"
  shows "pending_ok st' \<and> claim_ok st'"
  using assms
proof (rule sr_resolveE)
  fix c
  assume c: "hm_get (sr_claimed st) (rid, occ) = Some c" "hm_get (sr_pending st) rid = None"
    and p: "promoted = hm_get (sr_deferred st) rid"
      "\<And>r. promoted = Some r \<Longrightarrow> rq_id r = rid \<and> rq_occurrence r \<noteq> occ"
    and u: "\<And>o1. o1 \<noteq> occ \<Longrightarrow> hm_get (sr_claimed st) (rid, o1) = None"
    and st': "st' = \<lparr>sr_order = filter (\<lambda>ordered. ordered \<noteq> (rid, occ)) (sr_order st),
            sr_pending = (case promoted of None \<Rightarrow> sr_pending st | Some r \<Rightarrow> hm_insert rid r (sr_pending st)),
            sr_claimed = hm_remove (rid, occ) (sr_claimed st),
            sr_deferred = hm_remove rid (sr_deferred st)\<rparr>"
  have "pending_ok st'"
    using sr_invD(1) [OF assms(1)] p by (auto simp: st' pending_ok_def split: option.splits)
  moreover have "claim_ok st'"
    using sr_invD(2) [OF assms(1)] u unfolding claim_ok_def st'
    by (auto split: option.splits)
  ultimately show ?thesis by simp
qed

lemma resolve_inv [inv_intros]:
  assumes "sr_inv st" "sr_resolve rid occ st = Inr (promoted, st')"
  shows "sr_inv st'"
proof -
  have order: "sr_order st' = filter (\<lambda>ordered. ordered \<noteq> (rid, occ)) (sr_order st)"
    using assms by (rule sr_resolveE) simp
  have "key \<in> set (sr_order st') \<longleftrightarrow> phase st' key \<noteq> Absent" for key
    using order_iff_phase [OF assms(1), of key] by (auto simp: order resolve_phase [OF assms])
  moreover have "length (sr_order st') \<le> length (sr_order st)" "distinct (sr_order st')"
    using sr_invD(3) [OF assms(1)] by (auto simp: order order_ok_def)
  ultimately have "order_ok st'"
    using sr_invD(3) [OF assms(1)] by (simp add: order_ok_def request_for_key_None del: not_None_eq)
  then show ?thesis
    using resolve_pending_claim_ok [OF assms] by (simp add: sr_inv_def)
qed

lemma sr_inv_empty: "sr_inv \<lparr>sr_order = [], sr_pending = [], sr_claimed = [], sr_deferred = []\<rparr>"
  by (simp add: sr_inv_def pending_ok_def claim_ok_def order_ok_def request_for_key_def)

lemma settle_inv [inv_intros]: "sr_inv (sr_settle_dead_generation st)"
  using sr_inv_empty by (cases st) (simp add: sr_settle_dead_generation_def)

section \<open>Event sequences\<close>

text \<open>Every mutation of the ledger as an event; a failing operation leaves the state as it
  is (the code returns before it changes anything).\<close>

datatype sr_event =
    EvRecord server_request
  | EvBegin request_id occurrence
  | EvTaint request_id occurrence
  | EvResolve request_id occurrence
  | EvSettleDead

definition sr_apply :: "sr_event \<Rightarrow> server_request_state \<Rightarrow> server_request_state" where
  "sr_apply ev st = (case ev of
      EvRecord r \<Rightarrow> (case sr_record r st of Inl _ \<Rightarrow> st | Inr (_, st') \<Rightarrow> st')
    | EvBegin rid occ \<Rightarrow> (case begin_response rid occ st of Inl _ \<Rightarrow> st | Inr st' \<Rightarrow> st')
    | EvTaint rid occ \<Rightarrow> mark_indeterminate rid occ st
    | EvResolve rid occ \<Rightarrow> (case sr_resolve rid occ st of Inl _ \<Rightarrow> st | Inr (_, st') \<Rightarrow> st')
    | EvSettleDead \<Rightarrow> sr_settle_dead_generation st)"

text \<open>The occurrence of an incoming request is a fresh random UUID, so it is not the key of
  a request the ledger still holds.\<close>

definition sr_fresh :: "sr_event \<Rightarrow> server_request_state \<Rightarrow> bool" where
  "sr_fresh ev st = (case ev of EvRecord r \<Rightarrow> key_for_request r \<notin> set (sr_order st) | _ \<Rightarrow> True)"

definition sr_claims :: "server_request_key \<Rightarrow> sr_event \<Rightarrow> server_request_state \<Rightarrow> bool" where
  "sr_claims key ev st = (case ev of
      EvBegin rid occ \<Rightarrow> (rid, occ) = key \<and> is_ok (begin_response rid occ st) | _ \<Rightarrow> False)"

definition sr_records :: "server_request_key \<Rightarrow> sr_event \<Rightarrow> bool" where
  "sr_records key ev = (case ev of EvRecord r \<Rightarrow> key_for_request r = key | _ \<Rightarrow> False)"

lemma sr_apply_inv: "sr_inv st \<Longrightarrow> sr_fresh ev st \<Longrightarrow> sr_inv (sr_apply ev st)"
  by (auto simp: sr_apply_def sr_fresh_def intro: inv_intros split: sr_event.splits sum.splits)

section \<open>The contract of the response path\<close>

fun phase_rank :: "phase \<Rightarrow> nat" where
  "phase_rank Queued = 0"
| "phase_rank Awaiting = 1"
| "phase_rank InFlight = 2"
| "phase_rank Unknown = 3"
| "phase_rank Absent = 4"

locale response_ledger =
  fixes inv :: "'s \<Rightarrow> bool"
    and life :: "'s \<Rightarrow> 'k \<Rightarrow> phase"
    and react :: "'e \<Rightarrow> 's \<Rightarrow> 's"
    and allowed :: "'e \<Rightarrow> 's \<Rightarrow> bool"
    and claims :: "'k \<Rightarrow> 'e \<Rightarrow> 's \<Rightarrow> bool"
    and opens :: "'k \<Rightarrow> 'e \<Rightarrow> bool"
  assumes inv_react: "inv s \<Longrightarrow> allowed e s \<Longrightarrow> inv (react e s)"
    and claim_from: "inv s \<Longrightarrow> claims k e s \<Longrightarrow> life s k = Awaiting"
    and claim_to: "inv s \<Longrightarrow> claims k e s \<Longrightarrow> life (react e s) k = InFlight"
    and forward: "inv s \<Longrightarrow> allowed e s \<Longrightarrow> \<not> opens k e \<Longrightarrow>
      phase_rank (life s k) \<le> phase_rank (life (react e s) k)"
begin

lemma no_claim_after:
  assumes "inv s" "all_events react allowed es s" "\<forall>e \<in> set es. \<not> opens k e"
    and "2 \<le> phase_rank (life s k)"
  shows "count_events react (claims k) es s = 0"
  using assms
proof (induction es arbitrary: s)
  case (Cons e es)
  have "\<not> claims k e s"
    using Cons.prems(1,4) claim_from [of s k e] by auto
  moreover have "2 \<le> phase_rank (life (react e s) k)"
    using Cons.prems forward [of s e k] by auto
  ultimately show ?case
    using Cons.IH [of "react e s"] Cons.prems inv_react [of s e] by auto
qed simp

lemma claimed_at_most_once:
  assumes "inv s" "all_events react allowed es s" "\<forall>e \<in> set es. \<not> opens k e"
  shows "count_events react (claims k) es s \<le> 1"
  using assms
proof (induction es arbitrary: s)
  case (Cons e es)
  have tail: "inv (react e s)" "all_events react allowed es (react e s)" "\<forall>e \<in> set es. \<not> opens k e"
    using Cons.prems inv_react [of s e] by auto
  show ?case
  proof (cases "claims k e s")
    case True
    then have "life (react e s) k = InFlight" using claim_to Cons.prems(1) by blast
    then show ?thesis using no_claim_after [OF tail] True by simp
  next
    case False
    then show ?thesis using Cons.IH [OF tail] by simp
  qed
qed simp

end

lemma apply_record_phase:
  assumes "sr_inv st" "key_for_request r \<noteq> key"
  shows "phase (sr_apply (EvRecord r) st) key = phase st key"
proof (cases "sr_record r st")
  case (Inr x)
  then obtain out st' where "sr_record r st = Inr (out, st')" by (cases x) auto
  then show ?thesis
    using sr_record_recorded [OF sr_invD(1) [OF assms(1)]] recorded_phase assms
    by (fastforce simp: sr_apply_def)
qed (simp add: sr_apply_def)

lemma settle_phase [simp]: "phase (sr_settle_dead_generation st) key = Absent"
  by (simp add: sr_settle_dead_generation_def phase_def)

lemma phase_rank_le_4: "phase_rank p \<le> 4"
  by (cases p) auto

lemma apply_forward:
  assumes "sr_inv st" "sr_fresh ev st" "\<not> sr_records key ev"
  shows "phase_rank (phase st key) \<le> phase_rank (phase (sr_apply ev st) key)"
proof (cases ev)
  case (EvRecord r)
  then show ?thesis using assms by (simp add: apply_record_phase sr_records_def)
next
  case (EvBegin rid occ)
  then show ?thesis
    using begin_ok_phase [of rid occ st] begin_phase [of rid occ st]
    by (cases "begin_response rid occ st") (auto simp: sr_apply_def)
next
  case (EvTaint rid occ)
  then show ?thesis by (auto simp: sr_apply_def mark_phase)
next
  case (EvResolve rid occ)
  then show ?thesis
    using resolve_phase [OF assms(1), of rid occ _ _ key] phase_rank_le_4
    by (cases "sr_resolve rid occ st") (auto simp: sr_apply_def)
next
  case EvSettleDead
  then show ?thesis by (simp add: sr_apply_def phase_rank_le_4)
qed

interpretation sr: response_ledger sr_inv phase sr_apply sr_fresh sr_claims sr_records
proof unfold_locales
  fix st key ev
  assume "sr_claims key ev st"
  then obtain rid occ where ev: "ev = EvBegin rid occ" "key = (rid, occ)" "is_ok (begin_response rid occ st)"
    by (auto simp: sr_claims_def split: sr_event.splits)
  then show "phase st key = Awaiting" using begin_ok_phase by simp
  show "phase (sr_apply ev st) key = InFlight"
    using ev begin_phase [of rid occ st] by (cases "begin_response rid occ st") (auto simp: sr_apply_def)
qed (fact sr_apply_inv, fact apply_forward)

section \<open>Completeness of the queries\<close>

lemma unsettled_keys:
  assumes "sr_inv st"
  shows "map key_for_request (sr_unsettled None st) = sr_order st"
proof -
  have some: "request_for_key st key \<noteq> None" if "key \<in> set (sr_order st)" for key
    using that assms by (simp add: sr_inv_def order_ok_def del: not_None_eq)
  then have "List.map_filter (request_for_key st) (sr_order st) = map (the \<circ> request_for_key st) (sr_order st)"
    by (intro map_filter_total)
  moreover have "key_for_request (the (request_for_key st key)) = key" if "key \<in> set (sr_order st)" for key
    using some [OF that] request_for_key_key [OF sr_invD(1) [OF assms]] by auto
  ultimately show ?thesis
    by (simp add: sr_unsettled_def matches_thread_def map_idI)
qed

lemma has_unsettled_order:
  assumes "sr_inv st"
  shows "sr_has_unsettled st \<longleftrightarrow> sr_order st \<noteq> []"
proof
  assume "sr_order st \<noteq> []"
  then have "request_for_key st (hd (sr_order st)) \<noteq> None"
    using sr_invD(3) [OF assms] unfolding order_ok_def by (metis list.set_sel(1))
  then show "sr_has_unsettled st"
    by (auto simp: sr_has_unsettled_def request_for_key_def hm_empty_iff)
next
  assume "sr_has_unsettled st"
  then consider (p) rid r where "hm_get (sr_pending st) rid = Some r"
    | (c) key c where "hm_get (sr_claimed st) key = Some c"
    | (d) rid r where "hm_get (sr_deferred st) rid = Some r"
    unfolding sr_has_unsettled_def hm_empty_iff by auto
  then obtain key where "request_for_key st key \<noteq> None"
  proof cases
    case p
    then show thesis using that [of "(rid, rq_occurrence r)"] by (simp add: request_for_key_def del: not_None_eq)
  next
    case c
    then show thesis using that [of key] by (simp add: request_for_key_def del: not_None_eq)
  next
    case d
    then show thesis using that [of "(rid, rq_occurrence r)"] by (simp add: request_for_key_def del: not_None_eq)
  qed
  then show "sr_order st \<noteq> []"
    using sr_invD(3) [OF assms] unfolding order_ok_def by (metis empty_iff empty_set)
qed

lemma in_unsettled:
  assumes "sr_inv st"
  shows "q \<in> set (sr_unsettled None st) \<longleftrightarrow> request_for_key st (key_for_request q) = Some q"
proof -
  have "q \<in> set (sr_unsettled None st) \<longleftrightarrow> (\<exists>key \<in> set (sr_order st). request_for_key st key = Some q)"
    by (simp add: sr_unsettled_def matches_thread_def set_map_filter_iff)
  also have "\<dots> \<longleftrightarrow> request_for_key st (key_for_request q) = Some q"
    using request_for_key_key [OF sr_invD(1) [OF assms]] sr_invD(3) [OF assms]
    unfolding order_ok_def by (metis option.distinct(1))
  finally show ?thesis .
qed

lemma pending_in_unsettled:
  assumes "sr_inv st" "hm_get (sr_pending st) rid = Some q"
  shows "q \<in> set (sr_unsettled None st)" "rq_id q = rid" "phase st (key_for_request q) = Awaiting"
proof -
  show i: "rq_id q = rid" using sr_invD(1) [OF assms(1)] assms(2) by (simp add: pending_ok_def)
  have "hm_get (sr_claimed st) (key_for_request q) = None"
    using sr_invD(2) [OF assms(1)] assms(2) i unfolding claim_ok_def key_for_request_def
    by (metis option.distinct(1))
  then show "q \<in> set (sr_unsettled None st)" "phase st (key_for_request q) = Awaiting"
    using assms(2) i by (simp_all add: in_unsettled [OF assms(1)] request_for_key_def phase_def key_for_request_def)
qed

lemma pending_is_awaiting:
  assumes "sr_inv st"
  shows "r \<in> set (sr_pending_requests None st) \<longleftrightarrow>
    r \<in> set (sr_unsettled None st) \<and> phase st (key_for_request r) = Awaiting"
proof
  assume "r \<in> set (sr_pending_requests None st)"
  then obtain key where "hm_get (sr_pending st) (fst key) = Some r"
    by (auto simp: sr_pending_requests_def matches_thread_def set_map_filter_iff)
  then show "r \<in> set (sr_unsettled None st) \<and> phase st (key_for_request r) = Awaiting"
    using pending_in_unsettled [OF assms] by blast
next
  assume r: "r \<in> set (sr_unsettled None st) \<and> phase st (key_for_request r) = Awaiting"
  then obtain q where q: "hm_get (sr_pending st) (rq_id r) = Some q" "rq_occurrence q = rq_occurrence r"
    by (auto simp: phase_def key_for_request_def split: option.splits response_status.splits if_splits)
  have "request_for_key st (key_for_request r) = Some r"
    using r by (simp add: in_unsettled [OF assms])
  then have "q = r" "key_for_request r \<in> set (sr_order st)"
    using q sr_invD(3) [OF assms] by (auto simp: request_for_key_def key_for_request_def order_ok_def)
  then show "r \<in> set (sr_pending_requests None st)"
    using q by (force simp: sr_pending_requests_def matches_thread_def set_map_filter_iff key_for_request_def)
qed

lemma claimed_in_unsettled:
  assumes "sr_inv st" "hm_get (sr_claimed st) key = Some c"
  shows "cl_request c \<in> set (sr_unsettled None st)" "key_for_request (cl_request c) = key"
    "phase st key \<in> {InFlight, Unknown}"
proof -
  show k: "key_for_request (cl_request c) = key"
    using sr_invD(1) [OF assms(1)] assms(2) by (simp add: pending_ok_def)
  show "phase st key \<in> {InFlight, Unknown}"
    using assms(2) by (auto simp: phase_def split: response_status.splits)
  have "hm_get (sr_pending st) (fst key) = None"
    using sr_invD(2) [OF assms(1)] assms(2) unfolding claim_ok_def
    by (metis option.distinct(1) prod.collapse)
  then show "cl_request c \<in> set (sr_unsettled None st)"
    using assms(2) k by (simp add: in_unsettled [OF assms(1)] request_for_key_def)
qed

lemma deferred_in_unsettled:
  assumes "sr_inv st" "hm_get (sr_deferred st) rid = Some q"
  shows "q \<in> set (sr_unsettled None st)" "rq_id q = rid"
proof -
  show i: "rq_id q = rid" using sr_invD(1) [OF assms(1)] assms(2) by (simp add: pending_ok_def)
  obtain occ where "occ \<noteq> rq_occurrence q" "hm_get (sr_claimed st) (rid, occ) \<noteq> None"
    using sr_invD(2) [OF assms(1)] assms(2) unfolding claim_ok_def by blast
  then have "hm_get (sr_pending st) rid = None" "hm_get (sr_claimed st) (rid, rq_occurrence q) = None"
    using sr_invD(2) [OF assms(1)] unfolding claim_ok_def by (blast, metis)
  then show "q \<in> set (sr_unsettled None st)"
    using assms(2) i by (simp add: in_unsettled [OF assms(1)] request_for_key_def key_for_request_def)
qed

lemma unsettled_append:
  assumes "sr_order st' = sr_order st @ [new_key]" "new_key \<notin> set (sr_order st)"
    and "\<And>key. request_for_key st' key = (if key = new_key then Some r else request_for_key st key)"
  shows "sr_unsettled None st' = sr_unsettled None st @ [r]"
proof -
  have "List.map_filter (request_for_key st') (sr_order st) = List.map_filter (request_for_key st) (sr_order st)"
    using assms by (intro map_filter_cong_set) auto
  then show ?thesis using assms by (simp add: sr_unsettled_def matches_thread_def)
qed

lemma add_pending_effect:
  assumes "hm_get (sr_pending st) (rq_id r) = None" "request_for_key st (key_for_request r) = None"
    and "key_for_request r \<notin> set (sr_order st)"
    and "st' = st\<lparr>sr_order := sr_order st @ [key_for_request r],
                  sr_pending := hm_insert (rq_id r) r (sr_pending st)\<rparr>"
  shows "phase st' = (phase st)(key_for_request r := Awaiting)"
    and "sr_unsettled None st' = sr_unsettled None st @ [r]"
proof
  fix key :: server_request_key
  show "phase st' key = ((phase st)(key_for_request r := Awaiting)) key"
    using assms by (cases key) (auto simp: phase_def key_for_request_def request_for_key_def)
next
  show "sr_unsettled None st' = sr_unsettled None st @ [r]"
    using assms by (intro unsettled_append [where new_key = "key_for_request r"]) (simp_all add: rfk_add_pending)
qed

lemma add_deferred_effect:
  assumes "hm_get (sr_deferred st) (rq_id r) = None" "request_for_key st (key_for_request r) = None"
    and "key_for_request r \<notin> set (sr_order st)"
    and "st' = st\<lparr>sr_order := sr_order st @ [key_for_request r],
                  sr_deferred := hm_insert (rq_id r) r (sr_deferred st)\<rparr>"
  shows "phase st' = (phase st)(key_for_request r := Queued)"
    and "sr_unsettled None st' = sr_unsettled None st @ [r]"
proof
  fix key :: server_request_key
  show "phase st' key = ((phase st)(key_for_request r := Queued)) key"
    using assms by (cases key) (auto simp: phase_def key_for_request_def request_for_key_def)
next
  show "sr_unsettled None st' = sr_unsettled None st @ [r]"
    using assms by (intro unsettled_append [where new_key = "key_for_request r"]) (simp_all add: rfk_add_deferred)
qed

lemma run_inv: "all_events sr_apply sr_fresh evs sr_default \<Longrightarrow> sr_inv (run_events sr_apply evs sr_default)"
  by (intro run_events_inv [where I = sr_inv and P = sr_fresh] sr_apply_inv)
    (simp_all add: sr_default_def sr_inv_empty)

text \<open>A concrete run: a request is claimed, and a different call reusing its id is deferred.\<close>

definition demo_events :: "sr_event list" where
  "demo_events =
    [EvRecord \<lparr>rq_id = IdInteger 1, rq_occurrence = [1], rq_method = lit ''m'', rq_params = JNull\<rparr>,
     EvBegin (IdInteger 1) [1],
     EvRecord \<lparr>rq_id = IdInteger 1, rq_occurrence = [2], rq_method = lit ''n'', rq_params = JNull\<rparr>]"

lemma demo_fresh: "all_events sr_apply sr_fresh demo_events sr_default"
  by code_simp

lemma demo_inv: "sr_inv (run_events sr_apply demo_events sr_default)"
  by (rule run_inv [OF demo_fresh])

section \<open>Properties\<close>

text \<open>C22: along every sequence of recordings (each with a fresh occurrence), claims,
  taints, resolutions and dead-generation settlements, the order list holds exactly the keys
  of the unsettled requests, each once, never more than 500; a claimed id is not pending,
  one id has at most one claim, and a request is deferred only behind a claim of another
  occurrence of its id.\<close>

theorem ledger_invariant:
  assumes "all_events sr_apply sr_fresh evs sr_default" and "st = run_events sr_apply evs sr_default"
  shows "distinct (sr_order st) \<and> length (sr_order st) \<le> 500
    \<and> set (sr_order st) = {key. phase st key \<noteq> Absent}
    \<and> (\<forall>rid occ. hm_contains (sr_claimed st) (rid, occ) \<longrightarrow> \<not> hm_contains (sr_pending st) rid)
    \<and> (\<forall>rid o1 o2. hm_contains (sr_claimed st) (rid, o1) \<longrightarrow> hm_contains (sr_claimed st) (rid, o2) \<longrightarrow> o1 = o2)
    \<and> (\<forall>rid r. hm_get (sr_deferred st) rid = Some r \<longrightarrow>
         (\<exists>occ. occ \<noteq> rq_occurrence r \<and> hm_contains (sr_claimed st) (rid, occ)))"
proof -
  have inv: "sr_inv st" using run_inv assms by simp
  have "set (sr_order st) = {key. phase st key \<noteq> Absent}"
    using order_iff_phase [OF inv] by blast
  then show ?thesis
    using sr_invD(2,3) [OF inv]
    by (simp add: order_ok_def claim_ok_def hm_contains_def MAX_UNSETTLED_SERVER_REQUESTS_def del: not_None_eq)
qed

theorem ledger_invariant_witness:
  "length (sr_order (run_events sr_apply demo_events sr_default)) \<le> 500
    \<and> sr_order (run_events sr_apply demo_events sr_default) = [(IdInteger 1, [1]), (IdInteger 1, [2])]"
proof -
  have "sr_order (run_events sr_apply demo_events sr_default) = [(IdInteger 1, [1]), (IdInteger 1, [2])]"
    by code_simp
  then show ?thesis using ledger_invariant [OF demo_fresh refl] by blast
qed

text \<open>C1: one occurrence of a server request is answered at most once: along any run of
  the ledger that does not record that occurrence anew, at most one \<open>begin_response\<close> for
  it succeeds, whatever taints, resolutions, retries and other requests interleave.\<close>

theorem answered_at_most_once:
  assumes "sr_inv st" "all_events sr_apply sr_fresh evs st" "\<forall>ev \<in> set evs. \<not> sr_records key ev"
  shows "count_events sr_apply (sr_claims key) evs st \<le> 1"
  using assms by (rule sr.claimed_at_most_once)

theorem answered_at_most_once_witness:
  "count_events sr_apply (sr_claims (IdInteger 1, [2]))
     [EvResolve (IdInteger 1) [1], EvBegin (IdInteger 1) [2], EvBegin (IdInteger 1) [2]]
     (run_events sr_apply demo_events sr_default) \<le> 1"
  by (rule answered_at_most_once [OF demo_inv]) code_simp+

text \<open>\<open>unsettled\<close> lists every unsettled request exactly once, in order of arrival, and
  is empty exactly when \<open>has_unsettled\<close> is false; \<open>pending\<close> lists those of them whose
  answer can still be claimed.\<close>

theorem unsettled_complete:
  assumes "sr_inv st"
  shows "map key_for_request (sr_unsettled None st) = sr_order st
    \<and> distinct (map key_for_request (sr_unsettled None st))
    \<and> (sr_has_unsettled st \<longleftrightarrow> sr_unsettled None st \<noteq> [])
    \<and> (\<forall>r. r \<in> set (sr_pending_requests None st) \<longleftrightarrow>
         r \<in> set (sr_unsettled None st) \<and> is_ok (response_candidate (rq_id r) (rq_occurrence r) st))"
proof -
  have "sr_unsettled None st \<noteq> [] \<longleftrightarrow> sr_order st \<noteq> []"
    using unsettled_keys [OF assms] by (metis map_is_Nil_conv)
  then show ?thesis
    using unsettled_keys [OF assms] has_unsettled_order [OF assms] pending_is_awaiting [OF assms]
      sr_invD(3) [OF assms]
    by (simp add: order_ok_def candidate_ok_phase flip: key_for_request_def)
qed

theorem unsettled_complete_witness:
  "distinct (map key_for_request (sr_unsettled None (run_events sr_apply demo_events sr_default)))
    \<and> sr_has_unsettled (run_events sr_apply demo_events sr_default)"
proof -
  have "sr_has_unsettled (run_events sr_apply demo_events sr_default)" by code_simp
  then show ?thesis using unsettled_complete [OF demo_inv] by blast
qed

text \<open>\<open>record\<close> of a request whose occurrence is new answers on every branch as the
  ledger says: a retry of the pending or claimed call is a duplicate and changes nothing,
  a different call under a pending id is a conflict, a different call under a claimed id is
  deferred (once), a full ledger is saturated, and otherwise the request is broadcast and
  becomes the last pending one.\<close>

theorem record_branches:
  assumes "sr_inv st" "key_for_request r \<notin> set (sr_order st)"
  shows "case sr_record r st of
      Inr (Duplicate, st') \<Rightarrow> st' = st \<and> (\<exists>q \<in> set (sr_unsettled None st).
          rq_id q = rq_id r \<and> same_call q r \<and> phase st (key_for_request q) \<noteq> Queued)
    | Inr (Deferred, st') \<Rightarrow> (\<exists>occ. phase st (rq_id r, occ) \<in> {InFlight, Unknown}) \<and>
          (st' = st \<and> (\<exists>q. hm_get (sr_deferred st) (rq_id r) = Some q \<and> same_call q r)
           \<or> phase st' = (phase st)(key_for_request r := Queued)
             \<and> sr_unsettled None st' = sr_unsettled None st @ [r])
    | Inr (Broadcast q, st') \<Rightarrow> q = r \<and> phase st' = (phase st)(key_for_request r := Awaiting)
          \<and> sr_unsettled None st' = sr_unsettled None st @ [r]
    | Inl (Saturated rid) \<Rightarrow> rid = rq_id r \<and> length (sr_order st) = 500
    | Inl (Conflict rid) \<Rightarrow> rid = rq_id r \<and> (\<exists>q \<in> set (sr_unsettled None st). rq_id q = rid \<and> \<not> same_call q r)"
proof -
  have fresh: "request_for_key st (key_for_request r) = None"
    using assms by (simp add: sr_inv_def order_ok_def)
  have full: "length (sr_order st) \<le> 500"
    using sr_invD(3) [OF assms(1)] by (simp add: order_ok_def MAX_UNSETTLED_SERVER_REQUESTS_def)
  note effects = add_pending_effect [OF _ fresh assms(2) refl] add_deferred_effect [OF _ fresh assms(2) refl]
  show ?thesis
  proof (cases "hm_get (sr_pending st) (rq_id r)")
    case (Some q)
    then show ?thesis
      using pending_in_unsettled [OF assms(1) Some] by (auto simp: sr_record_def Let_def)
  next
    case None
    show ?thesis
    proof (cases "find (\<lambda>c. rq_id (cl_request c) = rq_id r) (hm_values (sr_claimed st))")
      case find: None
      then show ?thesis
        using None effects(1,2) full
        by (auto simp: sr_record_def Let_def ensure_capacity_def MAX_UNSETTLED_SERVER_REQUESTS_def)
    next
      case find: (Some c)
      note claim = claimed_in_unsettled [OF assms(1) claimed_find_Some [OF sr_invD(1) [OF assms(1)] find]]
      have ph: "\<exists>occ. phase st (rq_id r, occ) = InFlight \<or> phase st (rq_id r, occ) = Unknown"
        using claim(3) by auto
      have cid: "rq_id (cl_request c) = rq_id r" "phase st (key_for_request (cl_request c)) \<noteq> Queued"
        using claim(2,3) by (auto simp: key_for_request_def)
      show ?thesis
      proof (cases "hm_get (sr_deferred st) (rq_id r)")
        case (Some q)
        then show ?thesis
          using None find claim(1) cid ph deferred_in_unsettled [OF assms(1) Some]
          by (auto simp: sr_record_def Let_def)
      next
        case none: None
        then show ?thesis
          using None find claim(1) cid ph effects(3,4) full
          by (auto simp: sr_record_def Let_def ensure_capacity_def MAX_UNSETTLED_SERVER_REQUESTS_def)
      qed
    qed
  qed
qed

theorem record_branches_witness:
  "\<exists>q st'. sr_record \<lparr>rq_id = IdString (lit ''x''), rq_occurrence = [3], rq_method = lit ''m'', rq_params = JNull\<rparr>
      (run_events sr_apply demo_events sr_default) = Inr (Broadcast q, st')
    \<and> phase st' (IdString (lit ''x''), [3]) = Awaiting"
proof -
  let ?r = "\<lparr>rq_id = IdString (lit ''x''), rq_occurrence = [3], rq_method = lit ''m'', rq_params = JNull\<rparr>"
  let ?st = "run_events sr_apply demo_events sr_default"
  have "case sr_record ?r ?st of Inr (Broadcast q, _) \<Rightarrow> True | _ \<Rightarrow> False" by code_simp
  then obtain q st' where rec: "sr_record ?r ?st = Inr (Broadcast q, st')"
    by (auto split: sum.splits server_request_record_outcome.splits)
  moreover have "key_for_request ?r \<notin> set (sr_order ?st)" by code_simp
  ultimately have "phase st' = (phase ?st)(key_for_request ?r := Awaiting)"
    using record_branches [OF demo_inv, of ?r] by simp
  then show ?thesis using rec by (auto simp: key_for_request_def)
qed

end
