(* ===== verification/Ordering.thy ===== *)
theory Ordering
  imports Rpc "HOL-Library.Product_Lexorder" "HOL-Library.Multiset"
begin

text \<open>
  Rust's \<open>std::cmp::Ordering\<close>, \<open>then_with\<close> and the stable \<open>sort_by\<close>, and the total
  order on request ids that \<open>cdr-app-server/src/state/dead_generation.rs\<close> sorts by.
\<close>

datatype ordering = OLess | OEqual | OGreater

definition cmp :: "'a::linorder \<Rightarrow> 'a \<Rightarrow> ordering" where
  "cmp a b = (if a < b then OLess else if a = b then OEqual else OGreater)"

definition then_with :: "ordering \<Rightarrow> ordering \<Rightarrow> ordering" where
  "then_with x y = (if x = OEqual then y else x)"

fun insert_by :: "('a \<Rightarrow> 'a \<Rightarrow> ordering) \<Rightarrow> 'a \<Rightarrow> 'a list \<Rightarrow> 'a list" where
  "insert_by c x [] = [x]"
| "insert_by c x (y # ys) = (if c x y = OGreater then y # insert_by c x ys else x # y # ys)"

definition sort_by :: "('a \<Rightarrow> 'a \<Rightarrow> ordering) \<Rightarrow> 'a list \<Rightarrow> 'a list" where
  "sort_by c xs = foldr (insert_by c) xs []"

lemma cmp_OGreater [simp]: "cmp a b = OGreater \<longleftrightarrow> b < a" for a b :: "'a::linorder"
  by (auto simp: cmp_def)

lemma cmp_OEqual [simp]: "cmp a b = OEqual \<longleftrightarrow> a = b" for a b :: "'a::linorder"
  by (auto simp: cmp_def)

lemma cmp_lex: "then_with (cmp a c) (cmp b d) = cmp (a, b) (c, d)" for a c :: "'a::linorder" and b d :: "'b::linorder"
  by (auto simp: then_with_def cmp_def)

text \<open>A comparison by a key is the library's stable \<open>sort_key\<close>.\<close>

lemma insert_by_key:
  fixes f :: "'a \<Rightarrow> 'b::linorder"
  assumes "\<And>a b. c a b = cmp (f a) (f b)"
  shows "insert_by c x ys = insort_key f x ys"
  by (induction ys) (auto simp: assms not_le)

lemma sort_by_key:
  fixes f :: "'a \<Rightarrow> 'b::linorder"
  assumes "\<And>a b. c a b = cmp (f a) (f b)"
  shows "sort_by c xs = sort_key f xs"
proof -
  have "insert_by c = insort_key f" by (intro ext insert_by_key assms)
  then show ?thesis by (simp add: sort_by_def sort_key_def)
qed

lemma sort_key_canonical:
  fixes f :: "'a \<Rightarrow> 'b::linorder"
  assumes "mset xs = mset ys" "distinct (map f xs)"
  shows "sort_key f xs = sort_key f ys"
proof -
  have "inj_on f (set xs)" "set xs = set ys"
    using assms by (auto simp: distinct_map dest: mset_eq_setD)
  moreover have "sorted (map f (sort_key f ys))" "mset (sort_key f ys) = mset xs"
    using assms(1) by simp_all
  ultimately show ?thesis
    using properties_for_sort_key [of "sort_key f ys" xs f] assms
    by (metis (no_types, lifting) filter_cong sorted_sort_key sort_key_eq_sort_key mset_sort properties_for_sort_key)
qed

section \<open>The order of request ids\<close>

definition compare_request_id :: "request_id \<Rightarrow> request_id \<Rightarrow> ordering" where
  "compare_request_id l r = (case (l, r) of
      (IdInteger a, IdInteger b) \<Rightarrow> cmp a b
    | (IdString a, IdString b) \<Rightarrow> cmp a b
    | (IdInteger _, IdString _) \<Rightarrow> OLess
    | (IdString _, IdInteger _) \<Rightarrow> OGreater)"

instantiation request_id :: linorder
begin

definition less_eq_request_id :: "request_id \<Rightarrow> request_id \<Rightarrow> bool" where
  "less_eq_request_id a b = (compare_request_id a b \<noteq> OGreater)"

definition less_request_id :: "request_id \<Rightarrow> request_id \<Rightarrow> bool" where
  "less_request_id a b = (compare_request_id a b = OLess)"

instance
proof
  fix a b c :: request_id
  show "a < b \<longleftrightarrow> a \<le> b \<and> \<not> b \<le> a"
    by (cases a; cases b) (auto simp: less_eq_request_id_def less_request_id_def compare_request_id_def cmp_def)
  show "a \<le> a" by (cases a) (auto simp: less_eq_request_id_def compare_request_id_def)
  show "a \<le> b \<Longrightarrow> b \<le> c \<Longrightarrow> a \<le> c"
    by (cases a; cases b; cases c) (auto simp: less_eq_request_id_def compare_request_id_def)
  show "a \<le> b \<Longrightarrow> b \<le> a \<Longrightarrow> a = b"
    by (cases a; cases b) (auto simp: less_eq_request_id_def compare_request_id_def)
  show "a \<le> b \<or> b \<le> a"
    by (cases a; cases b) (auto simp: less_eq_request_id_def compare_request_id_def)
qed

end

lemma compare_request_id_cmp: "compare_request_id a b = cmp a b"
  by (cases a; cases b) (auto simp: cmp_def less_request_id_def compare_request_id_def)

end
