(* ===== verification/Runtime_State.thy ===== *)
theory Runtime_State
  imports Server_Requests Ordering
begin

text \<open>
  The observed state of one app-server process (\<open>cdr-app-server/src/state.rs\<close> and its
  submodules): lifecycle facts, the active turn of each thread, the bounded notification
  log with its revision, the idle-observation cursor, the paged observation window, the
  thread settings last observed, and the work a dead generation leaves behind. The writes
  of \<open>serde_json::to_writer\<close> for a value are the parameter \<open>chunks\<close>: the sizes of
  the successive writes of its text.
\<close>

section \<open>State\<close>

definition MAX_NOTIFICATIONS :: nat where
  "MAX_NOTIFICATIONS = 1000"

definition APPROVAL_REQUEST_METHODS :: "rstr list" where
  "APPROVAL_REQUEST_METHODS = map lit
    [''item/commandExecution/requestApproval'', ''item/fileChange/requestApproval'',
     ''item/permissions/requestApproval'', ''execCommandApproval'', ''applyPatchApproval'']"

definition INPUT_REQUEST_METHOD :: rstr where
  "INPUT_REQUEST_METHOD = lit ''item/tool/requestUserInput''"

definition MCP_ELICITATION_REQUEST_METHOD :: rstr where
  "MCP_ELICITATION_REQUEST_METHOD = lit ''mcpServer/elicitation/request''"

record lifecycle_snapshot =
  ls_generation :: nat
  ls_healthy :: bool
  ls_initialized :: bool
  ls_process_id :: "nat option"
  ls_closed_reason :: "rstr option"

record runtime_state =
  rt_generation :: nat
  rt_initialized :: bool
  rt_process_id :: "nat option"
  rt_closed_reason :: "rstr option"
  rt_active_turns :: "(rstr, rstr) hmap"
  rt_notifications :: "notification list"
  rt_notification_revision :: nat
  rt_sequence_exhausted :: bool
  rt_idle_ledger_required :: bool
  rt_idle_ledger_revision :: "nat option"
  rt_idle_observed_revision :: nat
  rt_idle_observation_gap :: bool
  rt_process_exit_confirmed :: bool
  rt_server_requests :: server_request_state

definition starting :: "nat option \<Rightarrow> runtime_state" where
  "starting process_id = \<lparr>rt_generation = 0, rt_initialized = False, rt_process_id = process_id,
     rt_closed_reason = None, rt_active_turns = [], rt_notifications = [],
     rt_notification_revision = 0, rt_sequence_exhausted = False, rt_idle_ledger_required = False,
     rt_idle_ledger_revision = None, rt_idle_observed_revision = 0, rt_idle_observation_gap = False,
     rt_process_exit_confirmed = False, rt_server_requests = sr_default\<rparr>"

definition snapshot :: "runtime_state \<Rightarrow> lifecycle_snapshot" where
  "snapshot rt = \<lparr>ls_generation = rt_generation rt,
     ls_healthy = (rt_initialized rt \<and> rt_closed_reason rt = None \<and> rt_process_id rt \<noteq> None),
     ls_initialized = rt_initialized rt, ls_process_id = rt_process_id rt,
     ls_closed_reason = rt_closed_reason rt\<rparr>"

section \<open>Notifications\<close>

definition bump_revision :: "runtime_state \<Rightarrow> runtime_state" where
  "bump_revision rt = (case checked_add64 (rt_notification_revision rt) 1 of
      Some next_rev \<Rightarrow> rt\<lparr>rt_notification_revision := next_rev\<rparr>
    | None \<Rightarrow> rt\<lparr>rt_sequence_exhausted := True\<rparr>)"

definition track_turn :: "notification \<Rightarrow> (rstr, rstr) hmap \<Rightarrow> (rstr, rstr) hmap" where
  "track_turn n active =
    (if nt_method n = lit ''turn/started'' then
       (case (extract_thread_id (nt_params n), extract_turn_id (nt_params n)) of
          (Some thread_id, Some turn_id) \<Rightarrow> hm_insert thread_id turn_id active
        | _ \<Rightarrow> active)
     else if nt_method n = lit ''turn/completed'' then
       (case (extract_thread_id (nt_params n), extract_turn_id (nt_params n)) of
          (Some thread_id, Some turn_id) \<Rightarrow>
            if hm_get active thread_id = Some turn_id then hm_remove thread_id active else active
        | _ \<Rightarrow> active)
     else active)"

definition record_notification :: "notification \<Rightarrow> runtime_state \<Rightarrow> runtime_state" where
  "record_notification n rt =
    (let rt1 = bump_revision rt;
         rt2 = rt1\<lparr>rt_active_turns := track_turn n (rt_active_turns rt1)\<rparr>
     in rt2\<lparr>rt_notifications := push_bounded MAX_NOTIFICATIONS n (rt_notifications rt2)\<rparr>)"

section \<open>Server requests\<close>

definition record_server_request ::
    "server_request \<Rightarrow> runtime_state \<Rightarrow>
     (server_request_record_error, server_request_record_outcome \<times> runtime_state) result" where
  "record_server_request r rt = (case sr_record r (rt_server_requests rt) of
      Inl e \<Rightarrow> Inl e | Inr (out, st) \<Rightarrow> Inr (out, rt\<lparr>rt_server_requests := st\<rparr>))"

definition begin_server_response ::
    "request_id \<Rightarrow> occurrence \<Rightarrow> runtime_state \<Rightarrow> (app_server_error, runtime_state) result" where
  "begin_server_response rid occ rt = (case begin_response rid occ (rt_server_requests rt) of
      Inl e \<Rightarrow> Inl e | Inr st \<Rightarrow> Inr (rt\<lparr>rt_server_requests := st\<rparr>))"

definition mark_server_response_indeterminate ::
    "request_id \<Rightarrow> occurrence \<Rightarrow> runtime_state \<Rightarrow> runtime_state" where
  "mark_server_response_indeterminate rid occ rt =
    rt\<lparr>rt_server_requests := mark_indeterminate rid occ (rt_server_requests rt)\<rparr>"

definition resolve_server_request ::
    "request_id \<Rightarrow> occurrence \<Rightarrow> runtime_state \<Rightarrow>
     (app_server_error, server_request option \<times> runtime_state) result" where
  "resolve_server_request rid occ rt = (case sr_resolve rid occ (rt_server_requests rt) of
      Inl e \<Rightarrow> Inl e | Inr (p, st) \<Rightarrow> Inr (p, rt\<lparr>rt_server_requests := st\<rparr>))"

definition is_approval_request :: "server_request \<Rightarrow> bool" where
  "is_approval_request r = (rq_method r \<in> set APPROVAL_REQUEST_METHODS
    \<or> (rq_method r = MCP_ELICITATION_REQUEST_METHOD \<and> jget_str (rq_params r) ''mode'' = Some (lit ''url'')))"

definition latest_approval_request :: "rstr \<Rightarrow> runtime_state \<Rightarrow> server_request option" where
  "latest_approval_request thread_id rt =
    find is_approval_request (rev (sr_pending_requests (Some thread_id) (rt_server_requests rt)))"

definition latest_input_request :: "rstr \<Rightarrow> runtime_state \<Rightarrow> server_request option" where
  "latest_input_request thread_id rt =
    find (\<lambda>r. rq_method r = INPUT_REQUEST_METHOD)
      (rev (sr_pending_requests (Some thread_id) (rt_server_requests rt)))"

definition active_turn_id :: "rstr \<Rightarrow> runtime_state \<Rightarrow> rstr option" where
  "active_turn_id thread_id rt = hm_get (rt_active_turns rt) thread_id"

definition has_active_turns :: "runtime_state \<Rightarrow> bool" where
  "has_active_turns rt = (rt_active_turns rt \<noteq> [])"

section \<open>Idle observation (\<open>idle_observation.rs\<close>)\<close>

text \<open>The list lookup with an index: \<open>VecDeque::get\<close>.\<close>

definition nth_opt :: "'a list \<Rightarrow> nat \<Rightarrow> 'a option" where
  "nth_opt xs i = (if i < length xs then Some (xs ! i) else None)"

definition confirm_idle_observation :: "notification \<Rightarrow> runtime_state \<Rightarrow> bool \<times> runtime_state" where
  "confirm_idle_observation n rt =
    (if rt_sequence_exhausted rt then (False, rt)
     else let first = (rt_notification_revision rt - length (rt_notifications rt)) + 1;
              next_rev = rt_idle_observed_revision rt + 1
          in if next_rev < first then (False, rt\<lparr>rt_idle_observation_gap := True\<rparr>)
             else if nth_opt (rt_notifications rt) (next_rev - first) \<noteq> Some n
             then (False, rt\<lparr>rt_idle_observation_gap := True\<rparr>)
             else (True, rt\<lparr>rt_idle_observed_revision := next_rev\<rparr>))"

definition idle_observations_caught_up :: "runtime_state \<Rightarrow> bool" where
  "idle_observations_caught_up rt = (\<not> rt_sequence_exhausted rt \<and>
    (if rt_idle_ledger_required rt then rt_idle_ledger_revision rt = Some (rt_notification_revision rt)
     else \<not> rt_idle_observation_gap rt \<and> rt_idle_observed_revision rt = rt_notification_revision rt))"

definition witnessed_idle_terminal :: "rstr \<Rightarrow> rstr \<Rightarrow> runtime_state \<Rightarrow> bool" where
  "witnessed_idle_terminal thread turn rt =
    (case find (\<lambda>n. nt_method n \<in> {lit ''turn/started'', lit ''turn/completed''}
                 \<and> extract_thread_id (nt_params n) = Some thread) (rev (rt_notifications rt)) of
       None \<Rightarrow> False
     | Some n \<Rightarrow> nt_method n = lit ''turn/completed'' \<and> extract_turn_id (nt_params n) = Some turn)"

section \<open>Observation window (\<open>observation_window.rs\<close>, \<open>observation.rs\<close>)\<close>

definition OBSERVATION_PAGE_SIZE :: nat where
  "OBSERVATION_PAGE_SIZE = 32"

definition OBSERVATION_PAGE_BYTES :: nat where
  "OBSERVATION_PAGE_BYTES = 2 * 1024 * 1024"

record source_observation =
  ob_sequence :: nat
  ob_notification :: "notification option"

record observation_window =
  ow_owner_id :: rstr
  ow_generation :: nat
  ow_first_available :: nat
  ow_source_upper :: nat
  ow_upper :: nat
  ow_scanned_through :: nat
  ow_events :: "source_observation list"

text \<open>The counting writer \<open>Budget\<close>: a write that would pass the limit (or overflow the
  counter) fails and ends the serialisation.\<close>

definition budget_write :: "nat \<Rightarrow> nat \<Rightarrow> nat \<Rightarrow> nat option" where
  "budget_write limit used n = (case checked_add64 used n of
      None \<Rightarrow> None | Some next_used \<Rightarrow> if next_used > limit then None else Some next_used)"

fun budget_write_all :: "nat \<Rightarrow> nat \<Rightarrow> nat list \<Rightarrow> nat option" where
  "budget_write_all limit used [] = Some used"
| "budget_write_all limit used (n # ns) = (case budget_write limit used n of
      None \<Rightarrow> None | Some used' \<Rightarrow> budget_write_all limit used' ns)"

text \<open>The loop over the log; \<open>seq\<close> is the sequence number of the head of the remaining
  log, \<open>page\<close> the page so far.\<close>

fun observe_loop ::
    "(json \<Rightarrow> nat list) \<Rightarrow> nat \<Rightarrow> nat \<Rightarrow> nat \<Rightarrow> notification list \<Rightarrow> nat \<Rightarrow>
     observation_window \<Rightarrow> observation_window" where
  "observe_loop chunks begin_seq upper seq [] used page = page"
| "observe_loop chunks begin_seq upper seq (n # ns) used page =
    (if seq < begin_seq then observe_loop chunks begin_seq upper (seq + 1) ns used page
     else if seq > upper \<or> length (ow_events page) \<ge> OBSERVATION_PAGE_SIZE then page
     else
       (case budget_write_all OBSERVATION_PAGE_BYTES (used + byte_len (nt_method n)) (chunks (nt_params n)) of
          Some used' \<Rightarrow> observe_loop chunks begin_seq upper (seq + 1) ns used'
            (page\<lparr>ow_events := ow_events page @ [\<lparr>ob_sequence = seq, ob_notification = Some n\<rparr>],
                  ow_scanned_through := seq\<rparr>)
        | None \<Rightarrow> observe_loop chunks begin_seq upper (seq + 1) ns used
            (page\<lparr>ow_events := ow_events page @ [\<lparr>ob_sequence = seq, ob_notification = None\<rparr>],
                  ow_scanned_through := seq\<rparr>)))"

definition held :: "string \<Rightarrow> app_server_error" where
  "held message = IdleRelease (lit message)"

definition observation_window ::
    "(json \<Rightarrow> nat list) \<Rightarrow> nat \<Rightarrow> nat option \<Rightarrow> runtime_state \<Rightarrow>
     (app_server_error, observation_window) result" where
  "observation_window chunks after upper_opt rt =
    (if rt_sequence_exhausted rt then Inl (held ''source sequence exhausted'')
     else let upper = (case upper_opt of None \<Rightarrow> rt_notification_revision rt | Some u \<Rightarrow> u)
          in if upper > rt_notification_revision rt \<or> after > upper
             then Inl (held ''invalid observation window'')
             else let first = rt_notification_revision rt - length (rt_notifications rt) + 1;
                      begin_seq = max (sat_add64 after 1) first;
                      page = \<lparr>ow_owner_id = [], ow_generation = 0, ow_first_available = first,
                              ow_source_upper = rt_notification_revision rt, ow_upper = upper,
                              ow_scanned_through = min upper (begin_seq - 1), ow_events = []\<rparr>
                  in Inr (observe_loop chunks begin_seq upper first (rt_notifications rt) 0 page))"

definition certify_observation_prefix :: "nat \<Rightarrow> runtime_state \<Rightarrow> bool \<times> runtime_state" where
  "certify_observation_prefix through rt =
    (if rt_sequence_exhausted rt \<or> through > rt_notification_revision rt then (False, rt)
     else (True, rt\<lparr>rt_idle_ledger_revision := Some through, rt_idle_observation_gap := False\<rparr>))"

section \<open>Observed settings (\<open>settings.rs\<close>)\<close>

definition is_unload :: "notification \<Rightarrow> bool" where
  "is_unload n = (nt_method n = lit ''thread/closed''
    \<or> (nt_method n = lit ''thread/status/changed''
       \<and> Option.bind (jget (nt_params n) ''status'') (\<lambda>s. jget_str s ''type'') = Some (lit ''notLoaded'')))"

text \<open>The scan runs from the newest notification; \<open>offset\<close> counts the entries passed.\<close>

fun settings_scan :: "rstr \<Rightarrow> nat \<Rightarrow> nat \<Rightarrow> notification list \<Rightarrow> (nat \<times> json) option" where
  "settings_scan thread revision offset [] = None"
| "settings_scan thread revision offset (n # ns) =
    (if extract_thread_id (nt_params n) \<noteq> Some thread then settings_scan thread revision (offset + 1) ns
     else if is_unload n then None
     else if nt_method n = lit ''thread/settings/updated''
     then Some (revision - offset,
                (case jget (nt_params n) ''threadSettings'' of None \<Rightarrow> JNull | Some v \<Rightarrow> v))
     else settings_scan thread revision (offset + 1) ns)"

definition observed_thread_settings :: "rstr \<Rightarrow> runtime_state \<Rightarrow> (nat \<times> json) option" where
  "observed_thread_settings thread rt =
    (if rt_closed_reason rt \<noteq> None then None
     else settings_scan thread (rt_notification_revision rt) 0 (rev (rt_notifications rt)))"

section \<open>Work of a dead generation (\<open>dead_generation.rs\<close>)\<close>

record dead_active_turn =
  dt_thread_id :: rstr
  dt_turn_id :: rstr

record dead_generation_work =
  dw_generation :: nat
  dw_closed_reason :: rstr
  dw_active_turns :: "dead_active_turn list"
  dw_server_requests :: "server_request list"

definition compare_active_turn :: "dead_active_turn \<Rightarrow> dead_active_turn \<Rightarrow> ordering" where
  "compare_active_turn l r =
    then_with (cmp (dt_thread_id l) (dt_thread_id r)) (cmp (dt_turn_id l) (dt_turn_id r))"

text \<open>\<open>DeadServerRequest\<close> has the four fields of a \<open>ServerRequest\<close>; \<open>request_identity\<close>
  copies them.\<close>

definition compare_request_identity :: "server_request \<Rightarrow> server_request \<Rightarrow> ordering" where
  "compare_request_identity l r =
    then_with (compare_request_id (rq_id l) (rq_id r)) (cmp (rq_occurrence l) (rq_occurrence r))"

definition dead_generation_work :: "nat \<Rightarrow> runtime_state \<Rightarrow> dead_generation_work option" where
  "dead_generation_work generation rt = (case rt_closed_reason rt of
      None \<Rightarrow> None
    | Some reason \<Rightarrow> Some \<lparr>dw_generation = generation, dw_closed_reason = reason,
        dw_active_turns = sort_by compare_active_turn
          (map (\<lambda>(th, tu). \<lparr>dt_thread_id = th, dt_turn_id = tu\<rparr>) (rt_active_turns rt)),
        dw_server_requests = sort_by compare_request_identity
          (sr_unsettled None (rt_server_requests rt))\<rparr>)"

definition settle_dead_generation_after_exact_match :: "runtime_state \<Rightarrow> runtime_state" where
  "settle_dead_generation_after_exact_match rt =
    rt\<lparr>rt_active_turns := [], rt_server_requests := sr_settle_dead_generation (rt_server_requests rt)\<rparr>"

section \<open>Invariant\<close>

definition rt_inv :: "runtime_state \<Rightarrow> bool" where
  "rt_inv rt = (length (rt_notifications rt) \<le> MAX_NOTIFICATIONS
    \<and> length (rt_notifications rt) \<le> rt_notification_revision rt
    \<and> rt_notification_revision rt \<le> u64_max
    \<and> rt_idle_observed_revision rt \<le> rt_notification_revision rt
    \<and> (\<forall>r. rt_idle_ledger_revision rt = Some r \<longrightarrow> r \<le> rt_notification_revision rt)
    \<and> hm_wf (rt_active_turns rt) \<and> sr_inv (rt_server_requests rt))"

lemma rt_invD:
  assumes "rt_inv rt"
  shows "length (rt_notifications rt) \<le> MAX_NOTIFICATIONS"
    "length (rt_notifications rt) \<le> rt_notification_revision rt"
    "rt_notification_revision rt \<le> u64_max"
    "rt_idle_observed_revision rt \<le> rt_notification_revision rt"
    "hm_wf (rt_active_turns rt)" "sr_inv (rt_server_requests rt)"
  using assms by (auto simp: rt_inv_def)

lemma starting_inv [inv_intros]: "rt_inv (starting p)"
  by (simp add: rt_inv_def starting_def sr_default_def sr_inv_empty)

lemma hm_wf_track_turn: "hm_wf active \<Longrightarrow> hm_wf (track_turn n active)"
  by (auto simp: track_turn_def split: option.splits)

lemma nth_opt_Some: "nth_opt xs i = Some x \<longleftrightarrow> i < length xs \<and> xs ! i = x"
  by (auto simp: nth_opt_def)

lemma record_notification_fields [simp]:
  "rt_closed_reason (record_notification n rt) = rt_closed_reason rt"
  "rt_process_id (record_notification n rt) = rt_process_id rt"
  "rt_initialized (record_notification n rt) = rt_initialized rt"
  "rt_generation (record_notification n rt) = rt_generation rt"
  "rt_server_requests (record_notification n rt) = rt_server_requests rt"
  "rt_idle_observed_revision (record_notification n rt) = rt_idle_observed_revision rt"
  "rt_idle_ledger_revision (record_notification n rt) = rt_idle_ledger_revision rt"
  "rt_active_turns (record_notification n rt) = track_turn n (rt_active_turns rt)"
  "rt_notifications (record_notification n rt) = push_bounded MAX_NOTIFICATIONS n (rt_notifications rt)"
  "rt_notification_revision (record_notification n rt) =
     (if rt_notification_revision rt < u64_max then Suc (rt_notification_revision rt)
      else rt_notification_revision rt)"
  "rt_sequence_exhausted (record_notification n rt) =
     (rt_sequence_exhausted rt \<or> u64_max \<le> rt_notification_revision rt)"
  by (auto simp: record_notification_def bump_revision_def Let_def split: option.splits)

lemma record_notification_inv [inv_intros]:
  assumes "rt_inv rt" shows "rt_inv (record_notification n rt)"
  using assms length_push_bounded_eq [OF rt_invD(1) [OF assms], of n]
  by (auto simp: rt_inv_def hm_wf_track_turn MAX_NOTIFICATIONS_def u64_max_def)

lemma confirm_idle_inv [inv_intros]:
  "rt_inv rt \<Longrightarrow> rt_inv (snd (confirm_idle_observation n rt))"
  by (auto simp: confirm_idle_observation_def Let_def rt_inv_def nth_opt_def split: if_splits)

lemma certify_inv [inv_intros]: "rt_inv rt \<Longrightarrow> rt_inv (snd (certify_observation_prefix t rt))"
  by (auto simp: certify_observation_prefix_def rt_inv_def)

lemma record_server_request_inv [inv_intros]:
  "rt_inv rt \<Longrightarrow> key_for_request r \<notin> set (sr_order (rt_server_requests rt)) \<Longrightarrow>
    record_server_request r rt = Inr (out, rt') \<Longrightarrow> rt_inv rt'"
  by (auto simp: record_server_request_def rt_inv_def intro: sr_record_inv split: sum.splits prod.splits)

lemma begin_server_response_inv [inv_intros]:
  "rt_inv rt \<Longrightarrow> begin_server_response rid occ rt = Inr rt' \<Longrightarrow> rt_inv rt'"
  by (auto simp: begin_server_response_def rt_inv_def intro: begin_inv split: sum.splits)

lemma mark_server_response_inv [inv_intros]:
  "rt_inv rt \<Longrightarrow> rt_inv (mark_server_response_indeterminate rid occ rt)"
  by (auto simp: mark_server_response_indeterminate_def rt_inv_def intro: mark_inv)

lemma resolve_server_request_inv [inv_intros]:
  "rt_inv rt \<Longrightarrow> resolve_server_request rid occ rt = Inr (p, rt') \<Longrightarrow> rt_inv rt'"
  by (auto simp: resolve_server_request_def rt_inv_def intro: resolve_inv split: sum.splits prod.splits)

lemma settle_dead_inv [inv_intros]: "rt_inv rt \<Longrightarrow> rt_inv (settle_dead_generation_after_exact_match rt)"
  by (auto simp: settle_dead_generation_after_exact_match_def rt_inv_def settle_inv)

section \<open>The observation window\<close>

lemma observe_loop_skip:
  "observe_loop chunks b u seq ns used page =
    observe_loop chunks b u (seq + min (b - seq) (length ns)) (drop (b - seq) ns) used page"
proof (induction ns arbitrary: seq)
  case (Cons n ns)
  show ?case
  proof (cases "seq < b")
    case True
    then have "min (b - seq) (length (n # ns)) = Suc (min (b - Suc seq) (length ns))"
      and "b - seq = Suc (b - Suc seq)" by auto
    then show ?thesis using True Cons.IH [of "Suc seq"] by simp
  qed simp
qed simp

definition window_step_ok :: "nat \<Rightarrow> nat \<Rightarrow> observation_window \<Rightarrow> bool" where
  "window_step_ok b upper w =
    (map ob_sequence (ow_events w) = [b..<Suc (ow_scanned_through w)]
     \<and> ow_scanned_through w \<le> upper \<and> length (ow_events w) \<le> OBSERVATION_PAGE_SIZE)"

lemma observe_loop_window:
  assumes "window_step_ok b upper page" "b \<le> seq" "seq = Suc (ow_scanned_through page)"
    and "upper < seq + length ns"
    and "w = observe_loop chunks b upper seq ns used page"
  shows "window_step_ok b upper w \<and> ow_scanned_through page \<le> ow_scanned_through w
    \<and> (ow_scanned_through w < upper \<longrightarrow> length (ow_events w) = OBSERVATION_PAGE_SIZE)"
  using assms
proof (induction ns arbitrary: seq used page)
  case Nil
  then show ?case by (simp add: window_step_ok_def)
next
  case (Cons n ns)
  show ?case
  proof (cases "seq > upper \<or> length (ow_events page) \<ge> OBSERVATION_PAGE_SIZE")
    case True
    then have "w = page" using Cons.prems by simp
    then show ?thesis using Cons.prems True by (auto simp: window_step_ok_def)
  next
    case False
    define page' where "page' note_opt = page\<lparr>ow_events := ow_events page @
        [\<lparr>ob_sequence = seq, ob_notification = note_opt\<rparr>], ow_scanned_through := seq\<rparr>" for note_opt
    have ok: "window_step_ok b upper (page' note_opt)" for note_opt
      using Cons.prems(1-3) False by (simp add: page'_def window_step_ok_def)
    obtain used' note_opt where "w = observe_loop chunks b upper (seq + 1) ns used' (page' note_opt)"
      using Cons.prems(2,5) False by (auto simp: page'_def split: option.splits)
    moreover have "ow_scanned_through (page' note_opt) = seq" by (simp add: page'_def)
    ultimately show ?thesis
      using Cons.IH [OF ok, of "seq + 1" note_opt used'] Cons.prems by auto
  qed
qed

lemma observe_loop_content:
  assumes "e \<in> set (ow_events (observe_loop chunks b upper seq ns used page))"
    and "ob_notification e = Some n"
  shows "e \<in> set (ow_events page) \<or> (\<exists>i < length ns. ob_sequence e = seq + i \<and> ns ! i = n)"
  using assms(1)
proof (induction ns arbitrary: seq used page)
  case (Cons m ns)
  have shift: "(\<exists>i < length ns. ob_sequence e = Suc seq + i \<and> ns ! i = n) \<Longrightarrow>
      (\<exists>i < length (m # ns). ob_sequence e = seq + i \<and> (m # ns) ! i = n)"
    by (metis Suc_less_eq add_Suc_shift length_Cons nth_Cons_Suc)
  consider (skip) "seq < b" | (stop) "\<not> seq < b" "seq > upper \<or> length (ow_events page) \<ge> OBSERVATION_PAGE_SIZE"
    | (take) "\<not> seq < b" "\<not> (seq > upper \<or> length (ow_events page) \<ge> OBSERVATION_PAGE_SIZE)" by blast
  then show ?case
  proof cases
    case skip
    then show ?thesis using Cons.IH [of "Suc seq" used page] Cons.prems shift by auto
  next
    case stop
    then show ?thesis using Cons.prems by simp
  next
    case take
    define page' where "page' note_opt = page\<lparr>ow_events := ow_events page @
        [\<lparr>ob_sequence = seq, ob_notification = note_opt\<rparr>], ow_scanned_through := seq\<rparr>" for note_opt
    obtain used' note_opt where loop: "e \<in> set (ow_events (observe_loop chunks b upper (Suc seq) ns used' (page' note_opt)))"
      and note_opt: "note_opt = None \<or> note_opt = Some m"
      using Cons.prems take by (auto simp: page'_def split: option.splits)
    have "e \<in> set (ow_events (page' note_opt)) \<Longrightarrow>
        e \<in> set (ow_events page) \<or> ob_sequence e = seq + 0 \<and> (m # ns) ! 0 = n"
      using note_opt assms(2) by (auto simp: page'_def)
    then show ?thesis using Cons.IH [OF loop] shift by (metis length_greater_0_conv list.distinct(1))
  qed
qed simp

lemma observe_loop_fields:
  "ow_first_available (observe_loop chunks b upper seq ns used page) = ow_first_available page
   \<and> ow_upper (observe_loop chunks b upper seq ns used page) = ow_upper page
   \<and> ow_source_upper (observe_loop chunks b upper seq ns used page) = ow_source_upper page"
  by (induction chunks b upper seq ns used page rule: observe_loop.induct) (auto split: option.splits)

lemma observation_windowE:
  assumes "rt_inv rt" "observation_window chunks after upper_opt rt = Inr w"
  obtains first b upper page where
    "first = rt_notification_revision rt - length (rt_notifications rt) + 1"
    "upper = (case upper_opt of None \<Rightarrow> rt_notification_revision rt | Some u \<Rightarrow> u)"
    "b = max (sat_add64 after 1) first" "after \<le> upper" "upper \<le> rt_notification_revision rt"
    "\<not> rt_sequence_exhausted rt"
    "page = \<lparr>ow_owner_id = [], ow_generation = 0, ow_first_available = first,
        ow_source_upper = rt_notification_revision rt, ow_upper = upper,
        ow_scanned_through = min upper (b - 1), ow_events = []\<rparr>"
    "w = observe_loop chunks b upper first (rt_notifications rt) 0 page"
proof -
  let ?first = "rt_notification_revision rt - length (rt_notifications rt) + 1"
  let ?upper = "case upper_opt of None \<Rightarrow> rt_notification_revision rt | Some u \<Rightarrow> u"
  let ?b = "max (sat_add64 after 1) ?first"
  have ok: "\<not> rt_sequence_exhausted rt" "?upper \<le> rt_notification_revision rt" "after \<le> ?upper"
    using assms(2) by (simp_all add: observation_window_def Let_def split: if_splits)
  then have "w = observe_loop chunks ?b ?upper ?first (rt_notifications rt) 0
      \<lparr>ow_owner_id = [], ow_generation = 0, ow_first_available = ?first,
        ow_source_upper = rt_notification_revision rt, ow_upper = ?upper,
        ow_scanned_through = min ?upper (?b - 1), ow_events = []\<rparr>"
    using assms(2) by (simp add: observation_window_def Let_def)
  then show thesis by (intro that [OF refl refl refl ok(3,2,1) refl])
qed

lemma sat_add64_1_bounds: "1 \<le> sat_add64 a 1" "a < u64_max \<Longrightarrow> sat_add64 a 1 = Suc a"
  by (simp_all add: sat_add64_def u64_max_def)

lemma observe_loop_stop:
  "b \<le> seq \<Longrightarrow> upper < seq \<Longrightarrow> observe_loop chunks b upper seq ns used page = page"
  by (cases ns) auto

text \<open>From the first retained entry on, the loop skips to \<open>b\<close> and then pages.\<close>

lemma observe_loop_from_first:
  assumes "1 \<le> first" "first \<le> b" "upper < first + length ns"
    and page: "ow_scanned_through page = min upper (b - 1)" "ow_events page = []"
    and w: "w = observe_loop chunks b upper first ns 0 page"
  shows "window_step_ok b upper w \<and> min upper (b - 1) \<le> ow_scanned_through w
    \<and> (ow_scanned_through w < upper \<longrightarrow> length (ow_events w) = OBSERVATION_PAGE_SIZE)"
proof (cases "b \<le> upper")
  case True
  then have skip: "w = observe_loop chunks b upper b (drop (b - first) ns) 0 page"
    using w observe_loop_skip [of chunks b upper first ns 0 page] assms by simp
  have "window_step_ok b upper page"
    using page True assms(1,2) by (simp add: window_step_ok_def)
  moreover have "b = Suc (ow_scanned_through page)" using page True assms by simp
  moreover have "upper < b + length (drop (b - first) ns)" using assms(2,3) True by simp
  ultimately show ?thesis
    using observe_loop_window [OF _ order_refl _ _ skip] page by metis
next
  case False
  have "w = observe_loop chunks b upper (first + min (b - first) (length ns)) (drop (b - first) ns) 0 page"
    using w observe_loop_skip by metis
  moreover have "drop (b - first) ns = [] \<or> first + min (b - first) (length ns) = b"
    using assms(2) by (cases "b - first \<le> length ns") auto
  ultimately have "w = page"
    using observe_loop_stop [of b b upper] False by auto
  then show ?thesis using page False by (simp add: window_step_ok_def)
qed

section \<open>The idle-observation cursor\<close>

text \<open>A run of recordings, confirmations and ledger certifications, with the history of
  recorded notifications and of those whose confirmation returned \<open>true\<close>.\<close>

datatype idle_event = IdleRecord notification | IdleConfirm notification | IdleCertify nat

type_synonym idle_run = "notification list \<times> notification list \<times> runtime_state"

fun idle_apply :: "idle_event \<Rightarrow> idle_run \<Rightarrow> idle_run" where
  "idle_apply (IdleRecord n) (H, C, rt) = (H @ [n], C, record_notification n rt)"
| "idle_apply (IdleConfirm n) (H, C, rt) =
    (let (ok, rt') = confirm_idle_observation n rt in (H, if ok then C @ [n] else C, rt'))"
| "idle_apply (IdleCertify t) (H, C, rt) = (H, C, snd (certify_observation_prefix t rt))"

fun idle_run_inv :: "idle_run \<Rightarrow> bool" where
  "idle_run_inv (H, C, rt) = (rt_inv rt \<and> (\<not> rt_sequence_exhausted rt \<longrightarrow>
      length H = rt_notification_revision rt
      \<and> rt_notifications rt = drop (length H - length (rt_notifications rt)) H
      \<and> C = take (rt_idle_observed_revision rt) H))"

lemma push_bounded_suffix:
  assumes "xs = drop (length H - length xs) H" "length xs \<le> length H" "length xs \<le> limit" "0 < limit"
  shows "push_bounded limit x xs = drop (Suc (length H) - length (push_bounded limit x xs)) (H @ [x])"
proof -
  have app: "xs @ [x] = drop (length H - length xs) (H @ [x])"
    using assms(1,2) by (metis diff_le_self drop_append drop_0 diff_is_0_eq')
  show ?thesis
  proof (cases "length xs < limit")
    case True
    then show ?thesis using app assms(2) by (simp add: push_bounded_def Let_def)
  next
    case False
    then have "push_bounded limit x xs = tl (xs @ [x])"
      using assms(3) by (simp add: push_bounded_def Let_def)
    also have "\<dots> = drop (Suc (length H - length xs)) (H @ [x])"
      unfolding app by (simp only: drop_Suc tl_drop)
    finally show ?thesis using False assms(2-4) by (simp add: Suc_diff_le)
  qed
qed

lemma idle_apply_inv:
  assumes "idle_run_inv run" shows "idle_run_inv (idle_apply ev run)"
proof (cases run)
  case (fields H C rt)
  note inv = assms [unfolded fields idle_run_inv.simps]
  have rt: "rt_inv rt" using inv by simp
  show ?thesis
  proof (cases ev)
    case (IdleRecord n)
    have "push_bounded MAX_NOTIFICATIONS n (rt_notifications rt) =
        drop (Suc (length H) - length (push_bounded MAX_NOTIFICATIONS n (rt_notifications rt))) (H @ [n])"
      if "\<not> rt_sequence_exhausted rt"
      using inv that rt_invD(1,2) [OF rt]
      by (intro push_bounded_suffix) (auto simp: MAX_NOTIFICATIONS_def)
    then show ?thesis
      using inv rt_invD(3,4) [OF rt] record_notification_inv [OF rt, of n]
      by (auto simp: fields IdleRecord)
  next
    case (IdleConfirm n)
    have "take (Suc (rt_idle_observed_revision rt)) H = take (rt_idle_observed_revision rt) H @ [n]"
      if "\<not> rt_sequence_exhausted rt"
        "rt_notification_revision rt - length (rt_notifications rt) \<le> rt_idle_observed_revision rt"
        "nth_opt (rt_notifications rt) (rt_idle_observed_revision rt -
           (rt_notification_revision rt - length (rt_notifications rt))) = Some n"
      using that inv rt_invD(2) [OF rt]
      by (metis (no_types, lifting) Nat.add_diff_assoc add_diff_cancel_left' add_diff_inverse_nat diff_le_self
          le_add_diff_inverse length_drop less_diff_conv2 linorder_not_less nth_drop nth_opt_Some take_Suc_conv_app_nth)
    then show ?thesis
      using inv confirm_idle_inv [OF rt, of n]
      by (auto simp: fields IdleConfirm confirm_idle_observation_def Let_def split: if_splits)
  next
    case (IdleCertify t)
    then show ?thesis
      using inv certify_inv [OF rt, of t] by (auto simp: fields certify_observation_prefix_def split: if_splits)
  qed
qed

lemma idle_run_events_inv:
  "idle_run_inv (run_events idle_apply evs ([], [], starting p))"
proof -
  have base: "idle_run_inv ([], [], starting p)"
    using starting_inv [of p] by (simp add: starting_def)
  show ?thesis
    by (rule run_events_inv [where I = idle_run_inv and P = "\<lambda>_ _. True"])
      (simp_all only: base idle_apply_inv all_events_True)
qed

section \<open>Dead work\<close>

lemma compare_active_turn_cmp:
  "compare_active_turn l r = cmp (dt_thread_id l, dt_turn_id l) (dt_thread_id r, dt_turn_id r)"
  by (simp add: compare_active_turn_def cmp_lex)

lemma compare_request_identity_cmp:
  "compare_request_identity l r = cmp (key_for_request l) (key_for_request r)"
  by (simp add: compare_request_identity_def compare_request_id_cmp cmp_lex key_for_request_def)

lemma sort_active_turns:
  "sort_by compare_active_turn ts = sort_key (\<lambda>t. (dt_thread_id t, dt_turn_id t)) ts"
  by (rule sort_by_key) (rule compare_active_turn_cmp)

lemma sort_dead_requests: "sort_by compare_request_identity rs = sort_key key_for_request rs"
  by (rule sort_by_key) (rule compare_request_identity_cmp)

lemma rt_inv_closed_reason [simp]: "rt_inv (rt\<lparr>rt_closed_reason := x\<rparr>) = rt_inv rt"
  by (simp add: rt_inv_def)

text \<open>A concrete process: turns started on two threads.\<close>

definition turn_started :: "string \<Rightarrow> string \<Rightarrow> notification" where
  "turn_started th tu = \<lparr>nt_method = lit ''turn/started'',
     nt_params = json_object [(''threadId'', JStr (lit th)), (''turnId'', JStr (lit tu))]\<rparr>"

definition demo_rt :: runtime_state where
  "demo_rt = record_notification (turn_started ''b'' ''2'')
     (record_notification (turn_started ''a'' ''1'') (starting (Some 7)))"

definition demo_rt_swapped :: runtime_state where
  "demo_rt_swapped = record_notification (turn_started ''a'' ''1'')
     (record_notification (turn_started ''b'' ''2'') (starting (Some 7)))"

lemma demo_turns:
  "rt_active_turns demo_rt = [(lit ''a'', lit ''1''), (lit ''b'', lit ''2'')]"
  "rt_active_turns demo_rt_swapped = [(lit ''b'', lit ''2''), (lit ''a'', lit ''1'')]"
proof -
  have "track_turn (turn_started ''b'' ''2'') (track_turn (turn_started ''a'' ''1'') []) =
      [(lit ''a'', lit ''1''), (lit ''b'', lit ''2'')]"
    "track_turn (turn_started ''a'' ''1'') (track_turn (turn_started ''b'' ''2'') []) =
      [(lit ''b'', lit ''2''), (lit ''a'', lit ''1'')]" by code_simp+
  then show "rt_active_turns demo_rt = [(lit ''a'', lit ''1''), (lit ''b'', lit ''2'')]"
    "rt_active_turns demo_rt_swapped = [(lit ''b'', lit ''2''), (lit ''a'', lit ''1'')]"
    by (simp_all add: demo_rt_def demo_rt_swapped_def starting_def)
qed

lemma demo_rt_log:
  "rt_notifications demo_rt = [turn_started ''a'' ''1'', turn_started ''b'' ''2'']"
  "rt_notification_revision demo_rt = 2" "\<not> rt_sequence_exhausted demo_rt"
  "rt_closed_reason demo_rt = None"
  by (simp_all add: demo_rt_def starting_def push_bounded_def MAX_NOTIFICATIONS_def u64_max_def)

lemma demo_started_len: "byte_len (nt_method (turn_started a b)) = 12"
  by (simp add: turn_started_def lit_def utf8_width_def)

lemmas window_eval = observation_window_def demo_rt_log sat_add64_def u64_max_def Let_def
  OBSERVATION_PAGE_SIZE_def OBSERVATION_PAGE_BYTES_def budget_write_def demo_started_len

lemma demo_rt_inv: "rt_inv demo_rt" "rt_inv demo_rt_swapped"
  unfolding demo_rt_def demo_rt_swapped_def by (intro inv_intros)+

section \<open>Properties\<close>

text \<open>A page of the observation window is a gap-free run of sequence numbers that
  starts right after the caller's cursor (or at the oldest retained notification), holds at
  most 32 entries, never passes the requested bound, is short only when it reaches that
  bound, and copies into each entry it does not skip for size the notification that has
  exactly that sequence number.\<close>

theorem window_contiguous:
  assumes "rt_inv rt" "observation_window chunks after upper_opt rt = Inr w"
  shows "map ob_sequence (ow_events w) =
      [max (sat_add64 after 1) (ow_first_available w)..<Suc (ow_scanned_through w)]
    \<and> length (ow_events w) \<le> 32 \<and> ow_scanned_through w \<le> ow_upper w
    \<and> ow_upper w \<le> rt_notification_revision rt
    \<and> (ow_scanned_through w < ow_upper w \<longrightarrow> length (ow_events w) = 32)
    \<and> (\<forall>e n. e \<in> set (ow_events w) \<longrightarrow> ob_notification e = Some n \<longrightarrow>
         (\<exists>i. nth_opt (rt_notifications rt) i = Some n \<and> ob_sequence e = ow_first_available w + i))"
  using assms
proof (rule observation_windowE)
  fix first b upper page
  assume first: "first = rt_notification_revision rt - length (rt_notifications rt) + 1"
    and b: "b = max (sat_add64 after 1) first" and upper: "upper \<le> rt_notification_revision rt"
    and page: "page = \<lparr>ow_owner_id = [], ow_generation = 0, ow_first_available = first,
        ow_source_upper = rt_notification_revision rt, ow_upper = upper,
        ow_scanned_through = min upper (b - 1), ow_events = []\<rparr>"
    and w: "w = observe_loop chunks b upper first (rt_notifications rt) 0 page"
  have pre: "1 \<le> first" "first \<le> b" "upper < first + length (rt_notifications rt)"
      "ow_scanned_through page = min upper (b - 1)" "ow_events page = []"
    using first b page upper rt_invD(2) [OF assms(1)] by simp_all
  note loop = observe_loop_from_first [OF pre w]
  have "ow_first_available w = first" "ow_upper w = upper"
    using observe_loop_fields w page by simp_all
  moreover have "\<exists>i. nth_opt (rt_notifications rt) i = Some n \<and> ob_sequence e = first + i"
    if "e \<in> set (ow_events w)" "ob_notification e = Some n" for e n
    using observe_loop_content [OF that(1) [unfolded w] that(2)] by (auto simp: page nth_opt_Some)
  ultimately show ?thesis
    using upper b loop by (simp add: window_step_ok_def OBSERVATION_PAGE_SIZE_def)
qed

theorem window_contiguous_witness:
  "\<exists>w. observation_window (\<lambda>_. [2]) 0 None demo_rt = Inr w \<and> map ob_sequence (ow_events w) = [1, 2]
     \<and> ow_scanned_through w \<le> ow_upper w"
proof -
  have "case observation_window (\<lambda>_. [2]) 0 None demo_rt of Inl _ \<Rightarrow> False
      | Inr w \<Rightarrow> map ob_sequence (ow_events w) = [1, 2]"
    by (simp add: window_eval checked_add64_def)
  then obtain w where w: "observation_window (\<lambda>_. [2]) 0 None demo_rt = Inr w"
      "map ob_sequence (ow_events w) = [1, 2]" by (auto split: sum.splits)
  then show ?thesis using window_contiguous [OF demo_rt_inv(1) w(1)] by (intro exI [of _ w]) simp
qed

text \<open>Paging makes progress: whenever a page is returned and the cursor is below the
  bound, the page moves the cursor forward, so repeated paging from \<open>scanned_through\<close>
  reaches the bound.\<close>

theorem window_progress:
  assumes "rt_inv rt" "observation_window chunks after upper_opt rt = Inr w" "after < ow_upper w"
  shows "after < ow_scanned_through w"
  using assms(1,2)
proof (rule observation_windowE)
  fix first b upper page
  assume first: "first = rt_notification_revision rt - length (rt_notifications rt) + 1"
    and b: "b = max (sat_add64 after 1) first" and upper: "upper \<le> rt_notification_revision rt"
    and page: "page = \<lparr>ow_owner_id = [], ow_generation = 0, ow_first_available = first,
        ow_source_upper = rt_notification_revision rt, ow_upper = upper,
        ow_scanned_through = min upper (b - 1), ow_events = []\<rparr>"
    and w: "w = observe_loop chunks b upper first (rt_notifications rt) 0 page"
  have up: "ow_upper w = upper" using observe_loop_fields w page by simp
  have pre: "1 \<le> first" "first \<le> b" "upper < first + length (rt_notifications rt)"
      "ow_scanned_through page = min upper (b - 1)" "ow_events page = []"
    using first b page upper rt_invD(2) [OF assms(1)] by simp_all
  have ok: "window_step_ok b upper w"
    "ow_scanned_through w < upper \<longrightarrow> length (ow_events w) = OBSERVATION_PAGE_SIZE"
    using observe_loop_from_first [OF pre w] by auto
  have "Suc after \<le> b"
    using b assms(3) up upper rt_invD(3) [OF assms(1)] sat_add64_1_bounds(2) [of after] by simp
  moreover have "b \<le> ow_scanned_through w" if "ow_scanned_through w < upper"
  proof -
    have "ow_events w \<noteq> []" using ok(2) that by (auto simp: OBSERVATION_PAGE_SIZE_def)
    then show ?thesis using ok(1) by (auto simp: window_step_ok_def split: if_splits)
  qed
  ultimately show ?thesis using assms(3) up ok(1) by (cases "ow_scanned_through w < upper") (auto simp: window_step_ok_def)
qed

theorem window_progress_witness:
  "\<exists>w. observation_window (\<lambda>_. [2]) 1 None demo_rt = Inr w \<and> 1 < ow_scanned_through w"
proof -
  have "case observation_window (\<lambda>_. [2]) 1 None demo_rt of Inl _ \<Rightarrow> False
      | Inr w \<Rightarrow> 1 < ow_upper w"
    by (simp add: window_eval checked_add64_def)
  then obtain w where w: "observation_window (\<lambda>_. [2]) 1 None demo_rt = Inr w" "1 < ow_upper w"
    by (auto split: sum.splits)
  then show ?thesis using window_progress [OF demo_rt_inv(1)] by blast
qed

text \<open>The idle cursor is exact: along any run of recordings, confirmations and
  certifications of a fresh process, the confirmed notifications are the prefix of the
  recorded history the cursor says, and when a process without a ledger reports that its
  observations are caught up, every recorded notification was confirmed, in order and
  once.\<close>

theorem idle_cursor_exact:
  assumes "run_events idle_apply evs ([], [], starting p) = (H, C, rt)"
  shows "(\<not> rt_sequence_exhausted rt \<longrightarrow> C = take (rt_idle_observed_revision rt) H)
    \<and> (idle_observations_caught_up rt \<and> \<not> rt_idle_ledger_required rt \<longrightarrow> C = H)"
  using idle_run_events_inv [of evs p] assms by (auto simp: idle_observations_caught_up_def)

theorem idle_cursor_exact_witness:
  "\<exists>H C rt. run_events idle_apply [IdleRecord (turn_started ''a'' ''1''), IdleConfirm (turn_started ''a'' ''1'')]
      ([], [], starting None) = (H, C, rt) \<and> idle_observations_caught_up rt \<and> C = H \<and> length H = 1"
proof -
  let ?run = "run_events idle_apply [IdleRecord (turn_started ''a'' ''1''), IdleConfirm (turn_started ''a'' ''1'')]
      ([], [], starting None)"
  have "case ?run of (H, C, rt) \<Rightarrow> idle_observations_caught_up rt \<and> \<not> rt_idle_ledger_required rt \<and> length H = 1"
    by (simp add: confirm_idle_observation_def record_notification_def bump_revision_def starting_def
        push_bounded_def MAX_NOTIFICATIONS_def checked_add64_def u64_max_def nth_opt_def
        idle_observations_caught_up_def Let_def)
  then obtain H C rt where r: "?run = (H, C, rt)" "idle_observations_caught_up rt" "\<not> rt_idle_ledger_required rt"
      "length H = 1" by (auto split: prod.splits)
  then show ?thesis using idle_cursor_exact [OF r(1)] by blast
qed

text \<open>The work a dead generation leaves does not depend on the iteration order of the
  hash map of active turns: two closed states with the same reason, the same active turns and
  the same ledger give the same work, sorted by thread and by request identity, and it
  lists exactly the active turns and the unsettled requests.\<close>

theorem dead_work_canonical:
  assumes "rt_inv rt" "rt_inv rt'" "set (rt_active_turns rt) = set (rt_active_turns rt')"
    and "mset (sr_unsettled None (rt_server_requests rt)) = mset (sr_unsettled None (rt_server_requests rt'))"
    and "rt_closed_reason rt = rt_closed_reason rt'" "dead_generation_work g rt = Some work"
  shows "dead_generation_work g rt' = Some work
    \<and> sorted (map (\<lambda>t. (dt_thread_id t, dt_turn_id t)) (dw_active_turns work))
    \<and> sorted (map key_for_request (dw_server_requests work))
    \<and> (\<lambda>t. (dt_thread_id t, dt_turn_id t)) ` set (dw_active_turns work) = set (rt_active_turns rt)
    \<and> mset (dw_server_requests work) = mset (sr_unsettled None (rt_server_requests rt))"
proof -
  let ?mk = "\<lambda>(th, tu). \<lparr>dt_thread_id = th, dt_turn_id = tu\<rparr> :: dead_active_turn"
  let ?key = "\<lambda>t. (dt_thread_id t, dt_turn_id t)"
  have key_mk: "map ?key (map ?mk xs) = xs" for xs
    by (induction xs) auto
  have dist: "distinct (rt_active_turns r)" if "rt_inv r" for r
    using rt_invD(5) [OF that] by (simp add: hm_wf_def distinct_map)
  have "mset (rt_active_turns rt) = mset (rt_active_turns rt')"
    using assms(3) dist [OF assms(1)] dist [OF assms(2)] by (simp add: set_eq_iff_mset_eq_distinct)
  then have turns: "sort_key ?key (map ?mk (rt_active_turns rt)) = sort_key ?key (map ?mk (rt_active_turns rt'))"
    using dist [OF assms(1)] key_mk by (intro sort_key_canonical) (auto simp: mset_map)
  have "distinct (map key_for_request (sr_unsettled None (rt_server_requests rt)))"
    using rt_invD(6) [OF assms(1)] unsettled_keys sr_invD(3) by (simp add: order_ok_def)
  then have reqs: "sort_key key_for_request (sr_unsettled None (rt_server_requests rt)) =
      sort_key key_for_request (sr_unsettled None (rt_server_requests rt'))"
    using assms(4) by (intro sort_key_canonical)
  have img: "?key ` set (map ?mk xs) = set xs" for xs
    using arg_cong [OF key_mk [of xs], of set] by (simp add: image_comp)
  obtain reason where reason: "rt_closed_reason rt = Some reason" "rt_closed_reason rt' = Some reason"
    and work: "work = \<lparr>dw_generation = g, dw_closed_reason = reason,
      dw_active_turns = sort_key ?key (map ?mk (rt_active_turns rt)),
      dw_server_requests = sort_key key_for_request (sr_unsettled None (rt_server_requests rt))\<rparr>"
    using assms(5,6) by (auto simp: dead_generation_work_def sort_active_turns sort_dead_requests split: option.splits)
  have "dead_generation_work g rt' = Some work"
    using reason turns reqs by (simp add: work dead_generation_work_def sort_active_turns sort_dead_requests)
  moreover have "?key ` set (dw_active_turns work) = set (rt_active_turns rt)"
    using img by (simp add: work del: set_map)
  ultimately show ?thesis by (simp add: work)
qed

theorem dead_work_canonical_witness:
  "\<exists>work. dead_generation_work 3 (demo_rt\<lparr>rt_closed_reason := Some (lit ''gone'')\<rparr>) = Some work
     \<and> dead_generation_work 3 (demo_rt_swapped\<lparr>rt_closed_reason := Some (lit ''gone'')\<rparr>) = Some work
     \<and> map dt_thread_id (dw_active_turns work) = [lit ''a'', lit ''b'']"
proof -
  let ?a = "demo_rt\<lparr>rt_closed_reason := Some (lit ''gone'')\<rparr>"
  let ?b = "demo_rt_swapped\<lparr>rt_closed_reason := Some (lit ''gone'')\<rparr>"
  have "sort_by compare_active_turn (map (\<lambda>(th, tu). \<lparr>dt_thread_id = th, dt_turn_id = tu\<rparr>)
      [(lit ''a'', lit ''1''), (lit ''b'', lit ''2'')]) =
      [\<lparr>dt_thread_id = lit ''a'', dt_turn_id = lit ''1''\<rparr>, \<lparr>dt_thread_id = lit ''b'', dt_turn_id = lit ''2''\<rparr>]"
    by code_simp
  then have "case dead_generation_work 3 ?a of None \<Rightarrow> False
      | Some work \<Rightarrow> map dt_thread_id (dw_active_turns work) = [lit ''a'', lit ''b'']"
    by (simp add: dead_generation_work_def demo_turns)
  then obtain work where w: "dead_generation_work 3 ?a = Some work"
      "map dt_thread_id (dw_active_turns work) = [lit ''a'', lit ''b'']" by (auto split: option.splits)
  have "set (rt_active_turns ?a) = set (rt_active_turns ?b)" by (auto simp: demo_turns)
  moreover have "sr_unsettled None (rt_server_requests ?a) = sr_unsettled None (rt_server_requests ?b)"
    by (simp add: demo_rt_def demo_rt_swapped_def)
  ultimately show ?thesis
    using dead_work_canonical [of ?a ?b 3 work] demo_rt_inv w by simp
qed

end
