(* ===== verification/Lifecycle.thy ===== *)
theory Lifecycle
  imports Rpc
begin

text \<open>
  The admission gate of one client (\<open>cdr-app-server/src/client/lifecycle.rs\<close>): a count of
  admitted operations, a seal, the intended close reason and the published one. The two
  locales state what a caller relies on: after the seal nothing is admitted
  (\<open>sealed_gate\<close>), and a gate sealed while quiescent stays quiescent
  (\<open>quiescent_gate\<close>). A panic (\<open>expect\<close> of the counter arithmetic) is \<open>None\<close>.
\<close>

section \<open>Interfaces\<close>

locale sealed_gate =
  fixes step :: "'e \<Rightarrow> 's \<Rightarrow> 's"
    and is_sealed :: "'s \<Rightarrow> bool"
    and enters :: "'e \<Rightarrow> 's \<Rightarrow> bool"
  assumes sealed_stable: "is_sealed s \<Longrightarrow> is_sealed (step e s)"
    and sealed_rejects: "is_sealed s \<Longrightarrow> \<not> enters e s"
begin

lemma sealed_run: "is_sealed s \<Longrightarrow> is_sealed (run_events step es s)"
  by (induction es arbitrary: s) (auto intro: sealed_stable)

lemma no_entry_after_seal: "is_sealed s \<Longrightarrow> count_events step enters es s = 0"
  by (induction es arbitrary: s) (auto simp: sealed_rejects intro: sealed_stable)

end

locale quiescent_gate = sealed_gate step is_sealed enters
  for step :: "'e \<Rightarrow> 's \<Rightarrow> 's"
    and is_sealed :: "'s \<Rightarrow> bool"
    and enters :: "'e \<Rightarrow> 's \<Rightarrow> bool" +
  fixes load :: "'s \<Rightarrow> nat"
  assumes load_only_by_entry: "\<not> enters e s \<Longrightarrow> load (step e s) \<le> load s"
begin

lemma load_run: "is_sealed s \<Longrightarrow> load (run_events step es s) \<le> load s"
proof (induction es arbitrary: s)
  case (Cons e es)
  have "load (step e s) \<le> load s"
    using load_only_by_entry sealed_rejects Cons.prems by blast
  then show ?case
    using Cons.IH [OF sealed_stable [OF Cons.prems], of e] by simp
qed simp

lemma quiescent_forever: "is_sealed s \<Longrightarrow> load s = 0 \<Longrightarrow> load (run_events step es s) = 0"
  using load_run [of s es] by simp

end

section \<open>State and operations\<close>

record client_lifecycle =
  lc_close_intent :: "rstr option"
  lc_in_flight :: nat
  lc_sealed :: bool
  lc_closed_reason :: "rstr option"

definition lc_new :: client_lifecycle where
  "lc_new = \<lparr>lc_close_intent = None, lc_in_flight = 0, lc_sealed = False, lc_closed_reason = None\<rparr>"

text \<open>\<open>usize\<close> is 64 bits wide on the supported targets.\<close>

definition admit :: "client_lifecycle \<Rightarrow> (app_server_error, client_lifecycle) result option" where
  "admit lc = (if lc_sealed lc then Some (Inl Closed)
    else (case checked_add64 (lc_in_flight lc) 1 of
        None \<Rightarrow> None
      | Some n \<Rightarrow> Some (Inr (lc\<lparr>lc_in_flight := n\<rparr>))))"

definition drop_permit :: "client_lifecycle \<Rightarrow> client_lifecycle option" where
  "drop_permit lc = (if lc_in_flight lc = 0 then None else Some (lc\<lparr>lc_in_flight := lc_in_flight lc - 1\<rparr>))"

definition seal :: "client_lifecycle \<Rightarrow> client_lifecycle" where
  "seal lc = lc\<lparr>lc_sealed := True\<rparr>"

definition seal_for_close :: "rstr \<Rightarrow> client_lifecycle \<Rightarrow> client_lifecycle" where
  "seal_for_close reason lc = (let lc1 = lc\<lparr>lc_sealed := True\<rparr>
    in if lc_close_intent lc1 = None then lc1\<lparr>lc_close_intent := Some reason\<rparr> else lc1)"

definition seal_and_resolve_close_reason :: "rstr \<Rightarrow> client_lifecycle \<Rightarrow> rstr \<times> client_lifecycle" where
  "seal_and_resolve_close_reason observed lc =
    ((case lc_close_intent lc of None \<Rightarrow> observed | Some r \<Rightarrow> r), lc\<lparr>lc_sealed := True\<rparr>)"

definition publish_closed :: "rstr \<Rightarrow> client_lifecycle \<Rightarrow> client_lifecycle" where
  "publish_closed reason lc =
    (if lc_closed_reason lc \<noteq> None then lc else lc\<lparr>lc_closed_reason := Some reason\<rparr>)"

definition seal_if_quiescent :: "bool \<Rightarrow> client_lifecycle \<Rightarrow> bool \<times> client_lifecycle" where
  "seal_if_quiescent check lc =
    (if lc_in_flight lc \<noteq> 0 \<or> \<not> check then (False, lc) else (True, lc\<lparr>lc_sealed := True\<rparr>))"

definition with_open :: "client_lifecycle \<Rightarrow> 'r \<Rightarrow> (app_server_error, 'r) result" where
  "with_open lc action = (if lc_sealed lc then Inl Closed else Inr action)"

section \<open>Runs of the gate\<close>

datatype lc_event =
    LcAdmit
  | LcDrop
  | LcSeal
  | LcSealForClose rstr
  | LcResolveReason rstr
  | LcPublish rstr
  | LcSealIfQuiescent bool

definition lc_apply :: "lc_event \<Rightarrow> client_lifecycle \<Rightarrow> client_lifecycle" where
  "lc_apply ev lc = (case ev of
      LcAdmit \<Rightarrow> (case admit lc of Some (Inr lc') \<Rightarrow> lc' | _ \<Rightarrow> lc)
    | LcDrop \<Rightarrow> (case drop_permit lc of Some lc' \<Rightarrow> lc' | None \<Rightarrow> lc)
    | LcSeal \<Rightarrow> seal lc
    | LcSealForClose r \<Rightarrow> seal_for_close r lc
    | LcResolveReason r \<Rightarrow> snd (seal_and_resolve_close_reason r lc)
    | LcPublish r \<Rightarrow> publish_closed r lc
    | LcSealIfQuiescent check \<Rightarrow> snd (seal_if_quiescent check lc))"

definition lc_enters :: "lc_event \<Rightarrow> client_lifecycle \<Rightarrow> bool" where
  "lc_enters ev lc = (case ev of LcAdmit \<Rightarrow> (case admit lc of Some r \<Rightarrow> is_ok r | None \<Rightarrow> False) | _ \<Rightarrow> False)"

lemmas lc_defs = admit_def drop_permit_def seal_def seal_for_close_def seal_and_resolve_close_reason_def
  publish_closed_def seal_if_quiescent_def Let_def

interpretation lc: quiescent_gate lc_apply lc_sealed lc_enters lc_in_flight
proof unfold_locales
  fix lc ev
  show "lc_sealed lc \<Longrightarrow> lc_sealed (lc_apply ev lc)"
    by (simp add: lc_apply_def lc_defs split: lc_event.splits option.splits sum.splits)
  show "lc_sealed lc \<Longrightarrow> \<not> lc_enters ev lc"
    by (simp add: lc_enters_def lc_defs split: lc_event.splits)
  show "\<not> lc_enters ev lc \<Longrightarrow> lc_in_flight (lc_apply ev lc) \<le> lc_in_flight lc"
    by (auto simp: lc_apply_def lc_enters_def lc_defs split: lc_event.splits option.splits sum.splits if_splits)
qed

lemma closed_reason_stable:
  "lc_closed_reason lc = Some r \<Longrightarrow> lc_closed_reason (lc_apply ev lc) = Some r"
  by (auto simp: lc_apply_def lc_defs split: lc_event.splits option.splits sum.splits if_splits)

lemma close_intent_stable:
  "lc_close_intent lc = Some r \<Longrightarrow> lc_close_intent (lc_apply ev lc) = Some r"
  by (auto simp: lc_apply_def lc_defs split: lc_event.splits option.splits sum.splits if_splits)

lemma run_stable:
  assumes "\<And>s e. f s = Some r \<Longrightarrow> f (step e s) = Some r" "f s = Some r"
  shows "f (run_events step es s) = Some r"
  using assms(2) by (induction es arbitrary: s) (auto intro: assms(1))

section \<open>Properties\<close>

text \<open>Once \<open>seal_if_quiescent\<close> has answered true, no operation is in flight and none
  is ever admitted again, whatever other threads do with the gate afterwards.\<close>

theorem quiescent_seal_is_final:
  assumes "seal_if_quiescent check lc = (True, lc')"
  shows "check \<and> lc_in_flight (run_events lc_apply es lc') = 0
    \<and> count_events lc_apply lc_enters es lc' = 0 \<and> lc_sealed (run_events lc_apply es lc')"
proof -
  have s: "lc_sealed lc'" "lc_in_flight lc' = 0" "check"
    using assms by (auto simp: seal_if_quiescent_def split: if_splits)
  then show ?thesis
    using lc.quiescent_forever lc.no_entry_after_seal lc.sealed_run by blast
qed

theorem quiescent_seal_is_final_witness:
  "count_events lc_apply lc_enters [LcAdmit, LcDrop, LcAdmit] (snd (seal_if_quiescent True lc_new)) = 0"
  using quiescent_seal_is_final [of True lc_new "snd (seal_if_quiescent True lc_new)" "[LcAdmit, LcDrop, LcAdmit]"]
  by (simp add: seal_if_quiescent_def lc_new_def)

text \<open>The first published close reason and the first close intent are never
  replaced, and a close after an intent resolves to that intent.\<close>

theorem first_close_reason_wins:
  "lc_closed_reason (run_events lc_apply es (publish_closed r (lc\<lparr>lc_closed_reason := None\<rparr>))) = Some r
   \<and> fst (seal_and_resolve_close_reason observed
       (run_events lc_apply es (seal_for_close r (lc\<lparr>lc_close_intent := None\<rparr>)))) = r"
proof
  show "lc_closed_reason (run_events lc_apply es (publish_closed r (lc\<lparr>lc_closed_reason := None\<rparr>))) = Some r"
    by (rule run_stable [where f = lc_closed_reason]) (simp_all add: closed_reason_stable, simp add: lc_defs)
  have "lc_close_intent (run_events lc_apply es (seal_for_close r (lc\<lparr>lc_close_intent := None\<rparr>))) = Some r"
    by (rule run_stable [where f = lc_close_intent]) (simp_all add: close_intent_stable, simp add: lc_defs)
  then show "fst (seal_and_resolve_close_reason observed
       (run_events lc_apply es (seal_for_close r (lc\<lparr>lc_close_intent := None\<rparr>)))) = r"
    by (simp add: seal_and_resolve_close_reason_def)
qed

end
