(* ===== verification/Diagnostics.thy ===== *)
theory Diagnostics
  imports Rust_Str
begin

text \<open>
  The bounded diagnostic log of a client (\<open>cdr-app-server/src/diagnostics.rs\<close>): at most
  512 lines and 64 KiB of text, oldest lines dropped first. \<open>String::truncate\<close> panics
  when the cut is not at a character boundary; \<open>push_line\<close> returns \<open>None\<close> there.
\<close>

definition MAX_DIAGNOSTIC_LINES :: nat where
  "MAX_DIAGNOSTIC_LINES = 512"

definition MAX_DIAGNOSTIC_BYTES :: nat where
  "MAX_DIAGNOSTIC_BYTES = 64 * 1024"

record bounded_diagnostics =
  bd_lines :: "rstr list"
  bd_retained_bytes :: nat
  bd_dropped_lines :: nat

definition bd_default :: bounded_diagnostics where
  "bd_default = \<lparr>bd_lines = [], bd_retained_bytes = 0, bd_dropped_lines = 0\<rparr>"

text \<open>The trimming loop of \<open>push\<close>; \<open>dropped_lines\<close> is a \<open>u64\<close> that wraps.\<close>

fun trim_lines :: "rstr list \<Rightarrow> nat \<Rightarrow> nat \<Rightarrow> bounded_diagnostics" where
  "trim_lines [] bytes dropped = \<lparr>bd_lines = [], bd_retained_bytes = bytes, bd_dropped_lines = dropped\<rparr>"
| "trim_lines (l # ls) bytes dropped =
    (if length (l # ls) > MAX_DIAGNOSTIC_LINES \<or> bytes > MAX_DIAGNOSTIC_BYTES
     then trim_lines ls (bytes - byte_len l) ((dropped + 1) mod 2 ^ 64)
     else \<lparr>bd_lines = l # ls, bd_retained_bytes = bytes, bd_dropped_lines = dropped\<rparr>)"

definition clip_line :: "rstr \<Rightarrow> rstr option" where
  "clip_line line =
    (if byte_len line > MAX_DIAGNOSTIC_BYTES then take_bytes MAX_DIAGNOSTIC_BYTES line else Some line)"

definition push_line :: "rstr \<Rightarrow> bounded_diagnostics \<Rightarrow> bounded_diagnostics option" where
  "push_line line0 d = (case clip_line line0 of
      None \<Rightarrow> None
    | Some line \<Rightarrow>
        Some (trim_lines (bd_lines d @ [line]) (bd_retained_bytes d + byte_len line) (bd_dropped_lines d)))"

record diagnostic_snapshot =
  ds_lines :: "rstr list"
  ds_retained_bytes :: nat
  ds_dropped_lines :: nat

definition diag_snapshot :: "bounded_diagnostics \<Rightarrow> diagnostic_snapshot" where
  "diag_snapshot d = \<lparr>ds_lines = bd_lines d, ds_retained_bytes = bd_retained_bytes d,
     ds_dropped_lines = bd_dropped_lines d\<rparr>"

section \<open>Invariant\<close>

definition total_bytes :: "rstr list \<Rightarrow> nat" where
  "total_bytes ls = sum_list (map byte_len ls)"

definition bd_inv :: "bounded_diagnostics \<Rightarrow> bool" where
  "bd_inv d = (length (bd_lines d) \<le> MAX_DIAGNOSTIC_LINES
    \<and> bd_retained_bytes d = total_bytes (bd_lines d) \<and> bd_retained_bytes d \<le> MAX_DIAGNOSTIC_BYTES)"

lemma total_bytes_simps [simp]:
  "total_bytes [] = 0" "total_bytes (l # ls) = byte_len l + total_bytes ls"
  "total_bytes (ls @ ms) = total_bytes ls + total_bytes ms"
  by (simp_all add: total_bytes_def)

lemma bd_inv_default [inv_intros]: "bd_inv bd_default"
  by (simp add: bd_inv_def bd_default_def)

lemma clip_line_bound: "clip_line l = Some m \<Longrightarrow> byte_len m \<le> MAX_DIAGNOSTIC_BYTES \<and> (\<exists>q. l = m @ q)"
  by (auto simp: clip_line_def dest: take_bytes_Some split: if_splits)

lemma clip_line_None:
  "clip_line l = None \<longleftrightarrow> MAX_DIAGNOSTIC_BYTES < byte_len l \<and> take_bytes MAX_DIAGNOSTIC_BYTES l = None"
  by (auto simp: clip_line_def)

text \<open>The loop drops lines from the front only, keeps the byte count exact, ends within
  both bounds, and never drops the newest line when that one fits alone.\<close>

lemma trim_lines_spec:
  assumes "byte_len line \<le> MAX_DIAGNOSTIC_BYTES"
  shows "\<exists>k \<le> length ls. bd_lines (trim_lines (ls @ [line]) (total_bytes (ls @ [line])) d) = drop k ls @ [line]
    \<and> bd_inv (trim_lines (ls @ [line]) (total_bytes (ls @ [line])) d)
    \<and> bd_dropped_lines (trim_lines (ls @ [line]) (total_bytes (ls @ [line])) d) mod 2 ^ 64 = (d + k) mod 2 ^ 64"
proof (induction ls arbitrary: d)
  case Nil
  then show ?case
    using assms by (simp add: bd_inv_def MAX_DIAGNOSTIC_LINES_def)
next
  case (Cons l ls)
  show ?case
  proof (cases "length (l # ls @ [line]) > MAX_DIAGNOSTIC_LINES \<or> total_bytes (l # ls @ [line]) > MAX_DIAGNOSTIC_BYTES")
    case False
    then show ?thesis by (intro exI [of _ 0]) (simp add: bd_inv_def)
  next
    case True
    then have eq: "trim_lines ((l # ls) @ [line]) (total_bytes ((l # ls) @ [line])) d =
        trim_lines (ls @ [line]) (total_bytes (ls @ [line])) ((d + 1) mod 2 ^ 64)" by simp
    obtain k where "k \<le> length ls"
      "bd_lines (trim_lines (ls @ [line]) (total_bytes (ls @ [line])) ((d + 1) mod 2 ^ 64)) = drop k ls @ [line]"
      "bd_inv (trim_lines (ls @ [line]) (total_bytes (ls @ [line])) ((d + 1) mod 2 ^ 64))"
      "bd_dropped_lines (trim_lines (ls @ [line]) (total_bytes (ls @ [line])) ((d + 1) mod 2 ^ 64)) mod 2 ^ 64 =
        ((d + 1) mod 2 ^ 64 + k) mod 2 ^ 64"
      using Cons.IH [of "(d + 1) mod 2 ^ 64"] by blast
    then show ?thesis
      unfolding eq by (intro exI [of _ "Suc k"]) (simp add: mod_simps)
  qed
qed

lemma push_line_inv [inv_intros]: "bd_inv d \<Longrightarrow> push_line l d = Some d' \<Longrightarrow> bd_inv d'"
proof -
  assume inv: "bd_inv d" and push: "push_line l d = Some d'"
  obtain m where m: "clip_line l = Some m" using push by (auto simp: push_line_def split: option.splits)
  have "bd_retained_bytes d + byte_len m = total_bytes (bd_lines d @ [m])"
    using inv by (simp add: bd_inv_def)
  then show "bd_inv d'"
    using trim_lines_spec [of m "bd_lines d" "bd_dropped_lines d"] clip_line_bound [OF m] push
    by (auto simp: push_line_def m)
qed

text \<open>ASCII text always has a boundary at the cut.\<close>

lemma take_bytes_ascii: "(\<And>c. c \<in> set s \<Longrightarrow> c < 128) \<Longrightarrow> n \<le> length s \<Longrightarrow> take_bytes n s = Some (take n s)"
proof (induction s arbitrary: n)
  case (Cons c s)
  then show ?case by (cases n) (auto simp: utf8_width_def)
qed simp

lemma take_bytes_split:
  "take_bytes (Suc n) (replicate n 97 @ [233] @ r) = None"
proof (induction n)
  case 0
  then show ?case by (simp add: utf8_width_def)
next
  case (Suc n)
  then show ?case by (simp add: utf8_width_def)
qed

lemma byte_len_replicate: "byte_len (replicate n 97) = n"
  by (induction n) (simp_all add: utf8_width_def)

section \<open>Properties\<close>

text \<open>A push that returns keeps the log within 512 lines and 64 KiB with an exact byte
  count; the log is a suffix of the old lines followed by the new line, clipped to a prefix
  of at most 64 KiB, and each dropped line is counted.\<close>

theorem diagnostics_push:
  assumes "bd_inv d" "push_line l d = Some d'"
  shows "bd_inv d' \<and> (\<exists>k m. k \<le> length (bd_lines d) \<and> bd_lines d' = drop k (bd_lines d) @ [m]
    \<and> byte_len m \<le> 65536 \<and> (\<exists>q. l = m @ q) \<and> (byte_len l \<le> 65536 \<longrightarrow> m = l)
    \<and> bd_dropped_lines d' mod 2 ^ 64 = (bd_dropped_lines d + k) mod 2 ^ 64)"
proof -
  obtain m where m: "clip_line l = Some m" using assms(2) by (auto simp: push_line_def split: option.splits)
  have d': "d' = trim_lines (bd_lines d @ [m]) (total_bytes (bd_lines d @ [m])) (bd_dropped_lines d)"
    using assms m by (simp add: push_line_def bd_inv_def)
  have whole: "byte_len l \<le> 65536 \<longrightarrow> m = l"
    using m by (auto simp: clip_line_def MAX_DIAGNOSTIC_BYTES_def split: if_splits)
  show ?thesis
    using trim_lines_spec [of m "bd_lines d" "bd_dropped_lines d"] clip_line_bound [OF m] whole d'
    by (auto simp: MAX_DIAGNOSTIC_BYTES_def)
qed

theorem diagnostics_push_witness:
  "\<exists>d'. push_line (lit ''ready'') bd_default = Some d' \<and> bd_inv d' \<and> bd_lines d' = [lit ''ready'']"
proof -
  have "byte_len (lit ''ready'') = 5" by (simp add: lit_def utf8_width_def)
  then have "\<exists>d'. push_line (lit ''ready'') bd_default = Some d' \<and> bd_lines d' = [lit ''ready'']"
    by (simp add: push_line_def clip_line_def bd_default_def MAX_DIAGNOSTIC_BYTES_def MAX_DIAGNOSTIC_LINES_def)
  then show ?thesis using diagnostics_push [OF bd_inv_default] by blast
qed

text \<open>C40: the log panics on exactly the lines longer than 64 KiB whose byte 65536 lies
  inside a character, and such lines exist: 65535 ASCII characters followed by one
  two-byte character.\<close>

theorem diagnostics_panic:
  "(push_line l d = None \<longleftrightarrow> 65536 < byte_len l \<and> take_bytes 65536 l = None)
   \<and> push_line (replicate 65535 97 @ [233]) d = None"
proof -
  have "push_line x d = None \<longleftrightarrow> 65536 < byte_len x \<and> take_bytes 65536 x = None" for x
    using clip_line_None [of x] by (auto simp: push_line_def MAX_DIAGNOSTIC_BYTES_def split: option.splits)
  moreover have "65536 < byte_len (replicate 65535 97 @ [233])"
    by (simp only: byte_len_simps byte_len_replicate) (simp add: utf8_width_def)
  moreover have "take_bytes 65536 (replicate 65535 97 @ [233]) = None"
    using take_bytes_split [of 65535 "[]"] by simp
  ultimately show ?thesis by blast
qed

end
