(* ===== verification/Requests.thy ===== *)
theory Requests
  imports Json
begin

text \<open>
  The requests the program sends to the app-server (\<open>cdr-app-server/src/requests.rs\<close>):
  method, parameters and timeout (in milliseconds), and the methods whose response wait may
  be abandoned because they only observe.
\<close>

record app_request =
  ar_method :: rstr
  ar_params :: json
  ar_timeout_ms :: nat

definition observational_methods :: "string list" where
  "observational_methods =
    [''account/rateLimits/read'', ''config/read'', ''account/usage/read'', ''model/list'', ''thread/list'',
     ''thread/loaded/list'', ''thread/read'', ''thread/turns/list'', ''thread/goal/get'', ''mcpServerStatus/list'']"

definition is_observational :: "rstr \<Rightarrow> bool" where
  "is_observational m = (m \<in> set (map lit observational_methods))"

datatype service_tier_update = TierUnchanged | TierSet rstr | TierClear

record thread_settings_update =
  su_model :: "rstr option"
  su_effort :: "rstr option"
  su_effort_clear :: bool
  su_service_tier :: service_tier_update

definition request_with_timeout :: "string \<Rightarrow> json \<Rightarrow> nat \<Rightarrow> app_request" where
  "request_with_timeout m params timeout = \<lparr>ar_method = lit m, ar_params = params, ar_timeout_ms = timeout\<rparr>"

definition mk_request :: "string \<Rightarrow> json \<Rightarrow> nat \<Rightarrow> app_request" where
  "mk_request m params seconds = request_with_timeout m params (seconds * 1000)"

definition thread_request :: "string \<Rightarrow> rstr \<Rightarrow> nat \<Rightarrow> app_request" where
  "thread_request m thread_id seconds = mk_request m (json_object [(''threadId'', JStr thread_id)]) seconds"

definition turn_input :: "rstr \<Rightarrow> json list" where
  "turn_input prompt = [json_object [(''type'', JStr (lit ''text'')), (''text'', JStr prompt),
     (''text_elements'', JArr [])]]"

definition read_thread_with_timeout :: "rstr \<Rightarrow> bool \<Rightarrow> nat \<Rightarrow> app_request" where
  "read_thread_with_timeout thread_id include_turns timeout = request_with_timeout ''thread/read''
     (json_object [(''threadId'', JStr thread_id), (''includeTurns'', JBool include_turns)]) timeout"

definition read_thread :: "rstr \<Rightarrow> bool \<Rightarrow> app_request" where
  "read_thread thread_id include_turns = read_thread_with_timeout thread_id include_turns 8000"

definition get_goal :: "rstr \<Rightarrow> app_request" where
  "get_goal thread_id = thread_request ''thread/goal/get'' thread_id 8"

definition resume_thread_with_timeout :: "rstr \<Rightarrow> nat \<Rightarrow> app_request" where
  "resume_thread_with_timeout thread_id timeout =
     request_with_timeout ''thread/resume'' (json_object [(''threadId'', JStr thread_id)]) timeout"

definition resume_thread :: "rstr \<Rightarrow> app_request" where
  "resume_thread thread_id = resume_thread_with_timeout thread_id 10000"

definition fork_thread_persistent :: "rstr \<Rightarrow> nat \<Rightarrow> app_request" where
  "fork_thread_persistent thread_id timeout = request_with_timeout ''thread/fork''
     (json_object [(''threadId'', JStr thread_id), (''ephemeral'', JBool False)]) timeout"

definition start_thread :: "rstr option \<Rightarrow> app_request" where
  "start_thread cwd = mk_request ''thread/start''
     (case cwd of None \<Rightarrow> json_object [] | Some d \<Rightarrow> json_object [(''cwd'', JStr d)]) 10"

definition update_thread_settings :: "rstr \<Rightarrow> thread_settings_update \<Rightarrow> app_request" where
  "update_thread_settings thread_id settings =
    (let p0 = obj_of [(''threadId'', JStr thread_id)];
         p1 = (case su_model settings of None \<Rightarrow> p0 | Some m \<Rightarrow> obj_insert (lit ''model'') (JStr m) p0);
         p2 = (if su_effort_clear settings then obj_insert (lit ''effort'') JNull p1
               else (case su_effort settings of None \<Rightarrow> p1 | Some e \<Rightarrow> obj_insert (lit ''effort'') (JStr e) p1));
         p3 = (case su_service_tier settings of
                 TierUnchanged \<Rightarrow> p2
               | TierSet tier \<Rightarrow> obj_insert (lit ''serviceTier'') (JStr tier) p2
               | TierClear \<Rightarrow> obj_insert (lit ''serviceTier'') JNull p2)
     in mk_request ''thread/settings/update'' (JObj p3) 10)"

definition list_models :: app_request where
  "list_models = mk_request ''model/list'' (json_object []) 8"

definition start_turn_with_input :: "rstr \<Rightarrow> json list \<Rightarrow> app_request" where
  "start_turn_with_input thread_id input =
     mk_request ''turn/start'' (json_object [(''threadId'', JStr thread_id), (''input'', JArr input)]) 12"

definition start_turn :: "rstr \<Rightarrow> rstr \<Rightarrow> app_request" where
  "start_turn thread_id prompt = start_turn_with_input thread_id (turn_input prompt)"

definition steer_turn :: "rstr \<Rightarrow> rstr \<Rightarrow> rstr \<Rightarrow> app_request" where
  "steer_turn thread_id prompt expected_turn_id = mk_request ''turn/steer''
     (json_object [(''threadId'', JStr thread_id), (''expectedTurnId'', JStr expected_turn_id),
       (''input'', JArr (turn_input prompt))]) 10"

definition interrupt_turn :: "rstr \<Rightarrow> rstr \<Rightarrow> app_request" where
  "interrupt_turn thread_id turn_id = mk_request ''turn/interrupt''
     (json_object [(''threadId'', JStr thread_id), (''turnId'', JStr turn_id)]) 10"

definition archive_thread :: "rstr \<Rightarrow> app_request" where
  "archive_thread thread_id = thread_request ''thread/archive'' thread_id 10"

definition clean_background_terminals :: "rstr \<Rightarrow> app_request" where
  "clean_background_terminals thread_id = thread_request ''thread/backgroundTerminals/clean'' thread_id 10"

definition unsubscribe_thread :: "rstr \<Rightarrow> app_request" where
  "unsubscribe_thread thread_id = thread_request ''thread/unsubscribe'' thread_id 8"

definition rate_limits :: app_request where
  "rate_limits = mk_request ''account/rateLimits/read'' (json_object []) 15"

definition usage :: app_request where
  "usage = mk_request ''account/usage/read'' (json_object []) 15"

lemma is_observational_lit: "is_observational (lit m) \<longleftrightarrow> m \<in> set observational_methods"
  by (auto simp: is_observational_def)

lemmas request_defs = mk_request_def request_with_timeout_def thread_request_def read_thread_with_timeout_def
  read_thread_def get_goal_def resume_thread_with_timeout_def resume_thread_def fork_thread_persistent_def
  start_thread_def update_thread_settings_def list_models_def start_turn_with_input_def start_turn_def
  steer_turn_def interrupt_turn_def archive_thread_def clean_background_terminals_def unsubscribe_thread_def
  rate_limits_def usage_def Let_def

section \<open>Properties\<close>

text \<open>Among the requests the program builds, exactly the reads (thread, goal, models,
  rate limits, usage) are observational; every request that changes a thread or a turn is
  not, so its response wait is never abandoned as if nothing had happened.\<close>

theorem observational_requests:
  "(\<forall>r \<in> {read_thread t inc, get_goal t, list_models, rate_limits, usage}. is_observational (ar_method r))
   \<and> (\<forall>r \<in> {resume_thread t, fork_thread_persistent t ms, start_thread cwd, update_thread_settings t su,
        start_turn t prompt, steer_turn t prompt tu, interrupt_turn t tu, archive_thread t,
        clean_background_terminals t, unsubscribe_thread t}. \<not> is_observational (ar_method r))"
  by (simp add: request_defs is_observational_lit observational_methods_def)

theorem observational_requests_witness:
  "is_observational (ar_method (read_thread (lit ''t'') True)) \<and> \<not> is_observational (ar_method (start_turn (lit ''t'') []))"
  using observational_requests [of "lit ''t''" True 1 None
      "\<lparr>su_model = None, su_effort = None, su_effort_clear = False, su_service_tier = TierUnchanged\<rparr>" "[]" "[]"] by blast

text \<open>A settings update carries the thread and exactly the settings it changes: the
  model when given, the effort as \<open>null\<close> when cleared and else when given, the service
  tier as set or as \<open>null\<close> when cleared.\<close>

theorem settings_update_fields:
  "jget (ar_params (update_thread_settings t su)) ''threadId'' = Some (JStr t)
   \<and> jget (ar_params (update_thread_settings t su)) ''model'' = map_option JStr (su_model su)
   \<and> jget (ar_params (update_thread_settings t su)) ''effort'' =
       (if su_effort_clear su then Some JNull else map_option JStr (su_effort su))
   \<and> jget (ar_params (update_thread_settings t su)) ''serviceTier'' =
       (case su_service_tier su of TierUnchanged \<Rightarrow> None | TierSet s \<Rightarrow> Some (JStr s) | TierClear \<Rightarrow> Some JNull)"
  by (simp add: request_defs obj_get_insert split: option.splits service_tier_update.splits)

end
