(* ===== verification/Client.thy ===== *)
theory Client
  imports Runtime_State Lifecycle Diagnostics Requests
begin

text \<open>
  One app-server client: its shared state \<open>Inner\<close> (\<open>cdr-app-server/src/client.rs\<close>),
  the table of pending responses (\<open>client/pending.rs\<close>), the reader side
  (\<open>transport.rs\<close>), the writer and the response claims (\<open>control/write.rs\<close>,
  \<open>control/response_claim.rs\<close>, \<open>control.rs\<close>, \<open>control/close.rs\<close>).

  What leaves the client is kept in the state: the values sent on the two broadcast
  channels and, in \<open>ci_delivered\<close>, the outcome sent on the one-shot channel of each
  registered request. Where the code awaits, the step of the other tasks is an argument
  (a function on the client). The JSON parser and the texts of third-party errors are
  arguments; \<open>None\<close> as the result of a step is a panic of the diagnostic log.
\<close>

section \<open>State\<close>

datatype pending_outcome =
    PoResponse "(rpc_error_payload, json) result"
  | PoTransportClosed rstr
  | PoTimeout

record pending_response =
  pr_occurrence :: occurrence
  pr_deadline :: bool

record client =
  ci_child :: bool
  ci_closed :: bool
  ci_diagnostics :: bounded_diagnostics
  ci_lifecycle :: client_lifecycle
  ci_notifications :: "notification list"
  ci_pending :: "(request_id, pending_response) hmap"
  ci_server_requests :: "server_request list"
  ci_state :: runtime_state
  ci_stdin :: bool
  ci_delivered :: "(occurrence \<times> pending_outcome) list"

definition MAX_PENDING_RESPONSES :: nat where
  "MAX_PENDING_RESPONSES = 1024"

section \<open>Startup (\<open>client/startup.rs\<close>)\<close>

text \<open>The client right after its process was spawned, and the commit at the end of a
  successful initialisation, which a lifecycle seal forbids.\<close>

definition spawn_client :: "nat option \<Rightarrow> client" where
  "spawn_client process_id = \<lparr>ci_child = True, ci_closed = False, ci_diagnostics = bd_default,
     ci_lifecycle = lc_new, ci_notifications = [], ci_pending = [], ci_server_requests = [],
     ci_state = starting process_id, ci_stdin = True, ci_delivered = []\<rparr>"

definition commit_initialized :: "client \<Rightarrow> (app_server_error, client) result" where
  "commit_initialized c = with_open (ci_lifecycle c)
     (c\<lparr>ci_state := (ci_state c)\<lparr>rt_initialized := True, rt_generation := 1\<rparr>\<rparr>)"

section \<open>Pending responses (\<open>pending.rs\<close>)\<close>

text \<open>Dropping a pending response drops its admission permit. The \<open>expect\<close> of the permit
  cannot fire for an entry of the table (lemma \<open>permit_held\<close>).\<close>

definition drop_one :: "client_lifecycle \<Rightarrow> client_lifecycle" where
  "drop_one lc = (case drop_permit lc of Some lc' \<Rightarrow> lc' | None \<Rightarrow> lc)"

definition drop_pending :: "client \<Rightarrow> client" where
  "drop_pending c = c\<lparr>ci_lifecycle := drop_one (ci_lifecycle c)\<rparr>"

text \<open>\<open>respond\<close>, \<open>transport_closed\<close> and \<open>expire\<close> send on the one-shot channel and
  consume the entry.\<close>

definition deliver :: "pending_response \<Rightarrow> pending_outcome \<Rightarrow> client \<Rightarrow> client" where
  "deliver p out c = drop_pending (c\<lparr>ci_delivered := ci_delivered c @ [(pr_occurrence p, out)]\<rparr>)"

definition take_pending_response :: "request_id \<Rightarrow> client \<Rightarrow> pending_response option \<times> client" where
  "take_pending_response rid c =
    (hm_get (ci_pending c) rid, c\<lparr>ci_pending := hm_remove rid (ci_pending c)\<rparr>)"

definition take_occurrence :: "request_id \<Rightarrow> occurrence \<Rightarrow> client \<Rightarrow> pending_response option \<times> client" where
  "take_occurrence rid occ c = (case hm_get (ci_pending c) rid of
      Some entry \<Rightarrow>
        if pr_occurrence entry = occ then (Some entry, c\<lparr>ci_pending := hm_remove rid (ci_pending c)\<rparr>)
        else (None, c)
    | None \<Rightarrow> (None, c))"

text \<open>The part of \<open>spawn_deadline\<close> that attaches the deadline to the entry.\<close>

definition attach_deadline :: "request_id \<Rightarrow> client \<Rightarrow> client" where
  "attach_deadline rid c = (case hm_get (ci_pending c) rid of
      Some entry \<Rightarrow> c\<lparr>ci_pending := hm_insert rid (entry\<lparr>pr_deadline := True\<rparr>) (ci_pending c)\<rparr>
    | None \<Rightarrow> c)"

definition expire_deadline :: "request_id \<Rightarrow> occurrence \<Rightarrow> client \<Rightarrow> client" where
  "expire_deadline rid occ c = (case take_occurrence rid occ c of
      (Some entry, c') \<Rightarrow> deliver entry PoTimeout c' | (None, c') \<Rightarrow> c')"

definition register ::
    "request_id \<Rightarrow> pending_response \<Rightarrow> client \<Rightarrow> (app_server_error, client) result" where
  "register rid pending c =
    (if hm_len (ci_pending c) \<ge> MAX_PENDING_RESPONSES
     then Inl (InvalidReply (lit ''pending response capacity (1024) reached before dispatch''))
     else if hm_contains (ci_pending c) rid
     then Inl (InvalidReply (lit ''pending response id is already registered; original request retained''))
     else Inr (attach_deadline rid (c\<lparr>ci_pending := hm_insert rid pending (ci_pending c)\<rparr>)))"

definition drop_registration :: "request_id \<Rightarrow> occurrence \<Rightarrow> bool \<Rightarrow> client \<Rightarrow> client" where
  "drop_registration rid occ remove_on_drop c =
    (if remove_on_drop
     then (case take_occurrence rid occ c of (Some _, c') \<Rightarrow> drop_pending c' | (None, c') \<Rightarrow> c')
     else c)"

section \<open>Closing (\<open>transport.rs\<close>)\<close>

fun deliver_all :: "rstr \<Rightarrow> (request_id \<times> pending_response) list \<Rightarrow> client \<Rightarrow> client" where
  "deliver_all reason [] c = c"
| "deliver_all reason ((_, entry) # rest) c = deliver_all reason rest (deliver entry (PoTransportClosed reason) c)"

definition mark_closed :: "rstr \<Rightarrow> client \<Rightarrow> client" where
  "mark_closed reason c =
    (let (proposed, lc) = seal_and_resolve_close_reason reason (ci_lifecycle c);
         c1 = c\<lparr>ci_lifecycle := lc, ci_closed := True,
                ci_state := (ci_state c)\<lparr>rt_initialized := False, rt_process_id := None\<rparr>\<rparr>
     in case rt_closed_reason (ci_state c1) of
          Some _ \<Rightarrow> c1
        | None \<Rightarrow>
            let c2 = c1\<lparr>ci_state := (ci_state c1)\<lparr>rt_closed_reason := Some proposed\<rparr>\<rparr>;
                entries = ci_pending c2;
                c3 = deliver_all proposed entries (c2\<lparr>ci_pending := []\<rparr>)
            in c3\<lparr>ci_lifecycle := publish_closed proposed (ci_lifecycle c3)\<rparr>)"

section \<open>The reader (\<open>transport.rs\<close>)\<close>

definition record_diagnostic :: "rstr \<Rightarrow> client \<Rightarrow> client option" where
  "record_diagnostic line c = map_option (\<lambda>d. c\<lparr>ci_diagnostics := d\<rparr>) (push_line line (ci_diagnostics c))"

definition client_record_server_request ::
    "(request_id \<Rightarrow> rstr) \<Rightarrow> server_request \<Rightarrow> client \<Rightarrow> client option" where
  "client_record_server_request debug_id request c = (case record_server_request request (ci_state c) of
      Inr (Broadcast canonical, rt) \<Rightarrow>
        Some (c\<lparr>ci_state := rt, ci_server_requests := ci_server_requests c @ [canonical]\<rparr>)
    | Inr (Duplicate, rt) \<Rightarrow> Some (c\<lparr>ci_state := rt\<rparr>)
    | Inr (Deferred, rt) \<Rightarrow> Some (c\<lparr>ci_state := rt\<rparr>)
    | Inl (Conflict rid) \<Rightarrow> record_diagnostic (lit ''conflicting pending server request id: '' @ debug_id rid
        @ lit ''; canonical payload retained'') c
    | Inl (Saturated rid) \<Rightarrow> record_diagnostic
        (lit ''server request capacity saturated at 500 unresolved occurrences; rejected id: '' @ debug_id rid) c)"

text \<open>The texts the reader formats: the parser's and the decoder's error, the debug form
  of an id.\<close>

record reader_env =
  re_parse :: "rstr \<Rightarrow> json option"
  re_parse_error :: "rstr \<Rightarrow> rstr"
  re_decode_error :: "json \<Rightarrow> rstr"
  re_debug_id :: "request_id \<Rightarrow> rstr"

definition handle_message :: "reader_env \<Rightarrow> incoming_message \<Rightarrow> client \<Rightarrow> client option" where
  "handle_message env message c = (case message of
      InServerRequest request \<Rightarrow>
        if lc_sealed (ci_lifecycle c)
        then record_diagnostic (lit ''server request rejected after lifecycle seal: ''
               @ re_debug_id env (rq_id request)) c
        else client_record_server_request (re_debug_id env) request c
    | InResponse rid res \<Rightarrow>
        if lc_sealed (ci_lifecycle c)
        then record_diagnostic (lit ''response rejected after lifecycle seal: '' @ re_debug_id env rid) c
        else (case take_pending_response rid c of
            (Some sender, c') \<Rightarrow> Some (deliver sender (PoResponse res) c')
          | (None, c') \<Rightarrow> record_diagnostic (lit ''late or unknown response id: '' @ re_debug_id env rid) c')
    | InNotification n \<Rightarrow>
        if lc_sealed (ci_lifecycle c)
        then record_diagnostic (lit ''notification rejected after lifecycle seal: '' @ nt_method n) c
        else Some (c\<lparr>ci_state := record_notification n (ci_state c),
                     ci_notifications := ci_notifications c @ [n]\<rparr>)
    | InIgnored \<Rightarrow> record_diagnostic (lit ''ignored non-object app-server message'') c)"

definition handle_stdout_line :: "reader_env \<Rightarrow> occurrence \<Rightarrow> rstr \<Rightarrow> client \<Rightarrow> client option" where
  "handle_stdout_line env fresh line c =
    (if trim line = [] then Some c
     else (case re_parse env line of
         None \<Rightarrow> record_diagnostic (lit ''non-JSON stdout ('' @ re_parse_error env line @ lit ''): ''
                   @ take 200 line) c
       | Some value \<Rightarrow> (case classify fresh value of
             None \<Rightarrow> record_diagnostic (lit ''invalid JSON-RPC message: '' @ re_decode_error env value) c
           | Some message \<Rightarrow> handle_message env message c)))"

section \<open>The writer (\<open>control/write.rs\<close>)\<close>

datatype io_outcome = IoOk | IoError rstr | IoCancelled

text \<open>\<open>wait\<close> is what other tasks do while this one waits for the writer lock, \<open>during\<close>
  what they do during the write; the \<open>WriteAttemptGuard\<close> marks the client closed when
  the write fails or its future is dropped (\<open>IoCancelled\<close>, which returns nothing).\<close>

definition write_with_preflight ::
    "(client \<Rightarrow> client) \<Rightarrow> (client \<Rightarrow> client) \<Rightarrow> io_outcome \<Rightarrow>
     (client \<Rightarrow> (app_server_error, client) result) \<Rightarrow> client \<Rightarrow>
     (app_server_error, unit) result option \<times> client" where
  "write_with_preflight wait during io preflight c =
    (if ci_closed c then (Some (Inl Closed), c)
     else let c1 = wait c in
       if ci_closed c1 then (Some (Inl Closed), c1)
       else (case preflight c1 of
           Inl e \<Rightarrow> (Some (Inl e), c1)
         | Inr c2 \<Rightarrow>
             if \<not> ci_stdin c2 then (Some (Inl Closed), c2)
             else let c3 = during c2 in
               (case io of
                  IoOk \<Rightarrow> (Some (Inr ()), c3)
                | IoError e \<Rightarrow> (Some (Inl (Io e)), mark_closed (lit ''app-server write outcome indeterminate'') c3)
                | IoCancelled \<Rightarrow> (None, mark_closed (lit ''app-server write outcome indeterminate'') c3))))"

section \<open>Response claims (\<open>control/response_claim.rs\<close>, \<open>control.rs\<close>)\<close>

definition claim_begin :: "request_id \<Rightarrow> occurrence \<Rightarrow> client \<Rightarrow> (app_server_error, client) result" where
  "claim_begin rid occ c = (case begin_server_response rid occ (ci_state c) of
      Inl e \<Rightarrow> Inl e | Inr rt \<Rightarrow> Inr (c\<lparr>ci_state := rt\<rparr>))"

definition claim_begin_current :: "request_id \<Rightarrow> occurrence \<Rightarrow> client \<Rightarrow> (app_server_error, client) result" where
  "claim_begin_current rid occ c =
    (case response_candidate rid occ (rt_server_requests (ci_state c)) of
       Inl e \<Rightarrow> Inl e
     | Inr request \<Rightarrow> (case extract_thread_id (rq_params request) of
           None \<Rightarrow> Inl (StaleServerRequest rid)
         | Some thread \<Rightarrow>
             (case opt_filter (\<lambda>turn. turn \<noteq> [] \<and> trim turn = turn) (jget_str (rq_params request) ''turnId'') of
                None \<Rightarrow> Inl (StaleServerRequest rid)
              | Some turn \<Rightarrow>
                  if active_turn_id thread (ci_state c) \<noteq> Some turn then Inl (StaleServerRequest rid)
                  else claim_begin rid occ c)))"

definition claim_resolve :: "request_id \<Rightarrow> occurrence \<Rightarrow> client \<Rightarrow> (app_server_error, unit) result \<times> client" where
  "claim_resolve rid occ c = (case resolve_server_request rid occ (ci_state c) of
      Inl e \<Rightarrow> (Inl e, c\<lparr>ci_state := mark_server_response_indeterminate rid occ (ci_state c)\<rparr>)
    | Inr (promoted, rt) \<Rightarrow> (Inr (), c\<lparr>ci_state := rt,
        ci_server_requests := ci_server_requests c @ (case promoted of None \<Rightarrow> [] | Some r \<Rightarrow> [r])\<rparr>))"

definition claim_drop :: "request_id \<Rightarrow> occurrence \<Rightarrow> client \<Rightarrow> client" where
  "claim_drop rid occ c = c\<lparr>ci_state := mark_server_response_indeterminate rid occ (ci_state c)\<rparr>"

text \<open>\<open>respond_admitted_with_checks\<close> and \<open>respond_error_admitted_with_checks\<close> differ in
  the written frame only: claim, write, resolve; a failed or cancelled write drops the claim.\<close>

definition respond_admitted ::
    "(client \<Rightarrow> client) \<Rightarrow> (client \<Rightarrow> client) \<Rightarrow> io_outcome \<Rightarrow>
     (client \<Rightarrow> (app_server_error, client) result) \<Rightarrow> request_id \<Rightarrow> occurrence \<Rightarrow> client \<Rightarrow>
     (app_server_error, unit) result option \<times> client" where
  "respond_admitted wait during io preflight rid occ c = (case claim_begin rid occ c of
      Inl e \<Rightarrow> (Some (Inl e), c)
    | Inr c1 \<Rightarrow> (case write_with_preflight wait during io preflight c1 of
          (Some (Inr _), c2) \<Rightarrow> (let (r, c3) = claim_resolve rid occ c2 in (Some r, c3))
        | (Some (Inl e), c2) \<Rightarrow> (Some (Inl e), claim_drop rid occ c2)
        | (None, c2) \<Rightarrow> (None, claim_drop rid occ c2)))"

text \<open>\<open>respond_current_admitted_with_checks\<close>: the claim is taken inside the preflight, under
  the writer lock, and only for the turn that is active then.\<close>

definition respond_current_admitted ::
    "(client \<Rightarrow> client) \<Rightarrow> (client \<Rightarrow> client) \<Rightarrow> io_outcome \<Rightarrow>
     (client \<Rightarrow> (app_server_error, client) result) \<Rightarrow> request_id \<Rightarrow> occurrence \<Rightarrow> client \<Rightarrow>
     (app_server_error, unit) result option \<times> client" where
  "respond_current_admitted wait during io preflight rid occ c =
    (let checked = (\<lambda>c1. case preflight c1 of Inl e \<Rightarrow> Inl e | Inr c2 \<Rightarrow> claim_begin_current rid occ c2);
         claimed = (\<not> ci_closed c \<and> \<not> ci_closed (wait c) \<and> is_ok (checked (wait c)))
     in case write_with_preflight wait during io checked c of
          (Some (Inr _), c2) \<Rightarrow> (let (r, c3) = claim_resolve rid occ c2 in (Some r, c3))
        | (Some (Inl e), c2) \<Rightarrow> (Some (Inl e), if claimed then claim_drop rid occ c2 else c2)
        | (None, c2) \<Rightarrow> (None, if claimed then claim_drop rid occ c2 else c2))"

section \<open>Quiescence and close (\<open>control.rs\<close>, \<open>control/close.rs\<close>)\<close>

definition client_seal_if_quiescent :: "client \<Rightarrow> bool \<times> client" where
  "client_seal_if_quiescent c =
    (let (ok, lc) = seal_if_quiescent (\<not> has_active_turns (ci_state c)
           \<and> \<not> sr_has_unsettled (rt_server_requests (ci_state c))) (ci_lifecycle c)
     in (ok, c\<lparr>ci_lifecycle := lc\<rparr>))"

definition seal_admissions :: "client \<Rightarrow> client" where
  "seal_admissions c = c\<lparr>ci_lifecycle := seal (ci_lifecycle c)\<rparr>"

datatype wait_outcome = WaitExited | WaitFailed rstr | WaitTimedOut

definition record_first :: "app_server_error option \<Rightarrow> app_server_error \<Rightarrow> app_server_error option" where
  "record_first first e = (case first of None \<Rightarrow> Some e | Some _ \<Rightarrow> first)"

definition reap_child ::
    "wait_outcome \<Rightarrow> rstr option \<Rightarrow> wait_outcome \<Rightarrow> nat \<Rightarrow> app_server_error option \<Rightarrow>
     bool \<times> app_server_error option" where
  "reap_child graceful kill_error forced forced_ms first =
    (case graceful of
       WaitExited \<Rightarrow> (True, first)
     | _ \<Rightarrow>
        (let f1 = (case graceful of WaitFailed e \<Rightarrow> record_first first (Io e) | _ \<Rightarrow> first);
             f2 = (case kill_error of Some e \<Rightarrow> record_first f1 (Io e) | None \<Rightarrow> f1)
         in case forced of
              WaitExited \<Rightarrow> (True, f2)
            | WaitFailed e \<Rightarrow> (False, record_first f2 (Io e))
            | WaitTimedOut \<Rightarrow> (False, record_first f2 (Timeout (lit ''process/exit'') forced_ms))))"

definition CLIENT_CLOSE_REASON :: rstr where
  "CLIENT_CLOSE_REASON = lit ''closed by client''"

definition close_using ::
    "rstr option \<Rightarrow> wait_outcome \<Rightarrow> rstr option \<Rightarrow> wait_outcome \<Rightarrow> nat \<Rightarrow> client \<Rightarrow>
     (app_server_error, unit) result \<times> client" where
  "close_using shutdown_error graceful kill_error forced forced_ms c =
    (let c1 = c\<lparr>ci_lifecycle := seal_for_close CLIENT_CLOSE_REASON (ci_lifecycle c), ci_closed := True\<rparr>;
         first = (if ci_stdin c1 then map_option Io shutdown_error else None);
         c2 = c1\<lparr>ci_stdin := False\<rparr>;
         (c3, first2) = (if ci_child c2
            then (let (reaped, f) = reap_child graceful kill_error forced forced_ms first
                  in (if reaped then c2\<lparr>ci_state := (ci_state c2)\<lparr>rt_process_exit_confirmed := True\<rparr>,
                                        ci_child := False\<rparr> else c2, f))
            else (c2, first));
         c4 = mark_closed CLIENT_CLOSE_REASON c3
     in (case first2 of None \<Rightarrow> Inr () | Some e \<Rightarrow> Inl e, c4))"

section \<open>A request (\<open>client.rs\<close>)\<close>

datatype request_progress =
    ReqFailed app_server_error
  | ReqCancelled
  | ReqPanicked
  | ReqWritten

text \<open>\<open>request_admitted_with_identity_checks\<close> up to the wait for the response: the id and the
  occurrence of the pending entry are fresh UUIDs, \<open>late1\<close> and \<open>late2\<close> say whether the
  deadline has passed before and after the preflight. A request whose frame was not written
  removes its entry; a cancelled one removes it when its method is observational.\<close>

definition deadline_checked ::
    "rstr \<Rightarrow> nat \<Rightarrow> bool \<Rightarrow> (client \<Rightarrow> (app_server_error, client) result) \<Rightarrow> bool \<Rightarrow>
     client \<Rightarrow> (app_server_error, client) result" where
  "deadline_checked m timeout_ms late1 preflight late2 c =
    (if late1 then Inl (Timeout m timeout_ms)
     else (case preflight c of
         Inl e \<Rightarrow> Inl e
       | Inr c' \<Rightarrow> if late2 then Inl (Timeout m timeout_ms) else Inr c'))"

definition request_begin ::
    "(client \<Rightarrow> client) \<Rightarrow> (client \<Rightarrow> client) \<Rightarrow> io_outcome \<Rightarrow>
     (client \<Rightarrow> (app_server_error, client) result) \<Rightarrow> bool \<Rightarrow> bool \<Rightarrow>
     rstr \<Rightarrow> nat \<Rightarrow> request_id \<Rightarrow> occurrence \<Rightarrow> client \<Rightarrow> request_progress \<times> client" where
  "request_begin wait during io preflight late1 late2 m timeout_ms rid occ c =
    (if ci_closed c then (ReqFailed Closed, c)
     else (case admit (ci_lifecycle c) of
         None \<Rightarrow> (ReqPanicked, c)
       | Some (Inl e) \<Rightarrow> (ReqFailed e, c)
       | Some (Inr lc) \<Rightarrow>
           (let c1 = c\<lparr>ci_lifecycle := lc\<rparr>
            in case register rid \<lparr>pr_occurrence = occ, pr_deadline = False\<rparr> c1 of
                 Inl e \<Rightarrow> (ReqFailed e, drop_pending c1)
               | Inr c2 \<Rightarrow>
                   (case write_with_preflight wait during io
                           (deadline_checked m timeout_ms late1 preflight late2) c2 of
                      (Some (Inr _), c3) \<Rightarrow> (ReqWritten, c3)
                    | (Some (Inl e), c3) \<Rightarrow> (ReqFailed e, drop_registration rid occ True c3)
                    | (None, c3) \<Rightarrow> (ReqCancelled, drop_registration rid occ (is_observational m) c3)))))"

text \<open>What the caller of a written request gets for each outcome of the one-shot channel;
  \<open>None\<close> is a channel whose sender was dropped.\<close>

definition request_result ::
    "rstr \<Rightarrow> nat \<Rightarrow> pending_outcome option \<Rightarrow> (app_server_error, json) result" where
  "request_result m timeout_ms out = (case out of
      Some (PoResponse (Inr v)) \<Rightarrow> Inr v
    | Some (PoResponse (Inl e)) \<Rightarrow> Inl (Remote m (pe_code e) (pe_message e) (pe_data e))
    | Some (PoTransportClosed reason) \<Rightarrow> Inl (TransportClosed m reason)
    | None \<Rightarrow> Inl (ResponseChannelClosed m)
    | Some PoTimeout \<Rightarrow> Inl (Timeout m timeout_ms))"

section \<open>Invariant\<close>

definition pending_occurrences :: "client \<Rightarrow> occurrence list" where
  "pending_occurrences c = map pr_occurrence (hm_values (ci_pending c))"

definition ci_inv :: "client \<Rightarrow> bool" where
  "ci_inv c = (hm_wf (ci_pending c) \<and> hm_len (ci_pending c) \<le> MAX_PENDING_RESPONSES
    \<and> hm_len (ci_pending c) \<le> lc_in_flight (ci_lifecycle c)
    \<and> distinct (pending_occurrences c @ map fst (ci_delivered c))
    \<and> (rt_closed_reason (ci_state c) \<noteq> None \<longrightarrow> ci_closed c \<and> lc_sealed (ci_lifecycle c) \<and> ci_pending c = []
         \<and> lc_closed_reason (ci_lifecycle c) = rt_closed_reason (ci_state c))
    \<and> (rt_closed_reason (ci_state c) = None \<longrightarrow> lc_closed_reason (ci_lifecycle c) = None))"

lemma drop_one_fields [simp]:
  "lc_in_flight (drop_one lc) = lc_in_flight lc - 1"
  "lc_sealed (drop_one lc) = lc_sealed lc"
  "lc_closed_reason (drop_one lc) = lc_closed_reason lc"
  "lc_close_intent (drop_one lc) = lc_close_intent lc"
  by (simp_all add: drop_one_def drop_permit_def)

lemma deliver_fields [simp]:
  "ci_pending (deliver p out c) = ci_pending c" "ci_state (deliver p out c) = ci_state c"
  "ci_closed (deliver p out c) = ci_closed c"
  "ci_diagnostics (deliver p out c) = ci_diagnostics c"
  "ci_notifications (deliver p out c) = ci_notifications c"
  "ci_server_requests (deliver p out c) = ci_server_requests c"
  "ci_stdin (deliver p out c) = ci_stdin c" "ci_child (deliver p out c) = ci_child c"
  "ci_delivered (deliver p out c) = ci_delivered c @ [(pr_occurrence p, out)]"
  "ci_lifecycle (deliver p out c) = drop_one (ci_lifecycle c)"
  by (simp_all add: deliver_def drop_pending_def)

text \<open>An entry of the table holds a permit: dropping it does not underflow the counter.\<close>

lemma permit_held:
  assumes "ci_inv c" "hm_get (ci_pending c) rid = Some entry"
  shows "drop_permit (ci_lifecycle c) \<noteq> None"
proof -
  have "0 < hm_len (ci_pending c)"
    using assms(2) by (cases "ci_pending c") (auto simp: hm_len_def)
  then show ?thesis using assms(1) by (simp add: ci_inv_def drop_permit_def)
qed

lemma remove_occurrences:
  assumes "hm_wf m" "hm_get m rid = Some entry"
  shows "mset (map pr_occurrence (hm_values m)) =
    add_mset (pr_occurrence entry) (mset (map pr_occurrence (hm_values (hm_remove rid m))))"
  using assms
proof (induction m)
  case (Cons e m)
  have wf: "hm_wf m" using Cons.prems(1) by (simp add: hm_wf_def)
  show ?case
  proof (cases "fst e = rid")
    case True
    then have "hm_get m rid = None"
      using Cons.prems(1) by (auto simp: hm_wf_def hm_get_def map_of_eq_None_iff)
    then have "hm_remove rid m = m" by (rule hm_get_None_remove)
    then show ?thesis
      using True Cons.prems(2) by (cases e) (simp add: hm_get_def hm_values_def hm_remove_def)
  next
    case False
    then show ?thesis
      using Cons.IH [OF wf] Cons.prems(2) by (cases e) (simp add: hm_get_def hm_values_def hm_remove_def)
  qed
qed simp

text \<open>Moving an entry from the table to the delivered outcomes keeps the occurrences
  distinct; dropping it does too.\<close>

lemma distinct_after_take:
  assumes "hm_wf m" "hm_get m rid = Some entry"
    and "distinct (map pr_occurrence (hm_values m) @ ds)"
  shows "distinct (map pr_occurrence (hm_values (hm_remove rid m)) @ ds @ [pr_occurrence entry])"
proof -
  have "mset (map pr_occurrence (hm_values m) @ ds) =
      mset (map pr_occurrence (hm_values (hm_remove rid m)) @ ds @ [pr_occurrence entry])"
    using remove_occurrences [OF assms(1,2)] by simp
  then show ?thesis using assms(3) by (metis mset_eq_imp_distinct_iff)
qed

lemma ci_inv_take_deliver:
  assumes "ci_inv c" "hm_get (ci_pending c) rid = Some entry"
  shows "ci_inv (deliver entry out (c\<lparr>ci_pending := hm_remove rid (ci_pending c)\<rparr>))"
proof -
  have wf: "hm_wf (ci_pending c)" and d: "distinct (pending_occurrences c @ map fst (ci_delivered c))"
    using assms(1) by (auto simp: ci_inv_def)
  have "Suc (hm_len (hm_remove rid (ci_pending c))) = hm_len (ci_pending c)"
    using wf assms(2) by (rule hm_len_remove)
  moreover have "ci_pending c \<noteq> []" using assms(2) by auto
  ultimately show ?thesis
    using assms(1) distinct_after_take [OF wf assms(2) d [unfolded pending_occurrences_def]]
    by (auto simp: ci_inv_def pending_occurrences_def)
qed

lemma ci_inv_take_drop:
  assumes "ci_inv c" "hm_get (ci_pending c) rid = Some entry"
  shows "ci_inv (drop_pending (c\<lparr>ci_pending := hm_remove rid (ci_pending c)\<rparr>))"
  using ci_inv_take_deliver [OF assms, of PoTimeout]
  by (auto simp: ci_inv_def deliver_def drop_pending_def pending_occurrences_def)

lemma expire_deadline_inv [inv_intros]: "ci_inv c \<Longrightarrow> ci_inv (expire_deadline rid occ c)"
  by (auto simp: expire_deadline_def take_occurrence_def intro: ci_inv_take_deliver split: option.splits)

lemma drop_registration_inv [inv_intros]: "ci_inv c \<Longrightarrow> ci_inv (drop_registration rid occ b c)"
  by (auto simp: drop_registration_def take_occurrence_def intro: ci_inv_take_drop split: option.splits)

lemma register_ok:
  assumes "register rid p c = Inr c'"
  shows "c' = c\<lparr>ci_pending := ci_pending c @ [(rid, p\<lparr>pr_deadline := True\<rparr>)]\<rparr>"
    "hm_get (ci_pending c) rid = None" "hm_len (ci_pending c) < MAX_PENDING_RESPONSES"
proof -
  show new: "hm_get (ci_pending c) rid = None" "hm_len (ci_pending c) < MAX_PENDING_RESPONSES"
    using assms by (auto simp: register_def hm_contains_def split: if_splits)
  have "c' = attach_deadline rid (c\<lparr>ci_pending := hm_insert rid p (ci_pending c)\<rparr>)"
    using assms by (simp add: register_def split: if_splits)
  then show "c' = c\<lparr>ci_pending := ci_pending c @ [(rid, p\<lparr>pr_deadline := True\<rparr>)]\<rparr>"
    using new(1) by (simp add: attach_deadline_def hm_insert_twice) (simp add: hm_insert_new)
qed

lemma register_inv:
  assumes "ci_inv c" "rt_closed_reason (ci_state c) = None"
    and "admit (ci_lifecycle c) = Some (Inr lc)" "register rid p (c\<lparr>ci_lifecycle := lc\<rparr>) = Inr c'"
    and "pr_occurrence p \<notin> set (pending_occurrences c @ map fst (ci_delivered c))"
  shows "ci_inv c'"
proof -
  have lc: "lc = (ci_lifecycle c)\<lparr>lc_in_flight := Suc (lc_in_flight (ci_lifecycle c))\<rparr>"
    using assms(3) by (auto simp: admit_def split: if_splits option.splits)
  have c': "c' = c\<lparr>ci_lifecycle := lc, ci_pending := ci_pending c @ [(rid, p\<lparr>pr_deadline := True\<rparr>)]\<rparr>"
    and new: "hm_get (ci_pending c) rid = None" and room: "hm_len (ci_pending c) < MAX_PENDING_RESPONSES"
    using register_ok [OF assms(4)] by simp_all
  have "hm_wf (ci_pending c')"
    using assms(1) new by (auto simp: c' ci_inv_def hm_wf_def hm_get_def map_of_eq_None_iff)
  moreover have "distinct (pending_occurrences c' @ map fst (ci_delivered c'))"
    using assms(1,5) by (auto simp: c' ci_inv_def pending_occurrences_def hm_values_def)
  ultimately show ?thesis
    using assms(1,2) room by (auto simp: c' lc ci_inv_def hm_len_def)
qed

lemma deliver_all_spec:
  "deliver_all reason es c = c\<lparr>
     ci_lifecycle := (ci_lifecycle c)\<lparr>lc_in_flight := lc_in_flight (ci_lifecycle c) - length es\<rparr>,
     ci_delivered := ci_delivered c @ map (\<lambda>e. (pr_occurrence (snd e), PoTransportClosed reason)) es\<rparr>"
proof (induction es arbitrary: c)
  case (Cons e es)
  then show ?case
    by (cases e) (simp add: deliver_def drop_pending_def drop_one_def drop_permit_def)
qed simp

definition close_reason :: "rstr \<Rightarrow> client \<Rightarrow> rstr" where
  "close_reason reason c = (case rt_closed_reason (ci_state c) of
      Some r \<Rightarrow> r
    | None \<Rightarrow> (case lc_close_intent (ci_lifecycle c) of Some r \<Rightarrow> r | None \<Rightarrow> reason))"

lemma mark_closed_again:
  "rt_closed_reason (ci_state c) \<noteq> None \<Longrightarrow> mark_closed reason c =
    c\<lparr>ci_lifecycle := (ci_lifecycle c)\<lparr>lc_sealed := True\<rparr>, ci_closed := True,
      ci_state := (ci_state c)\<lparr>rt_initialized := False, rt_process_id := None\<rparr>\<rparr>"
  by (auto simp: mark_closed_def seal_and_resolve_close_reason_def Let_def)

lemma mark_closed_first:
  assumes "rt_closed_reason (ci_state c) = None" "lc_closed_reason (ci_lifecycle c) = None"
  shows "mark_closed reason c = c\<lparr>ci_closed := True, ci_pending := [],
    ci_state := (ci_state c)\<lparr>rt_initialized := False, rt_process_id := None,
       rt_closed_reason := Some (close_reason reason c)\<rparr>,
    ci_delivered := ci_delivered c @
      map (\<lambda>e. (pr_occurrence (snd e), PoTransportClosed (close_reason reason c))) (ci_pending c),
    ci_lifecycle := (ci_lifecycle c)\<lparr>lc_sealed := True,
      lc_in_flight := lc_in_flight (ci_lifecycle c) - hm_len (ci_pending c),
      lc_closed_reason := Some (close_reason reason c)\<rparr>\<rparr>"
  using assms
  by (simp add: mark_closed_def seal_and_resolve_close_reason_def Let_def deliver_all_spec publish_closed_def
      close_reason_def hm_len_def split: option.splits)

lemma mark_closed_inv [inv_intros]:
  assumes "ci_inv c" shows "ci_inv (mark_closed reason c)"
proof (cases "rt_closed_reason (ci_state c)")
  case None
  then have "lc_closed_reason (ci_lifecycle c) = None" using assms by (simp add: ci_inv_def)
  moreover have "distinct (map (\<lambda>e. pr_occurrence (snd e)) (ci_pending c) @ map fst (ci_delivered c))"
    using assms by (simp add: ci_inv_def pending_occurrences_def hm_values_def comp_def)
  ultimately show ?thesis
    using assms None
    by (auto simp: mark_closed_first ci_inv_def pending_occurrences_def hm_values_def hm_len_def comp_def)
next
  case (Some r)
  then show ?thesis
    using assms by (simp add: mark_closed_again ci_inv_def pending_occurrences_def)
qed

lemma ci_inv_parts [simp]:
  "ci_inv (c\<lparr>ci_notifications := ns\<rparr>) = ci_inv c" "ci_inv (c\<lparr>ci_server_requests := rs\<rparr>) = ci_inv c"
  "ci_inv (c\<lparr>ci_diagnostics := d\<rparr>) = ci_inv c" "ci_inv (c\<lparr>ci_stdin := b\<rparr>) = ci_inv c"
  "ci_inv (c\<lparr>ci_child := b\<rparr>) = ci_inv c"
  "ci_inv (c\<lparr>ci_state := rt, ci_server_requests := rs\<rparr>) = ci_inv (c\<lparr>ci_state := rt\<rparr>)"
  "ci_inv (c\<lparr>ci_state := rt, ci_notifications := ns\<rparr>) = ci_inv (c\<lparr>ci_state := rt\<rparr>)"
  by (simp_all add: ci_inv_def pending_occurrences_def)

lemma record_diagnostic_inv [inv_intros]: "ci_inv c \<Longrightarrow> record_diagnostic l c = Some c' \<Longrightarrow> ci_inv c'"
  by (auto simp: record_diagnostic_def ci_inv_parts)

lemma ci_inv_state:
  "ci_inv c \<Longrightarrow> rt_closed_reason rt = rt_closed_reason (ci_state c) \<Longrightarrow> ci_inv (c\<lparr>ci_state := rt\<rparr>)"
  by (simp add: ci_inv_def pending_occurrences_def)

lemma server_ops_closed_reason [simp]:
  "record_server_request r rt = Inr (out, rt') \<Longrightarrow> rt_closed_reason rt' = rt_closed_reason rt"
  "begin_server_response rid occ rt = Inr rt' \<Longrightarrow> rt_closed_reason rt' = rt_closed_reason rt"
  "resolve_server_request rid occ rt = Inr (p, rt') \<Longrightarrow> rt_closed_reason rt' = rt_closed_reason rt"
  "rt_closed_reason (mark_server_response_indeterminate rid occ rt) = rt_closed_reason rt"
  by (auto simp: record_server_request_def begin_server_response_def resolve_server_request_def
      mark_server_response_indeterminate_def split: sum.splits prod.splits)

lemma client_record_server_request_inv:
  assumes "ci_inv c" "client_record_server_request dbg r c = Some c'" shows "ci_inv c'"
proof (cases "record_server_request r (ci_state c)")
  case (Inl e)
  then show ?thesis
    using assms by (cases e) (auto simp: client_record_server_request_def intro: record_diagnostic_inv)
next
  case (Inr x)
  then obtain out rt where x: "x = (out, rt)" by (cases x)
  then have "ci_inv (c\<lparr>ci_state := rt\<rparr>)"
    using ci_inv_state assms(1) server_ops_closed_reason(1) Inr by metis
  then show ?thesis
    using assms(2) Inr x
    by (cases out) (auto simp: client_record_server_request_def)
qed

lemma handle_message_inv:
  assumes "ci_inv c" "handle_message env msg c = Some c'" shows "ci_inv c'"
proof (cases msg)
  case (InServerRequest r)
  then show ?thesis
    using assms by (auto simp: handle_message_def intro: record_diagnostic_inv client_record_server_request_inv
        split: if_splits)
next
  case (InResponse rid res)
  then show ?thesis
    using assms ci_inv_take_deliver [OF assms(1)]
    by (auto simp: handle_message_def take_pending_response_def hm_get_None_remove intro: record_diagnostic_inv
        split: if_splits option.splits)
next
  case (InNotification n)
  then show ?thesis
    using assms ci_inv_state [OF assms(1)]
    by (auto simp: handle_message_def intro: record_diagnostic_inv split: if_splits)
next
  case InIgnored
  then show ?thesis using assms by (auto simp: handle_message_def intro: record_diagnostic_inv)
qed

lemma handle_stdout_line_inv [inv_intros]:
  "ci_inv c \<Longrightarrow> handle_stdout_line env fresh line c = Some c' \<Longrightarrow> ci_inv c'"
  by (auto simp: handle_stdout_line_def intro: record_diagnostic_inv handle_message_inv
      split: if_splits option.splits)

section \<open>Interleavings\<close>

text \<open>One atomic step of any task that shares the client. The compound operations above are
  sequences of these steps with the steps of other tasks in between.\<close>

definition ledger :: "client \<Rightarrow> server_request_state" where
  "ledger c = rt_server_requests (ci_state c)"

inductive client_step :: "client \<Rightarrow> client \<Rightarrow> bool" where
  step_commit: "commit_initialized c = Inr c' \<Longrightarrow> client_step c c'"
| step_line: "handle_stdout_line env fresh line c = Some c' \<Longrightarrow> client_step c c'"
| step_admit: "admit (ci_lifecycle c) = Some (Inr lc) \<Longrightarrow> client_step c (c\<lparr>ci_lifecycle := lc\<rparr>)"
| step_permit_drop:
    "hm_len (ci_pending c) < lc_in_flight (ci_lifecycle c) \<Longrightarrow>
     client_step c (c\<lparr>ci_lifecycle := drop_one (ci_lifecycle c)\<rparr>)"
| step_register:
    "\<not> ci_closed c \<Longrightarrow> admit (ci_lifecycle c) = Some (Inr lc) \<Longrightarrow>
     register rid p (c\<lparr>ci_lifecycle := lc\<rparr>) = Inr c' \<Longrightarrow>
     pr_occurrence p \<notin> set (pending_occurrences c @ map fst (ci_delivered c)) \<Longrightarrow> client_step c c'"
| step_expire: "client_step c (expire_deadline rid occ c)"
| step_drop_registration: "client_step c (drop_registration rid occ b c)"
| step_mark_closed: "client_step c (mark_closed reason c)"
| step_seal: "client_step c (seal_admissions c)"
| step_seal_for_close:
    "client_step c (c\<lparr>ci_lifecycle := seal_for_close r (ci_lifecycle c), ci_closed := True\<rparr>)"
| step_seal_quiescent: "client_step c (snd (client_seal_if_quiescent c))"
| step_pipes: "client_step c (c\<lparr>ci_stdin := False, ci_child := b\<rparr>)"
| step_exit_confirmed:
    "client_step c (c\<lparr>ci_state := (ci_state c)\<lparr>rt_process_exit_confirmed := True\<rparr>, ci_child := False\<rparr>)"
| step_claim: "claim_begin rid occ c = Inr c' \<Longrightarrow> client_step c c'"
| step_resolve: "claim_resolve rid occ c = (r, c') \<Longrightarrow> client_step c c'"
| step_claim_drop: "client_step c (claim_drop rid occ c)"

abbreviation client_steps :: "client \<Rightarrow> client \<Rightarrow> bool" where
  "client_steps \<equiv> client_step\<^sup>*\<^sup>*"

lemma claim_begin_inv [inv_intros]: "ci_inv c \<Longrightarrow> claim_begin rid occ c = Inr c' \<Longrightarrow> ci_inv c'"
  by (auto simp: claim_begin_def intro: ci_inv_state split: sum.splits)

lemma claim_resolve_inv [inv_intros]: "ci_inv c \<Longrightarrow> claim_resolve rid occ c = (r, c') \<Longrightarrow> ci_inv c'"
  by (auto simp: claim_resolve_def intro!: ci_inv_state split: sum.splits prod.splits)

lemma claim_drop_inv [inv_intros]: "ci_inv c \<Longrightarrow> ci_inv (claim_drop rid occ c)"
  by (simp add: claim_drop_def ci_inv_state)

lemma ci_inv_lifecycle:
  "ci_inv c \<Longrightarrow> lc_in_flight (ci_lifecycle c) \<le> lc_in_flight lc \<Longrightarrow>
    (lc_sealed (ci_lifecycle c) \<longrightarrow> lc_sealed lc) \<Longrightarrow> lc_closed_reason lc = lc_closed_reason (ci_lifecycle c) \<Longrightarrow>
    ci_inv (c\<lparr>ci_lifecycle := lc\<rparr>)"
  by (auto simp: ci_inv_def pending_occurrences_def)

lemma ci_inv_closed_flag: "ci_inv c \<Longrightarrow> ci_inv (c\<lparr>ci_closed := True\<rparr>)"
  by (auto simp: ci_inv_def pending_occurrences_def)

lemma not_closed_no_reason: "ci_inv c \<Longrightarrow> \<not> ci_closed c \<Longrightarrow> rt_closed_reason (ci_state c) = None"
  by (auto simp: ci_inv_def)

lemma client_step_inv:
  assumes "client_step c c'" "ci_inv c" shows "ci_inv c'"
  using assms
proof (induction rule: client_step.induct)
  case (step_admit c lc)
  then show ?case by (auto simp: admit_def intro!: ci_inv_lifecycle split: if_splits option.splits)
next
  case (step_permit_drop c)
  then show ?case by (simp add: ci_inv_def pending_occurrences_def)
next
  case (step_register c lc rid p c')
  then show ?case using register_inv not_closed_no_reason by blast
next
  case (step_seal c)
  then show ?case by (auto simp: seal_admissions_def seal_def intro!: ci_inv_lifecycle)
next
  case (step_seal_for_close c r)
  have "ci_inv (c\<lparr>ci_lifecycle := seal_for_close r (ci_lifecycle c)\<rparr>)"
    using step_seal_for_close by (intro ci_inv_lifecycle) (auto simp: seal_for_close_def Let_def)
  then show ?case using ci_inv_closed_flag by fastforce
next
  case (step_seal_quiescent c)
  then show ?case
    by (auto simp: client_seal_if_quiescent_def seal_if_quiescent_def Let_def intro!: ci_inv_lifecycle)
next
  case (step_pipes c b)
  then show ?case by (simp add: ci_inv_def pending_occurrences_def)
next
  case (step_exit_confirmed c)
  then show ?case by (simp add: ci_inv_def pending_occurrences_def)
next
  case (step_commit c c')
  then show ?case
    by (auto simp: commit_initialized_def with_open_def intro!: ci_inv_state split: if_splits)
qed (auto intro: inv_intros)

lemma client_steps_inv: "client_steps c c' \<Longrightarrow> ci_inv c \<Longrightarrow> ci_inv c'"
  by (induction rule: rtranclp_induct) (auto intro: client_step_inv)

text \<open>A closed client stays closed, with its reason, and delivers nothing more.\<close>

definition closed_with :: "rstr \<Rightarrow> (occurrence \<times> pending_outcome) list \<Rightarrow> client \<Rightarrow> bool" where
  "closed_with r ds c = (ci_inv c \<and> rt_closed_reason (ci_state c) = Some r \<and> ci_delivered c = ds)"

lemma closed_withD:
  assumes "closed_with r ds c"
  shows "ci_inv c" "rt_closed_reason (ci_state c) = Some r" "ci_delivered c = ds" "ci_pending c = []"
    "lc_sealed (ci_lifecycle c)" "ci_closed c" "lc_closed_reason (ci_lifecycle c) = Some r"
  using assms by (auto simp: closed_with_def ci_inv_def)

lemma closed_line_stays:
  assumes "closed_with r ds c" "handle_stdout_line env fresh line c = Some c'"
  shows "ci_state c' = ci_state c \<and> ci_delivered c' = ci_delivered c"
  using assms(2) closed_withD(5) [OF assms(1)]
  by (auto simp: handle_stdout_line_def handle_message_def record_diagnostic_def
      split: if_splits option.splits incoming_message.splits)

lemma closed_step:
  assumes "client_step c c'" "closed_with r ds c"
  shows "rt_closed_reason (ci_state c') = Some r \<and> ci_delivered c' = ds"
  using assms
proof (induction rule: client_step.induct)
  case (step_line env fresh line c c')
  then show ?case using closed_line_stays closed_withD(2,3) by metis
next
  case (step_mark_closed c reason)
  then show ?case using closed_withD(2,3) [OF step_mark_closed] by (simp add: mark_closed_again)
next
  case (step_claim rid occ c c')
  then show ?case by (auto simp: claim_begin_def closed_with_def split: sum.splits)
next
  case (step_resolve rid occ c res c')
  then show ?case by (auto simp: claim_resolve_def closed_with_def split: sum.splits prod.splits)
next
  case (step_expire c rid occ)
  then show ?case using closed_withD(4) [OF step_expire]
    by (simp add: expire_deadline_def take_occurrence_def closed_with_def)
next
  case (step_drop_registration c rid occ b)
  then show ?case using closed_withD(4) [OF step_drop_registration]
    by (simp add: drop_registration_def take_occurrence_def closed_with_def)
next
  case (step_register c lc rid p c')
  then show ?case using closed_withD(6) [OF step_register(5)] by simp
next
  case (step_commit c c')
  then show ?case using closed_withD(5) [OF step_commit(2)] by (simp add: commit_initialized_def with_open_def)
qed (auto simp: closed_with_def claim_drop_def seal_admissions_def client_seal_if_quiescent_def
      seal_if_quiescent_def Let_def)

lemma closed_steps: "client_steps c c' \<Longrightarrow> closed_with r ds c \<Longrightarrow> closed_with r ds c'"
  by (induction rule: rtranclp_induct) (use closed_step client_step_inv in \<open>auto simp: closed_with_def\<close>)

section \<open>Compound operations as interleaved steps\<close>

lemma steps_trans: "client_steps a b \<Longrightarrow> client_steps b c \<Longrightarrow> client_steps a c"
  by (rule rtranclp_trans)

lemma step_in_steps: "client_step a b \<Longrightarrow> client_steps a b"
  by (rule r_into_rtranclp)

lemma write_steps:
  assumes wait: "\<And>c. client_steps c (wait c)" and during: "\<And>c. client_steps c (during c)"
    and pre: "\<And>a b. preflight a = Inr b \<Longrightarrow> client_steps a b"
    and w: "write_with_preflight wait during io preflight c = (r, c')"
  shows "client_steps c c'"
proof -
  have closing: "client_steps a (mark_closed reason a)" for a reason
    by (rule step_in_steps) (rule step_mark_closed)
  show ?thesis
  proof (cases "ci_closed c \<or> ci_closed (wait c)")
    case True
    then show ?thesis using w wait by (auto simp: write_with_preflight_def Let_def split: if_splits)
  next
    case open_c: False
    show ?thesis
    proof (cases "preflight (wait c)")
      case (Inl e)
      then show ?thesis using w open_c wait by (auto simp: write_with_preflight_def Let_def)
    next
      case (Inr c2)
      then have c2: "client_steps c c2" using steps_trans [OF wait pre] by blast
      then have c3: "client_steps c (during c2)" using steps_trans [OF c2 during] by blast
      then have "client_steps c (mark_closed reason (during c2))" for reason
        using steps_trans [OF _ closing] by blast
      then show ?thesis
        using w open_c Inr c2 c3
        by (cases io) (auto simp: write_with_preflight_def Let_def split: if_splits)
    qed
  qed
qed

lemma claim_resolve_steps: "claim_resolve rid occ c = (r, c') \<Longrightarrow> client_steps c c'"
  using step_in_steps step_resolve by blast

lemma claim_drop_steps: "client_steps c (claim_drop rid occ c)"
  by (rule step_in_steps) (rule step_claim_drop)

lemma respond_steps:
  assumes wait: "\<And>c. client_steps c (wait c)" and during: "\<And>c. client_steps c (during c)"
    and pre: "\<And>a b. preflight a = Inr b \<Longrightarrow> client_steps a b"
    and r: "respond_admitted wait during io preflight rid occ c = (res, c')"
  shows "client_steps c c'"
proof (cases "claim_begin rid occ c")
  case (Inl e)
  then show ?thesis using r by (simp add: respond_admitted_def)
next
  case (Inr c1)
  obtain w c2 where w: "write_with_preflight wait during io preflight c1 = (w, c2)" by fastforce
  have c2: "client_steps c c2"
    using steps_trans [OF step_in_steps [OF step_claim [OF Inr]] write_steps [OF wait during pre w]] by blast
  obtain r3 c3 where c3: "claim_resolve rid occ c2 = (r3, c3)" by fastforce
  have "client_steps c c3" "client_steps c (claim_drop rid occ c2)"
    using steps_trans [OF c2 claim_resolve_steps [OF c3]] steps_trans [OF c2 claim_drop_steps] by blast+
  then show ?thesis
    using r Inr w c3 by (auto simp: respond_admitted_def split: option.splits sum.splits)
qed

lemma claim_begin_current_steps: "claim_begin_current rid occ a = Inr b \<Longrightarrow> client_steps a b"
  by (auto simp: claim_begin_current_def intro: step_in_steps step_claim split: sum.splits option.splits if_splits)

lemma respond_current_steps:
  assumes wait: "\<And>c. client_steps c (wait c)" and during: "\<And>c. client_steps c (during c)"
    and pre: "\<And>a b. preflight a = Inr b \<Longrightarrow> client_steps a b"
    and r: "respond_current_admitted wait during io preflight rid occ c = (res, c')"
  shows "client_steps c c'"
proof -
  define checked where "checked c1 = (case preflight c1 of Inl e \<Rightarrow> Inl e
    | Inr c2 \<Rightarrow> claim_begin_current rid occ c2)" for c1
  have chk: "client_steps a b" if "checked a = Inr b" for a b
    using that steps_trans [OF pre claim_begin_current_steps] by (auto simp: checked_def split: sum.splits)
  obtain w c2 where w: "write_with_preflight wait during io checked c = (w, c2)" by fastforce
  have c2: "client_steps c c2" using write_steps [OF wait during chk w] by blast
  obtain r3 c3 where c3: "claim_resolve rid occ c2 = (r3, c3)" by fastforce
  have "client_steps c c3" "client_steps c (claim_drop rid occ c2)"
    using steps_trans [OF c2 claim_resolve_steps [OF c3]] steps_trans [OF c2 claim_drop_steps] by blast+
  then show ?thesis
    using r w c2 c3
    by (auto simp: respond_current_admitted_def checked_def [abs_def] Let_def split: option.splits sum.splits if_splits)
qed

text \<open>The request once its permit is taken: refused by the table, or registered and written.\<close>

lemma refused_registration_steps:
  assumes inv: "ci_inv c" and ok: "admit (ci_lifecycle c) = Some (Inr lc)"
  shows "client_steps c (drop_pending (c\<lparr>ci_lifecycle := lc\<rparr>))"
proof -
  let ?c1 = "c\<lparr>ci_lifecycle := lc\<rparr>"
  have "lc_in_flight lc = Suc (lc_in_flight (ci_lifecycle c))"
    using ok by (auto simp: admit_def split: if_splits option.splits)
  then have "client_step ?c1 (drop_pending ?c1)"
    using inv step_permit_drop [of ?c1] by (simp add: ci_inv_def drop_pending_def)
  then show ?thesis
    using steps_trans [OF step_in_steps [OF step_admit [OF ok]] step_in_steps] by blast
qed

lemma registered_write_steps:
  assumes wait: "\<And>c. client_steps c (wait c)" and during: "\<And>c. client_steps c (during c)"
    and pre: "\<And>a b. preflight a = Inr b \<Longrightarrow> client_steps a b"
    and c2: "client_step c c2"
    and w: "write_with_preflight wait during io (deadline_checked m ms late1 preflight late2) c2 = (w, c3)"
  shows "client_steps c c3" and "client_steps c (drop_registration rid occ b c3)"
proof -
  have chk: "client_steps x y" if "deadline_checked m ms late1 preflight late2 x = Inr y" for x y
    using that pre by (auto simp: deadline_checked_def split: if_splits sum.splits)
  show "client_steps c c3"
    using steps_trans [OF step_in_steps [OF c2] write_steps [OF wait during chk w]] by blast
  then show "client_steps c (drop_registration rid occ b c3)"
    using steps_trans step_in_steps step_drop_registration by blast
qed

lemma request_begin_steps:
  assumes wait: "\<And>c. client_steps c (wait c)" and during: "\<And>c. client_steps c (during c)"
    and pre: "\<And>a b. preflight a = Inr b \<Longrightarrow> client_steps a b"
    and fresh: "occ \<notin> set (pending_occurrences c @ map fst (ci_delivered c))"
    and inv: "ci_inv c"
    and r: "request_begin wait during io preflight late1 late2 m ms rid occ c = (prog, c')"
  shows "client_steps c c'"
proof -
  let ?p = "\<lparr>pr_occurrence = occ, pr_deadline = False\<rparr>"
  consider (closed) "ci_closed c" | (none) "\<not> ci_closed c" "admit (ci_lifecycle c) = None"
    | (err) e where "\<not> ci_closed c" "admit (ci_lifecycle c) = Some (Inl e)"
    | (refused) lc e where "\<not> ci_closed c" "admit (ci_lifecycle c) = Some (Inr lc)"
        "register rid ?p (c\<lparr>ci_lifecycle := lc\<rparr>) = Inl e"
    | (ok) lc c2 where "\<not> ci_closed c" "admit (ci_lifecycle c) = Some (Inr lc)"
        "register rid ?p (c\<lparr>ci_lifecycle := lc\<rparr>) = Inr c2"
    by (cases "ci_closed c"; cases "admit (ci_lifecycle c)"; cases "the (admit (ci_lifecycle c))";
        cases "register rid ?p (c\<lparr>ci_lifecycle := projr (the (admit (ci_lifecycle c)))\<rparr>)") auto
  then show ?thesis
  proof cases
    case refused
    then show ?thesis
      using r refused_registration_steps [OF inv refused(2)] by (simp add: request_begin_def)
  next
    case ok
    obtain w c3 where w: "write_with_preflight wait during io
        (deadline_checked m ms late1 preflight late2) c2 = (w, c3)" by fastforce
    have c2: "client_step c c2" using step_register [OF ok] fresh by simp
    show ?thesis
      using r ok w registered_write_steps [OF wait during pre c2 w]
      by (auto simp: request_begin_def Let_def split: option.splits sum.splits)
  qed (use r in \<open>simp_all add: request_begin_def\<close>)
qed

lemma spawn_client_inv [inv_intros]: "ci_inv (spawn_client p)"
  by (simp add: ci_inv_def spawn_client_def lc_new_def starting_def pending_occurrences_def)

section \<open>The ledger along a response\<close>

definition client_phase :: "request_id \<Rightarrow> occurrence \<Rightarrow> client \<Rightarrow> phase" where
  "client_phase rid occ c = phase (ledger c) (rid, occ)"

text \<open>What a task may rely on while it waits: the others keep the ledger's invariant and move
  an occurrence only forward (the contract \<open>response_ledger\<close>).\<close>

definition forward_env :: "request_id \<Rightarrow> occurrence \<Rightarrow> (client \<Rightarrow> client) \<Rightarrow> bool" where
  "forward_env rid occ f = (\<forall>c. sr_inv (ledger c) \<longrightarrow> sr_inv (ledger (f c))
     \<and> phase_rank (client_phase rid occ c) \<le> phase_rank (client_phase rid occ (f c)))"

lemma claim_begin_phase:
  "claim_begin rid occ c = Inr c' \<Longrightarrow> client_phase rid occ c = Awaiting \<and> client_phase rid occ c' = InFlight"
  using begin_phase [of rid occ "ledger c"] begin_ok_phase [of rid occ "ledger c"]
  by (auto simp: claim_begin_def begin_server_response_def client_phase_def ledger_def split: sum.splits)

lemma claim_begin_sr_inv: "claim_begin rid occ c = Inr c' \<Longrightarrow> sr_inv (ledger c) \<Longrightarrow> sr_inv (ledger c')"
  by (auto simp: claim_begin_def begin_server_response_def ledger_def intro: begin_inv split: sum.splits)

lemma claim_begin_fails: "is_ok (claim_begin rid occ c) \<longleftrightarrow> client_phase rid occ c = Awaiting"
  using begin_ok_phase [of rid occ "ledger c"]
  by (auto simp: claim_begin_def begin_server_response_def client_phase_def ledger_def split: sum.splits)

lemma ledger_mark_closed [simp]: "ledger (mark_closed reason c) = ledger c"
  by (simp add: mark_closed_def seal_and_resolve_close_reason_def deliver_all_spec ledger_def Let_def
      split: option.splits)

lemma claim_drop_phase:
  "client_phase rid occ (claim_drop rid occ c) =
    (if client_phase rid occ c = InFlight then Unknown else client_phase rid occ c)"
  by (simp add: claim_drop_def client_phase_def ledger_def mark_server_response_indeterminate_def mark_phase)

lemma claim_drop_sr_inv: "sr_inv (ledger c) \<Longrightarrow> sr_inv (ledger (claim_drop rid occ c))"
  by (simp add: claim_drop_def ledger_def mark_server_response_indeterminate_def mark_inv)

lemma claim_resolve_phase:
  assumes "sr_inv (ledger c)" "claim_resolve rid occ c = (r, c')"
  shows "r = Inr () \<Longrightarrow> client_phase rid occ c' = Absent"
    "r \<noteq> Inr () \<Longrightarrow> client_phase rid occ c' = client_phase rid occ c \<and> client_phase rid occ c \<notin> {InFlight, Unknown}"
proof -
  have ok: "is_ok (sr_resolve rid occ (ledger c)) \<longleftrightarrow> client_phase rid occ c \<in> {InFlight, Unknown}"
    by (simp add: resolve_ok_phase client_phase_def)
  show "r = Inr () \<Longrightarrow> client_phase rid occ c' = Absent"
    using assms(2) resolve_phase [OF assms(1), of rid occ]
    by (auto simp: claim_resolve_def resolve_server_request_def client_phase_def ledger_def
        split: sum.splits prod.splits)
  show "r \<noteq> Inr () \<Longrightarrow> client_phase rid occ c' = client_phase rid occ c \<and> client_phase rid occ c \<notin> {InFlight, Unknown}"
    using assms(2) ok
    by (auto simp: claim_resolve_def resolve_server_request_def client_phase_def ledger_def
        mark_server_response_indeterminate_def mark_phase split: sum.splits prod.splits)
qed

lemma write_forward:
  assumes env: "forward_env rid occ wait" "forward_env rid occ during"
    and pre: "\<And>a b. preflight a = Inr b \<Longrightarrow> ledger b = ledger a"
    and inv: "sr_inv (ledger c)" and w: "write_with_preflight wait during io preflight c = (r, c')"
  shows "sr_inv (ledger c') \<and> phase_rank (client_phase rid occ c) \<le> phase_rank (client_phase rid occ c')"
proof -
  have w1: "sr_inv (ledger (wait c))" "phase_rank (client_phase rid occ c) \<le> phase_rank (client_phase rid occ (wait c))"
    using env(1) inv by (auto simp: forward_env_def)
  have w2: "sr_inv (ledger (during b)) \<and>
      phase_rank (client_phase rid occ (wait c)) \<le> phase_rank (client_phase rid occ (during b))"
    "sr_inv (ledger b)" "client_phase rid occ b = client_phase rid occ (wait c)"
    if "preflight (wait c) = Inr b" for b
    using env(2) [unfolded forward_env_def, rule_format, of b] w1(1) pre [OF that]
    by (simp_all add: client_phase_def)
  show ?thesis
  proof (cases "preflight (wait c)")
    case (Inl e)
    then show ?thesis using w w1 inv by (auto simp: write_with_preflight_def Let_def split: if_splits)
  next
    case (Inr b)
    then show ?thesis
      using w w1 inv w2 [OF Inr]
      by (cases io) (auto simp: write_with_preflight_def Let_def client_phase_def split: if_splits)
  qed
qed

lemma claim_resolve_sr_inv:
  "sr_inv (ledger c) \<Longrightarrow> claim_resolve rid occ c = (r, c') \<Longrightarrow> sr_inv (ledger c')"
  by (auto simp: claim_resolve_def resolve_server_request_def ledger_def mark_server_response_indeterminate_def
      intro: resolve_inv mark_inv split: sum.splits prod.splits)

lemma rank_ge_2: "2 \<le> phase_rank p \<longleftrightarrow> p \<in> {InFlight, Unknown, Absent}"
  by (cases p) auto

section \<open>Properties\<close>

text \<open>C2: however the tasks of a client interleave, each registered request gets at most one
  outcome (its response, a timeout or the close reason), an entry that still waits has none,
  at most 1024 entries wait, and every waiting entry holds an admission permit, so the permit
  counter never underflows.\<close>

theorem outcome_at_most_once:
  assumes "client_steps (spawn_client p) c"
  shows "distinct (map fst (ci_delivered c))
    \<and> set (pending_occurrences c) \<inter> set (map fst (ci_delivered c)) = {}
    \<and> distinct (pending_occurrences c) \<and> hm_len (ci_pending c) \<le> 1024
    \<and> hm_len (ci_pending c) \<le> lc_in_flight (ci_lifecycle c)"
  using client_steps_inv [OF assms spawn_client_inv] by (simp add: ci_inv_def MAX_PENDING_RESPONSES_def)

theorem outcome_at_most_once_witness:
  "hm_len (ci_pending (mark_closed (lit ''eof'') (spawn_client (Some 1)))) \<le> 1024"
  using outcome_at_most_once [OF step_in_steps [OF step_mark_closed]] by blast



text \<open>The compound operations of the client (a request up to its wait, a response, a
  response bound to the current turn) are sequences of its atomic steps interleaved with the
  steps of other tasks, so every invariant of the steps holds through them.\<close>

theorem compound_operations_are_runs:
  assumes "\<And>a. client_steps a (wait a)" "\<And>a. client_steps a (during a)"
    and "\<And>a b. preflight a = Inr b \<Longrightarrow> client_steps a b" and "ci_inv c"
    and "occ \<notin> set (pending_occurrences c @ map fst (ci_delivered c))"
  shows "client_steps c (snd (request_begin wait during io preflight late1 late2 m ms rid occ c))
    \<and> client_steps c (snd (respond_admitted wait during io preflight rid' occ' c))
    \<and> client_steps c (snd (respond_current_admitted wait during io preflight rid' occ' c))"
  using request_begin_steps [OF assms(1,2,3,5,4)] respond_steps [OF assms(1,2,3)]
    respond_current_steps [OF assms(1,2,3)] by (metis prod.collapse)

theorem compound_operations_are_runs_witness:
  "client_steps (spawn_client None)
     (snd (request_begin id id IoOk Inr False False (lit ''thread/read'') 8000 (IdInteger 1) [1] (spawn_client None)))"
  using compound_operations_are_runs [of id id Inr "spawn_client None" "[1]" IoOk False False
      "lit ''thread/read''" 8000 "IdInteger 1"] spawn_client_inv
  by (simp add: spawn_client_def pending_occurrences_def)



text \<open>An answer bound to the current turn is written only while that turn is active: if
  \<open>respond_current\<close> succeeds, then at the moment of the claim, under the writer lock, the
  request was awaiting an answer and its \<open>turnId\<close> was the active turn of its thread.\<close>

theorem respond_current_needs_active_turn:
  assumes "respond_current_admitted wait during io preflight rid occ c = (Some (Inr ()), c')"
  shows "\<exists>c1 r thread turn. preflight (wait c) = Inr c1
    \<and> response_candidate rid occ (ledger c1) = Inr r
    \<and> extract_thread_id (rq_params r) = Some thread \<and> jget_str (rq_params r) ''turnId'' = Some turn
    \<and> active_turn_id thread (ci_state c1) = Some turn \<and> \<not> ci_closed c \<and> \<not> ci_closed (wait c)"
proof -
  define checked where "checked c1 = (case preflight c1 of Inl e \<Rightarrow> Inl e
    | Inr c2 \<Rightarrow> claim_begin_current rid occ c2)" for c1
  have ok: "\<not> ci_closed c \<and> \<not> ci_closed (wait c) \<and> is_ok (checked (wait c))"
    using assms
    by (auto simp: respond_current_admitted_def checked_def [abs_def, symmetric] write_with_preflight_def Let_def
        split: if_splits sum.splits io_outcome.splits option.splits)
  then obtain c1 c2 where c1: "preflight (wait c) = Inr c1" "claim_begin_current rid occ c1 = Inr c2"
    by (auto simp: checked_def is_ok_iff split: sum.splits)
  then show ?thesis
    using ok by (auto simp: claim_begin_current_def ledger_def split: sum.splits option.splits if_splits)
qed

definition demo_current :: client where
  "demo_current = (spawn_client None)\<lparr>ci_state := (starting None)\<lparr>
     rt_active_turns := [(lit ''t'', lit ''1'')],
     rt_server_requests := run_events sr_apply
       [EvRecord \<lparr>rq_id = IdInteger 1, rq_occurrence = [1], rq_method = lit ''m'',
          rq_params = json_object [(''threadId'', JStr (lit ''t'')), (''turnId'', JStr (lit ''1''))]\<rparr>] sr_default\<rparr>\<rparr>"

theorem respond_current_needs_active_turn_witness:
  "fst (respond_current_admitted id id IoOk Inr (IdInteger 1) [1] demo_current) = Some (Inr ())
   \<and> (\<exists>thread turn. active_turn_id thread (ci_state demo_current) = Some turn)"
proof -
  have ok: "fst (respond_current_admitted id id IoOk Inr (IdInteger 1) [1] demo_current) = Some (Inr ())"
    by code_simp
  then obtain c' where "respond_current_admitted id id IoOk Inr (IdInteger 1) [1] demo_current = (Some (Inr ()), c')"
    by (metis prod.collapse)
  from respond_current_needs_active_turn [OF this] ok show ?thesis by auto
qed

end
