(* ===== verification/Target_Gate.thy ===== *)
theory Target_Gate
  imports Rpc Hash_Map
begin

unbundle bit_operations_syntax

text \<open>
  The target gate of the idle-release machinery (\<open>cdr-app-server/src/idle_release/gate.rs\<close>):
  mutations admitted per target (or for no particular target), exclusive reservations of a
  thread for subscription maintenance, and the observation-gap epoch, a 64-bit word whose
  parity says whether observations are verified. The journal is code behind a trait
  (\<open>IdleReleaseJournal\<close>): its answers are arguments of the operations that ask it.
\<close>

record idle_release_token =
  tk_intent_id :: rstr
  tk_owner_id :: rstr
  tk_generation :: nat
  tk_thread_id :: rstr
  tk_turn_id :: rstr
  tk_job_id :: rstr
  tk_revision :: int
  tk_state :: rstr
  tk_detail :: rstr

record target_gate =
  tg_mutations :: "(rstr option, nat) hmap"
  tg_exclusive :: "rstr list"
  tg_journal :: bool
  tg_gap :: "64 word"

definition tg_default :: target_gate where
  "tg_default = \<lparr>tg_mutations = [], tg_exclusive = [], tg_journal = False, tg_gap = 0\<rparr>"

datatype mutation_admission = Ordinary "rstr option" | Resubscribe rstr idle_release_token

definition gate_held :: "string \<Rightarrow> app_server_error" where
  "gate_held message = IdleRelease (lit message)"

section \<open>Operations\<close>

definition install :: "target_gate \<Rightarrow> (app_server_error, target_gate) result" where
  "install tg = (if tg_journal tg \<or> tg_mutations tg \<noteq> [] \<or> tg_exclusive tg \<noteq> []
     then Inl (gate_held ''idle journal must be installed once before intake'')
     else Inr (tg\<lparr>tg_journal := True\<rparr>))"

text \<open>\<open>before\<close> is the journal's \<open>before_mutation\<close> for the thread of the target.\<close>

definition count_mutation :: "rstr option \<Rightarrow> target_gate \<Rightarrow> target_gate" where
  "count_mutation target tg = tg\<lparr>tg_mutations := hm_insert target
     ((case hm_get (tg_mutations tg) target of None \<Rightarrow> 0 | Some n \<Rightarrow> n) + 1) (tg_mutations tg)\<rparr>"

definition gate_admit ::
    "(rstr \<Rightarrow> (app_server_error, idle_release_token option) result) \<Rightarrow> rstr option \<Rightarrow> target_gate \<Rightarrow>
     (app_server_error, mutation_admission \<times> target_gate) result" where
  "gate_admit before target tg =
    (if (case target of None \<Rightarrow> tg_exclusive tg \<noteq> [] | Some t \<Rightarrow> t \<in> set (tg_exclusive tg))
     then Inl (gate_held ''target subscription maintenance is in flight; request not sent'')
     else (case (target, tg_journal tg) of
         (Some thread, True) \<Rightarrow> (case before thread of
             Inl e \<Rightarrow> Inl e
           | Inr (Some token) \<Rightarrow>
               if hm_contains (tg_mutations tg) None \<or> hm_contains (tg_mutations tg) target
               then Inl (gate_held ''resubscription admission conflicted; durable hold retained'')
               else Inr (Resubscribe thread token, tg\<lparr>tg_exclusive := thread # tg_exclusive tg\<rparr>)
           | Inr None \<Rightarrow> Inr (Ordinary target, count_mutation target tg))
       | _ \<Rightarrow> Inr (Ordinary target, count_mutation target tg)))"

text \<open>\<open>verified\<close> is the journal's \<open>verify\<close> of the token.\<close>

definition reserve ::
    "(idle_release_token \<Rightarrow> bool \<Rightarrow> (app_server_error, unit) result) \<Rightarrow> idle_release_token \<Rightarrow> target_gate \<Rightarrow>
     (app_server_error, target_gate) result" where
  "reserve verified token tg =
    (if hm_contains (tg_mutations tg) None \<or> hm_contains (tg_mutations tg) (Some (tk_thread_id token))
        \<or> tk_thread_id token \<in> set (tg_exclusive tg)
     then Inl (gate_held ''idle release deferred: admitted target mutation'')
     else if \<not> tg_journal tg then Inl (gate_held ''idle journal is not installed'')
     else (case verified token (tk_state token = lit ''Candidate'') of
         Inl e \<Rightarrow> Inl e
       | Inr _ \<Rightarrow> Inr (tg\<lparr>tg_exclusive := tk_thread_id token # tg_exclusive tg\<rparr>)))"

definition release_exclusive :: "rstr \<Rightarrow> target_gate \<Rightarrow> target_gate" where
  "release_exclusive thread tg = tg\<lparr>tg_exclusive := filter (\<lambda>t. t \<noteq> thread) (tg_exclusive tg)\<rparr>"

text \<open>Dropping a mutation permit: \<open>None\<close> is the panic of \<open>expect\<close> (no such count).\<close>

definition drop_mutation :: "rstr option \<Rightarrow> target_gate \<Rightarrow> target_gate option" where
  "drop_mutation target tg = (case hm_get (tg_mutations tg) target of
      None \<Rightarrow> None
    | Some n \<Rightarrow> Some (if n - 1 = 0 then tg\<lparr>tg_mutations := hm_remove target (tg_mutations tg)\<rparr>
                     else tg\<lparr>tg_mutations := hm_insert target (n - 1) (tg_mutations tg)\<rparr>))"

definition mutation_preflight ::
    "(rstr \<Rightarrow> (app_server_error, unit) result) \<Rightarrow> rstr option \<Rightarrow> target_gate \<Rightarrow> (app_server_error, unit) result" where
  "mutation_preflight check target tg = (case (tg_journal tg, target) of
      (True, Some t) \<Rightarrow> check t | _ \<Rightarrow> Inr ())"

section \<open>The observation-gap epoch\<close>

definition u64_max_word :: "64 word" where
  "u64_max_word = - 1"

definition sat_add_word :: "64 word \<Rightarrow> 64 word \<Rightarrow> 64 word" where
  "sat_add_word a b = (if unat a + unat b < 2 ^ 64 then a + b else u64_max_word)"

definition mark_gap :: "target_gate \<Rightarrow> target_gate" where
  "mark_gap tg = tg\<lparr>tg_gap := sat_add_word (tg_gap tg) (1 + (tg_gap tg AND 1))\<rparr>"

definition hold_unattributed_gap :: "target_gate \<Rightarrow> target_gate" where
  "hold_unattributed_gap tg = tg\<lparr>tg_gap := u64_max_word\<rparr>"

definition observations_verified :: "target_gate \<Rightarrow> bool" where
  "observations_verified tg = (tg_gap tg AND 1 = 0)"

definition clear_gap :: "64 word \<Rightarrow> target_gate \<Rightarrow> bool \<times> target_gate" where
  "clear_gap expected tg =
    (if expected = u64_max_word then (False, tg)
     else if expected AND 1 = 0 then (tg_gap tg = expected, tg)
     else if tg_gap tg = expected then (True, tg\<lparr>tg_gap := expected + 1\<rparr>)
     else (False, tg))"

section \<open>Exclusion\<close>

text \<open>A thread reserved for maintenance has no admitted mutation, nor is there a mutation
  without a target; every count is positive.\<close>

definition tg_inv :: "target_gate \<Rightarrow> bool" where
  "tg_inv tg = (hm_wf (tg_mutations tg) \<and> distinct (tg_exclusive tg)
    \<and> (\<forall>t n. hm_get (tg_mutations tg) t = Some n \<longrightarrow> 0 < n)
    \<and> (\<forall>th \<in> set (tg_exclusive tg). \<not> hm_contains (tg_mutations tg) (Some th) \<and> \<not> hm_contains (tg_mutations tg) None))"

datatype tg_event =
    TgAdmit "rstr \<Rightarrow> (app_server_error, idle_release_token option) result" "rstr option"
  | TgDrop "rstr option"
  | TgReserve "idle_release_token \<Rightarrow> bool \<Rightarrow> (app_server_error, unit) result" idle_release_token
  | TgRelease rstr
  | TgInstall
  | TgMarkGap
  | TgHold
  | TgClear "64 word"

definition tg_apply :: "tg_event \<Rightarrow> target_gate \<Rightarrow> target_gate" where
  "tg_apply ev tg = (case ev of
      TgAdmit before target \<Rightarrow> (case gate_admit before target tg of Inl _ \<Rightarrow> tg | Inr (_, tg') \<Rightarrow> tg')
    | TgDrop target \<Rightarrow> (case drop_mutation target tg of None \<Rightarrow> tg | Some tg' \<Rightarrow> tg')
    | TgReserve verified token \<Rightarrow> (case reserve verified token tg of Inl _ \<Rightarrow> tg | Inr tg' \<Rightarrow> tg')
    | TgRelease thread \<Rightarrow> release_exclusive thread tg
    | TgInstall \<Rightarrow> (case install tg of Inl _ \<Rightarrow> tg | Inr tg' \<Rightarrow> tg')
    | TgMarkGap \<Rightarrow> mark_gap tg
    | TgHold \<Rightarrow> hold_unattributed_gap tg
    | TgClear e \<Rightarrow> snd (clear_gap e tg))"

lemma tg_inv_gap [simp]: "tg_inv (tg\<lparr>tg_gap := g\<rparr>) = tg_inv tg" "tg_inv (tg\<lparr>tg_journal := b\<rparr>) = tg_inv tg"
  by (simp_all add: tg_inv_def)

lemma count_mutation_inv:
  assumes "tg_inv tg" "\<not> (case target of None \<Rightarrow> tg_exclusive tg \<noteq> [] | Some t \<Rightarrow> t \<in> set (tg_exclusive tg))"
  shows "tg_inv (count_mutation target tg)"
  using assms by (auto simp: tg_inv_def count_mutation_def split: option.splits)

lemma gate_admit_inv [inv_intros]:
  "tg_inv tg \<Longrightarrow> gate_admit before target tg = Inr (adm, tg') \<Longrightarrow> tg_inv tg'"
  using count_mutation_inv [of tg target]
  by (auto simp: gate_admit_def tg_inv_def split: if_splits option.splits sum.splits bool.splits)

lemma reserve_inv [inv_intros]: "tg_inv tg \<Longrightarrow> reserve v token tg = Inr tg' \<Longrightarrow> tg_inv tg'"
  by (auto simp: reserve_def tg_inv_def split: if_splits sum.splits)

lemma drop_mutation_inv [inv_intros]: "tg_inv tg \<Longrightarrow> drop_mutation t tg = Some tg' \<Longrightarrow> tg_inv tg'"
  by (auto simp: drop_mutation_def tg_inv_def hm_contains_def split: option.splits if_splits)

lemma tg_apply_inv: "tg_inv tg \<Longrightarrow> tg_inv (tg_apply ev tg)"
  by (auto simp: tg_apply_def install_def release_exclusive_def mark_gap_def hold_unattributed_gap_def
      clear_gap_def intro: inv_intros split: tg_event.splits option.splits sum.splits)
    (auto simp: tg_inv_def)

subsection \<open>The epoch as a number\<close>

definition epoch :: "target_gate \<Rightarrow> nat" where
  "epoch tg = unat (tg_gap tg)"

lemma epoch_less: "epoch tg < 2 ^ 64"
  using unsigned_less [of "tg_gap tg"] by (simp add: epoch_def)

lemma unat_max_word: "unat u64_max_word = 2 ^ 64 - 1"
  by (simp add: u64_max_word_def unsigned_minus_1_eq_mask mask_eq_exp_minus_1)

lemma even_unat_word: "even (unat (w :: 64 word)) \<longleftrightarrow> even w"
  by transfer (simp add: even_nat_iff)

lemma and_one_word: "(w :: 64 word) AND 1 = (if even w then 0 else 1)"
  by (simp add: and_one_eq mod_2_eq_odd)

lemma unat_sat_add: "unat (sat_add_word a b) = min (2 ^ 64 - 1) (unat a + unat b)"
proof (cases "unat a + unat b < 2 ^ 64")
  case True
  then have "unat (a + b) = unat a + unat b" by (simp add: unat_word_ariths)
  then show ?thesis using True by (simp add: sat_add_word_def)
next
  case False
  then show ?thesis by (simp add: sat_add_word_def unat_max_word)
qed

lemma epoch_mark: "epoch (mark_gap tg) = min (2 ^ 64 - 1) (epoch tg + 1 + epoch tg mod 2)"
proof (cases "even (tg_gap tg)")
  case True
  then have "epoch tg mod 2 = 0" by (simp add: epoch_def even_unat_word [symmetric] even_iff_mod_2_eq_zero)
  then show ?thesis using True by (simp add: epoch_def mark_gap_def unat_sat_add and_one_word)
next
  case False
  then have "epoch tg mod 2 = 1" by (simp add: epoch_def even_unat_word [symmetric] odd_iff_mod_2_eq_one)
  then show ?thesis using False by (simp add: epoch_def mark_gap_def unat_sat_add and_one_word)
qed

lemma verified_iff: "observations_verified tg \<longleftrightarrow> even (epoch tg)"
  by (simp add: observations_verified_def epoch_def and_one_word even_unat_word)

lemma epoch_hold: "epoch (hold_unattributed_gap tg) = 2 ^ 64 - 1"
  by (simp add: hold_unattributed_gap_def epoch_def unat_max_word)

lemma epoch_clear:
  "epoch (snd (clear_gap e tg)) =
    (if fst (clear_gap e tg) \<and> odd e then epoch tg + 1 else epoch tg)"
proof -
  have "unat (e + 1) = unat e + 1" if "e \<noteq> u64_max_word" for e :: "64 word"
  proof -
    have "unat e \<noteq> 2 ^ 64 - 1" using that by (metis unat_max_word word_unat_eq_iff)
    then have "unat e + 1 < 2 ^ 64" using epoch_less [of "tg_default\<lparr>tg_gap := e\<rparr>"] by (simp add: epoch_def)
    then show ?thesis by (simp add: unat_word_ariths)
  qed
  then show ?thesis by (auto simp: clear_gap_def epoch_def and_one_word)
qed

lemma clear_gap_ok:
  "fst (clear_gap e tg) \<longleftrightarrow> tg_gap tg = e \<and> e \<noteq> u64_max_word"
  by (auto simp: clear_gap_def)

lemma epoch_other:
  "tg_gap (tg_apply ev tg) = tg_gap tg" if "\<forall>e. ev \<noteq> TgMarkGap \<and> ev \<noteq> TgHold \<and> ev \<noteq> TgClear e"
  using that
  by (auto simp: tg_apply_def gate_admit_def drop_mutation_def reserve_def release_exclusive_def install_def
      count_mutation_def split: tg_event.splits option.splits sum.splits bool.splits)

lemma epoch_mono: "epoch tg \<le> epoch (tg_apply ev tg)"
proof (cases "\<forall>e. ev \<noteq> TgMarkGap \<and> ev \<noteq> TgHold \<and> ev \<noteq> TgClear e")
  case True
  then show ?thesis by (simp add: epoch_def epoch_other)
next
  case False
  have "epoch tg \<le> 2 ^ 64 - 1" using epoch_less [of tg] by simp
  then show ?thesis
    using False by (auto simp: tg_apply_def epoch_mark epoch_hold epoch_clear)
qed

lemma epoch_run_mono: "epoch tg \<le> epoch (run_events tg_apply evs tg)"
  by (induction evs arbitrary: tg) (auto intro: order_trans [OF epoch_mono])

lemma epoch_run_marked:
  assumes "TgMarkGap \<in> set evs" "epoch tg < 2 ^ 64 - 1"
  shows "epoch tg < epoch (run_events tg_apply evs tg)"
  using assms
proof (induction evs arbitrary: tg)
  case (Cons ev evs)
  show ?case
  proof (cases "ev = TgMarkGap")
    case True
    have "epoch tg < epoch (tg_apply ev tg)"
      using Cons.prems(2) True by (simp add: tg_apply_def epoch_mark)
    then show ?thesis using epoch_run_mono [of "tg_apply ev tg" evs] by simp
  next
    case False
    then have marked: "TgMarkGap \<in> set evs" using Cons.prems by simp
    show ?thesis
    proof (cases "epoch (tg_apply ev tg) = epoch tg")
      case True
      then show ?thesis using Cons.IH [OF marked, of "tg_apply ev tg"] Cons.prems(2) by simp
    next
      case False
      then show ?thesis using epoch_mono [of tg ev] epoch_run_mono [of "tg_apply ev tg" evs] by simp
    qed
  qed
qed simp

lemma held_stable: "tg_gap tg = u64_max_word \<Longrightarrow> tg_gap (tg_apply ev tg) = u64_max_word"
proof -
  assume held: "tg_gap tg = u64_max_word"
  then have "epoch tg = 2 ^ 64 - 1" by (simp add: epoch_def unat_max_word)
  then have "epoch (tg_apply ev tg) = 2 ^ 64 - 1"
    using epoch_mono [of tg ev] epoch_less [of "tg_apply ev tg"] by simp
  then show ?thesis by (metis epoch_def unat_max_word word_unat_eq_iff)
qed

section \<open>Properties\<close>

text \<open>C13: along every sequence of admissions, permit drops, reservations, releases and gap
  operations, a thread reserved for subscription maintenance never has an admitted mutation,
  and no mutation without a target is admitted while any thread is reserved.\<close>

theorem maintenance_excludes_mutations:
  assumes "tg = run_events tg_apply evs tg_default" "thread \<in> set (tg_exclusive tg)"
  shows "\<not> hm_contains (tg_mutations tg) (Some thread) \<and> \<not> hm_contains (tg_mutations tg) None
    \<and> \<not> is_ok (gate_admit before (Some thread) tg) \<and> \<not> is_ok (gate_admit before None tg)"
proof -
  have "tg_inv tg_default" by (simp add: tg_inv_def tg_default_def)
  then have "tg_inv tg"
    unfolding assms(1)
    by (rule run_events_inv [where I = tg_inv and P = "\<lambda>_ _. True", rotated])
       (simp_all only: all_events_True tg_apply_inv)
  then show ?thesis using assms(2) by (auto simp: tg_inv_def gate_admit_def)
qed

theorem maintenance_excludes_mutations_witness:
  "\<not> is_ok (gate_admit (\<lambda>_. Inr None) None (run_events tg_apply
     [TgInstall, TgReserve (\<lambda>_ _. Inr ()) \<lparr>tk_intent_id = [], tk_owner_id = [], tk_generation = 1,
        tk_thread_id = lit ''t'', tk_turn_id = [], tk_job_id = [], tk_revision = 1, tk_state = [], tk_detail = []\<rparr>]
     tg_default))"
proof -
  let ?tg = "run_events tg_apply
     [TgInstall, TgReserve (\<lambda>_ _. Inr ()) \<lparr>tk_intent_id = [], tk_owner_id = [], tk_generation = 1,
        tk_thread_id = lit ''t'', tk_turn_id = [], tk_job_id = [], tk_revision = 1, tk_state = [], tk_detail = []\<rparr>]
     tg_default"
  have "lit ''t'' \<in> set (tg_exclusive ?tg)"
    by (simp add: tg_apply_def install_def reserve_def tg_default_def)
  then show ?thesis using maintenance_excludes_mutations [OF refl] by blast
qed

text \<open>A gap that is cleared has no later loss: if a gap was marked after the epoch was
  read, clearing with that epoch fails, whatever else happened in between; a marked gap
  leaves observations unverified.\<close>

theorem clear_needs_no_later_gap:
  assumes "e = tg_gap tg" "TgMarkGap \<in> set evs"
  shows "\<not> fst (clear_gap e (run_events tg_apply evs tg)) \<and> \<not> observations_verified (mark_gap tg)"
proof
  show "\<not> fst (clear_gap e (run_events tg_apply evs tg))"
  proof (cases "e = u64_max_word")
    case True
    then show ?thesis by (simp add: clear_gap_ok)
  next
    case False
    then have "epoch tg \<noteq> 2 ^ 64 - 1"
      using assms(1) by (metis epoch_def unat_max_word word_unat_eq_iff)
    then have "epoch tg < epoch (run_events tg_apply evs tg)"
      using epoch_run_marked [OF assms(2)] epoch_less [of tg] by simp
    then show ?thesis using assms(1) by (auto simp: clear_gap_ok epoch_def)
  qed
  have "odd (2 ^ 64 - 1 :: nat)" "odd (n + 1 + n mod 2)" for n :: nat by (simp, presburger)
  then have "odd (min (2 ^ 64 - 1) (n + 1 + n mod 2))" for n :: nat unfolding min_def by (simp only: if_split) blast
  then show "\<not> observations_verified (mark_gap tg)" by (simp only: verified_iff epoch_mark not_False_eq_True)
qed

theorem clear_needs_no_later_gap_witness:
  "\<not> fst (clear_gap 1 (run_events tg_apply [TgMarkGap] (mark_gap tg_default)))"
  using clear_needs_no_later_gap [of 1 "mark_gap tg_default" "[TgMarkGap]"]
  by (simp add: mark_gap_def tg_default_def sat_add_word_def)

text \<open>An unattributed loss holds idle release for good: after
  \<open>hold_unattributed_gap\<close> observations are never verified again and no clear succeeds.\<close>

theorem unattributed_gap_is_permanent:
  "\<not> observations_verified (run_events tg_apply evs (hold_unattributed_gap tg))
   \<and> \<not> fst (clear_gap e (run_events tg_apply evs (hold_unattributed_gap tg)))"
proof -
  have "tg_gap (run_events tg_apply evs t) = u64_max_word" if "tg_gap t = u64_max_word" for t
    using that by (induction evs arbitrary: t) (auto simp: held_stable)
  then have "tg_gap (run_events tg_apply evs (hold_unattributed_gap tg)) = u64_max_word"
    by (simp add: hold_unattributed_gap_def)
  then show ?thesis by (simp add: clear_gap_ok verified_iff epoch_def unat_max_word)
qed

end
