(* ===== verification/Resident.thy ===== *)
theory Resident
  imports Client
begin

text \<open>
  The resident app-server (\<open>cdr-app-server/src/manager/\<close>): which client is current, its
  generation, quarantine after an ambiguous write, the restart request and its signal, the
  replacement client, the terminal close, and the settlement of a dead generation's work.
  Clients are shared (\<open>Arc\<close>): a client is a reference into the store \<open>rs_heap\<close>, and
  \<open>Arc::ptr_eq\<close> is equality of references.
\<close>

section \<open>State (\<open>admission.rs\<close>)\<close>

datatype resident_close_state = RcOpen | RcTerminal

type_synonym client_ref = nat

record resident =
  rs_client :: "client_ref option"
  rs_replacement :: "(client_ref \<times> nat) option"
  rs_generation :: nat
  rs_quarantined :: bool
  rs_restart_pending :: bool
  rs_accepting :: bool
  rs_close_state :: resident_close_state
  rs_settled_dead_work :: "dead_generation_work option"
  rs_cleanup_authorized :: "nat option"
  rs_restart_signal :: "nat option"
  rs_heap :: "client_ref \<Rightarrow> client"

definition resident_new :: "client_ref \<Rightarrow> (client_ref \<Rightarrow> client) \<Rightarrow> resident" where
  "resident_new r heap = \<lparr>rs_client = Some r, rs_replacement = None, rs_generation = 1,
     rs_quarantined = False, rs_restart_pending = False, rs_accepting = True, rs_close_state = RcOpen,
     rs_settled_dead_work = None, rs_cleanup_authorized = None, rs_restart_signal = None, rs_heap = heap\<rparr>"

definition set_client :: "client_ref \<Rightarrow> client \<Rightarrow> resident \<Rightarrow> resident" where
  "set_client r c s = s\<lparr>rs_heap := (rs_heap s)(r := c)\<rparr>"

section \<open>Admission\<close>

text \<open>The admitted client and generation; the outer \<open>option\<close> is the panic of the client's
  permit counter.\<close>

definition resident_admit ::
    "nat option \<Rightarrow> bool \<Rightarrow> resident \<Rightarrow> (app_server_error, (client_ref \<times> nat) \<times> resident) result option" where
  "resident_admit expected_generation reject_quarantined s =
    (if (case expected_generation of None \<Rightarrow> False | Some e \<Rightarrow> e \<noteq> rs_generation s)
     then Some (Inl (GenerationMismatch (the expected_generation) (rs_generation s)))
     else if \<not> rs_accepting s then Some (Inl Closed)
     else if reject_quarantined \<and> rs_quarantined s then Some (Inl (GenerationQuarantined (rs_generation s)))
     else (case rs_client s of
         None \<Rightarrow> Some (Inl Closed)
       | Some r \<Rightarrow> (case admit (ci_lifecycle (rs_heap s r)) of
             None \<Rightarrow> None
           | Some (Inl e) \<Rightarrow> Some (Inl e)
           | Some (Inr lc) \<Rightarrow> Some (Inr ((r, rs_generation s),
               set_client r ((rs_heap s r)\<lparr>ci_lifecycle := lc\<rparr>) s)))))"

definition admit_request :: "nat option \<Rightarrow> resident \<Rightarrow> (app_server_error, (client_ref \<times> nat) \<times> resident) result option" where
  "admit_request expected s = resident_admit expected True s"

definition admit_response :: "nat \<Rightarrow> resident \<Rightarrow> (app_server_error, (client_ref \<times> nat) \<times> resident) result option" where
  "admit_response expected s = resident_admit (Some expected) False s"

definition with_recovery_current ::
    "client_ref \<Rightarrow> nat \<Rightarrow> 'r \<Rightarrow> resident \<Rightarrow> (app_server_error, 'r) result" where
  "with_recovery_current expected generation action s =
    (if rs_generation s \<noteq> generation \<or> rs_client s \<noteq> Some expected \<or> \<not> rs_accepting s
        \<or> rs_close_state s \<noteq> RcOpen \<or> rs_quarantined s \<or> rs_restart_pending s
     then Inl (MutationHeld (lit ''recovery observation connection is no longer current and open''))
     else with_open (ci_lifecycle (rs_heap s expected)) action)"

definition current_client :: "resident \<Rightarrow> (app_server_error, client_ref) result" where
  "current_client s = (if \<not> rs_accepting s then Inl Closed
     else (case rs_client s of None \<Rightarrow> Inl Closed | Some r \<Rightarrow> Inr r))"

section \<open>Quarantine and restart (\<open>admission_restart.rs\<close>)\<close>

definition set_restart_pending_locked :: "bool \<Rightarrow> resident \<Rightarrow> resident" where
  "set_restart_pending_locked pending s = s\<lparr>rs_restart_pending := pending,
     rs_restart_signal := (if pending then Some (rs_generation s) else None)\<rparr>"

definition quarantine_generation :: "nat \<Rightarrow> resident \<Rightarrow> resident" where
  "quarantine_generation generation s =
    (if rs_generation s = generation \<and> rs_accepting s \<and> rs_client s \<noteq> None
     then set_restart_pending_locked True (s\<lparr>rs_quarantined := True\<rparr>)
     else s)"

definition mark_timeout :: "nat \<Rightarrow> resident \<Rightarrow> resident" where
  "mark_timeout generation s = quarantine_generation generation s"

definition mark_cancelled :: "nat \<Rightarrow> resident \<Rightarrow> resident" where
  "mark_cancelled generation s = quarantine_generation generation s"

definition request_restart :: "resident \<Rightarrow> resident" where
  "request_restart s = (if rs_close_state s = RcOpen then set_restart_pending_locked True s else s)"

definition restart_pending_for :: "nat \<Rightarrow> resident \<Rightarrow> bool" where
  "restart_pending_for expected s =
    (rs_close_state s = RcOpen \<and> rs_generation s = expected \<and> rs_restart_pending s)"

datatype restart_candidate = NotPending | Busy | SealedClient client_ref

definition find_restart_candidate ::
    "nat option \<Rightarrow> resident \<Rightarrow> (app_server_error, restart_candidate) result \<times> resident" where
  "find_restart_candidate expected s =
    (if rs_close_state s = RcTerminal
        \<or> (case expected of None \<Rightarrow> False | Some e \<Rightarrow> e \<noteq> rs_generation s)
        \<or> \<not> rs_restart_pending s
     then (Inr NotPending, s)
     else (case rs_client s of
         None \<Rightarrow> (Inl Closed, s)
       | Some r \<Rightarrow> (let (quiet, c) = client_seal_if_quiescent (rs_heap s r) in
           if \<not> quiet then (Inr Busy, set_client r c s)
           else (Inr (SealedClient r),
                 (set_client r c s)\<lparr>rs_accepting := False, rs_cleanup_authorized := Some (rs_generation s)\<rparr>))))"

definition restart_cleanup_authorized :: "nat \<Rightarrow> resident \<Rightarrow> bool" where
  "restart_cleanup_authorized generation s =
    (rs_close_state s = RcOpen \<and> rs_generation s = generation \<and> \<not> rs_accepting s
     \<and> rs_cleanup_authorized s = Some generation)"

text \<open>The guard of a written request: \<open>finish\<close> with the result, or the drop of an
  unfinished one.\<close>

record written_guard =
  wg_generation :: nat
  wg_write_started :: bool
  wg_complete :: bool
  wg_isolated :: bool

definition is_ambiguous :: "app_server_error \<Rightarrow> bool" where
  "is_ambiguous e = (case e of
      Io _ \<Rightarrow> True | Closed \<Rightarrow> True | TransportClosed _ _ \<Rightarrow> True | ResponseChannelClosed _ \<Rightarrow> True | _ \<Rightarrow> False)"

definition guard_finish ::
    "(app_server_error, 'a) result \<Rightarrow> written_guard \<Rightarrow> resident \<Rightarrow> written_guard \<times> resident" where
  "guard_finish res g s =
    (g\<lparr>wg_complete := True\<rparr>,
     (case res of Inl e \<Rightarrow> if is_ambiguous e \<and> wg_write_started g then mark_cancelled (wg_generation g) s else s
      | Inr _ \<Rightarrow> s))"

definition guard_drop :: "written_guard \<Rightarrow> resident \<Rightarrow> resident" where
  "guard_drop g s = (if wg_write_started g \<and> \<not> wg_complete g \<and> \<not> wg_isolated g
     then mark_cancelled (wg_generation g) s else s)"

section \<open>Replacement (\<open>admission_replacement.rs\<close>)\<close>

text \<open>The generation is a \<open>u64\<close>; \<open>checked_add(1).expect(..)\<close> panics only at the maximum,
  where these functions return \<open>None\<close>.\<close>

definition replacement_generation :: "resident \<Rightarrow> nat option" where
  "replacement_generation s = checked_add64 (rs_generation s) 1"

definition replacement_error :: "string \<Rightarrow> app_server_error" where
  "replacement_error message = ReplacementState (lit message)"

definition record_replacement ::
    "client_ref \<Rightarrow> nat \<Rightarrow> resident \<Rightarrow> (app_server_error, resident) result option" where
  "record_replacement r generation s =
    (if rs_close_state s \<noteq> RcOpen then Some (Inl Closed)
     else (case replacement_generation s of
         None \<Rightarrow> None
       | Some expected \<Rightarrow>
           if generation \<noteq> expected
           then Some (Inl (ReplacementState (lit ''candidate generation '' @ decimal generation
                  @ lit '' does not follow '' @ decimal expected)))
           else if rs_replacement s \<noteq> None
           then Some (Inl (replacement_error ''another replacement still requires cleanup''))
           else Some (Inr (s\<lparr>rs_replacement := Some (r, generation)\<rparr>))))"

definition finish_replacement_cleanup ::
    "client_ref \<times> nat \<Rightarrow> resident \<Rightarrow> (app_server_error, resident) result" where
  "finish_replacement_cleanup expected s = (case rs_replacement s of
      None \<Rightarrow> Inl (replacement_error ''replacement cleanup debt is missing'')
    | Some actual \<Rightarrow>
        if actual \<noteq> expected then Inl (replacement_error ''replacement cleanup debt changed identity'')
        else Inr (s\<lparr>rs_replacement := None\<rparr>))"

text \<open>\<open>installed\<close> is the result of the \<open>install\<close> callback, which runs inside the open
  lifecycle of the candidate.\<close>

definition install_replacement_with ::
    "(app_server_error, unit) result \<Rightarrow> client_ref \<Rightarrow> nat \<Rightarrow> resident \<Rightarrow>
     (app_server_error, resident) result option" where
  "install_replacement_with installed expected generation s =
    (if rs_close_state s \<noteq> RcOpen then Some (Inl Closed)
     else (case rs_replacement s of
         None \<Rightarrow> Some (Inl (replacement_error ''replacement candidate is missing''))
       | Some (cand, cand_generation) \<Rightarrow> (case replacement_generation s of
             None \<Rightarrow> None
           | Some next_gen \<Rightarrow>
               if cand_generation \<noteq> generation \<or> generation \<noteq> next_gen \<or> cand \<noteq> expected
               then Some (Inl (replacement_error ''replacement candidate identity or generation changed''))
               else (case with_open (ci_lifecycle (rs_heap s expected)) installed of
                   Inl e \<Rightarrow> Some (Inl e)
                 | Inr (Inl e) \<Rightarrow> Some (Inl e)
                 | Inr (Inr _) \<Rightarrow> Some (Inr ((set_restart_pending_locked False
                     (s\<lparr>rs_replacement := None, rs_client := Some cand, rs_generation := generation,
                        rs_cleanup_authorized := None, rs_quarantined := False\<rparr>))\<lparr>rs_accepting := True\<rparr>))))))"

section \<open>Death and terminal close (\<open>death.rs\<close>, \<open>admission_terminal.rs\<close>)\<close>

definition mark_current_closed :: "client_ref \<Rightarrow> nat \<Rightarrow> resident \<Rightarrow> resident" where
  "mark_current_closed expected generation s =
    (if rs_close_state s \<noteq> RcOpen \<or> rs_generation s \<noteq> generation then s
     else if rs_client s \<noteq> Some expected then s
     else set_restart_pending_locked True (s\<lparr>rs_accepting := False\<rparr>))"

definition seal_ref :: "client_ref option \<Rightarrow> resident \<Rightarrow> resident" where
  "seal_ref r_opt s = (case r_opt of None \<Rightarrow> s | Some r \<Rightarrow> set_client r (seal_admissions (rs_heap s r)) s)"

definition prepare_close ::
    "resident \<Rightarrow> (client_ref option \<times> (client_ref \<times> nat) option) \<times> resident" where
  "prepare_close s =
    (let s1 = set_restart_pending_locked False (s\<lparr>rs_accepting := False, rs_close_state := RcTerminal\<rparr>);
         s2 = seal_ref (rs_client s1) s1;
         s3 = seal_ref (map_option fst (rs_replacement s2)) s2
     in ((rs_client s, rs_replacement s), s3))"

definition finish_current_close :: "client_ref \<Rightarrow> resident \<Rightarrow> (app_server_error, resident) result" where
  "finish_current_close expected s =
    (if rs_close_state s \<noteq> RcTerminal then Inl (replacement_error ''resident close is no longer terminal'')
     else (case rs_client s of
         None \<Rightarrow> Inr s
       | Some current \<Rightarrow>
           if current \<noteq> expected then Inl (replacement_error ''resident close target changed identity'')
           else Inr (s\<lparr>rs_client := None\<rparr>)))"

section \<open>Dead generations (\<open>manager/dead_generation.rs\<close>)\<close>

datatype settle_result = Settled | AlreadySettled | NotEligible | SnapshotChanged

definition validate_generation :: "nat \<Rightarrow> resident \<Rightarrow> (app_server_error, unit) result" where
  "validate_generation expected s =
    (if rs_generation s = expected then Inr () else Inl (GenerationMismatch expected (rs_generation s)))"

definition eligible :: "resident \<Rightarrow> bool" where
  "eligible s = (rs_close_state s = RcOpen \<and> rs_restart_pending s \<and> \<not> rs_accepting s
    \<and> (case rs_client s of None \<Rightarrow> False
        | Some r \<Rightarrow> ls_closed_reason (snapshot (ci_state (rs_heap s r))) \<noteq> None))"

definition work_is_empty :: "dead_generation_work \<Rightarrow> bool" where
  "work_is_empty w = (dw_active_turns w = [] \<and> dw_server_requests w = [])"

definition dead_generation_work_for_fence ::
    "nat \<Rightarrow> resident \<Rightarrow> (app_server_error, dead_generation_work option) result \<times> resident" where
  "dead_generation_work_for_fence generation s = (case validate_generation generation s of
      Inl e \<Rightarrow> (Inl e, s)
    | Inr _ \<Rightarrow>
        if rs_close_state s \<noteq> RcOpen \<or> \<not> rs_restart_pending s then (Inr None, s)
        else (case opt_filter (\<lambda>w. dw_generation w = generation) (rs_settled_dead_work s) of
            Some settled \<Rightarrow> (Inr (Some settled), s)
          | None \<Rightarrow> (case rs_client s of
                None \<Rightarrow> (Inl Closed, s)
              | Some r \<Rightarrow>
                  (let work = Runtime_State.dead_generation_work generation (ci_state (rs_heap s r))
                   in (Inr work, if work \<noteq> None then s\<lparr>rs_accepting := False\<rparr> else s)))))"

definition resident_dead_generation_work ::
    "nat \<Rightarrow> resident \<Rightarrow> (app_server_error, dead_generation_work option) result" where
  "resident_dead_generation_work expected s = (case validate_generation expected s of
      Inl e \<Rightarrow> Inl e
    | Inr _ \<Rightarrow>
        if \<not> eligible s then Inr None
        else (case rs_client s of
            None \<Rightarrow> Inl Closed
          | Some r \<Rightarrow> Inr (opt_filter (\<lambda>w. \<not> work_is_empty w)
              (Runtime_State.dead_generation_work expected (ci_state (rs_heap s r))))))"

definition settle_dead_generation ::
    "nat \<Rightarrow> dead_generation_work \<Rightarrow> resident \<Rightarrow> (app_server_error, settle_result) result \<times> resident" where
  "settle_dead_generation expected_generation expected s =
    (if dw_generation expected \<noteq> expected_generation then (Inr SnapshotChanged, s)
     else if rs_settled_dead_work s = Some expected then (Inr AlreadySettled, s)
     else (case validate_generation expected_generation s of
         Inl e \<Rightarrow> (Inl e, s)
       | Inr _ \<Rightarrow>
           if \<not> eligible s then (Inr NotEligible, s)
           else (case rs_client s of
               None \<Rightarrow> (Inl Closed, s)
             | Some r \<Rightarrow> (case Runtime_State.dead_generation_work expected_generation (ci_state (rs_heap s r)) of
                   None \<Rightarrow> (Inr NotEligible, s)
                 | Some actual \<Rightarrow>
                     if actual \<noteq> expected then (Inr SnapshotChanged, s)
                     else (Inr Settled, (set_client r ((rs_heap s r)\<lparr>ci_state :=
                            settle_dead_generation_after_exact_match (ci_state (rs_heap s r))\<rparr>) s)
                          \<lparr>rs_settled_dead_work := Some expected\<rparr>)))))"

section \<open>Restart backoff (\<open>supervisor.rs\<close>)\<close>

definition next_delay_ms :: "nat \<Rightarrow> nat \<times> nat" where
  "next_delay_ms failures =
    (let shift = min failures 5
     in (min (250 * 2 ^ shift) 5000, min (2 ^ 32 - 1) (failures + 1)))"

section \<open>Runs of the resident\<close>

text \<open>Every operation as an event; \<open>RsClient\<close> is any change the tasks of a client make to it.\<close>

datatype rs_event =
    RsAdmit "nat option" bool
  | RsTimeout nat
  | RsCancelled nat
  | RsRequestRestart
  | RsCandidate "nat option"
  | RsRecord client_ref nat
  | RsFinishReplacement "client_ref \<times> nat"
  | RsInstall "(app_server_error, unit) result" client_ref nat
  | RsClosed client_ref nat
  | RsPrepareClose
  | RsFinishClose client_ref
  | RsFence nat
  | RsSettle nat dead_generation_work
  | RsClient client_ref "client \<Rightarrow> client"

definition keep_ok :: "resident \<Rightarrow> (app_server_error, resident) result \<Rightarrow> resident" where
  "keep_ok s r = (case r of Inl _ \<Rightarrow> s | Inr s' \<Rightarrow> s')"

definition rs_apply :: "rs_event \<Rightarrow> resident \<Rightarrow> resident" where
  "rs_apply ev s = (case ev of
      RsAdmit e q \<Rightarrow> (case resident_admit e q s of Some (Inr (_, s')) \<Rightarrow> s' | _ \<Rightarrow> s)
    | RsTimeout g \<Rightarrow> mark_timeout g s
    | RsCancelled g \<Rightarrow> mark_cancelled g s
    | RsRequestRestart \<Rightarrow> request_restart s
    | RsCandidate e \<Rightarrow> snd (find_restart_candidate e s)
    | RsRecord r g \<Rightarrow> (case record_replacement r g s of None \<Rightarrow> s | Some res \<Rightarrow> keep_ok s res)
    | RsFinishReplacement e \<Rightarrow> keep_ok s (finish_replacement_cleanup e s)
    | RsInstall i r g \<Rightarrow> (case install_replacement_with i r g s of None \<Rightarrow> s | Some res \<Rightarrow> keep_ok s res)
    | RsClosed r g \<Rightarrow> mark_current_closed r g s
    | RsPrepareClose \<Rightarrow> snd (prepare_close s)
    | RsFinishClose r \<Rightarrow> keep_ok s (finish_current_close r s)
    | RsFence g \<Rightarrow> snd (dead_generation_work_for_fence g s)
    | RsSettle g w \<Rightarrow> snd (settle_dead_generation g w s)
    | RsClient r f \<Rightarrow> set_client r (f (rs_heap s r)) s)"

definition rs_enters :: "rs_event \<Rightarrow> resident \<Rightarrow> bool" where
  "rs_enters ev s = (case ev of
      RsAdmit e q \<Rightarrow> (case resident_admit e q s of Some res \<Rightarrow> is_ok res | None \<Rightarrow> False)
    | RsInstall i r g \<Rightarrow> (case install_replacement_with i r g s of Some res \<Rightarrow> is_ok res | None \<Rightarrow> False)
    | _ \<Rightarrow> False)"

definition rs_inv :: "resident \<Rightarrow> bool" where
  "rs_inv s = ((rs_accepting s \<longrightarrow> rs_close_state s = RcOpen \<and> rs_client s \<noteq> None)
    \<and> (rs_close_state s = RcTerminal \<longrightarrow> \<not> rs_restart_pending s)
    \<and> rs_restart_signal s = (if rs_restart_pending s then Some (rs_generation s) else None)
    \<and> (rs_quarantined s \<longrightarrow> rs_restart_pending s \<or> rs_close_state s = RcTerminal)
    \<and> (\<forall>r g. rs_replacement s = Some (r, g) \<longrightarrow> g = rs_generation s + 1)
    \<and> (\<forall>g. rs_cleanup_authorized s = Some g \<longrightarrow> g = rs_generation s \<and> \<not> rs_accepting s)
    \<and> (rs_close_state s = RcOpen \<longrightarrow> rs_client s \<noteq> None) \<and> 1 \<le> rs_generation s)"

lemmas rs_defs = resident_admit_def mark_timeout_def mark_cancelled_def quarantine_generation_def
  request_restart_def set_restart_pending_locked_def find_restart_candidate_def record_replacement_def
  finish_replacement_cleanup_def install_replacement_with_def mark_current_closed_def prepare_close_def
  seal_ref_def finish_current_close_def dead_generation_work_for_fence_def settle_dead_generation_def
  set_client_def replacement_generation_def keep_ok_def Let_def

lemma set_client_inv [simp]: "rs_inv (set_client r c s) = rs_inv s"
  by (simp add: rs_inv_def set_client_def)

lemma resident_new_inv: "rs_inv (resident_new r heap)"
  by (simp add: rs_inv_def resident_new_def)

lemma quarantine_inv: "rs_inv s \<Longrightarrow> rs_inv (quarantine_generation g s)"
  by (auto simp: rs_inv_def quarantine_generation_def set_restart_pending_locked_def)

lemma request_restart_inv: "rs_inv s \<Longrightarrow> rs_inv (request_restart s)"
  by (auto simp: rs_inv_def request_restart_def set_restart_pending_locked_def)

lemma candidate_inv: "rs_inv s \<Longrightarrow> rs_inv (snd (find_restart_candidate e s))"
  by (auto simp: rs_inv_def find_restart_candidate_def set_client_def split: option.splits prod.splits)

lemma record_inv: "rs_inv s \<Longrightarrow> record_replacement r g s = Some (Inr s') \<Longrightarrow> rs_inv s'"
  by (auto simp: rs_inv_def record_replacement_def replacement_generation_def split: if_splits option.splits)

lemma finish_replacement_inv: "rs_inv s \<Longrightarrow> finish_replacement_cleanup e s = Inr s' \<Longrightarrow> rs_inv s'"
  by (auto simp: rs_inv_def finish_replacement_cleanup_def split: if_splits option.splits)

lemma install_inv: "rs_inv s \<Longrightarrow> install_replacement_with i r g s = Some (Inr s') \<Longrightarrow> rs_inv s'"
  by (auto simp: rs_inv_def install_replacement_with_def replacement_generation_def set_restart_pending_locked_def
      split: if_splits option.splits prod.splits sum.splits)

lemma mark_current_closed_inv: "rs_inv s \<Longrightarrow> rs_inv (mark_current_closed r g s)"
  by (auto simp: rs_inv_def mark_current_closed_def set_restart_pending_locked_def)

lemma seal_ref_inv [simp]: "rs_inv (seal_ref r s) = rs_inv s"
  by (simp add: seal_ref_def split: option.splits)

lemma prepare_close_inv: "rs_inv s \<Longrightarrow> rs_inv (snd (prepare_close s))"
  by (simp add: prepare_close_def Let_def) (auto simp: rs_inv_def set_restart_pending_locked_def)

lemma finish_close_inv: "rs_inv s \<Longrightarrow> finish_current_close r s = Inr s' \<Longrightarrow> rs_inv s'"
  by (auto simp: rs_inv_def finish_current_close_def split: if_splits option.splits)

lemma fence_inv: "rs_inv s \<Longrightarrow> rs_inv (snd (dead_generation_work_for_fence g s))"
  by (auto simp: rs_inv_def dead_generation_work_for_fence_def Let_def split: sum.splits option.splits)

lemma rs_inv_settled [simp]: "rs_inv (s\<lparr>rs_settled_dead_work := w\<rparr>) = rs_inv s"
  by (simp add: rs_inv_def)

lemma settle_inv_resident: "rs_inv s \<Longrightarrow> rs_inv (snd (settle_dead_generation g w s))"
  by (auto simp: settle_dead_generation_def split: sum.splits option.splits)

lemma admit_inv: "rs_inv s \<Longrightarrow> resident_admit e q s = Some (Inr (x, s')) \<Longrightarrow> rs_inv s'"
  by (auto simp: resident_admit_def split: if_splits option.splits sum.splits)

lemmas rs_op_inv = quarantine_inv request_restart_inv candidate_inv record_inv finish_replacement_inv install_inv
  mark_current_closed_inv prepare_close_inv finish_close_inv fence_inv settle_inv_resident admit_inv

lemma rs_apply_inv: "rs_inv s \<Longrightarrow> rs_inv (rs_apply ev s)"
  by (auto simp: rs_apply_def keep_ok_def mark_timeout_def mark_cancelled_def intro: rs_op_inv
      split: rs_event.splits option.splits sum.splits)

lemma rs_run_inv: "rs_inv (run_events rs_apply evs (resident_new r heap))"
  by (rule run_events_inv [where I = rs_inv and P = "\<lambda>_ _. True"])
    (simp_all only: all_events_True rs_apply_inv resident_new_inv)

text \<open>A terminal resident stays terminal; while it is, nothing is admitted or installed.\<close>

definition rs_sealed :: "resident \<Rightarrow> bool" where
  "rs_sealed s = (rs_close_state s = RcTerminal \<and> \<not> rs_accepting s)"

lemma seal_ref_fields [simp]:
  "rs_close_state (seal_ref r s) = rs_close_state s" "rs_accepting (seal_ref r s) = rs_accepting s"
  "rs_generation (seal_ref r s) = rs_generation s" "rs_client (seal_ref r s) = rs_client s"
  "rs_replacement (seal_ref r s) = rs_replacement s"
  by (simp_all add: seal_ref_def set_client_def split: option.splits)

interpretation rs: sealed_gate rs_apply rs_sealed rs_enters
proof unfold_locales
  fix s ev
  assume sealed: "rs_sealed s"
  show "\<not> rs_enters ev s"
    using sealed
    by (simp add: rs_sealed_def rs_enters_def resident_admit_def install_replacement_with_def split: rs_event.splits)
  show "rs_sealed (rs_apply ev s)"
  proof (cases ev)
    case (RsPrepareClose)
    then show ?thesis by (simp add: rs_apply_def rs_sealed_def prepare_close_def set_restart_pending_locked_def Let_def)
  qed (use sealed in \<open>auto simp: rs_sealed_def rs_apply_def resident_admit_def mark_timeout_def mark_cancelled_def
      quarantine_generation_def request_restart_def find_restart_candidate_def record_replacement_def
      finish_replacement_cleanup_def install_replacement_with_def mark_current_closed_def
      finish_current_close_def dead_generation_work_for_fence_def settle_dead_generation_def
      set_client_def keep_ok_def Let_def split: option.splits sum.splits\<close>)
qed

section \<open>Generations and quarantine\<close>

definition rs_installs :: "rs_event \<Rightarrow> resident \<Rightarrow> bool" where
  "rs_installs ev s = (case ev of
      RsInstall i r g \<Rightarrow> (case install_replacement_with i r g s of Some res \<Rightarrow> is_ok res | None \<Rightarrow> False)
    | _ \<Rightarrow> False)"

definition rs_admits_request :: "rs_event \<Rightarrow> resident \<Rightarrow> bool" where
  "rs_admits_request ev s = (case ev of
      RsAdmit e q \<Rightarrow> q \<and> (case resident_admit e q s of Some res \<Rightarrow> is_ok res | None \<Rightarrow> False)
    | _ \<Rightarrow> False)"

lemma install_ok:
  assumes "install_replacement_with i r g s = Some (Inr s')"
  shows "rs_generation s' = rs_generation s + 1" "g = rs_generation s + 1" "rs_client s' = Some r"
    "rs_replacement s = Some (r, g)" "\<not> rs_quarantined s'" "rs_accepting s'" "\<not> lc_sealed (ci_lifecycle (rs_heap s r))"
  using assms
  by (auto simp: install_replacement_with_def replacement_generation_def set_restart_pending_locked_def with_open_def
      split: if_splits option.splits prod.splits sum.splits)

lemma apply_not_install:
  assumes "\<not> rs_installs ev s"
  shows "rs_generation (rs_apply ev s) = rs_generation s \<and> (rs_quarantined s \<longrightarrow> rs_quarantined (rs_apply ev s))"
  using assms
proof (cases ev)
  case (RsInstall i r g)
  then show ?thesis
    using assms by (auto simp: rs_installs_def rs_apply_def keep_ok_def split: option.splits sum.splits)
next
  case (RsPrepareClose)
  then show ?thesis
    by (simp add: rs_apply_def prepare_close_def seal_ref_def set_client_def set_restart_pending_locked_def Let_def
        split: option.splits)
qed (auto simp: rs_apply_def resident_admit_def mark_timeout_def mark_cancelled_def quarantine_generation_def
    request_restart_def find_restart_candidate_def record_replacement_def finish_replacement_cleanup_def
    mark_current_closed_def finish_current_close_def dead_generation_work_for_fence_def settle_dead_generation_def
    set_client_def keep_ok_def set_restart_pending_locked_def Let_def split: option.splits sum.splits prod.splits)

lemma apply_install:
  "rs_installs ev s \<Longrightarrow> rs_generation (rs_apply ev s) = rs_generation s + 1"
  using install_ok(1)
  by (auto simp: rs_installs_def rs_apply_def keep_ok_def is_ok_iff split: rs_event.splits option.splits)

lemma generation_step: "rs_generation (rs_apply ev s) = rs_generation s + (if rs_installs ev s then 1 else 0)"
  using apply_install apply_not_install by simp

lemma generation_run:
  "rs_generation (run_events rs_apply evs s) = rs_generation s + count_events rs_apply rs_installs evs s"
  by (induction evs arbitrary: s) (auto simp: generation_step)

lemma quarantine_blocks:
  assumes "rs_quarantined s" "count_events rs_apply rs_installs evs s = 0"
  shows "count_events rs_apply rs_admits_request evs s = 0"
  using assms
proof (induction evs arbitrary: s)
  case (Cons ev evs)
  have no_install: "\<not> rs_installs ev s" using Cons.prems(2) by (auto split: if_splits)
  have "\<not> rs_admits_request ev s"
    using Cons.prems(1) by (auto simp: rs_admits_request_def resident_admit_def split: rs_event.splits)
  then show ?case
    using Cons.IH [of "rs_apply ev s"] Cons.prems apply_not_install [OF no_install] no_install by simp
qed simp

section \<open>Properties\<close>

text \<open>C36: in every state the resident can reach, it accepts only while open and with a
  current client, the restart signal names the current generation exactly while a restart is
  pending, a quarantine always has a restart behind it (or the resident is closed), and a
  recorded replacement is for the next generation.\<close>

theorem resident_invariant:
  assumes "s = run_events rs_apply evs (resident_new r heap)"
  shows "(rs_accepting s \<longrightarrow> rs_close_state s = RcOpen \<and> rs_client s \<noteq> None)
    \<and> rs_restart_signal s = (if rs_restart_pending s then Some (rs_generation s) else None)
    \<and> (rs_quarantined s \<longrightarrow> rs_restart_pending s \<or> rs_close_state s = RcTerminal)
    \<and> (\<forall>c g. rs_replacement s = Some (c, g) \<longrightarrow> g = rs_generation s + 1)"
  using rs_run_inv [of evs r heap] assms by (simp add: rs_inv_def)

theorem resident_invariant_witness:
  "rs_restart_signal (run_events rs_apply [RsTimeout 1] (resident_new 0 (\<lambda>_. spawn_client None))) =
    (if rs_restart_pending (run_events rs_apply [RsTimeout 1] (resident_new 0 (\<lambda>_. spawn_client None)))
     then Some (rs_generation (run_events rs_apply [RsTimeout 1] (resident_new 0 (\<lambda>_. spawn_client None)))) else None)"
  using resident_invariant [OF refl] by blast

text \<open>A terminal close is final: after \<open>prepare_close\<close> the current and the recorded
  replacement client are sealed, and no sequence of operations admits an operation or installs
  a replacement again.\<close>

theorem terminal_close_is_final:
  "count_events rs_apply rs_enters evs (snd (prepare_close s)) = 0
   \<and> (\<forall>r. rs_client s = Some r \<longrightarrow> lc_sealed (ci_lifecycle (rs_heap (snd (prepare_close s)) r)))
   \<and> (\<forall>r g. rs_replacement s = Some (r, g) \<longrightarrow> lc_sealed (ci_lifecycle (rs_heap (snd (prepare_close s)) r)))"
proof -
  have "rs_sealed (snd (prepare_close s))"
    by (simp add: rs_sealed_def prepare_close_def set_restart_pending_locked_def Let_def)
  then have "count_events rs_apply rs_enters evs (snd (prepare_close s)) = 0"
    by (rule rs.no_entry_after_seal)
  then show ?thesis
    by (auto simp: prepare_close_def seal_ref_def set_client_def set_restart_pending_locked_def seal_admissions_def
        seal_def Let_def split: option.splits)
qed

theorem terminal_close_is_final_witness:
  "lc_sealed (ci_lifecycle (rs_heap (snd (prepare_close (resident_new 3 (\<lambda>_. spawn_client None)))) 3))"
  using terminal_close_is_final [of "[]" "resident_new 3 (\<lambda>_. spawn_client None)"] by (simp add: resident_new_def)

text \<open>A restart starts only from quiescence: when \<open>restart_candidate\<close> hands out the old
  client, a restart was pending, that client is the current one, it is sealed with no admitted
  operation, no active turn and no unsettled server request, cleanup is authorised for exactly
  this generation, and the resident admits nothing.\<close>

theorem restart_only_when_quiescent:
  assumes "find_restart_candidate e s = (Inr (SealedClient r), s')"
  shows "rs_client s = Some r \<and> rs_restart_pending s \<and> rs_close_state s = RcOpen
    \<and> lc_sealed (ci_lifecycle (rs_heap s' r)) \<and> lc_in_flight (ci_lifecycle (rs_heap s' r)) = 0
    \<and> \<not> has_active_turns (ci_state (rs_heap s' r)) \<and> \<not> sr_has_unsettled (rt_server_requests (ci_state (rs_heap s' r)))
    \<and> restart_cleanup_authorized (rs_generation s) s'
    \<and> resident_admit None q s' = Some (Inl Closed)"
proof -
  obtain c where c: "client_seal_if_quiescent (rs_heap s r) = (True, c)" "rs_client s = Some r"
      "rs_restart_pending s" "rs_close_state s \<noteq> RcTerminal"
    and s': "s' = (set_client r c s)\<lparr>rs_accepting := False, rs_cleanup_authorized := Some (rs_generation s)\<rparr>"
    using assms by (auto simp: find_restart_candidate_def split: if_splits option.splits prod.splits)
  have "rs_close_state s = RcOpen" using c(4) by (cases "rs_close_state s") auto
  then show ?thesis
    using c by (auto simp: s' set_client_def client_seal_if_quiescent_def seal_if_quiescent_def
        restart_cleanup_authorized_def resident_admit_def Let_def split: if_splits)
qed

theorem restart_only_when_quiescent_witness:
  "\<exists>s'. find_restart_candidate None (request_restart (resident_new 0 (\<lambda>_. spawn_client None))) = (Inr (SealedClient 0), s')
     \<and> restart_cleanup_authorized 1 s'"
proof -
  let ?s = "request_restart (resident_new 0 (\<lambda>_. spawn_client None))"
  have "fst (find_restart_candidate None ?s) = Inr (SealedClient 0)" "rs_generation ?s = 1"
    by (simp_all add: find_restart_candidate_def request_restart_def resident_new_def set_restart_pending_locked_def
        client_seal_if_quiescent_def seal_if_quiescent_def spawn_client_def lc_new_def starting_def has_active_turns_def
        sr_has_unsettled_def sr_default_def)
  then show ?thesis
    using restart_only_when_quiescent [of None ?s 0 "snd (find_restart_candidate None ?s)" True]
    by (metis prod.collapse)
qed

text \<open>C8: the generation counts installed replacements, so work bound to an older
  generation is never admitted again: once the generation has passed \<open>g\<close>, every later
  admission that expects \<open>g\<close> fails with a generation mismatch.\<close>

theorem stale_generation_never_admitted:
  assumes "g < rs_generation s"
  shows "rs_generation (run_events rs_apply evs s) = rs_generation s + count_events rs_apply rs_installs evs s
    \<and> resident_admit (Some g) q (run_events rs_apply evs s) =
        Some (Inl (GenerationMismatch g (rs_generation (run_events rs_apply evs s))))"
proof -
  have "g \<noteq> rs_generation (run_events rs_apply evs s)" using assms generation_run [of evs s] by simp
  then show ?thesis by (simp add: generation_run [symmetric] resident_admit_def)
qed

theorem stale_generation_never_admitted_witness:
  "resident_admit (Some 0) True (run_events rs_apply [RsRequestRestart] (resident_new 0 (\<lambda>_. spawn_client None))) =
    Some (Inl (GenerationMismatch 0 (rs_generation (run_events rs_apply [RsRequestRestart] (resident_new 0 (\<lambda>_. spawn_client None))))))"
proof -
  have "0 < rs_generation (resident_new 0 (\<lambda>_. spawn_client None))" by (simp add: resident_new_def)
  then show ?thesis using stale_generation_never_admitted by blast
qed



text \<open>Dead work is settled only on an exact match: \<open>settle_dead_generation\<close> clears the
  active turns and server requests of the current client exactly when the expected work equals
  the work captured from it, remembers it, answers \<open>AlreadySettled\<close> to a repetition, and in
  every other case changes nothing.\<close>

theorem settle_needs_exact_match:
  assumes "settle_dead_generation g w s = (res, s')"
  shows "(res = Inr Settled \<longrightarrow> (\<exists>r. rs_client s = Some r \<and> eligible s \<and> rs_generation s = g
        \<and> Runtime_State.dead_generation_work g (ci_state (rs_heap s r)) = Some w
        \<and> \<not> has_active_turns (ci_state (rs_heap s' r)) \<and> \<not> sr_has_unsettled (rt_server_requests (ci_state (rs_heap s' r)))
        \<and> fst (settle_dead_generation g w s') = Inr AlreadySettled))
    \<and> (res \<noteq> Inr Settled \<longrightarrow> s' = s)"
proof (cases "res = Inr Settled")
  case False
  then show ?thesis
    using assms by (auto simp: settle_dead_generation_def split: if_splits option.splits sum.splits)
next
  case True
  then have base: "dw_generation w = g" "eligible s" "rs_generation s = g" "rs_settled_dead_work s \<noteq> Some w"
    using assms by (auto simp: settle_dead_generation_def validate_generation_def split: if_splits option.splits sum.splits)
  moreover obtain r where r: "rs_client s = Some r"
      "Runtime_State.dead_generation_work g (ci_state (rs_heap s r)) = Some w"
      "s' = (set_client r ((rs_heap s r)\<lparr>ci_state :=
          settle_dead_generation_after_exact_match (ci_state (rs_heap s r))\<rparr>) s)\<lparr>rs_settled_dead_work := Some w\<rparr>"
    using assms True base
    by (auto simp: settle_dead_generation_def validate_generation_def split: if_splits option.splits)
  moreover have "fst (settle_dead_generation g w s') = Inr AlreadySettled"
    using base r(3) by (simp add: settle_dead_generation_def)
  ultimately show ?thesis
    using True by (auto simp: set_client_def settle_dead_generation_after_exact_match_def has_active_turns_def
        sr_has_unsettled_def sr_settle_dead_generation_def)
qed

theorem settle_needs_exact_match_witness:
  "snd (settle_dead_generation 1 \<lparr>dw_generation = 2, dw_closed_reason = [], dw_active_turns = [], dw_server_requests = []\<rparr>
      (resident_new 0 (\<lambda>_. spawn_client None))) = resident_new 0 (\<lambda>_. spawn_client None)"
  using settle_needs_exact_match [of 1 "\<lparr>dw_generation = 2, dw_closed_reason = [], dw_active_turns = [], dw_server_requests = []\<rparr>"
      "resident_new 0 (\<lambda>_. spawn_client None)" "Inr SnapshotChanged" "resident_new 0 (\<lambda>_. spawn_client None)"]
  by (simp add: settle_dead_generation_def)

end
