(* ===== verification/Outcomes.thy ===== *)
theory Outcomes
  imports Rpc Hash_Map
begin

text \<open>
  Reading turn outcomes and goals out of app-server payloads
  (\<open>cdr-app-server/src/outcomes.rs\<close>, \<open>goal.rs\<close>, and the classification of
  non-blocking questions in \<open>async_questions.rs\<close>): the completion of a turn, the states
  of a thread's turns, the final text of a turn, the payload written to the durable
  completion journal, and the goal status of a thread.
\<close>

section \<open>Types\<close>

datatype turn_status = Completed | Interrupted | Failed | InProgress

datatype interrupt_origin = RemoteUserIntent | ExternalOrUnknown

record turn_completion =
  tc_thread_id :: rstr
  tc_turn_id :: rstr
  tc_status :: turn_status
  tc_error_message :: rstr
  tc_interrupt_origin :: "interrupt_origin option"
  tc_duration_ms :: "int option"
  tc_usage_limit :: bool

record completed_final_answer =
  fa_thread_id :: rstr
  fa_turn_id :: rstr
  fa_text :: rstr

datatype turn_outcome_error =
    InvalidThread | DifferentThread | InvalidTurns | InvalidTurn | MissingThreadId | MissingTurnId
  | MissingStatus | UnknownStatus rstr | InProgressCompletion | InvalidError | MissingErrorMessage
  | TurnNotFound | InvalidItems

record turn_text =
  tt_text :: rstr
  tt_explicit_final :: bool

section \<open>Turn payloads\<close>

definition text_of :: "json option \<Rightarrow> rstr" where
  "text_of v = (case Option.bind v as_str of None \<Rightarrow> [] | Some s \<Rightarrow> trim s)"

definition parse_status :: "rstr \<Rightarrow> turn_status option" where
  "parse_status raw = (if raw = lit ''completed'' then Some Completed
     else if raw = lit ''interrupted'' then Some Interrupted
     else if raw = lit ''failed'' then Some Failed
     else if raw = lit ''inProgress'' then Some InProgress
     else None)"

definition parse_error :: "json \<Rightarrow> turn_status \<Rightarrow> (turn_outcome_error, rstr \<times> bool) result" where
  "parse_error turn status = (case jget turn ''error'' of
      None \<Rightarrow> Inr ([], False)
    | Some err \<Rightarrow>
        if is_null err then Inr ([], False)
        else (case as_object err of
            None \<Rightarrow> Inl InvalidError
          | Some ob \<Rightarrow> (case obj_get_str ob ''message'' of
                None \<Rightarrow> Inl MissingErrorMessage
              | Some message \<Rightarrow>
                  if status \<noteq> Failed then Inr ([], False)
                  else Inr (take 1000 (trim message), is_usage_limit_error (Some (JObj ob))))))"

definition parse_turn_payload ::
    "rstr \<Rightarrow> json \<Rightarrow> bool \<Rightarrow> bool \<Rightarrow> (turn_outcome_error, turn_completion) result" where
  "parse_turn_payload thread_id turn remote_user_intent require_terminal =
    (if thread_id = [] then Inl MissingThreadId
     else let turn_id = text_of (jget turn ''id'') in
       if turn_id = [] then Inl MissingTurnId
       else (case jget_str turn ''status'' of
           None \<Rightarrow> Inl MissingStatus
         | Some raw \<Rightarrow> (case parse_status raw of
               None \<Rightarrow> Inl (UnknownStatus raw)
             | Some status \<Rightarrow>
                 if require_terminal \<and> status = InProgress then Inl InProgressCompletion
                 else (case parse_error turn status of
                     Inl e \<Rightarrow> Inl e
                   | Inr (message, usage) \<Rightarrow> Inr \<lparr>tc_thread_id = thread_id, tc_turn_id = turn_id,
                       tc_status = status, tc_error_message = message,
                       tc_interrupt_origin = (if status = Interrupted
                          then Some (if remote_user_intent then RemoteUserIntent else ExternalOrUnknown) else None),
                       tc_duration_ms = Option.bind (jget turn ''durationMs'') as_i64,
                       tc_usage_limit = usage\<rparr>))))"

definition parse_turn_completion :: "json \<Rightarrow> bool \<Rightarrow> (turn_outcome_error, turn_completion) result" where
  "parse_turn_completion params remote_user_intent =
    (case Option.bind (jget params ''turn'') as_object of
       None \<Rightarrow> Inl InvalidTurn
     | Some turn \<Rightarrow> parse_turn_payload (text_of (jget params ''threadId'')) (JObj turn) remote_user_intent True)"

fun collect_turn_states ::
    "rstr \<Rightarrow> json list \<Rightarrow> (rstr, turn_completion) hmap \<Rightarrow>
     (turn_outcome_error, (rstr, turn_completion) hmap) result" where
  "collect_turn_states thread_id [] states = Inr states"
| "collect_turn_states thread_id (turn # turns) states =
    (if \<not> is_object turn then Inl InvalidTurn
     else (case parse_turn_payload thread_id turn False False of
         Inl e \<Rightarrow> Inl e
       | Inr c \<Rightarrow> collect_turn_states thread_id turns (hm_insert (tc_turn_id c) c states)))"

definition parse_thread_turn_states ::
    "json \<Rightarrow> rstr \<Rightarrow> (turn_outcome_error, (rstr, turn_completion) hmap) result" where
  "parse_thread_turn_states res expected_thread_id =
    (case Option.bind (jget res ''thread'') as_object of
       None \<Rightarrow> Inl InvalidThread
     | Some thread \<Rightarrow>
         if text_of (obj_get thread ''id'') \<noteq> expected_thread_id then Inl DifferentThread
         else (case Option.bind (obj_get thread ''turns'') as_array of
             None \<Rightarrow> Inl InvalidTurns
           | Some turns \<Rightarrow> collect_turn_states (text_of (obj_get thread ''id'')) turns []))"

section \<open>Final text\<close>

definition is_agent_message :: "json \<Rightarrow> bool" where
  "is_agent_message item = (jget_str item ''type'' \<in> {Some (lit ''agentMessage''), Some (lit ''agent_message'')})"

definition is_async_message :: "json \<Rightarrow> bool" where
  "is_async_message item = (is_agent_message item \<and> jget_str item ''delivery'' = Some (lit ''async''))"

definition agent_message_text :: "json \<Rightarrow> rstr" where
  "agent_message_text item = (let direct = text_of (jget item ''text'') in
     if direct \<noteq> [] then direct
     else trim (join [10] (List.map_filter (\<lambda>block. jget_str block ''text'')
       (filter (\<lambda>block. jget_str block ''type'' \<in> {Some (lit ''output_text''), Some (lit ''text'')})
         (case Option.bind (jget item ''content'') as_array of None \<Rightarrow> [] | Some xs \<Rightarrow> xs)))))"

text \<open>The loop over the items with its two accumulators.\<close>

fun scan_items :: "json list \<Rightarrow> rstr \<Rightarrow> rstr \<Rightarrow> rstr \<times> rstr" where
  "scan_items [] fallback final_answer = (fallback, final_answer)"
| "scan_items (item # items) fallback final_answer =
    (if \<not> is_agent_message item then scan_items items fallback final_answer
     else if is_async_message item then scan_items items fallback final_answer
     else let message = agent_message_text item in
       if message = [] then scan_items items fallback final_answer
       else scan_items items message
         (if jget_str item ''phase'' = Some (lit ''final_answer'') then message else final_answer))"

definition extract_turn_text :: "json \<Rightarrow> rstr \<Rightarrow> rstr \<Rightarrow> (turn_outcome_error, turn_text) result" where
  "extract_turn_text res expected_thread_id expected_turn_id =
    (case Option.bind (jget res ''thread'') as_object of
       None \<Rightarrow> Inl InvalidThread
     | Some thread \<Rightarrow>
         if text_of (obj_get thread ''id'') \<noteq> expected_thread_id then Inl DifferentThread
         else (case Option.bind (obj_get thread ''turns'') as_array of
             None \<Rightarrow> Inl InvalidTurns
           | Some turns \<Rightarrow> (case find (\<lambda>turn. text_of (jget turn ''id'') = expected_turn_id) turns of
                 None \<Rightarrow> Inl TurnNotFound
               | Some turn \<Rightarrow> (case Option.bind (jget turn ''items'') as_array of
                     None \<Rightarrow> Inl InvalidItems
                   | Some items \<Rightarrow> (case scan_items items [] [] of
                         (fallback, final_answer) \<Rightarrow>
                           Inr \<lparr>tt_text = (if final_answer \<noteq> [] then final_answer else fallback),
                                tt_explicit_final = (final_answer \<noteq> [])\<rparr>)))))"

definition extract_turn_final_text :: "json \<Rightarrow> rstr \<Rightarrow> rstr \<Rightarrow> (turn_outcome_error, rstr) result" where
  "extract_turn_final_text res th tu = map_sum id tt_text (extract_turn_text res th tu)"

definition extract_completed_final_answer :: "json \<Rightarrow> completed_final_answer option" where
  "extract_completed_final_answer params = (case jget params ''item'' of
      None \<Rightarrow> None
    | Some item \<Rightarrow>
        if \<not> is_agent_message item \<or> is_async_message item \<or> jget_str item ''phase'' \<noteq> Some (lit ''final_answer'')
        then None
        else let thread_id = text_of (jget params ''threadId''); turn_id = text_of (jget params ''turnId'');
                 text = agent_message_text item
             in if thread_id = [] \<or> turn_id = [] \<or> text = [] then None
                else Some \<lparr>fa_thread_id = thread_id, fa_turn_id = turn_id, fa_text = text\<rparr>)"

section \<open>The completion journal\<close>

definition status_text :: "turn_status \<Rightarrow> string" where
  "status_text status = (case status of Completed \<Rightarrow> ''completed'' | Interrupted \<Rightarrow> ''interrupted''
     | Failed \<Rightarrow> ''failed'' | InProgress \<Rightarrow> ''inProgress'')"

definition json_opt :: "('a \<Rightarrow> json) \<Rightarrow> 'a option \<Rightarrow> json" where
  "json_opt f x = (case x of None \<Rightarrow> JNull | Some v \<Rightarrow> f v)"

definition completion_journal_payload :: "turn_completion \<Rightarrow> json" where
  "completion_journal_payload c = json_object
    [(''threadId'', JStr (tc_thread_id c)),
     (''turn'', json_object
       [(''id'', JStr (tc_turn_id c)), (''status'', JStr (lit (status_text (tc_status c)))),
        (''durationMs'', json_opt (\<lambda>i. JNum (JInt i)) (tc_duration_ms c)),
        (''error'', json_object
          [(''message'', JStr (tc_error_message c)),
           (''codexErrorInfo'', if tc_status c = Failed \<and> tc_usage_limit c
              then JStr (lit ''usageLimitExceeded'') else JNull)])])]"

section \<open>Goals (\<open>goal.rs\<close>)\<close>

datatype thread_goal_status = GoalActive | GoalPaused | GoalBlocked | GoalUsageLimited | GoalBudgetLimited | GoalComplete

record thread_goal_update =
  gu_thread_id :: rstr
  gu_turn_id :: "rstr option"
  gu_status :: thread_goal_status

datatype goal_parse_error =
    InvalidGoal | GoalDifferentThread | InvalidGoalStatus | UnknownGoalStatus rstr | GoalMissingThreadId
  | UpdateDifferentThread

definition is_terminal_goal_status :: "thread_goal_status \<Rightarrow> bool" where
  "is_terminal_goal_status s = (s \<in> {GoalBlocked, GoalComplete})"

definition parse_goal_status :: "json option \<Rightarrow> (goal_parse_error, thread_goal_status) result" where
  "parse_goal_status v = (case Option.bind v as_str of
      None \<Rightarrow> Inl InvalidGoalStatus
    | Some raw \<Rightarrow>
        if raw = lit ''active'' then Inr GoalActive
        else if raw = lit ''paused'' then Inr GoalPaused
        else if raw = lit ''blocked'' then Inr GoalBlocked
        else if raw = lit ''usageLimited'' then Inr GoalUsageLimited
        else if raw = lit ''budgetLimited'' then Inr GoalBudgetLimited
        else if raw = lit ''complete'' then Inr GoalComplete
        else Inl (UnknownGoalStatus raw))"

definition parse_thread_goal_status ::
    "json \<Rightarrow> rstr \<Rightarrow> (goal_parse_error, thread_goal_status option) result" where
  "parse_thread_goal_status res expected = (case jget res ''goal'' of
      None \<Rightarrow> Inr None
    | Some goal \<Rightarrow>
        if is_null goal then Inr None
        else (case as_object goal of
            None \<Rightarrow> Inl InvalidGoal
          | Some ob \<Rightarrow>
              if obj_get_str ob ''threadId'' \<noteq> Some expected then Inl GoalDifferentThread
              else map_sum id Some (parse_goal_status (obj_get ob ''status''))))"

definition parse_thread_goal_update :: "json \<Rightarrow> (goal_parse_error, thread_goal_update) result" where
  "parse_thread_goal_update params = (let thread_id = text_of (jget params ''threadId'') in
     if thread_id = [] then Inl GoalMissingThreadId
     else (case Option.bind (jget params ''goal'') as_object of
         None \<Rightarrow> Inl InvalidGoal
       | Some goal \<Rightarrow>
           if text_of (obj_get goal ''threadId'') \<noteq> thread_id then Inl UpdateDifferentThread
           else (case parse_goal_status (obj_get goal ''status'') of
               Inl e \<Rightarrow> Inl e
             | Inr status \<Rightarrow> (let turn_id = text_of (jget params ''turnId'') in
                 Inr \<lparr>gu_thread_id = thread_id, gu_turn_id = (if turn_id = [] then None else Some turn_id),
                      gu_status = status\<rparr>))))"

section \<open>Lemmas\<close>

lemma text_of_trim [simp]: "trim (text_of v) = text_of v"
  by (simp add: text_of_def split: option.splits)

lemma text_of_str [simp]: "text_of (Some (JStr s)) = trim s"
  by (simp add: text_of_def)

lemma parse_status_text [simp]: "parse_status (lit (status_text s)) = Some s"
  by (cases s) (simp_all add: parse_status_def status_text_def)

definition completion_wf :: "bool \<Rightarrow> turn_completion \<Rightarrow> bool" where
  "completion_wf intent c = (tc_thread_id c \<noteq> [] \<and> trim (tc_thread_id c) = tc_thread_id c
    \<and> tc_turn_id c \<noteq> [] \<and> trim (tc_turn_id c) = tc_turn_id c
    \<and> tc_status c \<noteq> InProgress
    \<and> (tc_status c \<noteq> Failed \<longrightarrow> tc_error_message c = [] \<and> \<not> tc_usage_limit c)
    \<and> length (tc_error_message c) \<le> 1000
    \<and> tc_interrupt_origin c = (if tc_status c = Interrupted
         then Some (if intent then RemoteUserIntent else ExternalOrUnknown) else None)
    \<and> (\<forall>i. tc_duration_ms c = Some i \<longrightarrow> i64_range i))"

lemma parse_error_cases:
  "parse_error turn status = Inr (m, u) \<Longrightarrow> length m \<le> 1000 \<and> (status \<noteq> Failed \<longrightarrow> m = [] \<and> \<not> u)"
  by (auto simp: parse_error_def split: option.splits if_splits)

lemma parse_turn_payload_wf:
  assumes "parse_turn_payload th turn intent True = Inr c" "trim th = th"
  shows "completion_wf intent c"
proof -
  obtain raw status m u where s: "jget_str turn ''status'' = Some raw" "parse_status raw = Some status"
      "parse_error turn status = Inr (m, u)"
    and c: "th \<noteq> []" "text_of (jget turn ''id'') \<noteq> []" "status \<noteq> InProgress"
      "c = \<lparr>tc_thread_id = th, tc_turn_id = text_of (jget turn ''id''), tc_status = status, tc_error_message = m,
         tc_interrupt_origin = (if status = Interrupted
            then Some (if intent then RemoteUserIntent else ExternalOrUnknown) else None),
         tc_duration_ms = Option.bind (jget turn ''durationMs'') as_i64, tc_usage_limit = u\<rparr>"
    using assms(1) by (auto simp: parse_turn_payload_def Let_def split: if_splits option.splits sum.splits)
  have "\<forall>i. Option.bind (jget turn ''durationMs'') as_i64 = Some i \<longrightarrow> i64_range i"
    using as_i64_range by (auto simp: bind_eq_Some_conv)
  then show ?thesis
    using parse_error_cases [OF s(3)] c assms(2) by (simp add: completion_wf_def)
qed

lemma journal_error:
  "parse_error (json_object [(''id'', i), (''status'', st), (''durationMs'', d),
      (''error'', json_object [(''message'', JStr m), (''codexErrorInfo'', info)])]) status =
    (if status \<noteq> Failed then Inr ([], False)
     else Inr (take 1000 (trim m), is_usage_limit_error (Some (json_object [(''message'', JStr m), (''codexErrorInfo'', info)]))))"
  by (simp add: parse_error_def json_object_def)

lemma usage_limit_journal:
  "is_usage_limit_error (Some (json_object [(''message'', JStr m), (''codexErrorInfo'', JNull)])) = False"
  "is_usage_limit_error (Some (json_object [(''message'', JStr m), (''codexErrorInfo'', JStr (lit ''usageLimitExceeded''))])) = True"
  by (simp_all add: is_usage_limit_error_def json_object_def numeral_eq_Suc usage_token_def)

lemma length_trim_le_1000: "length m \<le> 1000 \<Longrightarrow> take 1000 (trim m) = trim m"
  using length_trim_le [of m] by simp

lemma parse_turn_completion_object:
  "parse_turn_completion (json_object [(''threadId'', JStr t), (''turn'', json_object kvs)]) intent =
    parse_turn_payload (trim t) (json_object kvs) intent True"
  by (simp add: parse_turn_completion_def) (simp add: json_object_def)

lemma journal_roundtrip_wf:
  assumes "completion_wf intent c"
  shows "parse_turn_completion (completion_journal_payload c) intent =
    Inr (c\<lparr>tc_error_message := trim (tc_error_message c)\<rparr>)"
proof -
  let ?info = "if tc_status c = Failed \<and> tc_usage_limit c then JStr (lit ''usageLimitExceeded'') else JNull"
  let ?err = "json_object [(''message'', JStr (tc_error_message c)), (''codexErrorInfo'', ?info)]"
  let ?turn = "json_object [(''id'', JStr (tc_turn_id c)), (''status'', JStr (lit (status_text (tc_status c)))),
        (''durationMs'', json_opt (\<lambda>i. JNum (JInt i)) (tc_duration_ms c)), (''error'', ?err)]"
  have usage: "is_usage_limit_error (Some ?err) \<longleftrightarrow> tc_usage_limit c" if "tc_status c = Failed"
    using that by (simp add: usage_limit_journal)
  have err: "parse_error ?turn (tc_status c) = Inr (trim (tc_error_message c), tc_usage_limit c)"
    using assms usage by (auto simp: journal_error completion_wf_def length_trim_le_1000)
  have dur: "as_i64 (json_opt (\<lambda>i. JNum (JInt i)) (tc_duration_ms c)) = tc_duration_ms c"
    using assms by (auto simp: json_opt_def completion_wf_def split: option.splits)
  have "parse_turn_payload (tc_thread_id c) ?turn intent True = Inr (c\<lparr>tc_error_message := trim (tc_error_message c)\<rparr>)"
    using assms err dur by (cases c) (simp add: parse_turn_payload_def completion_wf_def)
  moreover have "trim (tc_thread_id c) = tc_thread_id c" using assms by (simp add: completion_wf_def)
  ultimately show ?thesis
    unfolding completion_journal_payload_def parse_turn_completion_object by (simp only:)
qed

section \<open>The items of a turn\<close>

text \<open>The non-empty blocking agent messages of a turn with their final-answer mark.\<close>

definition item_messages :: "json list \<Rightarrow> (rstr \<times> bool) list" where
  "item_messages items = map (\<lambda>i. (agent_message_text i, jget_str i ''phase'' = Some (lit ''final_answer'')))
     (filter (\<lambda>i. is_agent_message i \<and> \<not> is_async_message i \<and> agent_message_text i \<noteq> []) items)"

definition finals :: "json list \<Rightarrow> rstr list" where
  "finals items = map fst (filter snd (item_messages items))"

definition last_or :: "'a \<Rightarrow> 'a list \<Rightarrow> 'a" where
  "last_or d xs = (if xs = [] then d else last xs)"

lemma last_or_Cons [simp]: "last_or d (x # xs) = last_or x xs" "last_or d [] = d"
  by (simp_all add: last_or_def)

lemma scan_items_spec:
  "scan_items items fb fin = (last_or fb (map fst (item_messages items)), last_or fin (finals items))"
  by (induction items arbitrary: fb fin) (auto simp: item_messages_def finals_def Let_def)

lemma finals_nonempty: "finals items \<noteq> [] \<Longrightarrow> last (finals items) \<noteq> []"
proof -
  assume "finals items \<noteq> []"
  then have "last (finals items) \<in> set (finals items)" by simp
  then show ?thesis by (auto simp: finals_def item_messages_def)
qed

section \<open>Properties\<close>

text \<open>What \<open>turn/completed\<close> yields survives the durable journal: writing a parsed
  completion with \<open>completion_journal_payload\<close> and parsing it back gives the same completion,
  thread, turn, status, interrupt origin, duration and usage-limit verdict included; only
  whitespace left at the end of a message cut at 1000 characters is dropped.\<close>

theorem journal_roundtrip:
  assumes "parse_turn_completion params intent = Inr c"
  shows "parse_turn_completion (completion_journal_payload c) intent =
      Inr (c\<lparr>tc_error_message := trim (tc_error_message c)\<rparr>)
    \<and> tc_status c \<noteq> InProgress \<and> length (tc_error_message c) \<le> 1000
    \<and> (tc_usage_limit c \<longrightarrow> tc_status c = Failed)
    \<and> (tc_interrupt_origin c = None \<longleftrightarrow> tc_status c \<noteq> Interrupted)"
proof -
  have wf: "completion_wf intent c"
    using assms parse_turn_payload_wf by (auto simp: parse_turn_completion_def split: option.splits)
  then show ?thesis
    using journal_roundtrip_wf [OF wf] by (auto simp: completion_wf_def)
qed

theorem journal_roundtrip_witness:
  "\<exists>c. parse_turn_completion (json_object [(''threadId'', JStr (lit '' t '')),
        (''turn'', json_object [(''id'', JStr (lit ''u'')), (''status'', JStr (lit ''failed'')),
           (''error'', json_object [(''message'', JStr (lit ''boom'')), (''type'', JStr (lit ''usage_limit''))])])]) True = Inr c
     \<and> parse_turn_completion (completion_journal_payload c) True = Inr (c\<lparr>tc_error_message := trim (tc_error_message c)\<rparr>)
     \<and> tc_usage_limit c"
proof -
  let ?p = "json_object [(''threadId'', JStr (lit '' t '')),
        (''turn'', json_object [(''id'', JStr (lit ''u'')), (''status'', JStr (lit ''failed'')),
           (''error'', json_object [(''message'', JStr (lit ''boom'')), (''type'', JStr (lit ''usage_limit''))])])]"
  have "case parse_turn_completion ?p True of Inl _ \<Rightarrow> False | Inr c \<Rightarrow> tc_usage_limit c" by code_simp
  then obtain c where c: "parse_turn_completion ?p True = Inr c" "tc_usage_limit c" by (auto split: sum.splits)
  then show ?thesis using journal_roundtrip [OF c(1)] by blast
qed

text \<open>The text of a turn is the last non-empty message among its blocking agent messages
  marked as final answer, and is reported as explicit exactly then; without one it is the last
  non-empty blocking agent message, or empty. Messages delivered asynchronously never count.\<close>

theorem turn_text_is_last_answer:
  assumes "extract_turn_text res th tu = Inr t"
  shows "\<exists>turn items. text_of (jget turn ''id'') = tu \<and> jget turn ''items'' = Some (JArr items)
    \<and> tt_text t = (if finals items \<noteq> [] then last (finals items) else last_or [] (map fst (item_messages items)))
    \<and> (tt_explicit_final t \<longleftrightarrow> finals items \<noteq> [])"
proof -
  obtain turns turn items where turn: "find (\<lambda>turn. text_of (jget turn ''id'') = tu) turns = Some turn"
      "jget turn ''items'' = Some (JArr items)"
    and t: "t = (case scan_items items [] [] of (fallback, final_answer) \<Rightarrow>
        \<lparr>tt_text = (if final_answer \<noteq> [] then final_answer else fallback), tt_explicit_final = (final_answer \<noteq> [])\<rparr>)"
    using assms by (auto simp: extract_turn_text_def bind_eq_Some_conv split: option.splits if_splits prod.splits)
  have "last_or [] (finals items) \<noteq> [] \<longleftrightarrow> finals items \<noteq> []"
    using finals_nonempty [of items] by (auto simp: last_or_def)
  then show ?thesis
    using turn t find_Some_set [OF turn(1)]
    by (intro exI [of _ turn] exI [of _ items]) (auto simp: scan_items_spec last_or_def)
qed

theorem turn_text_is_last_answer_witness:
  "\<exists>t. extract_turn_text (json_object [(''thread'', json_object [(''id'', JStr (lit ''t'')), (''turns'', JArr [json_object
      [(''id'', JStr (lit ''u'')), (''items'', JArr [json_object [(''type'', JStr (lit ''agentMessage'')),
          (''text'', JStr (lit ''hi'')), (''phase'', JStr (lit ''final_answer''))]])]])])]) (lit ''t'') (lit ''u'') = Inr t
    \<and> tt_text t = lit ''hi''"
proof -
  let ?items = "[json_object [(''type'', JStr (lit ''agentMessage'')),
          (''text'', JStr (lit ''hi'')), (''phase'', JStr (lit ''final_answer''))]]"
  let ?res = "json_object [(''thread'', json_object [(''id'', JStr (lit ''t'')), (''turns'', JArr [json_object
      [(''id'', JStr (lit ''u'')), (''items'', JArr ?items)]])])]"
  have "case extract_turn_text ?res (lit ''t'') (lit ''u'') of Inl _ \<Rightarrow> False | Inr t \<Rightarrow> tt_text t = lit ''hi''" by code_simp
  then obtain t where t: "extract_turn_text ?res (lit ''t'') (lit ''u'') = Inr t" "tt_text t = lit ''hi''"
    by (auto split: sum.splits)
  from turn_text_is_last_answer [OF t(1)] t show ?thesis by blast
qed

end
