(* ===== verification/Text_Chunks.thy ===== *)
theory Text_Chunks
  imports Rust_Str
begin

text \<open>
  Splitting texts into Discord messages (\<open>cdr-discord/src/text.rs\<close>). Positions are
  character positions: the byte index \<open>char_byte_index\<close> computes is where the character of
  that position starts. \<open>assert!\<close> in \<open>split_message\<close> is \<open>None\<close>.
\<close>

definition DISCORD_MAX_LEN :: nat where
  "DISCORD_MAX_LEN = 1900"

definition CHUNK_MARKER_BUDGET :: nat where
  "CHUNK_MARKER_BUDGET = 32"

definition TRUNCATION_SUFFIX :: rstr where
  "TRUNCATION_SUFFIX = 10 # 10 # lit ''[truncated for Discord]''"

definition NO_OUTPUT :: rstr where
  "NO_OUTPUT = lit ''(no output)''"

text \<open>\<open>str::rfind\<close> of a newline.\<close>

fun rfind_newline :: "rstr \<Rightarrow> nat option" where
  "rfind_newline [] = None"
| "rfind_newline (c # s) = (case rfind_newline s of
      Some i \<Rightarrow> Some (Suc i) | None \<Rightarrow> if c = 10 then Some 0 else None)"

definition split_point :: "nat \<Rightarrow> rstr \<Rightarrow> nat" where
  "split_point limit remaining = (case opt_filter (\<lambda>i. 0 < i) (rfind_newline (take limit remaining)) of
      Some i \<Rightarrow> i | None \<Rightarrow> limit)"

lemma rfind_newline_bound: "rfind_newline s = Some i \<Longrightarrow> i < length s \<and> s ! i = 10"
  by (induction s arbitrary: i) (auto split: option.splits if_splits)

lemma split_point_bounds: "0 < limit \<Longrightarrow> limit < length r \<Longrightarrow> 0 < split_point limit r \<and> split_point limit r \<le> limit"
proof -
  assume l: "0 < limit" "limit < length r"
  show ?thesis
  proof (cases "opt_filter (\<lambda>i. 0 < i) (rfind_newline (take limit r))")
    case None
    then show ?thesis using l by (simp add: split_point_def del: opt_filter_eq_None)
  next
    case (Some i)
    then have "0 < i" "i < length (take limit r)" using rfind_newline_bound [of "take limit r" i] by simp_all
    then show ?thesis using Some by (simp add: split_point_def)
  qed
qed

function split_loop :: "nat \<Rightarrow> rstr \<Rightarrow> rstr list" where
  "split_loop limit remaining =
    (if 0 < limit \<and> limit < length remaining
     then (let at = split_point limit remaining
           in trim (take at remaining) # split_loop limit (trim_start (drop at remaining)))
     else if remaining \<noteq> [] then [remaining] else [])"
  by pat_completeness auto
termination
proof (relation "measure (\<lambda>(limit, remaining). length remaining)")
  fix limit remaining and at :: nat
  assume l: "0 < limit \<and> limit < length remaining" and at: "at = split_point limit remaining"
  have "length (trim_start (drop at remaining)) \<le> length remaining - at"
    by (metis length_drop length_dropWhile_le trim_start_def)
  then show "((limit, trim_start (drop at remaining)), (limit, remaining)) \<in> measure (\<lambda>(limit, remaining). length remaining)"
    using split_point_bounds [of limit remaining] l at by auto
qed simp

declare split_loop.simps [simp del]

definition split_message :: "rstr \<Rightarrow> nat \<Rightarrow> rstr list option" where
  "split_message text limit = (if limit = 0 then None
     else let remaining = trim text in
       if remaining = [] then Some [NO_OUTPUT] else Some (split_loop limit remaining))"

definition add_markers :: "rstr list \<Rightarrow> rstr list" where
  "add_markers chunks = map (\<lambda>(i, chunk). lit ''['' @ decimal (i + 1) @ lit ''/'' @ decimal (length chunks)
     @ lit '']'' @ [10] @ chunk) (List.enumerate 0 chunks)"

definition split_delivery_chunks :: "rstr \<Rightarrow> bool \<Rightarrow> rstr list option" where
  "split_delivery_chunks text markers_enabled =
    (if \<not> markers_enabled then split_message text DISCORD_MAX_LEN
     else (case split_message text (DISCORD_MAX_LEN - CHUNK_MARKER_BUDGET) of
         None \<Rightarrow> None
       | Some chunks \<Rightarrow> if length chunks \<le> 1 then Some chunks else Some (add_markers chunks)))"

function exact_loop :: "nat \<Rightarrow> rstr \<Rightarrow> rstr list" where
  "exact_loop limit remaining =
    (if 0 < limit \<and> remaining \<noteq> [] then take limit remaining # exact_loop limit (drop limit remaining) else [])"
  by pat_completeness auto
termination
  by (relation "measure (\<lambda>(limit, remaining). length remaining)") auto

declare exact_loop.simps [simp del]

definition split_exact_delivery_chunks :: "rstr \<Rightarrow> bool \<Rightarrow> rstr list" where
  "split_exact_delivery_chunks text markers_enabled =
    (if text = [] then [NO_OUTPUT]
     else let limit = DISCORD_MAX_LEN - (if markers_enabled then CHUNK_MARKER_BUDGET else 0);
              chunks = exact_loop limit text
          in if markers_enabled \<and> length chunks > 1 then add_markers chunks else chunks)"

definition fit_single_message :: "rstr \<Rightarrow> nat \<Rightarrow> rstr" where
  "fit_single_message text0 limit = (let text = trim text0 in
     if length text \<le> limit then text
     else let available = limit - length TRUNCATION_SUFFIX
          in trim_end (take available text) @ TRUNCATION_SUFFIX)"

section \<open>Lemmas\<close>

abbreviation solid :: "rstr \<Rightarrow> rstr" where
  "solid s \<equiv> filter (\<lambda>c. \<not> is_whitespace c) s"

lemma solid_trim_start: "solid (trim_start s) = solid s"
  by (induction s) (auto simp: trim_start_def)

lemma solid_trim_end: "solid (trim_end s) = solid s"
proof -
  have "solid (trim_end s) = rev (solid (trim_start (rev s)))"
    by (simp add: trim_end_def trim_start_def rev_filter)
  then show ?thesis by (simp add: solid_trim_start rev_filter)
qed

lemma solid_trim: "solid (trim s) = solid s"
  by (simp add: trim_def solid_trim_end solid_trim_start)

lemma trim_nonempty: "s \<noteq> [] \<Longrightarrow> \<not> is_whitespace (hd s) \<Longrightarrow> trim s \<noteq> []"
proof
  assume s: "s \<noteq> []" "\<not> is_whitespace (hd s)" "trim s = []"
  then have "solid s = []" using solid_trim [of s] by simp
  then show False using s(1,2) by (cases s) auto
qed

lemma trim_start_start: "trim_start s = [] \<or> \<not> is_whitespace (hd (trim_start s))"
  by (rule trim_start_hd)

text \<open>The remaining text always starts with a visible character, so every chunk is
  non-empty; each is at most \<open>limit\<close> long.\<close>

lemma split_loop_chunks:
  assumes "0 < limit" "r = [] \<or> \<not> is_whitespace (hd r)" "chunk \<in> set (split_loop limit r)"
  shows "chunk \<noteq> [] \<and> length chunk \<le> limit"
  using assms
proof (induction limit r rule: split_loop.induct)
  case (1 limit r)
  show ?case
  proof (cases "limit < length r")
    case False
    then show ?thesis using 1(4) by (auto simp: split_loop.simps [of limit r] split: if_splits)
  next
    case True
    let ?at = "split_point limit r"
    have at: "0 < ?at" "?at \<le> limit" using split_point_bounds 1(2) True by blast+
    have ne: "take ?at r \<noteq> []" "hd (take ?at r) = hd r"
      using at True by (cases r; auto)+
    then have first: "trim (take ?at r) \<noteq> []"
      using 1(3) True by (intro trim_nonempty) auto
    have len: "length (trim (take ?at r)) \<le> limit"
      using length_trim_le [of "take ?at r"] at by simp
    consider "chunk = trim (take ?at r)" | "chunk \<in> set (split_loop limit (trim_start (drop ?at r)))"
      using 1(2,4) True by (auto simp: split_loop.simps [of limit r] Let_def)
    then show ?thesis
    proof cases
      case 2
      then show ?thesis
        using 1(1) [of ?at] 1(2) True trim_start_start [of "drop ?at r"] by simp
    qed (use first len in simp)
  qed
qed

lemma split_loop_solid:
  "0 < limit \<Longrightarrow> solid (concat (split_loop limit r)) = solid r"
proof (induction limit r rule: split_loop.induct)
  case (1 limit r)
  show ?case
  proof (cases "limit < length r")
    case False
    then show ?thesis by (simp add: split_loop.simps [of limit r])
  next
    case True
    let ?at = "split_point limit r"
    have "solid (concat (split_loop limit r)) = solid (take ?at r) @ solid (drop ?at r)"
      using 1 True by (simp add: split_loop.simps [of limit r] Let_def solid_trim solid_trim_start)
    also have "\<dots> = solid r" by (metis append_take_drop_id filter_append)
    finally show ?thesis .
  qed
qed

lemma split_loop_nonempty: "r \<noteq> [] \<Longrightarrow> split_loop limit r \<noteq> []"
  by (simp add: split_loop.simps [of limit r] Let_def)

lemma split_loop_count: "0 < limit \<Longrightarrow> r = [] \<or> \<not> is_whitespace (hd r) \<Longrightarrow> length (split_loop limit r) \<le> length r"
proof (induction limit r rule: split_loop.induct)
  case (1 limit r)
  show ?case
  proof (cases "limit < length r")
    case False
    then show ?thesis by (auto simp: split_loop.simps [of limit r] Suc_le_eq)
  next
    case True
    let ?at = "split_point limit r"
    have at: "0 < ?at" "?at \<le> limit" using split_point_bounds 1(2) True by blast+
    have "length (split_loop limit (trim_start (drop ?at r))) \<le> length (trim_start (drop ?at r))"
      using 1(1) [of ?at] 1(2) True trim_start_start [of "drop ?at r"] by simp
    also have "\<dots> \<le> length r - ?at"
      by (metis length_drop length_dropWhile_le trim_start_def)
    finally show ?thesis using at 1(2) True by (simp add: split_loop.simps [of limit r] Let_def)
  qed
qed

lemma exact_loop_concat: "0 < limit \<Longrightarrow> concat (exact_loop limit r) = r"
  by (induction limit r rule: exact_loop.induct) (subst exact_loop.simps, auto)

lemma exact_loop_chunks: "c \<in> set (exact_loop limit r) \<Longrightarrow> c \<noteq> [] \<and> length c \<le> limit"
  by (induction limit r rule: exact_loop.induct) (subst (asm) (2) exact_loop.simps, auto split: if_splits)

lemma exact_loop_count: "length (exact_loop limit r) \<le> length r"
proof (induction limit r rule: exact_loop.induct)
  case (1 limit r)
  show ?case
  proof (cases "0 < limit \<and> r \<noteq> []")
    case True
    then have "length (exact_loop limit (drop limit r)) \<le> length r - limit" "0 < length r"
      using 1 by simp_all
    then have "Suc (length (exact_loop limit (drop limit r))) \<le> length r" using True by linarith
    then show ?thesis using True by (simp add: exact_loop.simps [of limit r])
  next
    case False
    then show ?thesis by (auto simp: exact_loop.simps [of limit r])
  qed
qed

lemma length_decimal: "n < 10 ^ k \<Longrightarrow> 0 < k \<Longrightarrow> length (decimal n) \<le> k"
proof (induction n arbitrary: k rule: decimal.induct)
  case (1 n)
  show ?case
  proof (cases "n < 10")
    case True
    then show ?thesis using 1(3) by (simp add: decimal.simps)
  next
    case False
    then have "k \<noteq> 1" using 1(2) by auto
    then obtain j where k: "k = Suc j" "0 < j" using 1(3) by (cases k) auto
    have "n div 10 < 10 ^ j" using 1(2) k by (simp add: less_mult_imp_div_less)
    then have "length (decimal (n div 10)) \<le> j" using 1(1) False k by blast
    then show ?thesis using False k by (simp add: decimal.simps [of n])
  qed
qed

lemma add_markers_length:
  assumes "length chunks < 10 ^ 14" "\<And>c. c \<in> set chunks \<Longrightarrow> length c \<le> m" "d \<in> set (add_markers chunks)"
  shows "length d \<le> m + 32"
proof -
  obtain i c where ic: "(i, c) \<in> set (List.enumerate 0 chunks)"
    and d: "d = lit ''['' @ decimal (i + 1) @ lit ''/'' @ decimal (length chunks) @ lit '']'' @ [10] @ c"
    using assms(3) by (auto simp: add_markers_def)
  have i: "i < length chunks" "c \<in> set chunks" using ic by (auto simp: in_set_enumerate_eq)
  then have "length (decimal (i + 1)) \<le> 14" "length (decimal (length chunks)) \<le> 14"
    using assms(1) length_decimal [of "i + 1" 14] length_decimal [of "length chunks" 14] by simp_all
  then show ?thesis using assms(2) [OF i(2)] by (simp add: d lit_def)
qed

lemma trim_text_start: "trim t = [] \<or> \<not> is_whitespace (hd (trim t))"
  using trim_ends [of t] by blast

section \<open>Properties\<close>

text \<open>\<open>split_message\<close> with a positive limit always returns; for a text that is not blank
  every chunk is non-empty and within the limit, and the chunks together hold exactly the
  visible characters of the text, in order.\<close>

theorem split_message_correct:
  assumes "0 < limit" "trim body \<noteq> []"
  shows "\<exists>chunks. split_message body limit = Some chunks \<and> chunks \<noteq> []
    \<and> (\<forall>c \<in> set chunks. c \<noteq> [] \<and> length c \<le> limit)
    \<and> filter (\<lambda>c. \<not> is_whitespace c) (concat chunks) = filter (\<lambda>c. \<not> is_whitespace c) body"
  using assms split_loop_chunks [OF assms(1) trim_text_start] split_loop_solid [OF assms(1), of "trim body"]
    split_loop_nonempty [OF assms(2)]
  by (simp add: split_message_def Let_def solid_trim)

theorem split_message_correct_witness:
  "\<exists>chunks. split_message (lit ''ab cd'') 2 = Some chunks \<and> (\<forall>c \<in> set chunks. c \<noteq> [] \<and> length c \<le> 2)"
proof -
  have "trim (lit ''ab cd'') \<noteq> []" by code_simp
  then show ?thesis using split_message_correct [of 2 "lit ''ab cd''"] by auto
qed

lemma NO_OUTPUT_small: "length NO_OUTPUT \<le> 1868"
  by (simp add: NO_OUTPUT_def lit_def)

lemma split_message_fits:
  assumes "length body < 10 ^ 14" "1868 \<le> limit"
  shows "\<exists>chunks. split_message body limit = Some chunks \<and> length chunks < 10 ^ 14
      \<and> (\<forall>c \<in> set chunks. length c \<le> limit)"
proof (cases "trim body = []")
  case True
  then show ?thesis using assms NO_OUTPUT_small by (simp add: split_message_def)
next
  case False
  have "length (split_loop limit (trim body)) < 10 ^ 14"
    using split_loop_count [of limit, OF _ trim_text_start, of body] length_trim_le [of body] assms by linarith
  then show ?thesis
    using assms False split_loop_chunks [of limit, OF _ trim_text_start] by (simp add: split_message_def Let_def)
qed

lemma marked_split_fits:
  assumes "length body < 10 ^ 14"
  shows "\<exists>chunks. split_delivery_chunks body markers = Some chunks \<and> (\<forall>c \<in> set chunks. length c \<le> 1900)"
proof (cases markers)
  case False
  then show ?thesis
    using split_message_fits [OF assms, of 1900] by (auto simp: split_delivery_chunks_def DISCORD_MAX_LEN_def)
next
  case True
  obtain chunks where c: "split_message body 1868 = Some chunks" "length chunks < 10 ^ 14"
    "\<forall>c \<in> set chunks. length c \<le> 1868" using split_message_fits [OF assms, of 1868] by auto
  then have "\<forall>d \<in> set (add_markers chunks). length d \<le> 1868 + 32"
    using add_markers_length [of chunks 1868] by blast
  then show ?thesis
    using True c by (fastforce simp: split_delivery_chunks_def DISCORD_MAX_LEN_def CHUNK_MARKER_BUDGET_def)
qed

lemma exact_split_fits:
  assumes "length body < 10 ^ 14" and c: "c \<in> set (split_exact_delivery_chunks body markers)"
  shows "length c \<le> 1900"
proof -
  have len: "d \<in> set (exact_loop limit body) \<Longrightarrow> length d \<le> limit" for d limit
    using exact_loop_chunks by blast
  have "length (exact_loop 1868 body) < 10 ^ 14"
    using exact_loop_count [of 1868 body] assms by linarith
  then have marked: "d \<in> set (add_markers (exact_loop 1868 body)) \<Longrightarrow> length d \<le> 1868 + 32" for d
    using add_markers_length [of "exact_loop 1868 body" 1868] len by blast
  consider "c = NO_OUTPUT" | "c \<in> set (exact_loop 1900 body)" | "c \<in> set (exact_loop 1868 body)"
    | "c \<in> set (add_markers (exact_loop 1868 body))"
    using c by (auto simp: split_exact_delivery_chunks_def DISCORD_MAX_LEN_def CHUNK_MARKER_BUDGET_def Let_def
        split: if_splits)
  then show ?thesis
    using NO_OUTPUT_small len [of c] marked [of c] by cases fastforce+
qed

text \<open>Every delivered chunk fits a Discord message of 1900 characters, its
  \<open>[i/n]\<close> marker included, for both splitting modes and for every text of fewer than
  \<open>10^14\<close> characters (beyond that the marker would outgrow its 32 characters).\<close>

theorem delivery_chunks_fit:
  assumes "length body < 10 ^ 14"
  shows "(\<exists>chunks. split_delivery_chunks body markers = Some chunks \<and> (\<forall>c \<in> set chunks. length c \<le> 1900))
    \<and> (\<forall>c \<in> set (split_exact_delivery_chunks body markers). length c \<le> 1900)"
  using marked_split_fits [OF assms] exact_split_fits [OF assms] by blast

theorem delivery_chunks_fit_witness:
  "list_all (\<lambda>c. length c \<le> 1900) (split_exact_delivery_chunks (lit ''hello'') True)"
  using delivery_chunks_fit [of "lit ''hello''" True] by (simp add: lit_def list_all_iff)

text \<open>The exact splitter without markers loses nothing: the chunks of a non-empty text
  concatenate to that text.\<close>

theorem exact_split_roundtrip:
  assumes "body \<noteq> []"
  shows "concat (split_exact_delivery_chunks body False) = body"
  using assms exact_loop_concat [of 1900 body]
  by (simp add: split_exact_delivery_chunks_def DISCORD_MAX_LEN_def)

theorem exact_split_roundtrip_witness:
  "concat (split_exact_delivery_chunks (lit ''a b '') False) = lit ''a b ''"
  using exact_split_roundtrip [of "lit ''a b ''"] by simp

text \<open>A text fitted to one message is within the limit whenever the limit leaves room
  for the truncation note (25 characters), and a text that already fits is only trimmed.\<close>

theorem fit_single_message_bound:
  "length (fit_single_message body limit) \<le> max limit 25
   \<and> (length (trim body) \<le> limit \<longrightarrow> fit_single_message body limit = trim body)"
proof -
  have s: "length TRUNCATION_SUFFIX = 25" by (simp add: TRUNCATION_SUFFIX_def lit_def)
  have "length (trim_end x) \<le> length x" for x
    by (metis length_dropWhile_le length_rev trim_end_def)
  then have "length (trim_end (take (limit - 25) (trim body))) \<le> limit - 25"
    by (metis length_take min.bounded_iff order_trans order_refl)
  then show ?thesis using s by (auto simp: fit_single_message_def Let_def)
qed

theorem fit_single_message_bound_witness: "fit_single_message (lit '' ok '') 100 = lit ''ok''"
proof -
  have "trim (lit '' ok '') = lit ''ok''" by code_simp
  then show ?thesis using fit_single_message_bound [of "lit '' ok ''" 100] by (simp add: lit_def)
qed

end
