(* ===== verification/Gateway_Gaps.thy ===== *)
theory Gateway_Gaps
  imports Hash_Map "HOL-Library.Word"
begin

unbundle bit_operations_syntax

text \<open>
  The message-gap tracker of the Discord gateway (\<open>gateway/ingress/gaps.rs\<close>,
  \<open>gaps/types.rs\<close>, \<open>gaps/publication.rs\<close>, \<open>gaps/fence.rs\<close>). A message the gateway
  cannot queue is recorded as a gap of its channel; a recovery poll reads the gaps
  (\<open>snapshot\<close>), replays the channel's history and acknowledges the gap it has seen. Each
  channel has a revision that every record advances, and both the acknowledgement and
  the clear fence are bound to one revision of one tracker. The lock is a flag: a poisoned
  lock makes every operation return its error. The gate that serialises a publication
  with a fence check makes each operation one atomic step.
\<close>

section \<open>Positions and reasons\<close>

datatype message_gap_position =
  MessageGapPosition (timestamp_micros: int) (position_message_id: nat)

text \<open>The derived \<open>Ord\<close>: lexicographic in the order of the fields.\<close>

instantiation message_gap_position :: linorder
begin

definition less_eq_message_gap_position :: "message_gap_position \<Rightarrow> message_gap_position \<Rightarrow> bool" where
  "less_eq_message_gap_position p q =
     (timestamp_micros p < timestamp_micros q \<or>
      timestamp_micros p = timestamp_micros q \<and> position_message_id p \<le> position_message_id q)"

definition less_message_gap_position :: "message_gap_position \<Rightarrow> message_gap_position \<Rightarrow> bool" where
  "less_message_gap_position p q =
     (timestamp_micros p < timestamp_micros q \<or>
      timestamp_micros p = timestamp_micros q \<and> position_message_id p < position_message_id q)"

instance
  by standard (auto simp: less_eq_message_gap_position_def less_message_gap_position_def
      intro: message_gap_position.expand)

end

datatype unavailable_reason = Full | Closed | Stopping | SequenceExhausted

type_synonym message_gap_reasons = "8 word"

definition reason_bit :: "unavailable_reason \<Rightarrow> message_gap_reasons" where
  "reason_bit reason = (case reason of
     Full \<Rightarrow> push_bit 0 1
   | Closed \<Rightarrow> push_bit 1 1
   | Stopping \<Rightarrow> push_bit 2 1
   | SequenceExhausted \<Rightarrow> push_bit 3 1)"

definition reasons_insert :: "unavailable_reason \<Rightarrow> message_gap_reasons \<Rightarrow> message_gap_reasons" where
  "reasons_insert reason reasons = reasons OR reason_bit reason"

definition reasons_only :: "unavailable_reason \<Rightarrow> message_gap_reasons" where
  "reasons_only reason = reasons_insert reason 0"

definition reasons_contains :: "message_gap_reasons \<Rightarrow> unavailable_reason \<Rightarrow> bool" where
  "reasons_contains reasons reason = (reasons_only reason AND reasons \<noteq> 0)"

definition reason_index :: "unavailable_reason \<Rightarrow> nat" where
  "reason_index reason = (case reason of Full \<Rightarrow> 0 | Closed \<Rightarrow> 1 | Stopping \<Rightarrow> 2 | SequenceExhausted \<Rightarrow> 3)"

lemma reason_index_inj: "reason_index a = reason_index b \<longleftrightarrow> a = b"
  by (cases a; cases b) (simp_all add: reason_index_def)

lemma reason_index_less: "reason_index a < 8"
  by (cases a) (simp_all add: reason_index_def)

lemma reason_bit_push: "reason_bit r = push_bit (reason_index r) 1"
  by (cases r) (simp_all add: reason_bit_def reason_index_def)

lemma bit_reason_bit: "bit (reason_bit r) n \<longleftrightarrow> n = reason_index r"
  using reason_index_less [of r] by (auto simp: reason_bit_push bit_simps)

lemma reasons_contains_iff: "reasons_contains reasons r \<longleftrightarrow> bit reasons (reason_index r)"
  by (auto simp: reasons_contains_def reasons_only_def reasons_insert_def
      bit_eq_iff [where 'a = "8 word"] bit_simps bit_reason_bit reason_index_less)

lemma reasons_contains_insert [simp]:
  "reasons_contains (reasons_insert r reasons) q \<longleftrightarrow> q = r \<or> reasons_contains reasons q"
  by (auto simp: reasons_contains_iff reasons_insert_def bit_simps bit_reason_bit reason_index_inj)

lemma reasons_contains_zero [simp]: "\<not> reasons_contains 0 q"
  by (simp add: reasons_contains_iff)

lemma reasons_contains_only [simp]: "reasons_contains (reasons_only r) q \<longleftrightarrow> q = r"
  by (simp add: reasons_only_def)

section \<open>State\<close>

record active_gap =
  earliest :: message_gap_position
  reasons :: message_gap_reasons
  observation_count :: nat

record gap_entry =
  gap_revision :: nat
  gap_active :: "active_gap option"

record gap_tracker =
  gap_entries :: "(nat, gap_entry) hmap"
  gap_identity :: nat
  gap_poisoned :: bool
  gap_hints :: nat

record gap_snapshot =
  snapshot_channel_id :: nat
  snapshot_earliest :: message_gap_position
  snapshot_reasons :: message_gap_reasons
  snapshot_observation_count :: nat
  snapshot_revision :: nat

record gap_notice =
  notice_snapshot :: gap_snapshot
  notice_identity :: nat

record gap_fence =
  fence_channel_id :: nat
  fence_revision :: nat
  fence_identity :: nat

datatype gap_state_error = Poisoned
datatype gap_ack_error = AckForeignTracker | RevisionExhausted | AckStatePoisoned
datatype gap_ack_outcome = Cleared | Stale
datatype gap_fence_error = FenceForeignTracker | Advanced nat | FenceStatePoisoned

definition gap_tracker_new :: "nat \<Rightarrow> gap_tracker" where
  "gap_tracker_new ident =
     \<lparr> gap_entries = [], gap_identity = ident, gap_poisoned = False, gap_hints = 0 \<rparr>"

definition gap_entry_default :: gap_entry where
  "gap_entry_default = \<lparr> gap_revision = 0, gap_active = None \<rparr>"

section \<open>Operations\<close>

text \<open>\<open>MessageGapPublication::record\<close>. The hint is sent whatever the result.\<close>

definition record_entry :: "message_gap_position \<Rightarrow> unavailable_reason \<Rightarrow> gap_entry \<Rightarrow> gap_entry" where
  "record_entry position reason entry =
     \<lparr> gap_revision = sat_add64 (gap_revision entry) 1,
       gap_active = Some (case gap_active entry of
           Some active \<Rightarrow>
             \<lparr> earliest = min (earliest active) position,
               reasons = reasons_insert reason (reasons active),
               observation_count = sat_add64 (observation_count active) 1 \<rparr>
         | None \<Rightarrow>
             \<lparr> earliest = position, reasons = reasons_only reason, observation_count = 1 \<rparr>) \<rparr>"

definition gap_record ::
  "nat \<Rightarrow> message_gap_position \<Rightarrow> unavailable_reason \<Rightarrow> gap_tracker \<Rightarrow>
   (gap_state_error, unit) result \<times> gap_tracker" where
  "gap_record channel position reason t =
     (let hinted = t\<lparr>gap_hints := Suc (gap_hints t)\<rparr> in
      if gap_poisoned t then (Inl Poisoned, hinted)
      else
        let entry = (case hm_get (gap_entries t) channel of None \<Rightarrow> gap_entry_default | Some e \<Rightarrow> e)
        in (Inr (), hinted\<lparr>gap_entries :=
              hm_insert channel (record_entry position reason entry) (gap_entries t)\<rparr>))"

definition gap_notice_of :: "nat \<Rightarrow> nat \<Rightarrow> gap_entry \<Rightarrow> gap_notice option" where
  "gap_notice_of ident channel entry = map_option (\<lambda>active.
     \<lparr> notice_snapshot =
         \<lparr> snapshot_channel_id = channel, snapshot_earliest = earliest active,
           snapshot_reasons = reasons active,
           snapshot_observation_count = observation_count active,
           snapshot_revision = gap_revision entry \<rparr>,
       notice_identity = ident \<rparr>) (gap_active entry)"

text \<open>A \<open>BTreeMap\<close> iterates in the order of its keys.\<close>

definition gap_snapshot_all :: "gap_tracker \<Rightarrow> (gap_state_error, gap_notice list) result" where
  "gap_snapshot_all t =
     (if gap_poisoned t then Inl Poisoned
      else Inr (List.map_filter (\<lambda>(channel, entry). gap_notice_of (gap_identity t) channel entry)
                  (sort_key fst (gap_entries t))))"

definition gap_acknowledge ::
  "gap_notice \<Rightarrow> gap_tracker \<Rightarrow> (gap_ack_error, gap_ack_outcome) result \<times> gap_tracker" where
  "gap_acknowledge notice t =
     (let snapshot = notice_snapshot notice in
      if notice_identity notice \<noteq> gap_identity t then (Inl AckForeignTracker, t)
      else if snapshot_revision snapshot = u64_max then (Inl RevisionExhausted, t)
      else if gap_poisoned t then (Inl AckStatePoisoned, t)
      else case hm_get (gap_entries t) (snapshot_channel_id snapshot) of
        None \<Rightarrow> (Inr Stale, t)
      | Some entry \<Rightarrow>
          if gap_revision entry \<noteq> snapshot_revision snapshot \<or> gap_active entry = None
          then (Inr Stale, t)
          else (Inr Cleared,
                t\<lparr>gap_entries := hm_insert (snapshot_channel_id snapshot)
                     (entry\<lparr>gap_active := None\<rparr>) (gap_entries t),
                   gap_hints := Suc (gap_hints t)\<rparr>))"

definition capture_clear_fence ::
  "nat \<Rightarrow> gap_tracker \<Rightarrow> (gap_state_error, gap_fence option) result" where
  "capture_clear_fence channel t =
     (if gap_poisoned t then Inl Poisoned
      else
        let entry = hm_get (gap_entries t) channel in
        if (case entry of None \<Rightarrow> False | Some e \<Rightarrow> gap_active e \<noteq> None) then Inr None
        else Inr (Some
          \<lparr> fence_channel_id = channel,
            fence_revision = (case entry of None \<Rightarrow> 0 | Some e \<Rightarrow> gap_revision e),
            fence_identity = gap_identity t \<rparr>))"

definition with_current_fence ::
  "gap_fence \<Rightarrow> (unit \<Rightarrow> 'a) \<Rightarrow> gap_tracker \<Rightarrow> (gap_fence_error, 'a) result" where
  "with_current_fence fence action t =
     (if fence_identity fence \<noteq> gap_identity t then Inl FenceForeignTracker
      else if gap_poisoned t then Inl FenceStatePoisoned
      else
        let entry = hm_get (gap_entries t) (fence_channel_id fence);
            revision = (case entry of None \<Rightarrow> 0 | Some e \<Rightarrow> gap_revision e);
            is_clear = (case entry of None \<Rightarrow> True | Some e \<Rightarrow> gap_active e = None)
        in if revision \<noteq> fence_revision fence \<or> \<not> is_clear
           then Inl (Advanced (fence_channel_id fence))
           else Inr (action ()))"

section \<open>Observations of one channel\<close>

definition revision_at :: "gap_tracker \<Rightarrow> nat \<Rightarrow> nat" where
  "revision_at t c = (case hm_get (gap_entries t) c of None \<Rightarrow> 0 | Some e \<Rightarrow> gap_revision e)"

definition active_at :: "gap_tracker \<Rightarrow> nat \<Rightarrow> active_gap option" where
  "active_at t c = (case hm_get (gap_entries t) c of None \<Rightarrow> None | Some e \<Rightarrow> gap_active e)"

text \<open>The invariant: revisions fit 64 bits, an inactive channel can still advance (an
  exhausted revision is never acknowledged), and an active gap has an observation.\<close>

definition gap_inv :: "gap_tracker \<Rightarrow> bool" where
  "gap_inv t \<longleftrightarrow> hm_wf (gap_entries t) \<and>
     (\<forall>c. revision_at t c \<le> u64_max \<and> (revision_at t c = u64_max \<longrightarrow> active_at t c \<noteq> None)
        \<and> (\<forall>a. active_at t c = Some a \<longrightarrow> 0 < observation_count a \<and> reasons a \<noteq> 0 \<and> 0 < revision_at t c))"

text \<open>The events of a tracker: records and acknowledgements of any notice. Reads change
  nothing.\<close>

datatype gap_event =
  GRecord nat message_gap_position unavailable_reason
| GAck gap_notice

definition gap_step :: "gap_event \<Rightarrow> gap_tracker \<Rightarrow> gap_tracker" where
  "gap_step e t = (case e of
     GRecord c p r \<Rightarrow> snd (gap_record c p r t)
   | GAck n \<Rightarrow> snd (gap_acknowledge n t))"

fun records_on :: "nat \<Rightarrow> gap_event \<Rightarrow> bool" where
  "records_on c (GRecord c' p r) = (c' = c)"
| "records_on c (GAck n) = False"

fun acks_later :: "nat \<Rightarrow> nat \<Rightarrow> gap_event \<Rightarrow> bool" where
  "acks_later c since (GAck n) = (snapshot_channel_id (notice_snapshot n) = c \<and>
     since < snapshot_revision (notice_snapshot n))"
| "acks_later c since (GRecord c' p r) = False"

section \<open>What a step does to a channel\<close>

lemmas gap_record_defs = gap_record_def record_entry_def gap_entry_default_def Let_def

lemma gap_record_poisoned [simp]:
  "gap_poisoned (snd (gap_record c p r t)) = gap_poisoned t"
  "gap_identity (snd (gap_record c p r t)) = gap_identity t"
  by (simp_all add: gap_record_def Let_def)

lemma gap_acknowledge_poisoned [simp]:
  "gap_poisoned (snd (gap_acknowledge n t)) = gap_poisoned t"
  "gap_identity (snd (gap_acknowledge n t)) = gap_identity t"
  by (simp_all add: gap_acknowledge_def Let_def split: option.split)

lemma gap_step_keeps [simp]:
  "gap_poisoned (gap_step e t) = gap_poisoned t"
  "gap_identity (gap_step e t) = gap_identity t"
  by (simp_all add: gap_step_def split: gap_event.split)

lemma gap_run_keeps [simp]:
  "gap_poisoned (run_events gap_step es t) = gap_poisoned t"
  "gap_identity (run_events gap_step es t) = gap_identity t"
  by (induction es arbitrary: t) simp_all

lemma revision_at_record:
  "\<not> gap_poisoned t \<Longrightarrow> revision_at (snd (gap_record c p r t)) c' =
     (if c' = c then sat_add64 (revision_at t c) 1 else revision_at t c')"
  by (simp add: revision_at_def gap_record_defs split: option.split)

lemma active_at_record:
  "\<not> gap_poisoned t \<Longrightarrow> active_at (snd (gap_record c p r t)) c' =
     (if c' = c then Some (case active_at t c of
          Some a \<Rightarrow> \<lparr> earliest = min (earliest a) p, reasons = reasons_insert r (reasons a),
                     observation_count = sat_add64 (observation_count a) 1 \<rparr>
        | None \<Rightarrow> \<lparr> earliest = p, reasons = reasons_only r, observation_count = 1 \<rparr>)
      else active_at t c')"
  by (simp add: active_at_def gap_record_defs split: option.split)

lemma revision_at_ack [simp]: "revision_at (snd (gap_acknowledge n t)) c = revision_at t c"
  by (simp add: revision_at_def gap_acknowledge_def Let_def split: option.split)

lemma ack_cleared_iff:
  "fst (gap_acknowledge n t) = Inr Cleared \<longleftrightarrow>
     notice_identity n = gap_identity t \<and> snapshot_revision (notice_snapshot n) \<noteq> u64_max \<and>
     \<not> gap_poisoned t \<and> active_at t (snapshot_channel_id (notice_snapshot n)) \<noteq> None \<and>
     revision_at t (snapshot_channel_id (notice_snapshot n)) = snapshot_revision (notice_snapshot n)"
  by (auto simp: gap_acknowledge_def active_at_def revision_at_def Let_def split: option.splits)

lemma active_at_ack:
  "active_at (snd (gap_acknowledge n t)) c =
     (if fst (gap_acknowledge n t) = Inr Cleared \<and> c = snapshot_channel_id (notice_snapshot n)
      then None else active_at t c)"
  by (simp add: active_at_def gap_acknowledge_def Let_def split: option.split)

section \<open>The invariant\<close>

lemma gap_inv_new: "gap_inv (gap_tracker_new i)"
  by (simp add: gap_inv_def gap_tracker_new_def revision_at_def active_at_def
      order_less_imp_not_eq [OF u64_max_pos])

lemma reasons_insert_nonzero [simp]: "reasons_insert r m \<noteq> 0" "reasons_only r \<noteq> 0"
  using reasons_contains_insert [of r m r] reasons_contains_only [of r r]
  by (auto simp del: reasons_contains_insert reasons_contains_only)

lemma sat_add64_pos [simp]: "0 < sat_add64 n (Suc 0)"
  by (simp add: sat_add64_def)

lemma gap_inv_record [inv_intros]:
  assumes inv: "gap_inv t"
  shows "gap_inv (snd (gap_record c p r t))"
proof (cases "gap_poisoned t")
  case True
  then show ?thesis
    using inv by (simp add: gap_record_def gap_inv_def revision_at_def active_at_def)
next
  case False
  have "hm_wf (gap_entries (snd (gap_record c p r t)))"
    using inv by (simp add: gap_record_def gap_inv_def Let_def)
  then show ?thesis
    using inv False by (simp add: gap_inv_def revision_at_record active_at_record split: option.split)
qed

lemma gap_inv_ack [inv_intros]:
  assumes inv: "gap_inv t"
  shows "gap_inv (snd (gap_acknowledge n t))"
proof -
  have "hm_wf (gap_entries (snd (gap_acknowledge n t)))"
    using inv by (simp add: gap_acknowledge_def gap_inv_def Let_def split: option.split)
  then show ?thesis
    using inv by (auto simp: gap_inv_def active_at_ack ack_cleared_iff)
qed

lemma gap_inv_step: "gap_inv t \<Longrightarrow> gap_inv (gap_step e t)"
  by (cases e) (simp_all add: gap_step_def inv_intros)

lemma gap_inv_run: "gap_inv t \<Longrightarrow> gap_inv (run_events gap_step es t)"
  by (rule run_events_inv [where I = gap_inv and P = "\<lambda>_ _. True"])
    (simp_all only: gap_inv_step all_events_True)

lemma revision_step_mono: "gap_inv t \<Longrightarrow> revision_at t c \<le> revision_at (gap_step e t) c"
proof (cases e)
  case (GRecord c' p r)
  assume "gap_inv t"
  then have "revision_at t c' \<le> u64_max" by (simp add: gap_inv_def)
  moreover have "snd (gap_record c' p r t) = t\<lparr>gap_hints := Suc (gap_hints t)\<rparr>" if "gap_poisoned t"
    using that by (simp add: gap_record_def)
  ultimately show ?thesis
    by (cases "gap_poisoned t")
      (simp_all add: GRecord gap_step_def revision_at_record sat_add64_mono, simp add: revision_at_def)
qed (simp add: gap_step_def)

lemma revision_run_mono: "gap_inv t \<Longrightarrow> revision_at t c \<le> revision_at (run_events gap_step es t) c"
  by (induction es arbitrary: t) (auto intro: revision_step_mono gap_inv_step order_trans)

text \<open>From a state whose revision is not exhausted, the revision of a channel stays the same
  exactly when nothing is recorded on it.\<close>

lemma revision_same_iff:
  assumes "gap_inv t" "\<not> gap_poisoned t" "revision_at t c < u64_max"
  shows "revision_at (run_events gap_step es t) c = revision_at t c \<longleftrightarrow>
         \<not> (\<exists>e \<in> set es. records_on c e)"
  using assms
proof (induction es arbitrary: t)
  case (Cons e es)
  have inv: "gap_inv (gap_step e t)" using Cons.prems by (simp add: gap_inv_step)
  show ?case
  proof (cases "records_on c e")
    case True
    then obtain p r where e: "e = GRecord c p r" by (cases e) auto
    have "revision_at t c < revision_at (gap_step e t) c"
      using Cons.prems by (simp add: e gap_step_def revision_at_record sat_add64_def)
    then show ?thesis
      using True revision_run_mono [OF inv, of c es] by auto
  next
    case False
    then have "revision_at (gap_step e t) c = revision_at t c"
      using Cons.prems by (cases e) (auto simp: gap_step_def revision_at_record)
    then show ?thesis
      using False Cons.IH [OF inv] Cons.prems by simp
  qed
qed simp

text \<open>Without records on a channel its gap can only be cleared, never change.\<close>

lemma active_run_unrecorded:
  assumes "\<not> gap_poisoned t" "\<not> (\<exists>e \<in> set es. records_on c e)"
  shows "active_at (run_events gap_step es t) c \<in> {None, active_at t c}"
  using assms
proof (induction es arbitrary: t)
  case (Cons e es)
  have "active_at (gap_step e t) c \<in> {None, active_at t c}"
    using Cons.prems by (cases e) (auto simp: gap_step_def active_at_record active_at_ack)
  moreover have "active_at (run_events gap_step es (gap_step e t)) c \<in> {None, active_at (gap_step e t) c}"
    using Cons.IH [of "gap_step e t"] Cons.prems by simp
  ultimately show ?case by auto
qed simp

section \<open>Properties\<close>

text \<open>A clear fence is exact. A fence captured on a channel with no pending gap
  runs its action later if and only if no gap was recorded on that channel in between,
  whatever was recorded on other channels and acknowledged anywhere; otherwise the check
  fails with \<open>Advanced\<close>. No bound on the number of records is needed: the revision
  saturates, and an exhausted revision is never clear.\<close>

theorem clear_fence_exact:
  assumes t: "t = run_events gap_step before (gap_tracker_new ident)"
    and fence: "capture_clear_fence c t = Inr (Some f)"
  shows "with_current_fence f action (run_events gap_step es t) =
    (if \<exists>e \<in> set es. records_on c e then Inl (Advanced c) else Inr (action ()))"
proof -
  let ?u = "run_events gap_step es t"
  have inv: "gap_inv t" unfolding t by (intro gap_inv_run gap_inv_new)
  have np: "\<not> gap_poisoned t" and clear: "active_at t c = None"
    and f: "f = \<lparr> fence_channel_id = c, fence_revision = revision_at t c, fence_identity = gap_identity t \<rparr>"
    using fence by (auto simp: capture_clear_fence_def active_at_def revision_at_def Let_def
        split: if_splits option.splits)
  have "revision_at t c \<le> u64_max" "revision_at t c \<noteq> u64_max"
    using inv clear by (auto simp: gap_inv_def)
  then have lt: "revision_at t c < u64_max" by simp
  have "with_current_fence f action ?u = (if revision_at ?u c \<noteq> revision_at t c \<or> active_at ?u c \<noteq> None
      then Inl (Advanced c) else Inr (action ()))"
    using np by (auto simp: f with_current_fence_def active_at_def revision_at_def Let_def split: option.split)
  then show ?thesis
    using revision_same_iff [OF inv np lt, of es] active_run_unrecorded [OF np, of es c] clear by auto
qed

theorem clear_fence_exact_witness:
  "with_current_fence \<lparr> fence_channel_id = 7, fence_revision = 0, fence_identity = 1 \<rparr> (\<lambda>_. True)
     (run_events gap_step [GRecord 7 (MessageGapPosition 5 42) Closed] (gap_tracker_new 1)) = Inl (Advanced 7)"
  using clear_fence_exact [of "gap_tracker_new 1" "[]" 1 7
      "\<lparr> fence_channel_id = 7, fence_revision = 0, fence_identity = 1 \<rparr>" "\<lambda>_. True"
      "[GRecord 7 (MessageGapPosition 5 42) Closed]"]
  by (simp add: capture_clear_fence_def gap_tracker_new_def)

text \<open>After a record, acknowledging notices of earlier revisions cannot uncover the message.\<close>

lemma recorded_gap_covered_run:
  assumes inv: "gap_inv t" and np: "\<not> gap_poisoned t"
    and old: "\<not> (\<exists>e \<in> set es. acks_later c (revision_at t c) e)"
  shows "\<exists>a. active_at (run_events gap_step es (snd (gap_record c p r t))) c = Some a \<and>
     earliest a \<le> p \<and> reasons_contains (reasons a) r"
proof -
  define I where "I u \<longleftrightarrow> gap_inv u \<and> \<not> gap_poisoned u \<and>
     (revision_at t c < revision_at u c \<or> revision_at u c = u64_max) \<and>
     (\<exists>a. active_at u c = Some a \<and> earliest a \<le> p \<and> reasons_contains (reasons a) r)" for u
  have start: "I (snd (gap_record c p r t))"
    using inv np by (auto simp: I_def inv_intros revision_at_record active_at_record sat_add64_def
        split: option.split)
  have step: "I (gap_step e u)" if "I u" "\<not> acks_later c (revision_at t c) e" for e u
  proof (cases e)
    case (GRecord c' p' r')
    then show ?thesis
      using that by (auto simp: I_def gap_step_def inv_intros revision_at_record active_at_record
          sat_add64_def min.coboundedI1 gap_inv_def [of u])
  next
    case (GAck n)
    have "\<not> (fst (gap_acknowledge n u) = Inr Cleared \<and> c = snapshot_channel_id (notice_snapshot n))"
      using that by (auto simp: GAck I_def ack_cleared_iff)
    then show ?thesis
      using that by (auto simp: GAck I_def gap_step_def inv_intros active_at_ack)
  qed
  have "I (run_events gap_step es u)" if "I u" for u
    using that old by (induction es arbitrary: u) (auto simp: step)
  then show ?thesis using start by (auto simp: I_def)
qed

text \<open>A recorded message stays covered. Once a message is recorded as a gap, its
  channel keeps an active gap that starts at or before the message and carries the reason,
  until a notice taken after the record is acknowledged: acknowledging any notice taken
  before it (or any notice at all once the revision is exhausted) cannot clear it.\<close>

theorem recorded_gap_stays_covered:
  assumes t: "t = run_events gap_step before (gap_tracker_new ident)"
    and old: "\<not> (\<exists>e \<in> set es. acks_later c (revision_at t c) e)"
  shows "\<exists>a. active_at (run_events gap_step es (snd (gap_record c p r t))) c = Some a \<and>
     earliest a \<le> p \<and> reasons_contains (reasons a) r"
proof (rule recorded_gap_covered_run [OF _ _ old])
  show "gap_inv t" unfolding t by (intro gap_inv_run gap_inv_new)
  show "\<not> gap_poisoned t" by (simp add: t gap_tracker_new_def)
qed

theorem recorded_gap_stays_covered_witness:
  "\<exists>a. active_at (run_events gap_step [GRecord 7 (MessageGapPosition 4 40) Full]
         (snd (gap_record 7 (MessageGapPosition 5 42) Closed (gap_tracker_new 1)))) 7 = Some a \<and>
     earliest a \<le> MessageGapPosition 5 42 \<and> reasons_contains (reasons a) Closed"
  using recorded_gap_stays_covered [of "gap_tracker_new 1" "[]" 1
      "[GRecord 7 (MessageGapPosition 4 40) Full]" 7 "MessageGapPosition 5 42" Closed]
  by simp

text \<open>An acknowledgement clears exactly what its notice showed. If a notice taken from
  a snapshot is acknowledged with \<open>Cleared\<close> after any events, then nothing was recorded on
  its channel since the snapshot, the gap it clears is still the one the notice describes,
  and afterwards the channel is clear while every other channel is untouched.\<close>

theorem acknowledge_clears_only_what_was_seen:
  assumes t: "t = run_events gap_step before (gap_tracker_new ident)"
    and notice: "gap_snapshot_all t = Inr ns" "n \<in> set ns"
    and ack: "gap_acknowledge n (run_events gap_step es t) = (Inr Cleared, u)"
    and c: "c = snapshot_channel_id (notice_snapshot n)"
  shows "\<not> (\<exists>e \<in> set es. records_on c e) \<and>
     active_at (run_events gap_step es t) c =
       Some \<lparr> earliest = snapshot_earliest (notice_snapshot n),
              reasons = snapshot_reasons (notice_snapshot n),
              observation_count = snapshot_observation_count (notice_snapshot n) \<rparr> \<and>
     active_at u c = None \<and>
     (\<forall>c'. c' \<noteq> c \<longrightarrow> active_at u c' = active_at (run_events gap_step es t) c')"
proof -
  let ?v = "run_events gap_step es t"
  have inv: "gap_inv t" unfolding t by (intro gap_inv_run gap_inv_new)
  have np: "\<not> gap_poisoned t" by (simp add: t gap_tracker_new_def)
  obtain e where e: "(c, e) \<in> set (gap_entries t)"
    "gap_notice_of (gap_identity t) c e = Some n"
    using notice np c by (auto simp: gap_snapshot_all_def gap_notice_of_def set_map_filter_iff)
  have "hm_get (gap_entries t) c = Some e"
    using inv e(1) by (simp add: gap_inv_def hm_wf_def hm_get_def)
  then have rev: "revision_at t c = snapshot_revision (notice_snapshot n)"
    and act: "active_at t c =
       Some \<lparr> earliest = snapshot_earliest (notice_snapshot n),
              reasons = snapshot_reasons (notice_snapshot n),
              observation_count = snapshot_observation_count (notice_snapshot n) \<rparr>"
    using e(2) by (auto simp: revision_at_def active_at_def gap_notice_of_def)
  have cl: "fst (gap_acknowledge n ?v) = Inr Cleared" and u: "u = snd (gap_acknowledge n ?v)"
    using ack by simp_all
  have live: "active_at ?v c \<noteq> None" "revision_at ?v c = revision_at t c" "revision_at t c \<noteq> u64_max"
    using cl rev by (auto simp: ack_cleared_iff c)
  have "revision_at t c \<le> u64_max" using inv by (simp add: gap_inv_def)
  then have none: "\<not> (\<exists>e \<in> set es. records_on c e)"
    using revision_same_iff [OF inv np, of c es] live by simp
  then have "active_at ?v c = active_at t c"
    using active_run_unrecorded [OF np none] live by auto
  then show ?thesis
    using none act cl by (auto simp: u active_at_ack c)
qed

theorem acknowledge_clears_only_what_was_seen_witness:
  "\<exists>ns n u. gap_snapshot_all (run_events gap_step [GRecord 7 (MessageGapPosition 5 42) Closed] (gap_tracker_new 1))
       = Inr ns \<and> n \<in> set ns \<and>
     gap_acknowledge n (run_events gap_step [GRecord 8 (MessageGapPosition 6 43) Full]
       (run_events gap_step [GRecord 7 (MessageGapPosition 5 42) Closed] (gap_tracker_new 1))) = (Inr Cleared, u) \<and>
     active_at u 7 = None"
proof -
  let ?t = "run_events gap_step [GRecord 7 (MessageGapPosition 5 42) Closed] (gap_tracker_new 1)"
  let ?n = "\<lparr> notice_snapshot = \<lparr> snapshot_channel_id = 7, snapshot_earliest = MessageGapPosition 5 42,
      snapshot_reasons = reasons_only Closed, snapshot_observation_count = 1, snapshot_revision = 1 \<rparr>,
      notice_identity = 1 \<rparr>"
  let ?v = "run_events gap_step [GRecord 8 (MessageGapPosition 6 43) Full] ?t"
  have snap: "gap_snapshot_all ?t = Inr [?n]"
    by (simp add: gap_step_def gap_record_defs gap_tracker_new_def gap_snapshot_all_def gap_notice_of_def
        hm_insert_def sat_add64_def u64_max_def)
  have ack: "gap_acknowledge ?n ?v = (Inr Cleared, snd (gap_acknowledge ?n ?v))"
    by (simp add: gap_step_def gap_record_defs gap_tracker_new_def gap_acknowledge_def
        sat_add64_def u64_max_def)
  show ?thesis
    using acknowledge_clears_only_what_was_seen [OF refl snap _ ack refl] snap ack by auto
qed

end
