(* ===== verification/Gateway_Ingress.thy ===== *)
theory Gateway_Ingress
  imports Gateway_Gaps Rust_Str "HOL-Library.Sublist"
begin

text \<open>
  The Discord gateway's ingress (\<open>gateway/ingress.rs\<close> with \<open>types.rs\<close>, \<open>sequence.rs\<close>,
  \<open>publication.rs\<close>, \<open>receive_error.rs\<close>, \<open>gateway_identity.rs\<close>, and the counters of
  \<open>runtime_publication.rs\<close>). Each decoded event goes into at most one bounded lane; an
  interaction that finds no room is a hard drop, a message that finds no room becomes a
  gap of its channel. Lanes are the bounded \<open>mpsc\<close> channels of tokio: a queue, its
  capacity, and a flag set when the receiver is gone. Of Twilight's event types the model
  keeps the fields this code reads. Timestamps of reception are carried as numbers.
\<close>

section \<open>Bounded lanes\<close>

record 'a lane =
  lane_capacity :: nat
  lane_items :: "'a list"
  lane_closed :: bool

definition channel_new :: "nat \<Rightarrow> 'a lane" where
  "channel_new capacity = \<lparr> lane_capacity = capacity, lane_items = [], lane_closed = False \<rparr>"

datatype 'a try_send_error = SendFull 'a | SendClosed 'a

primrec send_into_inner :: "'a try_send_error \<Rightarrow> 'a" where
  "send_into_inner (SendFull x) = x"
| "send_into_inner (SendClosed x) = x"

primrec unavailable_reason_of :: "'a try_send_error \<Rightarrow> unavailable_reason" where
  "unavailable_reason_of (SendFull x) = Full"
| "unavailable_reason_of (SendClosed x) = Closed"

definition try_send :: "'a \<Rightarrow> 'a lane \<Rightarrow> ('a try_send_error, 'a lane) result" where
  "try_send x l =
     (if lane_closed l then Inl (SendClosed x)
      else if lane_capacity l \<le> length (lane_items l) then Inl (SendFull x)
      else Inr (l\<lparr>lane_items := lane_items l @ [x]\<rparr>))"

text \<open>The receiving side: take the oldest item, or drop the receiver with what it holds.\<close>

definition lane_recv :: "'a lane \<Rightarrow> 'a lane" where
  "lane_recv l = l\<lparr>lane_items := tl (lane_items l)\<rparr>"

definition lane_drop_receiver :: "'a lane \<Rightarrow> 'a lane" where
  "lane_drop_receiver l = l\<lparr>lane_items := [], lane_closed := True\<rparr>"

section \<open>Configuration\<close>

record gateway_ingress_config =
  interaction_capacity :: nat
  reserved_interaction_capacity :: nat
  message_capacity :: nat
  receive_error_capacity :: nat

datatype ingress_lane = NormalInteraction | ReservedInteraction | MessageLane | ReceiveErrorLane

datatype gateway_ingress_config_error = ZeroCapacity ingress_lane

definition emergency_message_capacity :: nat where
  "emergency_message_capacity = 4"

definition config_default :: gateway_ingress_config where
  "config_default = \<lparr> interaction_capacity = 64, reserved_interaction_capacity = 4,
     message_capacity = 1024, receive_error_capacity = 16 \<rparr>"

fun validate_lanes :: "(nat \<times> ingress_lane) list \<Rightarrow> (gateway_ingress_config_error, unit) result" where
  "validate_lanes [] = Inr ()"
| "validate_lanes ((capacity, lane) # rest) =
     (if capacity = 0 then Inl (ZeroCapacity lane) else validate_lanes rest)"

definition config_validate :: "gateway_ingress_config \<Rightarrow> (gateway_ingress_config_error, unit) result" where
  "config_validate config = validate_lanes
     [(interaction_capacity config, NormalInteraction),
      (reserved_interaction_capacity config, ReservedInteraction),
      (message_capacity config, MessageLane),
      (receive_error_capacity config, ReceiveErrorLane)]"

section \<open>Emergency routing\<close>

definition is_force_restart_message :: "rstr \<Rightarrow> bool" where
  "is_force_restart_message content =
     (case strip_prefix (lit ''!'') (trim content) of
        None \<Rightarrow> False
      | Some command \<Rightarrow>
          let words = split_whitespace command;
              name = (case words of [] \<Rightarrow> [] | w # _ \<Rightarrow> w);
              argument = (case tl words of [] \<Rightarrow> None | w # _ \<Rightarrow> Some w)
          in if 2 < length words then False
             else (eq_ignore_ascii_case name (lit ''force_restart'') \<and> argument = None) \<or>
                  (eq_ignore_ascii_case name (lit ''restart_codex'') \<and>
                   (case argument of None \<Rightarrow> False
                    | Some arg \<Rightarrow> eq_ignore_ascii_case arg (lit ''force'') \<or>
                                  eq_ignore_ascii_case arg (lit ''--force''))))"

definition recover_ko :: rstr where
  "recover_ko = [48373, 44396]"

definition tool_recover_ko :: rstr where
  "tool_recover_ko = [46020, 44396, 48373, 44396]"

definition is_emergency_message :: "rstr \<Rightarrow> bool" where
  "is_emergency_message content =
     (if is_force_restart_message content then True
      else case strip_prefix (lit ''!'') (trim content) of
        None \<Rightarrow> False
      | Some command \<Rightarrow>
          let words = split_whitespace command;
              name = (case words of [] \<Rightarrow> [] | w # _ \<Rightarrow> w)
          in (eq_ignore_ascii_case name (lit ''recover'') \<or> name = recover_ko \<or>
              eq_ignore_ascii_case name (lit ''repair'') \<or> name = tool_recover_ko) \<and>
             length (tl words) \<le> 1)"

section \<open>Identity\<close>

record gateway_identity =
  identity_user_id :: nat
  identity_application_id :: nat

record gateway_identity_conflict =
  established :: gateway_identity
  observed :: gateway_identity

record gateway_identity_state =
  known_identity :: "gateway_identity option"
  known_conflict :: "gateway_identity_conflict option"
  identity_hints :: nat
  conflict_hints :: nat

definition identity_new :: gateway_identity_state where
  "identity_new = \<lparr> known_identity = None, known_conflict = None, identity_hints = 0, conflict_hints = 0 \<rparr>"

definition observe_identity :: "gateway_identity \<Rightarrow> gateway_identity_state \<Rightarrow> gateway_identity_state" where
  "observe_identity obs s =
     (case known_identity s of
        None \<Rightarrow> s\<lparr>known_identity := Some obs, identity_hints := Suc (identity_hints s)\<rparr>
      | Some est \<Rightarrow>
          if est \<noteq> obs \<and> known_conflict s = None
          then s\<lparr>known_conflict := Some \<lparr> established = est, observed = obs \<rparr>,
                 conflict_hints := Suc (conflict_hints s)\<rparr>
          else s)"

section \<open>Events and state\<close>

record message_create =
  msg_channel_id :: nat
  msg_id :: nat
  msg_timestamp_micros :: int
  msg_content :: rstr

datatype gateway_event =
  InteractionCreate nat
| MessageCreate message_create
| ReadyEvent gateway_identity
| OtherEvent

datatype interaction_ingress_tag = TagNormal | TagBusy | TagStopping

record interaction_ingress =
  ii_sequence :: nat
  ii_received_at :: nat
  ii_tag :: interaction_ingress_tag
  ii_event :: nat

record message_ingress =
  mi_sequence :: nat
  mi_event :: message_create
  mi_nonce :: "nat option"

record receive_error_ingress =
  re_shard :: nat
  re_message :: rstr

datatype publish_outcome =
  Ignored
| InteractionAccepted nat interaction_ingress_tag
| InteractionHardDropped unavailable_reason
| MessageAccepted nat
| MessageRecoverableGap unavailable_reason "(gap_state_error, unit) result"

datatype receive_error_publish_outcome = ReAccepted | ReDropped unavailable_reason

record gateway_ingress =
  normal_interactions :: "interaction_ingress lane"
  reserved_interactions :: "interaction_ingress lane"
  messages :: "message_ingress lane"
  emergency_messages :: "message_ingress lane"
  receive_errors :: "receive_error_ingress lane"
  ingress_identity :: gateway_identity_state
  message_gaps :: gap_tracker
  hard_dropped_interactions :: nat
  recoverable_message_gaps :: nat
  diagnostic_hints :: nat
  accepting :: bool
  last_sequence :: nat

definition ingress_build ::
  "nat \<Rightarrow> gateway_ingress_config \<Rightarrow> nat \<Rightarrow> (gateway_ingress_config_error, gateway_ingress) result" where
  "ingress_build ident config sequence =
     (case config_validate config of
        Inl e \<Rightarrow> Inl e
      | Inr _ \<Rightarrow> Inr
         \<lparr> normal_interactions = channel_new (interaction_capacity config),
           reserved_interactions = channel_new (reserved_interaction_capacity config),
           messages = channel_new (message_capacity config),
           emergency_messages = channel_new emergency_message_capacity,
           receive_errors = channel_new (receive_error_capacity config),
           ingress_identity = identity_new,
           message_gaps = gap_tracker_new ident,
           hard_dropped_interactions = 0, recoverable_message_gaps = 0, diagnostic_hints = 0,
           accepting = True, last_sequence = sequence \<rparr>)"

section \<open>Operations\<close>

definition next_sequence :: "gateway_ingress \<Rightarrow> nat option \<times> gateway_ingress" where
  "next_sequence g = (case checked_add64 (last_sequence g) 1 of
     None \<Rightarrow> (None, g)
   | Some n \<Rightarrow> (Some n, g\<lparr>last_sequence := n\<rparr>))"

definition record_hard_drop :: "gateway_ingress \<Rightarrow> gateway_ingress" where
  "record_hard_drop g = g\<lparr>hard_dropped_interactions := sat_add64 (hard_dropped_interactions g) 1,
     diagnostic_hints := Suc (diagnostic_hints g)\<rparr>"

definition record_recoverable_gap :: "gateway_ingress \<Rightarrow> gateway_ingress" where
  "record_recoverable_gap g = g\<lparr>recoverable_message_gaps := sat_add64 (recoverable_message_gaps g) 1,
     diagnostic_hints := Suc (diagnostic_hints g)\<rparr>"

definition try_reserved :: "interaction_ingress \<Rightarrow> gateway_ingress \<Rightarrow> publish_outcome \<times> gateway_ingress" where
  "try_reserved envelope g =
     (case try_send envelope (reserved_interactions g) of
        Inr l \<Rightarrow> (InteractionAccepted (ii_sequence envelope) (ii_tag envelope),
                  g\<lparr>reserved_interactions := l\<rparr>)
      | Inl err \<Rightarrow> (InteractionHardDropped (unavailable_reason_of err), record_hard_drop g))"

definition publish_interaction :: "nat \<Rightarrow> nat \<Rightarrow> gateway_ingress \<Rightarrow> publish_outcome \<times> gateway_ingress" where
  "publish_interaction event received_at g =
     (let tag = (if accepting g then TagNormal else TagStopping) in
      case next_sequence g of
        (None, g') \<Rightarrow> (InteractionHardDropped SequenceExhausted, record_hard_drop g')
      | (Some sequence, g') \<Rightarrow>
          let envelope = \<lparr> ii_sequence = sequence, ii_received_at = received_at, ii_tag = tag, ii_event = event \<rparr>
          in if tag = TagStopping then try_reserved envelope g'
             else case try_send envelope (normal_interactions g') of
               Inr l \<Rightarrow> (InteractionAccepted sequence tag, g'\<lparr>normal_interactions := l\<rparr>)
             | Inl err \<Rightarrow> try_reserved ((send_into_inner err)\<lparr>ii_tag := TagBusy\<rparr>) g')"

definition message_position :: "message_create \<Rightarrow> message_gap_position" where
  "message_position m = MessageGapPosition (msg_timestamp_micros m) (msg_id m)"

definition message_gap ::
  "message_create \<Rightarrow> unavailable_reason \<Rightarrow> gateway_ingress \<Rightarrow> publish_outcome \<times> gateway_ingress" where
  "message_gap event reason g =
     (let (tracking, t) = gap_record (msg_channel_id event) (message_position event) reason (message_gaps g)
      in (MessageRecoverableGap reason tracking, record_recoverable_gap (g\<lparr>message_gaps := t\<rparr>)))"

definition publish_message ::
  "message_create \<Rightarrow> nat option \<Rightarrow> gateway_ingress \<Rightarrow> publish_outcome \<times> gateway_ingress" where
  "publish_message event nonce g =
     (if \<not> accepting g then message_gap event Stopping g
      else case next_sequence g of
        (None, g') \<Rightarrow> message_gap event SequenceExhausted g'
      | (Some sequence, g') \<Rightarrow>
          let emergency = is_emergency_message (msg_content event);
              envelope = \<lparr> mi_sequence = sequence, mi_event = event, mi_nonce = nonce \<rparr>
          in case try_send envelope (if emergency then emergency_messages g' else messages g') of
               Inr l \<Rightarrow> (MessageAccepted sequence,
                  if emergency then g'\<lparr>emergency_messages := l\<rparr> else g'\<lparr>messages := l\<rparr>)
             | Inl err \<Rightarrow> message_gap (mi_event (send_into_inner err)) (unavailable_reason_of err) g')"

definition publish_gateway_event_identity :: "gateway_event \<Rightarrow> gateway_ingress \<Rightarrow> gateway_ingress" where
  "publish_gateway_event_identity event g = (case event of
     ReadyEvent ident \<Rightarrow> g\<lparr>ingress_identity := observe_identity ident (ingress_identity g)\<rparr>
   | _ \<Rightarrow> g)"

definition publish_with_nonce ::
  "gateway_event \<Rightarrow> nat \<Rightarrow> nat option \<Rightarrow> gateway_ingress \<Rightarrow> publish_outcome \<times> gateway_ingress" where
  "publish_with_nonce event received_at nonce g0 =
     (let g = publish_gateway_event_identity event g0 in
      case event of
        InteractionCreate i \<Rightarrow> publish_interaction i received_at g
      | MessageCreate m \<Rightarrow> publish_message m nonce g
      | _ \<Rightarrow> (Ignored, g))"

definition publish_event :: "gateway_event \<Rightarrow> nat \<Rightarrow> gateway_ingress \<Rightarrow> publish_outcome \<times> gateway_ingress" where
  "publish_event event received_at g = publish_with_nonce event received_at None g"

definition stop_accepting :: "gateway_ingress \<Rightarrow> gateway_ingress" where
  "stop_accepting g = g\<lparr>accepting := False\<rparr>"

definition publish_receive_error ::
  "nat \<Rightarrow> rstr \<Rightarrow> gateway_ingress \<Rightarrow> receive_error_publish_outcome \<times> gateway_ingress" where
  "publish_receive_error shard body g =
     (case try_send \<lparr> re_shard = shard, re_message = body \<rparr> (receive_errors g) of
        Inr l \<Rightarrow> (ReAccepted, g\<lparr>receive_errors := l\<rparr>)
      | Inl err \<Rightarrow> (ReDropped (unavailable_reason_of err), g))"

section \<open>Outcome counters of the running gateway\<close>

record publish_outcome_counters =
  oc_ignored :: nat
  oc_interactions_accepted :: nat
  oc_hard_dropped_interactions :: nat
  oc_messages_accepted :: nat
  oc_recoverable_message_gaps :: nat
  oc_receive_errors_accepted :: nat
  oc_receive_errors_dropped :: nat

definition outcomes_default :: publish_outcome_counters where
  "outcomes_default = \<lparr> oc_ignored = 0, oc_interactions_accepted = 0, oc_hard_dropped_interactions = 0,
     oc_messages_accepted = 0, oc_recoverable_message_gaps = 0, oc_receive_errors_accepted = 0,
     oc_receive_errors_dropped = 0 \<rparr>"

definition record_outcome :: "publish_outcome \<Rightarrow> publish_outcome_counters \<Rightarrow> publish_outcome_counters" where
  "record_outcome outcome o' = (case outcome of
     Ignored \<Rightarrow> o'\<lparr>oc_ignored := sat_add64 (oc_ignored o') 1\<rparr>
   | InteractionAccepted _ _ \<Rightarrow>
       o'\<lparr>oc_interactions_accepted := sat_add64 (oc_interactions_accepted o') 1\<rparr>
   | InteractionHardDropped _ \<Rightarrow>
       o'\<lparr>oc_hard_dropped_interactions := sat_add64 (oc_hard_dropped_interactions o') 1\<rparr>
   | MessageAccepted _ \<Rightarrow> o'\<lparr>oc_messages_accepted := sat_add64 (oc_messages_accepted o') 1\<rparr>
   | MessageRecoverableGap _ _ \<Rightarrow>
       o'\<lparr>oc_recoverable_message_gaps := sat_add64 (oc_recoverable_message_gaps o') 1\<rparr>)"

definition record_receive_error_outcome ::
  "receive_error_publish_outcome \<Rightarrow> publish_outcome_counters \<Rightarrow> publish_outcome_counters" where
  "record_receive_error_outcome outcome o' = (case outcome of
     ReAccepted \<Rightarrow> o'\<lparr>oc_receive_errors_accepted := sat_add64 (oc_receive_errors_accepted o') 1\<rparr>
   | ReDropped _ \<Rightarrow> o'\<lparr>oc_receive_errors_dropped := sat_add64 (oc_receive_errors_dropped o') 1\<rparr>)"

definition publish_decoded_event_with_nonce ::
  "gateway_event \<Rightarrow> nat option \<Rightarrow> nat \<Rightarrow> gateway_ingress \<times> publish_outcome_counters \<Rightarrow>
   gateway_ingress \<times> publish_outcome_counters" where
  "publish_decoded_event_with_nonce event nonce received_at gs = (case gs of (g, o') \<Rightarrow>
     let (outcome, g') = (if nonce = None then publish_event event received_at g
                          else publish_with_nonce event received_at nonce g)
     in (g', record_outcome outcome o'))"

definition publish_runtime_receive_error ::
  "nat \<Rightarrow> rstr \<Rightarrow> gateway_ingress \<times> publish_outcome_counters \<Rightarrow>
   receive_error_publish_outcome \<times> gateway_ingress \<times> publish_outcome_counters" where
  "publish_runtime_receive_error shard body gs = (case gs of (g, o') \<Rightarrow>
     let (outcome, g') = publish_receive_error shard body g
     in (outcome, g', record_receive_error_outcome outcome o'))"

section \<open>The message gate\<close>

datatype message_content_access = ContentEnabled | ContentDisabled
datatype permission = Allowed | Denied
datatype runtime_running = Running | RuntimeStopping

record message_facts =
  mf_message_content :: message_content_access
  mf_channel :: permission
  mf_user :: permission
  mf_bot_bridge_mention :: bool
  mf_runtime :: runtime_running

datatype gate_reason = GateAccepted | MessageContentDisabled | ChannelNotAllowed | UserNotAllowed | GateStopping

record gate_result =
  gr_handled :: bool
  gr_bot_bridge_mention :: bool
  gr_restart_notice :: bool
  gr_reason :: gate_reason

definition gate_handled :: "gate_reason \<Rightarrow> bool \<Rightarrow> bool \<Rightarrow> gate_result" where
  "gate_handled reason mention notice =
     \<lparr> gr_handled = True, gr_bot_bridge_mention = mention, gr_restart_notice = notice, gr_reason = reason \<rparr>"

definition gate_message :: "message_facts \<Rightarrow> gate_result" where
  "gate_message facts =
     (if mf_message_content facts = ContentDisabled then gate_handled MessageContentDisabled False False
      else if mf_channel facts = Denied then gate_handled ChannelNotAllowed False False
      else if mf_user facts = Denied then gate_handled UserNotAllowed (mf_bot_bridge_mention facts) False
      else if mf_runtime facts = RuntimeStopping then gate_handled GateStopping (mf_bot_bridge_mention facts) True
      else \<lparr> gr_handled = False, gr_bot_bridge_mention = mf_bot_bridge_mention facts,
             gr_restart_notice = False, gr_reason = GateAccepted \<rparr>)"

section \<open>Runs of the ingress\<close>

text \<open>Everything that happens to an ingress: a decoded event, a receive error, the consumers
  taking from a lane or going away, the recovery poll acknowledging a gap, the stop.\<close>

datatype ingress_event =
  IPublish gateway_event nat "nat option"
| IReceiveError nat rstr
| IStop
| IAck gap_notice
| IRecv ingress_lane bool
| IDropReceiver ingress_lane bool

text \<open>The flag of the message lane selects the emergency lane.\<close>

definition on_lane ::
  "(interaction_ingress lane \<Rightarrow> interaction_ingress lane) \<Rightarrow> (message_ingress lane \<Rightarrow> message_ingress lane) \<Rightarrow>
   (receive_error_ingress lane \<Rightarrow> receive_error_ingress lane) \<Rightarrow> ingress_lane \<Rightarrow> bool \<Rightarrow>
   gateway_ingress \<Rightarrow> gateway_ingress" where
  "on_lane f h k l emergency g = (case l of
     NormalInteraction \<Rightarrow> g\<lparr>normal_interactions := f (normal_interactions g)\<rparr>
   | ReservedInteraction \<Rightarrow> g\<lparr>reserved_interactions := f (reserved_interactions g)\<rparr>
   | MessageLane \<Rightarrow> (if emergency then g\<lparr>emergency_messages := h (emergency_messages g)\<rparr>
                      else g\<lparr>messages := h (messages g)\<rparr>)
   | ReceiveErrorLane \<Rightarrow> g\<lparr>receive_errors := k (receive_errors g)\<rparr>)"

definition ingress_step :: "ingress_event \<Rightarrow> gateway_ingress \<Rightarrow> gateway_ingress" where
  "ingress_step e g = (case e of
     IPublish ev at nonce \<Rightarrow> snd (publish_with_nonce ev at nonce g)
   | IReceiveError shard body \<Rightarrow> snd (publish_receive_error shard body g)
   | IStop \<Rightarrow> stop_accepting g
   | IAck n \<Rightarrow> g\<lparr>message_gaps := snd (gap_acknowledge n (message_gaps g))\<rparr>
   | IRecv l em \<Rightarrow> on_lane lane_recv lane_recv lane_recv l em g
   | IDropReceiver l em \<Rightarrow> on_lane lane_drop_receiver lane_drop_receiver lane_drop_receiver l em g)"

section \<open>The invariant of an ingress\<close>

text \<open>Every lane is within its capacity and in strictly increasing sequence order, no
  sequence number is used twice across the lanes, the lanes hold what they are for, and
  the gap tracker keeps its own invariant.\<close>

definition lane_ok :: "('a \<Rightarrow> nat) \<Rightarrow> ('a \<Rightarrow> bool) \<Rightarrow> nat \<Rightarrow> 'a lane \<Rightarrow> bool" where
  "lane_ok seq_of P bound l \<longleftrightarrow> length (lane_items l) \<le> lane_capacity l \<and>
     sorted_wrt (<) (map seq_of (lane_items l)) \<and>
     (\<forall>x \<in> set (lane_items l). seq_of x \<le> bound \<and> P x)"

definition all_sequences :: "gateway_ingress \<Rightarrow> nat list" where
  "all_sequences g = map ii_sequence (lane_items (normal_interactions g)) @
     map ii_sequence (lane_items (reserved_interactions g)) @
     map mi_sequence (lane_items (messages g)) @
     map mi_sequence (lane_items (emergency_messages g))"

definition lanes_ok :: "gateway_ingress \<Rightarrow> bool" where
  "lanes_ok g \<longleftrightarrow>
     lane_ok ii_sequence (\<lambda>x. ii_tag x = TagNormal) (last_sequence g) (normal_interactions g) \<and>
     lane_ok ii_sequence (\<lambda>x. ii_tag x \<noteq> TagNormal) (last_sequence g) (reserved_interactions g) \<and>
     lane_ok mi_sequence (\<lambda>x. \<not> is_emergency_message (msg_content (mi_event x))) (last_sequence g) (messages g) \<and>
     lane_ok mi_sequence (\<lambda>x. is_emergency_message (msg_content (mi_event x))) (last_sequence g) (emergency_messages g) \<and>
     length (lane_items (receive_errors g)) \<le> lane_capacity (receive_errors g) \<and>
     distinct (all_sequences g)"

definition ingress_inv :: "gateway_ingress \<Rightarrow> bool" where
  "ingress_inv g \<longleftrightarrow> lanes_ok g \<and> last_sequence g \<le> u64_max \<and>
     gap_inv (message_gaps g) \<and> \<not> gap_poisoned (message_gaps g)"

lemma try_send_Inr_iff:
  "try_send x l = Inr l' \<longleftrightarrow> \<not> lane_closed l \<and> length (lane_items l) < lane_capacity l \<and>
     l' = l\<lparr>lane_items := lane_items l @ [x]\<rparr>"
  by (auto simp: try_send_def)

lemma try_send_Inl_iff:
  "try_send x l = Inl err \<longleftrightarrow> (lane_closed l \<and> err = SendClosed x) \<or>
     (\<not> lane_closed l \<and> lane_capacity l \<le> length (lane_items l) \<and> err = SendFull x)"
  by (auto simp: try_send_def)

lemma try_send_inner: "try_send x l = Inl err \<Longrightarrow> send_into_inner err = x"
  by (auto simp: try_send_Inl_iff)

lemma lane_ok_mono: "lane_ok q P b l \<Longrightarrow> b \<le> b' \<Longrightarrow> lane_ok q P b' l"
  by (auto simp: lane_ok_def intro: order_trans)

lemma lane_ok_send:
  assumes "lane_ok q P b l" "b < q x" "P x" "length (lane_items l) < lane_capacity l"
  shows "lane_ok q P (q x) (l\<lparr>lane_items := lane_items l @ [x]\<rparr>)"
  using assms by (auto simp: lane_ok_def sorted_wrt_append intro: less_imp_le le_less_trans order_trans)

lemma lane_ok_recv: "lane_ok q P b l \<Longrightarrow> lane_ok q P b (lane_recv l)"
  by (cases "lane_items l") (auto simp: lane_ok_def lane_recv_def)

lemma lane_ok_drop_receiver: "lane_ok q P b l \<Longrightarrow> lane_ok q P b (lane_drop_receiver l)"
  by (simp add: lane_ok_def lane_drop_receiver_def)

lemmas lane_ok_consume = lane_ok_recv lane_ok_drop_receiver

text \<open>Fresh sequence numbers are above every number in use.\<close>

lemma fresh_sequence: "lanes_ok g \<Longrightarrow> last_sequence g < n \<Longrightarrow> n \<notin> set (all_sequences g)"
  by (auto simp: lanes_ok_def lane_ok_def all_sequences_def)

lemma lanes_ok_cong:
  assumes "normal_interactions g' = normal_interactions g"
    "reserved_interactions g' = reserved_interactions g" "messages g' = messages g"
    "emergency_messages g' = emergency_messages g" "receive_errors g' = receive_errors g"
    "last_sequence g \<le> last_sequence g'" "lanes_ok g"
  shows "lanes_ok g'"
  using assms by (auto simp: lanes_ok_def all_sequences_def intro: lane_ok_mono)

lemma ingress_build_inv:
  "ingress_build ident config sequence = Inr g \<Longrightarrow> sequence \<le> u64_max \<Longrightarrow> ingress_inv g"
  by (auto simp: ingress_build_def ingress_inv_def lanes_ok_def lane_ok_def all_sequences_def
      channel_new_def gap_inv_new [unfolded gap_tracker_new_def] gap_tracker_new_def split: sum.splits)

lemma next_sequence_cases:
  "next_sequence g = (None, g) \<and> last_sequence g \<ge> u64_max \<or>
   next_sequence g = (Some (Suc (last_sequence g)), g\<lparr>last_sequence := Suc (last_sequence g)\<rparr>) \<and>
     last_sequence g < u64_max"
  by (auto simp: next_sequence_def checked_add64_def)

lemma lanes_ok_send_normal:
  assumes "lanes_ok g" "ii_sequence x = Suc (last_sequence g)" "ii_tag x = TagNormal"
    "length (lane_items (normal_interactions g)) < lane_capacity (normal_interactions g)"
  shows "lanes_ok (g\<lparr>last_sequence := Suc (last_sequence g),
    normal_interactions := (normal_interactions g)\<lparr>lane_items := lane_items (normal_interactions g) @ [x]\<rparr>\<rparr>)"
  using assms fresh_sequence [OF assms(1), of "ii_sequence x"]
    lane_ok_send [of ii_sequence "\<lambda>x. ii_tag x = TagNormal" "last_sequence g" "normal_interactions g" x]
  by (auto simp: lanes_ok_def all_sequences_def intro: lane_ok_mono)

lemma lanes_ok_send_reserved:
  assumes "lanes_ok g" "ii_sequence x = Suc (last_sequence g)" "ii_tag x \<noteq> TagNormal"
    "length (lane_items (reserved_interactions g)) < lane_capacity (reserved_interactions g)"
  shows "lanes_ok (g\<lparr>last_sequence := Suc (last_sequence g),
    reserved_interactions := (reserved_interactions g)\<lparr>lane_items := lane_items (reserved_interactions g) @ [x]\<rparr>\<rparr>)"
  using assms fresh_sequence [OF assms(1), of "ii_sequence x"]
    lane_ok_send [of ii_sequence "\<lambda>x. ii_tag x \<noteq> TagNormal" "last_sequence g" "reserved_interactions g" x]
  by (auto simp: lanes_ok_def all_sequences_def intro: lane_ok_mono)

lemma lanes_ok_send_message:
  assumes "lanes_ok g" "mi_sequence x = Suc (last_sequence g)"
    "\<not> is_emergency_message (msg_content (mi_event x))"
    "length (lane_items (messages g)) < lane_capacity (messages g)"
  shows "lanes_ok (g\<lparr>last_sequence := Suc (last_sequence g),
    messages := (messages g)\<lparr>lane_items := lane_items (messages g) @ [x]\<rparr>\<rparr>)"
  using assms fresh_sequence [OF assms(1), of "mi_sequence x"]
    lane_ok_send [of mi_sequence "\<lambda>x. \<not> is_emergency_message (msg_content (mi_event x))"
      "last_sequence g" "messages g" x]
  by (auto simp: lanes_ok_def all_sequences_def intro: lane_ok_mono)

lemma lanes_ok_send_emergency:
  assumes "lanes_ok g" "mi_sequence x = Suc (last_sequence g)"
    "is_emergency_message (msg_content (mi_event x))"
    "length (lane_items (emergency_messages g)) < lane_capacity (emergency_messages g)"
  shows "lanes_ok (g\<lparr>last_sequence := Suc (last_sequence g),
    emergency_messages := (emergency_messages g)\<lparr>lane_items := lane_items (emergency_messages g) @ [x]\<rparr>\<rparr>)"
  using assms fresh_sequence [OF assms(1), of "mi_sequence x"]
    lane_ok_send [of mi_sequence "\<lambda>x. is_emergency_message (msg_content (mi_event x))"
      "last_sequence g" "emergency_messages g" x]
  by (auto simp: lanes_ok_def all_sequences_def intro: lane_ok_mono)

lemmas lanes_ok_send = lanes_ok_send_normal lanes_ok_send_reserved lanes_ok_send_message lanes_ok_send_emergency

section \<open>Every operation keeps the invariant\<close>

lemma ingress_inv_hard_drop [inv_intros]: "ingress_inv g \<Longrightarrow> ingress_inv (record_hard_drop g)"
  by (auto simp: ingress_inv_def record_hard_drop_def intro: lanes_ok_cong [of _ g])

lemma ingress_inv_message_gap [inv_intros]:
  assumes "ingress_inv g"
  shows "ingress_inv (snd (message_gap m reason g))"
proof -
  have "lanes_ok (snd (message_gap m reason g))"
    using assms by - (rule lanes_ok_cong [of _ g],
      simp_all add: message_gap_def record_recoverable_gap_def ingress_inv_def case_prod_beta)
  then show ?thesis
    using assms gap_inv_record [of "message_gaps g" "msg_channel_id m" "message_position m" reason]
    by (simp add: message_gap_def record_recoverable_gap_def ingress_inv_def case_prod_beta)
qed

lemma ingress_inv_bump:
  "ingress_inv g \<Longrightarrow> last_sequence g < u64_max \<Longrightarrow>
   ingress_inv (g\<lparr>last_sequence := Suc (last_sequence g)\<rparr>)"
  by (auto simp: ingress_inv_def intro: lanes_ok_cong [of _ g])

lemma try_reserved_inv:
  assumes inv: "ingress_inv g" and lt: "last_sequence g < u64_max"
    and x: "ii_sequence x = Suc (last_sequence g)" "ii_tag x \<noteq> TagNormal"
  shows "ingress_inv (snd (try_reserved x (g\<lparr>last_sequence := Suc (last_sequence g)\<rparr>)))"
proof (cases "try_send x (reserved_interactions g)")
  case (Inl e)
  then show ?thesis
    using ingress_inv_hard_drop [OF ingress_inv_bump [OF inv lt]]
    by (simp add: try_reserved_def)
next
  case (Inr l)
  then show ?thesis
    using lanes_ok_send_reserved [of g x] inv lt x Inr [unfolded try_send_Inr_iff]
    by (simp add: try_reserved_def ingress_inv_def)
qed

lemma publish_interaction_inv [inv_intros]:
  assumes inv: "ingress_inv g"
  shows "ingress_inv (snd (publish_interaction ev at g))"
proof -
  let ?x = "\<lambda>tag. \<lparr> ii_sequence = Suc (last_sequence g), ii_received_at = at, ii_tag = tag, ii_event = ev \<rparr>"
  consider (none) "next_sequence g = (None, g)"
    | (some) "next_sequence g = (Some (Suc (last_sequence g)), g\<lparr>last_sequence := Suc (last_sequence g)\<rparr>)"
        "last_sequence g < u64_max"
    using next_sequence_cases [of g] by blast
  then show ?thesis
  proof cases
    case none
    then show ?thesis by (simp add: publish_interaction_def ingress_inv_hard_drop inv)
  next
    case some
    show ?thesis
    proof (cases "accepting g")
      case False
      then show ?thesis
        using try_reserved_inv [OF inv some(2), of "?x TagStopping"]
        by (simp add: publish_interaction_def some(1))
    next
      case True
      show ?thesis
      proof (cases "try_send (?x TagNormal) (normal_interactions g)")
        case (Inl e)
        then show ?thesis
          using True try_reserved_inv [OF inv some(2), of "?x TagBusy"] try_send_inner [OF Inl]
          by (simp add: publish_interaction_def some(1))
      next
        case (Inr l)
        then show ?thesis
          using True lanes_ok_send_normal [of g "?x TagNormal"] inv some(2) Inr [unfolded try_send_Inr_iff]
          by (simp add: publish_interaction_def some(1) ingress_inv_def)
      qed
    qed
  qed
qed

text \<open>The four outcomes of publishing a message.\<close>

lemma publish_message_cases:
  fixes g ev nonce
  defines "x \<equiv> \<lparr> mi_sequence = Suc (last_sequence g), mi_event = ev, mi_nonce = nonce \<rparr>"
    and "b \<equiv> g\<lparr>last_sequence := Suc (last_sequence g)\<rparr>"
    and "l \<equiv> (if is_emergency_message (msg_content ev) then emergency_messages g else messages g)"
  obtains
    (stopping) "\<not> accepting g" "publish_message ev nonce g = message_gap ev Stopping g"
  | (exhausted) "accepting g" "last_sequence g \<ge> u64_max"
      "publish_message ev nonce g = message_gap ev SequenceExhausted g"
  | (refused) e where "accepting g" "last_sequence g < u64_max" "try_send x l = Inl e"
      "publish_message ev nonce g = message_gap ev (unavailable_reason_of e) b"
  | (emergency) "accepting g" "last_sequence g < u64_max" "is_emergency_message (msg_content ev)"
      "\<not> lane_closed (emergency_messages g)"
      "length (lane_items (emergency_messages g)) < lane_capacity (emergency_messages g)"
      "publish_message ev nonce g = (MessageAccepted (Suc (last_sequence g)),
         b\<lparr>emergency_messages := (emergency_messages g)\<lparr>lane_items := lane_items (emergency_messages g) @ [x]\<rparr>\<rparr>)"
  | (normal) "accepting g" "last_sequence g < u64_max" "\<not> is_emergency_message (msg_content ev)"
      "\<not> lane_closed (messages g)"
      "length (lane_items (messages g)) < lane_capacity (messages g)"
      "publish_message ev nonce g = (MessageAccepted (Suc (last_sequence g)),
         b\<lparr>messages := (messages g)\<lparr>lane_items := lane_items (messages g) @ [x]\<rparr>\<rparr>)"
proof (cases "accepting g \<and> last_sequence g < u64_max")
  case False
  show ?thesis
  proof (cases "accepting g")
    case True
    then have "next_sequence g = (None, g)" using False next_sequence_cases [of g] by auto
    then show ?thesis using True False by (intro exhausted) (simp_all add: publish_message_def)
  next
    case False
    then show ?thesis by (intro stopping) (simp_all add: publish_message_def)
  qed
next
  case True
  then have n: "next_sequence g = (Some (Suc (last_sequence g)), b)"
    using next_sequence_cases [of g] by (auto simp: b_def)
  show ?thesis
  proof (cases "try_send x l")
    case (Inl e)
    have "mi_event (send_into_inner e) = ev" using try_send_inner [OF Inl] by (simp add: x_def)
    then have "publish_message ev nonce g = message_gap ev (unavailable_reason_of e) b"
      using Inl True n
      by (cases "is_emergency_message (msg_content ev)") (simp_all add: publish_message_def x_def l_def b_def Let_def)
    then show ?thesis using refused [OF _ _ Inl] True by simp
  next
    case (Inr l')
    note sent = Inr [unfolded try_send_Inr_iff]
    show ?thesis
    proof (cases "is_emergency_message (msg_content ev)")
      case em: True
      then show ?thesis
        using True Inr sent n
        by (intro emergency) (simp_all add: publish_message_def x_def l_def b_def Let_def)
    next
      case em: False
      then show ?thesis
        using True Inr sent n
        by (intro normal) (simp_all add: publish_message_def x_def l_def b_def Let_def)
    qed
  qed
qed

lemma publish_message_inv [inv_intros]:
  assumes inv: "ingress_inv g"
  shows "ingress_inv (snd (publish_message ev nonce g))"
proof (cases rule: publish_message_cases [of g ev nonce])
  case emergency
  then show ?thesis
    using inv lanes_ok_send_emergency [of g "\<lparr> mi_sequence = Suc (last_sequence g), mi_event = ev, mi_nonce = nonce \<rparr>"]
    by (simp add: ingress_inv_def)
next
  case normal
  then show ?thesis
    using inv lanes_ok_send_message [of g "\<lparr> mi_sequence = Suc (last_sequence g), mi_event = ev, mi_nonce = nonce \<rparr>"]
    by (simp add: ingress_inv_def)
qed (simp_all add: inv ingress_inv_message_gap ingress_inv_bump)

lemma publish_identity_inv [inv_intros]:
  "ingress_inv g \<Longrightarrow> ingress_inv (publish_gateway_event_identity ev g)"
  by (auto simp: publish_gateway_event_identity_def ingress_inv_def intro: lanes_ok_cong [of _ g]
      split: gateway_event.split)

lemma publish_with_nonce_inv [inv_intros]:
  "ingress_inv g \<Longrightarrow> ingress_inv (snd (publish_with_nonce ev at nonce g))"
  by (cases ev) (simp_all add: publish_with_nonce_def publish_interaction_inv publish_message_inv publish_identity_inv)

lemma publish_receive_error_inv [inv_intros]:
  "ingress_inv g \<Longrightarrow> ingress_inv (snd (publish_receive_error shard body g))"
  by (auto simp: publish_receive_error_def ingress_inv_def lanes_ok_def all_sequences_def try_send_Inr_iff
      split: sum.split)

text \<open>Taking from a lane: the sequence numbers of the lanes become a subsequence.\<close>

lemma lane_ok_consumed:
  assumes "l' = lane_recv l \<or> l' = lane_drop_receiver l" "lane_ok q P b l"
  shows "lane_ok q P b l' \<and> distinct (map q (lane_items l')) \<and>
     set (map q (lane_items l')) \<subseteq> set (map q (lane_items l))"
proof -
  have "lane_ok q P b l'" using assms lane_ok_consume [of q P b l] by auto
  moreover have "set (lane_items l') \<subseteq> set (lane_items l)"
    using assms(1) by (cases "lane_items l") (auto simp: lane_recv_def lane_drop_receiver_def)
  ultimately show ?thesis
    by (auto simp: lane_ok_def strict_sorted_iff)
qed

lemma distinct_shrink:
  "distinct (as @ bs @ cs @ ds) \<Longrightarrow> distinct as' \<Longrightarrow> set as' \<subseteq> set as \<Longrightarrow> distinct (as' @ bs @ cs @ ds)"
  "distinct (as @ bs @ cs @ ds) \<Longrightarrow> distinct bs' \<Longrightarrow> set bs' \<subseteq> set bs \<Longrightarrow> distinct (as @ bs' @ cs @ ds)"
  "distinct (as @ bs @ cs @ ds) \<Longrightarrow> distinct cs' \<Longrightarrow> set cs' \<subseteq> set cs \<Longrightarrow> distinct (as @ bs @ cs' @ ds)"
  "distinct (as @ bs @ cs @ ds) \<Longrightarrow> distinct ds' \<Longrightarrow> set ds' \<subseteq> set ds \<Longrightarrow> distinct (as @ bs @ cs @ ds')"
  by auto

lemma consume_inv:
  assumes inv: "ingress_inv g"
    and f: "\<And>l. f l = lane_recv l \<or> f l = lane_drop_receiver l"
    and h: "\<And>l. h l = lane_recv l \<or> h l = lane_drop_receiver l"
    and k: "\<And>l. k l = lane_recv l \<or> k l = lane_drop_receiver l"
  shows "ingress_inv (on_lane f h k l em g)"
proof -
  have ok: "lanes_ok g" using inv by (simp add: ingress_inv_def)
  have err: "length (lane_items (k (receive_errors g))) \<le> lane_capacity (k (receive_errors g))"
    using k [of "receive_errors g"] ok by (auto simp: lanes_ok_def lane_recv_def lane_drop_receiver_def)
  have "lanes_ok (on_lane f h k l em g)"
  proof (cases l)
    case NormalInteraction
    then show ?thesis
      using ok lane_ok_consumed [OF f [of "normal_interactions g"], where q = ii_sequence and P = "\<lambda>x. ii_tag x = TagNormal" and b = "last_sequence g"]
      by (simp add: on_lane_def lanes_ok_def all_sequences_def del: distinct_append set_map map_append)
         (blast intro: distinct_shrink)
  next
    case ReservedInteraction
    then show ?thesis
      using ok lane_ok_consumed [OF f [of "reserved_interactions g"], where q = ii_sequence and P = "\<lambda>x. ii_tag x \<noteq> TagNormal" and b = "last_sequence g"]
      by (simp add: on_lane_def lanes_ok_def all_sequences_def del: distinct_append set_map map_append)
         (blast intro: distinct_shrink)
  next
    case MessageLane
    then show ?thesis
      using ok lane_ok_consumed [OF h [of "emergency_messages g"], where q = mi_sequence and P = "\<lambda>x. is_emergency_message (msg_content (mi_event x))" and b = "last_sequence g"]
       lane_ok_consumed [OF h [of "messages g"], where q = mi_sequence and P = "\<lambda>x. \<not> is_emergency_message (msg_content (mi_event x))" and b = "last_sequence g"]
      by (cases em; simp add: on_lane_def lanes_ok_def all_sequences_def del: distinct_append set_map map_append;
          blast intro: distinct_shrink)
  next
    case ReceiveErrorLane
    then show ?thesis using ok err by (simp add: on_lane_def lanes_ok_def all_sequences_def)
  qed
  then show ?thesis
    using inv by (cases l; cases em) (simp_all add: ingress_inv_def on_lane_def)
qed

lemma ingress_step_inv: "ingress_inv g \<Longrightarrow> ingress_inv (ingress_step e g)"
proof (cases e)
  case IStop
  then show "ingress_inv g \<Longrightarrow> ingress_inv (ingress_step e g)"
    by (auto simp: ingress_step_def stop_accepting_def ingress_inv_def intro: lanes_ok_cong [of _ g])
next
  case (IAck n)
  then show "ingress_inv g \<Longrightarrow> ingress_inv (ingress_step e g)"
    by (auto simp: ingress_step_def ingress_inv_def gap_inv_ack intro: lanes_ok_cong [of _ g])
qed (simp_all add: ingress_step_def publish_with_nonce_inv publish_receive_error_inv consume_inv)

lemma ingress_run_inv: "ingress_inv g \<Longrightarrow> ingress_inv (run_events ingress_step es g)"
  by (rule run_events_inv [where I = ingress_inv and P = "\<lambda>_ _. True"])
    (simp_all only: ingress_step_inv all_events_True)

section \<open>Messages\<close>

definition lanes_of :: "gateway_ingress \<Rightarrow>
  interaction_ingress lane \<times> interaction_ingress lane \<times> message_ingress lane \<times> message_ingress lane \<times>
  receive_error_ingress lane" where
  "lanes_of g = (normal_interactions g, reserved_interactions g, messages g, emergency_messages g, receive_errors g)"

definition gap_covers :: "gap_tracker \<Rightarrow> message_create \<Rightarrow> unavailable_reason \<Rightarrow> bool" where
  "gap_covers t m reason = (case active_at t (msg_channel_id m) of
     None \<Rightarrow> False
   | Some a \<Rightarrow> earliest a \<le> message_position m \<and> reasons_contains (reasons a) reason)"

lemma gap_record_ok: "\<not> gap_poisoned t \<Longrightarrow> fst (gap_record c p r t) = Inr ()"
  by (simp add: gap_record_def)

lemma gap_record_covers:
  "\<not> gap_poisoned t \<Longrightarrow>
   gap_covers (snd (gap_record (msg_channel_id m) (message_position m) r t)) m r"
  by (simp add: gap_covers_def active_at_record split: option.split)

lemma message_gap_facts:
  assumes "\<not> gap_poisoned (message_gaps g)"
  shows "fst (message_gap m r g) = MessageRecoverableGap r (Inr ())"
    and "lanes_of (snd (message_gap m r g)) = lanes_of g"
    and "gap_covers (message_gaps (snd (message_gap m r g))) m r"
    and "recoverable_message_gaps (snd (message_gap m r g)) = sat_add64 (recoverable_message_gaps g) 1"
  using assms gap_record_covers [of "message_gaps g" m r]
    gap_record_ok [of "message_gaps g" "msg_channel_id m" "message_position m" r]
  by (simp_all add: message_gap_def record_recoverable_gap_def lanes_of_def case_prod_beta)

text \<open>No message is lost silently. From any reachable ingress, publishing a message
  either appends it, with the next sequence number, to exactly one lane (the emergency lane
  for an emergency command, the message lane otherwise) and leaves the gap tracker alone, or
  leaves every lane as it was and records a gap of its channel that starts at or before the
  message and carries the reason: \<open>Stopping\<close> exactly when the ingress no longer accepts,
  \<open>SequenceExhausted\<close> when the counter is used up, \<open>Closed\<close> or \<open>Full\<close> as the lane is.\<close>

theorem message_queued_or_gap_recorded:
  assumes built: "ingress_build ident config sequence = Inr g0" "sequence \<le> u64_max"
    and g: "g = run_events ingress_step es g0"
    and r: "publish_message m nonce g = (outcome, g')"
  shows "case outcome of
      MessageAccepted n \<Rightarrow> accepting g \<and> n = Suc (last_sequence g) \<and>
        message_gaps g' = message_gaps g \<and>
        (let item = \<lparr> mi_sequence = n, mi_event = m, mi_nonce = nonce \<rparr> in
         lanes_of g' = (if is_emergency_message (msg_content m)
           then (normal_interactions g, reserved_interactions g, messages g,
                 (emergency_messages g)\<lparr>lane_items := lane_items (emergency_messages g) @ [item]\<rparr>, receive_errors g)
           else (normal_interactions g, reserved_interactions g,
                 (messages g)\<lparr>lane_items := lane_items (messages g) @ [item]\<rparr>, emergency_messages g, receive_errors g)))
    | MessageRecoverableGap reason tracking \<Rightarrow> lanes_of g' = lanes_of g \<and> tracking = Inr () \<and>
        gap_covers (message_gaps g') m reason \<and>
        recoverable_message_gaps g' = sat_add64 (recoverable_message_gaps g) 1 \<and>
        (reason = Stopping \<longleftrightarrow> \<not> accepting g) \<and>
        (reason = SequenceExhausted \<longleftrightarrow> accepting g \<and> last_sequence g = u64_max)
    | _ \<Rightarrow> False"
proof -
  have inv: "ingress_inv g" unfolding g by (intro ingress_run_inv ingress_build_inv [OF built])
  then have np: "\<not> gap_poisoned (message_gaps g)" and bound: "last_sequence g \<le> u64_max"
    by (simp_all add: ingress_inv_def)
  have out: "outcome = fst (publish_message m nonce g)" "g' = snd (publish_message m nonce g)"
    using r by simp_all
  show ?thesis
  proof (cases rule: publish_message_cases [of g m nonce])
    case stopping
    then show ?thesis
      using message_gap_facts [OF np, of m Stopping] by (simp add: out)
  next
    case exhausted
    then show ?thesis
      using bound message_gap_facts [OF np, of m SequenceExhausted] by (simp add: out)
  next
    case (refused e)
    let ?b = "g\<lparr>last_sequence := Suc (last_sequence g)\<rparr>"
    have "unavailable_reason_of e \<in> {Full, Closed}"
      using refused(3) by (auto simp: try_send_Inl_iff)
    moreover have "lanes_of ?b = lanes_of g" by (simp add: lanes_of_def)
    ultimately show ?thesis
      using refused message_gap_facts [of ?b m "unavailable_reason_of e"] np by (auto simp: out)
  next
    case emergency
    then show ?thesis by (simp add: out lanes_of_def)
  next
    case normal
    then show ?thesis by (simp add: out lanes_of_def)
  qed
qed

lemmas ingress_eval = publish_message_def message_gap_def record_recoverable_gap_def next_sequence_def
  gap_record_defs checked_add64_def sat_add64_def u64_max_def stop_accepting_def ingress_step_def
  gap_tracker_new_def

text \<open>A concrete ingress for the witnesses: one place in every lane.\<close>

definition tiny_config :: gateway_ingress_config where
  "tiny_config = \<lparr> interaction_capacity = 1, reserved_interaction_capacity = 1,
     message_capacity = 1, receive_error_capacity = 1 \<rparr>"

definition tiny_ingress :: gateway_ingress where
  "tiny_ingress =
     \<lparr> normal_interactions = channel_new 1, reserved_interactions = channel_new 1, messages = channel_new 1,
       emergency_messages = channel_new emergency_message_capacity, receive_errors = channel_new 1,
       ingress_identity = identity_new, message_gaps = gap_tracker_new 1,
       hard_dropped_interactions = 0, recoverable_message_gaps = 0, diagnostic_hints = 0,
       accepting = True, last_sequence = 0 \<rparr>"

lemma tiny_build: "ingress_build 1 tiny_config 0 = Inr tiny_ingress"
  by (simp add: ingress_build_def config_validate_def tiny_config_def tiny_ingress_def)

definition hello_message :: message_create where
  "hello_message = \<lparr> msg_channel_id = 7, msg_id = 42, msg_timestamp_micros = 5, msg_content = lit ''hello'' \<rparr>"

lemma hello_not_emergency: "\<not> is_emergency_message (msg_content hello_message)"
  by code_simp

theorem message_queued_or_gap_recorded_witness:
  "\<exists>g'. publish_message hello_message None (run_events ingress_step [IStop] tiny_ingress)
        = (MessageRecoverableGap Stopping (Inr ()), g') \<and>
      gap_covers (message_gaps g') hello_message Stopping"
proof -
  let ?g = "run_events ingress_step [IStop] tiny_ingress"
  obtain g' where r: "publish_message hello_message None ?g = (MessageRecoverableGap Stopping (Inr ()), g')"
    by (simp add: ingress_eval tiny_ingress_def)
  show ?thesis
    using message_queued_or_gap_recorded [OF tiny_build _ refl r] r by simp
qed

text \<open>The ingress invariant. Whatever events arrive and however the consumers behave,
  every lane stays within its capacity and in strictly increasing sequence order, no
  sequence number is in two places, the normal lane holds only normal interactions, the
  emergency lane only emergency commands, and the gap tracker keeps its invariant.\<close>

theorem ingress_invariant:
  assumes "ingress_build ident config sequence = Inr g" "sequence \<le> u64_max"
  shows "ingress_inv (run_events ingress_step es g)"
  by (intro ingress_run_inv ingress_build_inv [OF assms])

theorem ingress_invariant_witness:
  "ingress_inv (run_events ingress_step
     [IPublish (MessageCreate hello_message) 9 None, IRecv MessageLane False, IStop] tiny_ingress)"
  using ingress_invariant [OF tiny_build, of "[IPublish (MessageCreate hello_message) 9 None, IRecv MessageLane False, IStop]"]
  by simp

section \<open>Interactions and stopping\<close>

text \<open>The reserved lane takes the envelope or counts a hard drop.\<close>

lemma try_reserved_outcome:
  "case try_reserved x h of (outcome, g') \<Rightarrow>
     message_gaps g' = message_gaps h \<and> messages g' = messages h \<and> emergency_messages g' = emergency_messages h \<and>
     normal_interactions g' = normal_interactions h \<and>
     (case outcome of
        InteractionAccepted n tag \<Rightarrow> n = ii_sequence x \<and> tag = ii_tag x \<and>
          hard_dropped_interactions g' = hard_dropped_interactions h \<and>
          try_send x (reserved_interactions h) = Inr (reserved_interactions g')
      | InteractionHardDropped r \<Rightarrow> r \<noteq> Stopping \<and>
          reserved_interactions g' = reserved_interactions h \<and>
          hard_dropped_interactions g' = sat_add64 (hard_dropped_interactions h) 1
      | _ \<Rightarrow> False)"
proof -
  have "unavailable_reason_of e \<noteq> Stopping" for e :: "interaction_ingress try_send_error"
    by (cases e) simp_all
  then show ?thesis
    by (simp add: try_reserved_def record_hard_drop_def split: sum.split)
qed

text \<open>Every interaction is accepted or counted. Publishing an interaction appends it to
  the normal lane with tag \<open>Normal\<close>, or, when that lane refuses it, to the reserved lane
  with tag \<open>Busy\<close>; a stopping ingress uses only the reserved lane, with tag \<open>Stopping\<close>.
  Only when the reserved lane refuses it too, or the sequence is exhausted, is it dropped,
  and then the lanes are unchanged and the hard-drop counter advances.\<close>

theorem interaction_accepted_or_counted:
  "case publish_interaction ev at g of (outcome, g') \<Rightarrow>
     message_gaps g' = message_gaps g \<and> messages g' = messages g \<and>
     emergency_messages g' = emergency_messages g \<and>
     (case outcome of
        InteractionAccepted n tag \<Rightarrow> n = Suc (last_sequence g) \<and>
          hard_dropped_interactions g' = hard_dropped_interactions g \<and>
          (let item = \<lparr> ii_sequence = n, ii_received_at = at, ii_tag = tag, ii_event = ev \<rparr> in
           if tag = TagNormal
           then accepting g \<and> reserved_interactions g' = reserved_interactions g \<and>
                try_send item (normal_interactions g) = Inr (normal_interactions g')
           else (accepting g \<longleftrightarrow> tag = TagBusy) \<and> normal_interactions g' = normal_interactions g \<and>
                try_send item (reserved_interactions g) = Inr (reserved_interactions g'))
      | InteractionHardDropped reason \<Rightarrow> reason \<noteq> Stopping \<and>
          normal_interactions g' = normal_interactions g \<and>
          reserved_interactions g' = reserved_interactions g \<and>
          hard_dropped_interactions g' = sat_add64 (hard_dropped_interactions g) 1
      | _ \<Rightarrow> False)"
proof -
  let ?x = "\<lambda>tag. \<lparr> ii_sequence = Suc (last_sequence g), ii_received_at = at, ii_tag = tag, ii_event = ev \<rparr>"
  let ?b = "g\<lparr>last_sequence := Suc (last_sequence g)\<rparr>"
  consider (none) "next_sequence g = (None, g)" | (some) "next_sequence g = (Some (Suc (last_sequence g)), ?b)"
    using next_sequence_cases [of g] by blast
  then show ?thesis
  proof cases
    case none
    then show ?thesis by (simp add: publish_interaction_def record_hard_drop_def)
  next
    case some
    consider "\<not> accepting g" | l where "accepting g" "try_send (?x TagNormal) (normal_interactions g) = Inr l"
      | e where "accepting g" "try_send (?x TagNormal) (normal_interactions g) = Inl e"
      by (meson sum.exhaust)
    then show ?thesis
    proof cases
      case 1
      then show ?thesis
        using try_reserved_outcome [where x = "?x TagStopping" and h = ?b] some
        by (auto simp: publish_interaction_def Let_def split: prod.splits publish_outcome.splits)
    next
      case 2
      then show ?thesis using some by (simp add: publish_interaction_def Let_def)
    next
      case 3
      then show ?thesis
        using try_reserved_outcome [where x = "?x TagBusy" and h = ?b] some try_send_inner [OF 3(2)]
        by (auto simp: publish_interaction_def Let_def split: prod.splits publish_outcome.splits)
    qed
  qed
qed

text \<open>What a closed ingress may still hold, relative to the ingress at the stop.\<close>

definition only_drained :: "gateway_ingress \<Rightarrow> gateway_ingress \<Rightarrow> bool" where
  "only_drained g0 g \<longleftrightarrow> \<not> accepting g \<and>
     suffix (lane_items (normal_interactions g)) (lane_items (normal_interactions g0)) \<and>
     suffix (lane_items (messages g)) (lane_items (messages g0)) \<and>
     suffix (lane_items (emergency_messages g)) (lane_items (emergency_messages g0)) \<and>
     (\<forall>x \<in> set (lane_items (reserved_interactions g)).
        x \<in> set (lane_items (reserved_interactions g0)) \<or> ii_tag x = TagStopping)"

lemma suffix_tl: "suffix xs ys \<Longrightarrow> suffix (tl xs) ys"
  by (metis suffix_order.trans suffix_tl)

lemma in_set_tl: "x \<in> set (tl xs) \<Longrightarrow> x \<in> set xs"
  by (cases xs) auto

lemma try_reserved_drained:
  "only_drained g0 g \<Longrightarrow> ii_tag x = TagStopping \<Longrightarrow> only_drained g0 (snd (try_reserved x g))"
  by (auto simp: only_drained_def try_reserved_def record_hard_drop_def try_send_Inr_iff split: sum.split)

lemma publish_drained:
  assumes d: "only_drained g0 g"
  shows "only_drained g0 (snd (publish_interaction ev at g))"
    and "only_drained g0 (snd (publish_message m nonce g))"
    and "only_drained g0 (publish_gateway_event_identity e g)"
proof -
  have na: "\<not> accepting g" using d by (simp add: only_drained_def)
  have bump: "only_drained g0 (g\<lparr>last_sequence := n\<rparr>)" for n
    using d by (simp add: only_drained_def)
  show "only_drained g0 (snd (publish_interaction ev at g))"
    using next_sequence_cases [of g] na d
      try_reserved_drained [OF bump [of "Suc (last_sequence g)"],
        of "\<lparr> ii_sequence = Suc (last_sequence g), ii_received_at = at, ii_tag = TagStopping, ii_event = ev \<rparr>"]
    by (auto simp: publish_interaction_def record_hard_drop_def only_drained_def [of _ "g\<lparr>hard_dropped_interactions := _, diagnostic_hints := _\<rparr>"]
        only_drained_def [of _ g])
  show "only_drained g0 (snd (publish_message m nonce g))"
    using na d by (simp add: publish_message_def message_gap_def record_recoverable_gap_def only_drained_def case_prod_beta)
  show "only_drained g0 (publish_gateway_event_identity e g)"
    using d by (simp add: publish_gateway_event_identity_def only_drained_def split: gateway_event.split)
qed

lemma publish_with_nonce_drained:
  "only_drained g0 g \<Longrightarrow> only_drained g0 (snd (publish_with_nonce ev at nonce g))"
  by (cases ev) (simp_all add: publish_with_nonce_def publish_drained)

lemma step_drained: "only_drained g0 g \<Longrightarrow> only_drained g0 (ingress_step e g)"
proof (cases e)
  case (IPublish ev at nonce)
  then show "only_drained g0 g \<Longrightarrow> only_drained g0 (ingress_step e g)"
    by (simp add: ingress_step_def publish_with_nonce_drained)
next
  case (IReceiveError shard body)
  then show "only_drained g0 g \<Longrightarrow> only_drained g0 (ingress_step e g)"
    by (simp add: ingress_step_def publish_receive_error_def only_drained_def split: sum.split)
next
  case (IRecv l em)
  then show "only_drained g0 g \<Longrightarrow> only_drained g0 (ingress_step e g)"
    by (cases l) (auto simp: ingress_step_def on_lane_def only_drained_def lane_recv_def
        intro: suffix_tl dest: in_set_tl)
next
  case (IDropReceiver l em)
  then show "only_drained g0 g \<Longrightarrow> only_drained g0 (ingress_step e g)"
    by (cases l) (auto simp: ingress_step_def on_lane_def only_drained_def lane_drop_receiver_def)
qed (simp_all add: ingress_step_def stop_accepting_def only_drained_def)

text \<open>The stop is final. After \<open>stop_accepting\<close>, whatever is published and
  consumed, the ingress never accepts again: the normal interaction lane and both message
  lanes only drain, in order, and the only interactions that can still enter the reserved
  lane carry the tag \<open>Stopping\<close>.\<close>

theorem stopped_ingress_only_drains:
  "only_drained g (run_events ingress_step es (stop_accepting g))"
proof -
  have "only_drained g (stop_accepting g)"
    by (simp add: only_drained_def stop_accepting_def)
  then show ?thesis
    by (induction es rule: rev_induct) (simp_all add: run_events_append step_drained)
qed

section \<open>Identity\<close>

text \<open>The first READY identity is sticky and the first differing one is the conflict.
  Of a sequence of observed identities the tracker keeps the first for ever; it reports a
  conflict exactly when a later one differs from it, and then the earliest such one.\<close>

theorem identity_first_wins:
  "known_identity (fold observe_identity (first # later) identity_new) = Some first \<and>
   known_conflict (fold observe_identity (first # later) identity_new) =
     map_option (\<lambda>other. \<lparr> established = first, observed = other \<rparr>) (find (\<lambda>other. other \<noteq> first) later)"
proof -
  have kept: "known_identity (fold observe_identity xs s) = Some first \<and>
      known_conflict (fold observe_identity xs s) = known_conflict s"
    if "known_identity s = Some first" "known_conflict s \<noteq> None" for xs s
    using that by (induction xs arbitrary: s) (auto simp: observe_identity_def)
  have open_run: "known_identity (fold observe_identity xs s) = Some first \<and>
      known_conflict (fold observe_identity xs s) =
        map_option (\<lambda>other. \<lparr> established = first, observed = other \<rparr>) (find (\<lambda>other. other \<noteq> first) xs)"
    if "known_identity s = Some first" "known_conflict s = None" for xs s
    using that
  proof (induction xs arbitrary: s)
    case (Cons x xs)
    show ?case
    proof (cases "x = first")
      case True
      then show ?thesis using Cons by (simp add: observe_identity_def)
    next
      case False
      then show ?thesis
        using Cons.prems kept [of "observe_identity x s" xs]
        by (simp add: observe_identity_def [of x s])
    qed
  qed simp
  show ?thesis
    using open_run [of "observe_identity first identity_new" later]
    by (simp add: observe_identity_def identity_new_def)
qed

end
