(* ===== verification/Remote_Protocol.thy ===== *)
theory Remote_Protocol
  imports Hash_Map Rust_Str
begin

text \<open>
  The protocol between the remote gateway and a local bridge: \<open>cdr-core/src/validation.rs\<close>,
  the lifetimes of \<open>cdr-core/src/deadline.rs\<close>, and \<open>cdr-remote-protocol\<close>: the requests
  (\<open>request/*.rs\<close>, \<open>file_change.rs\<close>, \<open>identifiers.rs\<close>), the commands and results
  (\<open>message/*.rs\<close>) and the outputs (\<open>output/*.rs\<close>), each with its \<open>validate\<close>. The
  serde derivations are not modelled. The regular expressions of the source are fixed and
  anchored at both ends; the predicates below read them off. \<open>url::Url::parse\<close> is a parameter:
  the scheme and whether there is a host, or the parse error.
\<close>

section \<open>Validation (\<open>cdr-core\<close>)\<close>

record validation_error =
  ve_field :: rstr
  ve_message :: rstr

type_synonym validation = "(validation_error, unit) result"

definition validation_error_new :: "string \<Rightarrow> rstr \<Rightarrow> validation_error" where
  "validation_error_new field body = \<lparr> ve_field = lit field, ve_message = body \<rparr>"

abbreviation vfail :: "string \<Rightarrow> string \<Rightarrow> validation" where
  "vfail field body \<equiv> Inl (validation_error_new field (lit body))"

text \<open>\<open>a?; b\<close> and \<open>for x in xs { f(x)?; }\<close>.\<close>

definition vthen :: "validation \<Rightarrow> validation \<Rightarrow> validation" where
  "vthen a b = (case a of Inl e \<Rightarrow> Inl e | Inr _ \<Rightarrow> b)"

fun vfor :: "('a \<Rightarrow> validation) \<Rightarrow> 'a list \<Rightarrow> validation" where
  "vfor f [] = Inr ()"
| "vfor f (x # xs) = vthen (f x) (vfor f xs)"

definition vopt :: "('a \<Rightarrow> validation) \<Rightarrow> 'a option \<Rightarrow> validation" where
  "vopt f x = (case x of None \<Rightarrow> Inr () | Some v \<Rightarrow> f v)"

definition between_message :: "string \<Rightarrow> nat \<Rightarrow> nat \<Rightarrow> rstr" where
  "between_message prefix lo hi = lit prefix @ decimal lo @ lit '' and '' @ decimal hi"

definition vlength :: "string \<Rightarrow> rstr \<Rightarrow> nat \<Rightarrow> nat \<Rightarrow> validation" where
  "vlength field value lo hi =
     (if lo \<le> length value \<and> length value \<le> hi then Inr ()
      else Inl (validation_error_new field (between_message ''length must be between '' lo hi)))"

definition vcount :: "string \<Rightarrow> nat \<Rightarrow> nat \<Rightarrow> nat \<Rightarrow> validation" where
  "vcount field actual lo hi =
     (if lo \<le> actual \<and> actual \<le> hi then Inr ()
      else Inl (validation_error_new field (between_message ''item count must be between '' lo hi)))"

text \<open>\<open>range\<close> of \<open>request/core.rs\<close> and \<open>within\<close> of \<open>message/command.rs\<close>.\<close>

definition vrange :: "string \<Rightarrow> nat \<Rightarrow> nat \<Rightarrow> nat \<Rightarrow> validation" where
  "vrange field value lo hi =
     (if lo \<le> value \<and> value \<le> hi then Inr ()
      else Inl (validation_error_new field (between_message ''must be between '' lo hi)))"

definition DEFAULT_REQUEST_LIFETIME_SECONDS :: int where
  "DEFAULT_REQUEST_LIFETIME_SECONDS = 60"

definition TRANSPORT_GRACE_SECONDS :: int where
  "TRANSPORT_GRACE_SECONDS = 15"

definition MAX_COMMAND_RUN_SECONDS :: int where
  "MAX_COMMAND_RUN_SECONDS = 300"

definition MAX_TERMINAL_EXEC_SECONDS :: int where
  "MAX_TERMINAL_EXEC_SECONDS = 3600"

definition GIT_REQUEST_LIFETIME_SECONDS :: int where
  "GIT_REQUEST_LIFETIME_SECONDS = 120 + TRANSPORT_GRACE_SECONDS"

definition MAX_REQUEST_LIFETIME_SECONDS :: int where
  "MAX_REQUEST_LIFETIME_SECONDS = MAX_TERMINAL_EXEC_SECONDS + TRANSPORT_GRACE_SECONDS"

definition GATEWAY_REQUEST_TIMEOUT_SECONDS :: int where
  "GATEWAY_REQUEST_TIMEOUT_SECONDS = MAX_REQUEST_LIFETIME_SECONDS + 15"

section \<open>Identifiers\<close>

definition is_lower_hex :: "int \<Rightarrow> bool" where
  "is_lower_hex c = ((48 \<le> c \<and> c \<le> 57) \<or> (97 \<le> c \<and> c \<le> 102))"

definition is_alnum :: "int \<Rightarrow> bool" where
  "is_alnum c = ((48 \<le> c \<and> c \<le> 57) \<or> (65 \<le> c \<and> c \<le> 90) \<or> (97 \<le> c \<and> c \<le> 122))"

text \<open>\<open>^prefix[a-f0-9]{16}$\<close>\<close>

definition prefixed_hex16 :: "string \<Rightarrow> rstr \<Rightarrow> bool" where
  "prefixed_hex16 prefix s = (case strip_prefix (lit prefix) s of
     None \<Rightarrow> False | Some r \<Rightarrow> length r = 16 \<and> list_all is_lower_hex r)"

definition string_id :: "string \<Rightarrow> string \<Rightarrow> rstr \<Rightarrow> validation" where
  "string_id prefix field s = (if prefixed_hex16 prefix s then Inr () else vfail field ''invalid identifier'')"

definition terminal_id_validate :: "rstr \<Rightarrow> validation" where
  "terminal_id_validate = string_id ''term_'' ''terminal_id''"

definition terminal_receipt_id_validate :: "rstr \<Rightarrow> validation" where
  "terminal_receipt_id_validate = string_id ''tr_'' ''receipt_id''"

definition terminal_window_id_validate :: "rstr \<Rightarrow> validation" where
  "terminal_window_id_validate = string_id ''termwin_'' ''terminal_window_id''"

definition terminal_window_observation_id_validate :: "rstr \<Rightarrow> validation" where
  "terminal_window_observation_id_validate = string_id ''twobs_'' ''observation_id''"

definition terminal_window_receipt_id_validate :: "rstr \<Rightarrow> validation" where
  "terminal_window_receipt_id_validate = string_id ''twrcpt_'' ''receipt_id''"

text \<open>A byte above 127 is no hexadecimal digit, so the byte test is the test on characters.\<close>

definition validate_sha256 :: "string \<Rightarrow> rstr \<Rightarrow> validation" where
  "validate_sha256 field value =
     (if byte_len value = 64 \<and> list_all is_lower_hex value then Inr ()
      else vfail field ''must be 64 lowercase hexadecimal characters'')"

definition match_id :: "string \<Rightarrow> rstr \<Rightarrow> (rstr \<Rightarrow> bool) \<Rightarrow> validation" where
  "match_id field value matches = (if matches value then Inr () else vfail field ''invalid value'')"

text \<open>\<open>^[A-Za-z0-9._-]+$\<close> and \<open>^[A-Za-z0-9][A-Za-z0-9._/-]*$\<close>\<close>

definition remote_pattern :: "rstr \<Rightarrow> bool" where
  "remote_pattern s = (s \<noteq> [] \<and> list_all (\<lambda>c. is_alnum c \<or> c \<in> {46, 95, 45}) s)"

definition branch_pattern :: "rstr \<Rightarrow> bool" where
  "branch_pattern s = (case s of [] \<Rightarrow> False
     | c # r \<Rightarrow> is_alnum c \<and> list_all (\<lambda>c. is_alnum c \<or> c \<in> {46, 95, 47, 45}) r)"

definition validate_git_target :: "rstr \<Rightarrow> rstr option \<Rightarrow> validation" where
  "validate_git_target remote branch =
     vthen (match_id ''remote'' remote remote_pattern)
       (vopt (\<lambda>b. vthen (vlength ''branch'' b 0 250) (match_id ''branch'' b branch_pattern)) branch)"

section \<open>File changes\<close>

datatype file_change_action = FcCreate | FcUpdate | FcDelete | FcMove

record file_change =
  fc_action :: file_change_action
  fc_path :: rstr
  fc_content :: "rstr option"
  fc_destination :: "rstr option"
  fc_expected_sha256 :: "rstr option"

text \<open>The guarded arms in the order of the source.\<close>

definition file_change_shape :: "file_change \<Rightarrow> validation" where
  "file_change_shape c =
     (let a = fc_action c in
      if a = FcCreate \<and> fc_content c = None then vfail ''content'' ''create requires content''
      else if a = FcUpdate \<and> fc_content c = None then vfail ''content'' ''update requires content''
      else if a \<in> {FcUpdate, FcDelete, FcMove} \<and> fc_expected_sha256 c = None
        then vfail ''expected_sha256'' ''operation requires expected_sha256''
      else if a = FcMove \<and> fc_destination c = None then vfail ''destination'' ''move requires destination''
      else if a = FcCreate \<and> fc_expected_sha256 c \<noteq> None
        then vfail ''expected_sha256'' ''create does not accept expected_sha256''
      else if a = FcDelete \<and> fc_content c \<noteq> None then vfail ''content'' ''delete does not accept content''
      else Inr ())"

definition file_change_validate :: "file_change \<Rightarrow> validation" where
  "file_change_validate c =
     vthen (vlength ''path'' (fc_path c) 1 1000)
    (vthen (vopt (\<lambda>v. vlength ''content'' v 0 1048576) (fc_content c))
    (vthen (vopt (\<lambda>v. vlength ''destination'' v 1 1000) (fc_destination c))
    (vthen (vopt (validate_sha256 ''expected_sha256'') (fc_expected_sha256 c))
    (vthen (file_change_shape c)
      (if fc_action c \<noteq> FcMove \<and> fc_destination c \<noteq> None
       then vfail ''destination'' ''destination is only valid for move'' else Inr ())))))"

definition content_size :: "file_change list \<Rightarrow> nat" where
  "content_size changes = sum_list (map (\<lambda>c. case fc_content c of None \<Rightarrow> 0 | Some v \<Rightarrow> byte_len v) changes)"

definition file_apply_patch_validate :: "file_change list \<Rightarrow> validation" where
  "file_apply_patch_validate changes =
     vthen (vcount ''changes'' (length changes) 1 200)
    (vthen (vfor file_change_validate changes)
      (if content_size changes > 10485760
       then vfail ''changes'' ''combined file change content exceeds 10 MiB'' else Inr ()))"

section \<open>Requests\<close>

datatype core_request =
  ReqProjectRules
| ReqProjectStatus
| ReqCodeSearch (search_query: rstr) (search_max_results: nat)
| ReqFileApplyPatch "file_change list"
| ReqFileCreate (create_path: rstr) (create_content: rstr) (create_overwrite: bool)
| ReqCommandList
| ReqCommandRun (run_command_id: rstr) (run_timeout_seconds: nat)
| ReqRepoStatus
| ReqRepoDiff
| ReqGitCommit (commit_message: rstr) (commit_paths: "rstr list")
| ReqGitPush (push_remote: rstr) (push_branch: "rstr option")
| ReqSaveImage (save_path: rstr) (save_data_base64: rstr) (save_overwrite: bool)
| ReqSaveImageFromUrl (url_path: rstr) (url_url: rstr) (url_overwrite: bool)
| ReqListImages
| ReqRetrieveImage (retrieve_path: rstr)
| ReqCheckpointList
| ReqCheckpointShow rstr
| ReqCheckpointRestore rstr

type_synonym url_parser = "rstr \<Rightarrow> (rstr, rstr \<times> bool) result"

definition validate_url :: "url_parser \<Rightarrow> rstr \<Rightarrow> validation" where
  "validate_url url_parse url = (case url_parse url of
     Inl err \<Rightarrow> Inl (validation_error_new ''url'' err)
   | Inr (scheme, has_host) \<Rightarrow>
       if (scheme = lit ''http'' \<or> scheme = lit ''https'') \<and> has_host then Inr ()
       else vfail ''url'' ''must be an HTTP or HTTPS URL'')"

definition usize_max :: nat where
  "usize_max = u64_max"

definition core_request_validate :: "url_parser \<Rightarrow> core_request \<Rightarrow> validation" where
  "core_request_validate url_parse r = (case r of
     ReqCodeSearch query max_results \<Rightarrow>
       vthen (vlength ''query'' query 1 500) (vrange ''max_results'' max_results 1 200)
   | ReqFileApplyPatch changes \<Rightarrow> file_apply_patch_validate changes
   | ReqFileCreate path content _ \<Rightarrow>
       vthen (vlength ''path'' path 1 1000) (vlength ''content'' content 0 1048576)
   | ReqCommandRun command_id timeout_seconds \<Rightarrow>
       vthen (vlength ''command_id'' command_id 1 300) (vrange ''timeout_seconds'' timeout_seconds 1 300)
   | ReqGitCommit body paths \<Rightarrow>
       vthen (vlength ''message'' body 1 500)
         (vthen (vcount ''paths'' (length paths) 1 200)
           (vfor (\<lambda>path. vlength ''paths'' path 0 usize_max) paths))
   | ReqGitPush remote branch \<Rightarrow> validate_git_target remote branch
   | ReqSaveImage path data_base64 _ \<Rightarrow>
       vthen (vlength ''path'' path 1 1000) (vlength ''data_base64'' data_base64 4 7000000)
   | ReqSaveImageFromUrl path url _ \<Rightarrow>
       vthen (vlength ''path'' path 1 1000) (validate_url url_parse url)
   | ReqRetrieveImage path \<Rightarrow> vlength ''path'' path 1 1000
   | ReqCheckpointShow checkpoint_id \<Rightarrow> match_id ''checkpoint_id'' checkpoint_id (prefixed_hex16 ''cp_'')
   | ReqCheckpointRestore checkpoint_id \<Rightarrow> match_id ''checkpoint_id'' checkpoint_id (prefixed_hex16 ''cp_'')
   | _ \<Rightarrow> Inr ())"

datatype computer_app = Chrome | Notepad
datatype computer_mouse_button = MouseLeft | MouseRight | MouseMiddle

record observed_window =
  ow_window_id :: nat
  ow_observation_id :: rstr

datatype computer_request =
  ComputerListWindows
| ComputerActivate nat
| ComputerLaunch computer_app
| ComputerScreenshot nat
| ComputerClick observed_window (click_x: nat) (click_y: nat) (click_button: computer_mouse_button) (click_count: nat)
| ComputerDrag observed_window (start_x: nat) (start_y: nat) (end_x: nat) (end_y: nat)
| ComputerScroll observed_window (scroll_x: nat) (scroll_y: nat) (delta_x: int) (delta_y: int)
| ComputerTypeText observed_window rstr
| ComputerPressKeys observed_window "rstr list"
| ComputerClose observed_window
| ComputerSetClipboard observed_window rstr
| ComputerStop

definition positive_window :: "nat \<Rightarrow> validation" where
  "positive_window value = (if value > 0 then Inr () else vfail ''window_id'' ''must be positive'')"

definition observed_validate :: "observed_window \<Rightarrow> validation" where
  "observed_validate w =
     vthen (positive_window (ow_window_id w)) (vlength ''observation_id'' (ow_observation_id w) 8 100)"

definition coordinate :: "string \<Rightarrow> nat \<Rightarrow> validation" where
  "coordinate field value = (if value \<le> 100000 then Inr () else vfail field ''must not exceed 100000'')"

definition scroll_delta :: "int \<Rightarrow> int \<Rightarrow> validation" where
  "scroll_delta dx dy =
     (if \<not> (-10000 \<le> dx \<and> dx \<le> 10000) \<or> \<not> (-10000 \<le> dy \<and> dy \<le> 10000)
      then vfail ''delta'' ''must be between -10000 and 10000''
      else if dx = 0 \<and> dy = 0 then vfail ''delta'' ''A non-zero scroll amount is required.''
      else Inr ())"

definition computer_request_validate :: "computer_request \<Rightarrow> validation" where
  "computer_request_validate r = (case r of
     ComputerActivate window_id \<Rightarrow> positive_window window_id
   | ComputerScreenshot window_id \<Rightarrow> positive_window window_id
   | ComputerClick w x y _ clicks \<Rightarrow>
       vthen (observed_validate w) (vthen (coordinate ''x'' x) (vthen (coordinate ''y'' y)
         (if 1 \<le> clicks \<and> clicks \<le> 3 then Inr () else vfail ''click_count'' ''must be between 1 and 3'')))
   | ComputerDrag w sx sy ex ey \<Rightarrow>
       vthen (observed_validate w) (vfor (\<lambda>(field, value). coordinate field value)
         [(''start_x'', sx), (''start_y'', sy), (''end_x'', ex), (''end_y'', ey)])
   | ComputerScroll w x y dx dy \<Rightarrow>
       vthen (observed_validate w) (vthen (coordinate ''x'' x) (vthen (coordinate ''y'' y) (scroll_delta dx dy)))
   | ComputerTypeText w body \<Rightarrow> vthen (observed_validate w) (vlength ''text'' body 1 4096)
   | ComputerPressKeys w keys \<Rightarrow> vthen (observed_validate w) (vcount ''keys'' (length keys) 1 4)
   | ComputerClose w \<Rightarrow> observed_validate w
   | ComputerSetClipboard w body \<Rightarrow> vthen (observed_validate w) (vlength ''text'' body 0 100000)
   | _ \<Rightarrow> Inr ())"

datatype terminal_shell = ShAuto | ShPowershell | ShCmd | ShSh | ShBash
datatype terminal_window_shell = WshPowershell | WshCmd

record terminal_exec_request =
  tx_terminal_id :: "rstr option"
  tx_shell :: terminal_shell
  tx_command :: rstr
  tx_cwd :: "rstr option"
  tx_environment :: "(rstr, rstr) hmap"
  tx_timeout_seconds :: nat
  tx_cancel_previous :: bool

datatype terminal_request =
  TerminalExec terminal_exec_request
| TerminalWindowOpen terminal_window_shell "rstr option"
| TerminalWindowList
| TerminalWindowClose rstr
| TerminalWindowCapture rstr
| TerminalWindowActivate rstr
| TerminalWindowType rstr rstr rstr
| TerminalWindowKeys rstr rstr "rstr list"
| TerminalWindowInterrupt rstr rstr

definition environment_entry_validate :: "rstr \<times> rstr \<Rightarrow> validation" where
  "environment_entry_validate e = (case e of (name, value) \<Rightarrow>
     vthen (vlength ''environment.name'' name 1 1024)
    (vthen (if 61 \<in> set name \<or> 0 \<in> set name
            then Inl (validation_error_new ''environment.name''
              (lit ''must not contain '' @ [39, 61, 39] @ lit '' or NUL'')) else Inr ())
    (vthen (vlength ''environment.value'' value 0 32767)
      (if 0 \<in> set value then vfail ''environment.value'' ''must not contain NUL'' else Inr ()))))"

definition terminal_exec_validate :: "terminal_exec_request \<Rightarrow> validation" where
  "terminal_exec_validate t =
     vthen (vopt terminal_id_validate (tx_terminal_id t))
    (vthen (vlength ''command'' (tx_command t) 1 32768)
    (vthen (vopt (\<lambda>cwd. vlength ''cwd'' cwd 1 1000) (tx_cwd t))
    (vthen (vcount ''environment'' (hm_len (tx_environment t)) 0 100)
    (vthen (vfor environment_entry_validate (tx_environment t))
      (if \<not> (1 \<le> tx_timeout_seconds t \<and> tx_timeout_seconds t \<le> 3600)
       then vfail ''timeout_seconds'' ''must be between 1 and 3600'' else Inr ())))))"

definition terminal_request_validate :: "terminal_request \<Rightarrow> validation" where
  "terminal_request_validate r = (case r of
     TerminalExec t \<Rightarrow> terminal_exec_validate t
   | TerminalWindowOpen _ cwd \<Rightarrow> vopt (\<lambda>c. vlength ''cwd'' c 1 1000) cwd
   | TerminalWindowList \<Rightarrow> Inr ()
   | TerminalWindowClose w \<Rightarrow> terminal_window_id_validate w
   | TerminalWindowCapture w \<Rightarrow> terminal_window_id_validate w
   | TerminalWindowActivate w \<Rightarrow> terminal_window_id_validate w
   | TerminalWindowType w obs body \<Rightarrow>
       vthen (terminal_window_id_validate w) (vthen (terminal_window_observation_id_validate obs)
         (vlength ''text'' body 1 4096))
   | TerminalWindowKeys w obs keys \<Rightarrow>
       vthen (terminal_window_id_validate w) (vthen (terminal_window_observation_id_validate obs)
         (vthen (vcount ''keys'' (length keys) 1 4) (vfor (\<lambda>key. vlength ''keys'' key 1 20) keys)))
   | TerminalWindowInterrupt w obs \<Rightarrow>
       vthen (terminal_window_id_validate w) (terminal_window_observation_id_validate obs))"

datatype project_operation =
  OpCore core_request
| OpComputer computer_request
| OpTerminal terminal_request

definition project_operation_validate :: "url_parser \<Rightarrow> project_operation \<Rightarrow> validation" where
  "project_operation_validate url_parse op' = (case op' of
     OpCore r \<Rightarrow> core_request_validate url_parse r
   | OpComputer r \<Rightarrow> computer_request_validate r
   | OpTerminal r \<Rightarrow> terminal_request_validate r)"

definition request_lifetime_seconds :: "project_operation \<Rightarrow> int" where
  "request_lifetime_seconds op' = (case op' of
     OpCore (ReqCommandRun _ timeout_seconds) \<Rightarrow> int timeout_seconds + TRANSPORT_GRACE_SECONDS
   | OpTerminal (TerminalExec t) \<Rightarrow> int (tx_timeout_seconds t) + TRANSPORT_GRACE_SECONDS
   | OpCore (ReqGitPush _ _) \<Rightarrow> 300 + TRANSPORT_GRACE_SECONDS
   | OpCore ReqRepoStatus \<Rightarrow> GIT_REQUEST_LIFETIME_SECONDS
   | OpCore ReqRepoDiff \<Rightarrow> GIT_REQUEST_LIFETIME_SECONDS
   | OpCore (ReqGitCommit _ _) \<Rightarrow> GIT_REQUEST_LIFETIME_SECONDS
   | OpCore ReqProjectStatus \<Rightarrow> GIT_REQUEST_LIFETIME_SECONDS
   | _ \<Rightarrow> DEFAULT_REQUEST_LIFETIME_SECONDS)"

text \<open>\<open>now\<close> is \<open>Utc::now()\<close> in seconds.\<close>

definition request_deadline :: "int \<Rightarrow> project_operation \<Rightarrow> int" where
  "request_deadline now op' = now + request_lifetime_seconds op'"

definition default_request_deadline :: "int \<Rightarrow> int" where
  "default_request_deadline now = now + DEFAULT_REQUEST_LIFETIME_SECONDS"

section \<open>Commands\<close>

text \<open>The fields every command starts with; \<open>ch_session\<close> is \<open>computer_session_id\<close>.\<close>

record command_head =
  ch_request_id :: rstr
  ch_thread_id :: rstr
  ch_deadline_at :: int
  ch_session :: "rstr option"

datatype gateway_command =
  ProjectInfo command_head
| ListFiles command_head (list_pattern: rstr) (list_limit: nat)
| ReadFile command_head (read_path: rstr) (read_start_line: nat) (read_max_lines: nat)
| WriteFile command_head (write_path: rstr) (write_content: rstr) (write_expected_sha256: "rstr option")
| ProjectOperation command_head project_operation
| ProjectSession command_head (project_session_generation: nat)
| DeviceSession command_head (device_session_generation: nat) (device_directory: rstr) (device_expires_at: int)

fun command_head_of :: "gateway_command \<Rightarrow> command_head" where
  "command_head_of (ProjectInfo h) = h"
| "command_head_of (ListFiles h _ _) = h"
| "command_head_of (ReadFile h _ _ _) = h"
| "command_head_of (WriteFile h _ _ _) = h"
| "command_head_of (ProjectOperation h _) = h"
| "command_head_of (ProjectSession h _) = h"
| "command_head_of (DeviceSession h _ _ _) = h"

definition command_request_id :: "gateway_command \<Rightarrow> rstr" where
  "command_request_id c = ch_request_id (command_head_of c)"

definition command_session_id :: "gateway_command \<Rightarrow> rstr option" where
  "command_session_id c = ch_session (command_head_of c)"

definition command_validate :: "url_parser \<Rightarrow> gateway_command \<Rightarrow> validation" where
  "command_validate url_parse c =
     vthen (vopt (\<lambda>session. vlength ''computer_session_id'' session 16 64) (command_session_id c))
     (case c of
        ListFiles _ pattern limit \<Rightarrow>
          vthen (vlength ''pattern'' pattern 1 500) (vrange ''limit'' limit 1 500)
      | ReadFile _ path start_line max_lines \<Rightarrow>
          vthen (vlength ''path'' path 1 1000) (vthen (vrange ''start_line'' start_line 1 u64_max)
            (vrange ''max_lines'' max_lines 1 500))
      | WriteFile _ path content expected_sha256 \<Rightarrow>
          vthen (vlength ''path'' path 1 1000) (vthen (vlength ''content'' content 0 1048576)
            (vopt (\<lambda>value. vlength ''expected_sha256'' value 64 64) expected_sha256))
      | ProjectOperation _ operation \<Rightarrow> project_operation_validate url_parse operation
      | ProjectSession _ generation \<Rightarrow> vrange ''computer_session_generation'' generation 1 u64_max
      | DeviceSession _ generation working_directory _ \<Rightarrow>
          vthen (vrange ''computer_session_generation'' generation 1 u64_max)
            (vlength ''working_directory'' working_directory 1 1000)
      | ProjectInfo _ \<Rightarrow> Inr ())"

section \<open>Outputs\<close>

record file_entry =
  fe_path :: rstr
  fe_size_bytes :: nat

record read_file_output =
  rf_path :: rstr
  rf_content :: rstr
  rf_sha256 :: rstr
  rf_start_line :: nat
  rf_end_line :: nat
  rf_total_lines :: nat
  rf_truncated :: bool
  rf_redacted :: bool

definition read_file_output_validate :: "read_file_output \<Rightarrow> validation" where
  "read_file_output_validate o' =
     (if rf_start_line o' = 0 then vfail ''start_line'' ''must be at least 1'' else Inr ())"

record write_file_output =
  wf_path :: rstr
  wf_sha256 :: rstr
  wf_bytes_written :: nat
  wf_created :: bool

definition write_file_output_validate :: "write_file_output \<Rightarrow> validation" where
  "write_file_output_validate o' = vlength ''sha256'' (wf_sha256 o') 0 usize_max"

record rule_file =
  rule_path :: rstr
  rule_content :: rstr

datatype patch_action = PaAdd | PaUpdate | PaDelete | PaMove

record patch_entry =
  pe_path :: rstr
  pe_action :: patch_action
  pe_destination :: "rstr option"
  pe_added_lines :: nat
  pe_removed_lines :: nat

datatype risk_tier = RiskRead | RiskVerify | RiskNetwork | RiskDestructive

record command_descriptor =
  cd_command_id :: rstr
  cd_display :: rstr
  cd_source :: rstr
  cd_risk_tier :: risk_tier

record diff_file =
  df_path :: rstr
  df_added :: nat
  df_removed :: nat

record image_entry =
  ie_path :: rstr
  ie_media_type :: rstr
  ie_size_bytes :: nat

record checkpoint_entry =
  ce_checkpoint_id :: rstr
  ce_created_at :: rstr
  ce_reason :: rstr

record search_match =
  sm_path :: rstr
  sm_line :: nat
  sm_snippet :: rstr

record repo_status_output =
  ro_branch :: rstr
  ro_dirty_files :: "rstr list"
  ro_staged_files :: "rstr list"
  ro_remotes :: "rstr list"
  ro_upstream :: "rstr option"
  ro_ahead :: nat
  ro_behind :: nat

record command_run_output =
  co_command_id :: rstr
  co_exit_code :: int
  co_stdout :: rstr
  co_stderr :: rstr
  co_duration_ms :: nat
  co_truncated :: bool

datatype core_output =
  OutProjectRules "rule_file list"
| OutProjectStatus (status_branch: rstr) (status_dirty_files: "rstr list") (status_staged_files: "rstr list")
    (status_rule_files: "rstr list") (status_command_ids: "rstr list")
| OutCodeSearch "search_match list"
| OutFileApplyPatch "patch_entry list" rstr
| OutFileCreate (created_path: rstr) (created_sha256: rstr) (created_bytes_written: nat) (created_checkpoint_id: rstr)
| OutCommandList "command_descriptor list"
| OutCommandRun command_run_output
| OutRepoStatus repo_status_output
| OutRepoDiff "diff_file list" (diff_summary: rstr) (diff_patch: rstr) (diff_truncated: bool)
| OutGitCommit (commit_id: rstr) (commit_branch: rstr) (commit_staged_files: "rstr list")
| OutGitPush (pushed_remote: rstr) (pushed_branch: rstr) (push_output: rstr)
| OutImageSave image_entry rstr
| OutImageList "image_entry list"
| OutImageRetrieve image_entry (image_data_base64: rstr)
| OutCheckpointList "checkpoint_entry list"
| OutCheckpointShow checkpoint_entry rstr
| OutCheckpointRestore rstr "rstr list"

definition core_output_validate :: "core_output \<Rightarrow> validation" where
  "core_output_validate o' = (case o' of
     OutCodeSearch matches \<Rightarrow>
       if list_ex (\<lambda>item. sm_line item = 0) matches then vfail ''line'' ''must be at least 1'' else Inr ()
   | OutImageRetrieve _ data_base64 \<Rightarrow> vlength ''data_base64'' data_base64 0 usize_max
   | _ \<Rightarrow> Inr ())"

record computer_window_entry =
  cw_window_id :: nat
  cw_title :: rstr
  cw_process_name :: rstr
  cw_left :: int
  cw_top :: int
  cw_width :: nat
  cw_height :: nat
  cw_active :: bool

definition computer_window_validate :: "computer_window_entry \<Rightarrow> validation" where
  "computer_window_validate w =
     (if cw_window_id w = 0 \<or> cw_width w = 0 \<or> cw_height w = 0
      then vfail ''window'' ''window id and dimensions must be positive'' else Inr ())"

datatype computer_action_name =
  ActActivate | ActLaunch | ActClick | ActDrag | ActScroll | ActTypeText | ActPressKeys | ActClose | ActSetClipboard

datatype computer_output =
  OutComputerWindows "computer_window_entry list"
| OutComputerScreenshot rstr computer_window_entry rstr
| OutComputerAction computer_action_name "nat option" rstr
| OutComputerStop bool rstr

definition computer_output_validate :: "computer_output \<Rightarrow> validation" where
  "computer_output_validate o' = (case o' of
     OutComputerWindows windows \<Rightarrow> vfor computer_window_validate windows
   | OutComputerScreenshot observation_id window data_base64 \<Rightarrow>
       vthen (vlength ''observation_id'' observation_id 8 100)
         (vthen (computer_window_validate window) (vlength ''data_base64'' data_base64 12 12000000))
   | OutComputerAction _ window_id _ \<Rightarrow>
       if window_id = Some 0 then vfail ''window_id'' ''must be positive'' else Inr ()
   | OutComputerStop stopped _ \<Rightarrow>
       if stopped then Inr () else vfail ''stopped'' ''must be true'')"

datatype terminal_cwd_scope = ProjectRoot | ProjectRelative | ExternalAbsolute

record terminal_execution_receipt =
  tr_receipt_id :: rstr
  tr_terminal_id :: rstr
  tr_command_digest :: rstr
  tr_shell :: terminal_shell
  tr_cwd_scope :: terminal_cwd_scope
  tr_exit_code :: "int option"
  tr_stdout_bytes :: nat
  tr_stderr_bytes :: nat
  tr_duration_ms :: nat
  tr_timed_out :: bool
  tr_cancelled :: bool
  tr_truncated :: bool

definition execution_receipt_validate :: "terminal_execution_receipt \<Rightarrow> validation" where
  "execution_receipt_validate r =
     vthen (terminal_receipt_id_validate (tr_receipt_id r))
    (vthen (terminal_id_validate (tr_terminal_id r))
    (vthen (validate_sha256 ''command_digest'' (tr_command_digest r))
      (if tr_timed_out r \<and> tr_cancelled r
       then vfail ''outcome'' ''terminal execution cannot be timed out and cancelled''
       else if tr_exit_code r = None \<and> \<not> (tr_timed_out r \<or> tr_cancelled r)
       then vfail ''exit_code'' ''terminal execution without an exit code needs a stop reason''
       else Inr ())))"

record terminal_window_entry =
  tw_terminal_window_id :: rstr
  tw_window_id :: nat
  tw_process_id :: nat
  tw_shell :: terminal_window_shell
  tw_cwd :: rstr
  tw_title :: rstr
  tw_running :: bool

definition terminal_window_validate :: "terminal_window_entry \<Rightarrow> validation" where
  "terminal_window_validate w =
     vthen (terminal_window_id_validate (tw_terminal_window_id w))
    (vthen (if tw_window_id w = 0 \<or> tw_process_id w = 0
            then vfail ''window'' ''window and process IDs must be positive'' else Inr ())
    (vthen (vlength ''cwd'' (tw_cwd w) 1 1000)
    (vthen (vlength ''title'' (tw_title w) 1 500)
      (if tw_running w then Inr () else vfail ''running'' ''must be true''))))"

record terminal_window_rect =
  rc_left :: int
  rc_top :: int
  rc_width :: nat
  rc_height :: nat

definition window_rect_validate :: "terminal_window_rect \<Rightarrow> validation" where
  "window_rect_validate r =
     (if 0 < rc_width r \<and> 0 < rc_height r then Inr () else vfail ''rect'' ''dimensions must be positive'')"

datatype terminal_window_action = WaActivate | WaType | WaKeys | WaInterrupt

record terminal_window_action_receipt =
  ar_receipt_id :: rstr
  ar_terminal_window_id :: rstr
  ar_observation_id :: "rstr option"
  ar_identity_digest :: rstr
  ar_action :: terminal_window_action
  ar_unicode_chars :: nat
  ar_keys :: "rstr list"
  ar_activated :: bool
  ar_completed_at :: int

definition action_receipt_consistent :: "terminal_window_action_receipt \<Rightarrow> bool" where
  "action_receipt_consistent r = (case ar_action r of
     WaActivate \<Rightarrow> ar_observation_id r = None \<and> ar_unicode_chars r = 0 \<and> ar_keys r = []
   | WaType \<Rightarrow> ar_observation_id r \<noteq> None \<and> ar_unicode_chars r > 0 \<and> ar_keys r = []
   | WaKeys \<Rightarrow> ar_observation_id r \<noteq> None \<and> ar_unicode_chars r = 0 \<and> ar_keys r \<noteq> []
   | WaInterrupt \<Rightarrow> ar_observation_id r \<noteq> None \<and> ar_unicode_chars r = 0 \<and>
       ar_keys r = [lit ''CTRL'', lit ''C''])"

definition action_receipt_validate :: "terminal_window_action_receipt \<Rightarrow> validation" where
  "action_receipt_validate r =
     vthen (terminal_window_receipt_id_validate (ar_receipt_id r))
    (vthen (terminal_window_id_validate (ar_terminal_window_id r))
    (vthen (vopt terminal_window_observation_id_validate (ar_observation_id r))
    (vthen (validate_sha256 ''identity_digest'' (ar_identity_digest r))
    (vthen (if ar_unicode_chars r > 4096 then vfail ''unicode_chars'' ''must not exceed 4096'' else Inr ())
    (vthen (vcount ''keys'' (length (ar_keys r)) 0 4)
    (vthen (vfor (\<lambda>key. vlength ''keys'' key 1 20) (ar_keys r))
      (if action_receipt_consistent r then Inr ()
       else vfail ''action'' ''terminal window action receipt fields are inconsistent'')))))))"

record terminal_exec_output =
  te_terminal_id :: rstr
  te_process_id :: nat
  te_exit_code :: "int option"
  te_stdout :: rstr
  te_stderr :: rstr
  te_cwd :: rstr
  te_duration_ms :: nat
  te_timed_out :: bool
  te_cancelled :: bool
  te_truncated :: bool
  te_receipt :: terminal_execution_receipt

definition terminal_exec_output_validate :: "terminal_exec_output \<Rightarrow> validation" where
  "terminal_exec_output_validate o' =
     vthen (terminal_id_validate (te_terminal_id o'))
    (vthen (if te_process_id o' = 0 then vfail ''process_id'' ''must be positive'' else Inr ())
    (vthen (vlength ''stdout'' (te_stdout o') 0 1048576)
    (vthen (vlength ''stderr'' (te_stderr o') 0 1048576)
    (vthen (vlength ''cwd'' (te_cwd o') 1 1000)
    (vthen (execution_receipt_validate (te_receipt o'))
      (let r = te_receipt o' in
       if tr_terminal_id r \<noteq> te_terminal_id o' \<or> tr_exit_code r \<noteq> te_exit_code o' \<or>
          tr_duration_ms r \<noteq> te_duration_ms o' \<or> tr_timed_out r \<noteq> te_timed_out o' \<or>
          tr_cancelled r \<noteq> te_cancelled o' \<or> tr_truncated r \<noteq> te_truncated o'
       then vfail ''receipt'' ''terminal output and receipt fields must match'' else Inr ()))))))"

datatype terminal_output =
  OutTerminalExec terminal_exec_output
| OutTerminalWindowOpen terminal_window_entry
| OutTerminalWindowList "terminal_window_entry list"
| OutTerminalWindowClose rstr bool
| OutTerminalWindowCapture terminal_window_entry rstr rstr terminal_window_rect rstr int
| OutTerminalWindowAction terminal_window_entry terminal_window_action_receipt

definition terminal_output_validate :: "terminal_output \<Rightarrow> validation" where
  "terminal_output_validate o' = (case o' of
     OutTerminalExec t \<Rightarrow> terminal_exec_output_validate t
   | OutTerminalWindowOpen window \<Rightarrow> terminal_window_validate window
   | OutTerminalWindowList windows \<Rightarrow> vfor terminal_window_validate windows
   | OutTerminalWindowClose terminal_window_id closed \<Rightarrow>
       vthen (terminal_window_id_validate terminal_window_id)
         (if closed then Inr () else vfail ''closed'' ''must be true'')
   | OutTerminalWindowCapture window observation_id identity_digest rect data_base64 _ \<Rightarrow>
       vthen (terminal_window_validate window)
      (vthen (terminal_window_observation_id_validate observation_id)
      (vthen (validate_sha256 ''identity_digest'' identity_digest)
      (vthen (window_rect_validate rect) (vlength ''data_base64'' data_base64 12 12000000))))
   | OutTerminalWindowAction window receipt \<Rightarrow>
       vthen (terminal_window_validate window)
      (vthen (action_receipt_validate receipt)
        (if tw_terminal_window_id window = ar_terminal_window_id receipt then Inr ()
         else vfail ''receipt'' ''terminal window receipt identity does not match output'')))"

datatype project_operation_output =
  OutCore core_output
| OutComputer computer_output
| OutTerminal terminal_output

definition operation_output_validate :: "project_operation_output \<Rightarrow> validation" where
  "operation_output_validate o' = (case o' of
     OutCore v \<Rightarrow> core_output_validate v
   | OutComputer v \<Rightarrow> computer_output_validate v
   | OutTerminal v \<Rightarrow> terminal_output_validate v)"

section \<open>Results and envelopes\<close>

datatype bridge_result =
  ProjectInfoResult rstr (info_root: rstr) (info_thread_id: rstr)
| ListFilesResult rstr "file_entry list" bool
| ReadFileResult rstr read_file_output
| WriteFileResult rstr write_file_output
| ProjectOperationResult rstr project_operation_output
| ProjectSessionResult rstr
| OperationError rstr (error_code: rstr) (error_message: rstr)

definition bridge_result_validate :: "bridge_result \<Rightarrow> validation" where
  "bridge_result_validate r = (case r of
     ReadFileResult _ o' \<Rightarrow> read_file_output_validate o'
   | WriteFileResult _ o' \<Rightarrow> write_file_output_validate o'
   | ProjectOperationResult _ o' \<Rightarrow> operation_output_validate o'
   | OperationError _ code body \<Rightarrow> vthen (vlength ''error_code'' code 1 100) (vlength ''message'' body 1 1000)
   | _ \<Rightarrow> Inr ())"

definition PROTOCOL_VERSION :: nat where
  "PROTOCOL_VERSION = 10"

datatype bridge_inbound_message =
  Hello rstr
| ProjectUpsert (upsert_project_scope: rstr) (upsert_binding_id: rstr) (upsert_thread_id: rstr)
    (upsert_project_name: rstr) (upsert_expires_at: int)
| ResultMessage bridge_result

definition bridge_message_validate :: "bridge_inbound_message \<Rightarrow> validation" where
  "bridge_message_validate m = (case m of
     Hello _ \<Rightarrow> Inr ()
   | ProjectUpsert project_scope binding_id _ project_name _ \<Rightarrow>
       vthen (vlength ''project_scope'' project_scope 12 200)
         (vthen (vlength ''binding_id'' binding_id 16 64) (vlength ''project_name'' project_name 1 200))
   | ResultMessage result \<Rightarrow> bridge_result_validate result)"

datatype gateway_inbound_message =
  HelloAck
| ProjectAck rstr (ack_binding_id: rstr)
| CommandMessage gateway_command

definition gateway_message_validate :: "url_parser \<Rightarrow> gateway_inbound_message \<Rightarrow> validation" where
  "gateway_message_validate url_parse m = (case m of
     HelloAck \<Rightarrow> Inr ()
   | ProjectAck _ binding_id \<Rightarrow> vlength ''binding_id'' binding_id 16 64
   | CommandMessage command \<Rightarrow> command_validate url_parse command)"

section \<open>What validation establishes\<close>

lemma vthen_ok [simp]: "vthen a b = Inr u \<longleftrightarrow> a = Inr () \<and> b = Inr ()"
  by (cases a) (simp_all add: vthen_def)

lemma vfor_ok [simp]: "vfor f xs = Inr u \<longleftrightarrow> (\<forall>x \<in> set xs. f x = Inr ())"
  by (induction xs) auto

lemma vopt_ok [simp]: "vopt f x = Inr u \<longleftrightarrow> (\<forall>v. x = Some v \<longrightarrow> f v = Inr ())"
  by (cases x) (simp_all add: vopt_def)

lemma vlength_ok [simp]: "vlength field value lo hi = Inr u \<longleftrightarrow> lo \<le> length value \<and> length value \<le> hi"
  by (simp add: vlength_def)

lemma vcount_ok [simp]: "vcount field n lo hi = Inr u \<longleftrightarrow> lo \<le> n \<and> n \<le> hi"
  by (simp add: vcount_def)

lemma vrange_ok [simp]: "vrange field n lo hi = Inr u \<longleftrightarrow> lo \<le> n \<and> n \<le> hi"
  by (simp add: vrange_def)

lemma string_id_ok [simp]: "string_id p field s = Inr u \<longleftrightarrow> prefixed_hex16 p s"
  by (simp add: string_id_def)

lemmas id_validate_defs = terminal_id_validate_def terminal_receipt_id_validate_def
  terminal_window_id_validate_def terminal_window_observation_id_validate_def
  terminal_window_receipt_id_validate_def

lemma is_lower_hex_width: "is_lower_hex c \<Longrightarrow> utf8_width c = 1"
  by (auto simp: is_lower_hex_def utf8_width_def)

lemma byte_len_hex: "list_all is_lower_hex s \<Longrightarrow> byte_len s = length s"
  by (induction s) (auto simp: byte_len_def is_lower_hex_width)

lemma validate_sha256_ok [simp]:
  "validate_sha256 field s = Inr u \<longleftrightarrow> length s = 64 \<and> list_all is_lower_hex s"
  by (auto simp: validate_sha256_def byte_len_hex)

text \<open>The shape each action requires, stated independently of the order of the checks.\<close>

definition file_change_spec :: "file_change \<Rightarrow> bool" where
  "file_change_spec c \<longleftrightarrow>
     1 \<le> length (fc_path c) \<and> length (fc_path c) \<le> 1000 \<and>
     (\<forall>v. fc_content c = Some v \<longrightarrow> length v \<le> 1048576) \<and>
     (\<forall>v. fc_destination c = Some v \<longrightarrow> 1 \<le> length v \<and> length v \<le> 1000) \<and>
     (\<forall>v. fc_expected_sha256 c = Some v \<longrightarrow> length v = 64 \<and> list_all is_lower_hex v) \<and>
     (fc_expected_sha256 c = None \<longleftrightarrow> fc_action c = FcCreate) \<and>
     (fc_destination c \<noteq> None \<longleftrightarrow> fc_action c = FcMove) \<and>
     (fc_action c \<in> {FcCreate, FcUpdate} \<longrightarrow> fc_content c \<noteq> None) \<and>
     (fc_action c = FcDelete \<longrightarrow> fc_content c = None)"

text \<open>C35: A file change is accepted exactly when it has the shape of its action: a digest of
  64 lowercase hexadecimal digits for everything but a creation, a destination for a move
  and only for it, content for a creation and an update, none for a deletion, and every
  text within its bound. The guarded arms of the source leave no combination open.\<close>

theorem file_change_accepts_exactly_its_shape:
  "file_change_validate c = Inr () \<longleftrightarrow> file_change_spec c"
  by (cases "fc_action c"; cases "fc_content c"; cases "fc_destination c"; cases "fc_expected_sha256 c")
    (auto simp: file_change_validate_def file_change_spec_def file_change_shape_def)

text \<open>A validated operation gets a lifetime longer than the transport grace and at most
  the maximum request lifetime, so the gateway's own timeout always outlives the deadline it
  put into the command.\<close>

theorem validated_lifetime_bounded:
  assumes "project_operation_validate url_parse op' = Inr ()"
  shows "TRANSPORT_GRACE_SECONDS < request_lifetime_seconds op' \<and>
     request_lifetime_seconds op' \<le> MAX_REQUEST_LIFETIME_SECONDS \<and>
     request_deadline now op' < now + GATEWAY_REQUEST_TIMEOUT_SECONDS"
proof -
  have "TRANSPORT_GRACE_SECONDS < request_lifetime_seconds op' \<and>
     request_lifetime_seconds op' \<le> MAX_REQUEST_LIFETIME_SECONDS"
  proof (cases op')
    case (OpCore r)
    then show ?thesis
      using assms by (cases r) (auto simp: request_lifetime_seconds_def project_operation_validate_def
          core_request_validate_def TRANSPORT_GRACE_SECONDS_def MAX_REQUEST_LIFETIME_SECONDS_def
          MAX_TERMINAL_EXEC_SECONDS_def GIT_REQUEST_LIFETIME_SECONDS_def DEFAULT_REQUEST_LIFETIME_SECONDS_def)
  next
    case (OpTerminal r)
    then show ?thesis
      using assms by (cases r) (auto simp: request_lifetime_seconds_def project_operation_validate_def
          terminal_request_validate_def terminal_exec_validate_def TRANSPORT_GRACE_SECONDS_def
          MAX_REQUEST_LIFETIME_SECONDS_def MAX_TERMINAL_EXEC_SECONDS_def DEFAULT_REQUEST_LIFETIME_SECONDS_def
          split: if_splits)
  qed (simp add: request_lifetime_seconds_def TRANSPORT_GRACE_SECONDS_def MAX_REQUEST_LIFETIME_SECONDS_def
      MAX_TERMINAL_EXEC_SECONDS_def DEFAULT_REQUEST_LIFETIME_SECONDS_def)
  then show ?thesis
    by (simp add: request_deadline_def GATEWAY_REQUEST_TIMEOUT_SECONDS_def)
qed

theorem validated_lifetime_bounded_witness:
  "request_lifetime_seconds (OpCore (ReqCommandRun (lit ''test'') 300)) \<le> MAX_REQUEST_LIFETIME_SECONDS"
  using validated_lifetime_bounded [of "\<lambda>_. Inl []" "OpCore (ReqCommandRun (lit ''test'') 300)" 0]
  by (simp add: project_operation_validate_def core_request_validate_def lit_def)

text \<open>A validated execution output and its receipt tell one story: they agree on the
  terminal, exit code, duration and flags, the execution is not both timed out and
  cancelled, and when it was neither there is an exit code.\<close>

theorem validated_execution_is_consistent:
  assumes "terminal_exec_output_validate o' = Inr ()"
  shows "tr_terminal_id (te_receipt o') = te_terminal_id o' \<and> tr_exit_code (te_receipt o') = te_exit_code o' \<and>
     \<not> (te_timed_out o' \<and> te_cancelled o') \<and>
     (te_timed_out o' \<or> te_cancelled o' \<or> te_exit_code o' \<noteq> None) \<and>
     prefixed_hex16 ''term_'' (te_terminal_id o') \<and> 0 < te_process_id o'"
  using assms
  by (auto simp: terminal_exec_output_validate_def execution_receipt_validate_def id_validate_defs Let_def
      split: if_splits)

definition demo_receipt :: terminal_execution_receipt where
  "demo_receipt = \<lparr> tr_receipt_id = lit ''tr_0123456789abcdef'', tr_terminal_id = lit ''term_0123456789abcdef'',
     tr_command_digest = replicate 64 97, tr_shell = ShBash, tr_cwd_scope = ProjectRoot, tr_exit_code = Some 0,
     tr_stdout_bytes = 0, tr_stderr_bytes = 0, tr_duration_ms = 1, tr_timed_out = False, tr_cancelled = False,
     tr_truncated = False \<rparr>"

definition demo_exec_output :: terminal_exec_output where
  "demo_exec_output = \<lparr> te_terminal_id = lit ''term_0123456789abcdef'', te_process_id = 7, te_exit_code = Some 0,
     te_stdout = [], te_stderr = [], te_cwd = lit ''/'', te_duration_ms = 1, te_timed_out = False,
     te_cancelled = False, te_truncated = False, te_receipt = demo_receipt \<rparr>"

theorem validated_execution_is_consistent_witness:
  "prefixed_hex16 ''term_'' (te_terminal_id demo_exec_output)"
proof -
  have "prefixed_hex16 ''term_'' (lit ''term_0123456789abcdef'')" "prefixed_hex16 ''tr_'' (lit ''tr_0123456789abcdef'')"
    "list_all is_lower_hex (replicate 64 97)"
    by code_simp+
  then have "terminal_exec_output_validate demo_exec_output = Inr ()"
    by (simp add: terminal_exec_output_validate_def execution_receipt_validate_def id_validate_defs
        demo_exec_output_def demo_receipt_def lit_def)
  then show ?thesis
    using validated_execution_is_consistent [of demo_exec_output] by simp
qed

end
