(* ===== verification/Broker.thy ===== *)
theory Broker
  imports Remote_Protocol "HOL-Library.List_Lexorder"
begin

text \<open>
  The bridge broker of the MCP server (\<open>cdr-mcp-server/src/broker/*.rs\<close>): it connects
  ChatGPT sessions, authenticated by an OAuth principal, to the local bridges (devices) that
  hold the projects. The state behind the mutex is the record \<open>broker_state\<close>; every
  method that locks it is a function on the record. Random identities (connection, session,
  request), the current time in seconds and the outcome of the asynchronous send are arguments. A
  device connection is known by its connection id, which also names its command queue and its
  cancellation token; the one-shot channel of a pending request is named by a number. What the
  broker sends, cancels and delivers is recorded in the state. The \<open>selection\<close> mutex
  serialises the selecting methods among themselves; other tasks run during an await, as the
  function arguments \<open>during\<close>.
\<close>

section \<open>Data\<close>

record bridge_identity =
  bi_device_id :: rstr
  bi_connection_id :: nat

record project_registration =
  pj_project_scope :: rstr
  pj_binding_id :: rstr
  pj_thread_id :: rstr
  pj_project_name :: rstr
  pj_expires_at :: int

datatype selection_target = TargetProject | TargetDevice (working_directory: rstr)

record session_route =
  sn_session :: rstr
  sn_subject :: rstr
  sn_device_id :: rstr
  sn_thread_id :: rstr
  sn_computer_session_id :: rstr
  sn_generation :: nat
  sn_expires_at :: int
  sn_target :: selection_target

record dormant_route =
  dm_route :: session_route
  dm_project_scope :: rstr
  dm_binding_id :: rstr
  dm_resume_until :: int

record device_connection =
  dc_connection_id :: nat

record pending_request =
  pq_device_id :: rstr
  pq_connection_id :: nat
  pq_response :: nat

record broker_state =
  bk_devices :: "(rstr, device_connection) hmap"
  bk_projects :: "(rstr, rstr \<times> project_registration) hmap"
  bk_sessions :: "(rstr, session_route) hmap"
  bk_generations :: "(rstr \<times> rstr, nat) hmap"
  bk_pending :: "(rstr, pending_request) hmap"
  bk_dormant :: "(rstr \<times> rstr, dormant_route) hmap"
  bk_cancelled :: "nat list"
  bk_sent :: "(nat \<times> gateway_command) list"
  bk_delivered :: "(nat \<times> bridge_result) list"

datatype broker_error =
  BridgeUnavailable
| ProjectUnavailable
| ProjectOwnedByAnotherDevice
| ActiveSelectionMissing
| PrincipalMismatch
| ResponseTimeout
| RequestCancelled
| MissingResult
| WrongResultType
| RemoteOperation rstr
| InvalidRequest rstr

definition broker_new :: broker_state where
  "broker_new = \<lparr> bk_devices = [], bk_projects = [], bk_sessions = [], bk_generations = [], bk_pending = [],
     bk_dormant = [], bk_cancelled = [], bk_sent = [], bk_delivered = [] \<rparr>"

definition RESTART_ROUTE_GRACE_SECONDS :: int where
  "RESTART_ROUTE_GRACE_SECONDS = 120"

definition DEVICE_ROUTE_TTL_SECONDS :: int where
  "DEVICE_ROUTE_TTL_SECONDS = 1800"

definition DEVICE_THREAD_ID :: rstr where
  "DEVICE_THREAD_ID = lit ''codex-device-control''"

section \<open>Connections (\<open>state.rs\<close>, \<open>connection.rs\<close>)\<close>

text \<open>A live project route of the device becomes dormant when the device owns a project for
  its thread.\<close>

definition make_dormant ::
  "rstr \<Rightarrow> int \<Rightarrow> (rstr \<times> project_registration) list \<Rightarrow> session_route \<Rightarrow>
   (rstr \<times> rstr, dormant_route) hmap \<Rightarrow> (rstr \<times> rstr, dormant_route) hmap" where
  "make_dormant device_id now owned_projects route dormant =
     (if sn_target route = TargetProject \<and> sn_expires_at route > now
      then case find (\<lambda>(_, project). pj_thread_id project = sn_thread_id route) owned_projects of
          None \<Rightarrow> dormant
        | Some (scope, project) \<Rightarrow> hm_insert (device_id, sn_thread_id route)
            \<lparr> dm_route = route, dm_project_scope = scope, dm_binding_id = pj_binding_id project,
              dm_resume_until = min (sn_expires_at route) (now + RESTART_ROUTE_GRACE_SECONDS) \<rparr> dormant
      else dormant)"

definition disconnect :: "rstr \<Rightarrow> nat \<Rightarrow> int \<Rightarrow> broker_state \<Rightarrow> broker_state" where
  "disconnect device_id connection_id now s =
     (if (case hm_get (bk_devices s) device_id of None \<Rightarrow> True
          | Some value \<Rightarrow> dc_connection_id value \<noteq> connection_id)
      then s
      else
        let owned_projects = map (\<lambda>(scope, (_, project)). (scope, project))
              (filter (\<lambda>(_, (owner, _)). owner = device_id) (bk_projects s));
            routes = filter (\<lambda>route. sn_device_id route = device_id) (hm_values (bk_sessions s))
        in s\<lparr>bk_devices := hm_remove device_id (bk_devices s),
             bk_cancelled := bk_cancelled s @ [connection_id],
             bk_dormant := fold (make_dormant device_id now owned_projects) routes (bk_dormant s),
             bk_projects := hm_retain (\<lambda>_ (owner, _). owner \<noteq> device_id) (bk_projects s),
             bk_sessions := hm_retain (\<lambda>_ route. sn_device_id route \<noteq> device_id) (bk_sessions s),
             bk_pending := hm_retain (\<lambda>_ pending. pq_device_id pending \<noteq> device_id \<or>
               pq_connection_id pending \<noteq> connection_id) (bk_pending s)\<rparr>)"

definition attach :: "rstr \<Rightarrow> nat \<Rightarrow> int \<Rightarrow> broker_state \<Rightarrow> bridge_identity \<times> broker_state" where
  "attach device_id connection_id now s =
     (let s1 = (case hm_get (bk_devices s) device_id of
            None \<Rightarrow> s
          | Some previous \<Rightarrow> disconnect device_id (dc_connection_id previous) now s)
      in (\<lparr> bi_device_id = device_id, bi_connection_id = connection_id \<rparr>,
          s1\<lparr>bk_devices := hm_insert device_id \<lparr> dc_connection_id = connection_id \<rparr> (bk_devices s1)\<rparr>))"

definition detach :: "bridge_identity \<Rightarrow> int \<Rightarrow> broker_state \<Rightarrow> broker_state" where
  "detach identity now s = disconnect (bi_device_id identity) (bi_connection_id identity) now s"

definition list_devices :: "broker_state \<Rightarrow> rstr list" where
  "list_devices s = sort_key (map to_ascii_lower) (map fst (bk_devices s))"

definition require_connection :: "broker_state \<Rightarrow> bridge_identity \<Rightarrow> (broker_error, unit) result" where
  "require_connection s identity =
     (case opt_filter (\<lambda>value. dc_connection_id value = bi_connection_id identity)
             (hm_get (bk_devices s) (bi_device_id identity)) of
        None \<Rightarrow> Inl BridgeUnavailable | Some _ \<Rightarrow> Inr ())"

definition purge_dormant :: "int \<Rightarrow> (rstr \<times> rstr, dormant_route) hmap \<Rightarrow> (rstr \<times> rstr, dormant_route) hmap" where
  "purge_dormant now m = hm_retain (\<lambda>_ value. dm_resume_until value > now \<and> sn_expires_at (dm_route value) > now) m"

definition purge_expired :: "int \<Rightarrow> broker_state \<Rightarrow> broker_state" where
  "purge_expired now s = s\<lparr>
     bk_projects := hm_retain (\<lambda>_ (_, value). pj_expires_at value > now) (bk_projects s),
     bk_sessions := hm_retain (\<lambda>_ route. sn_expires_at route > now) (bk_sessions s),
     bk_dormant := purge_dormant now (bk_dormant s)\<rparr>"

text \<open>The same registration again: the project and its routes live longer.\<close>

definition refresh_project :: "bridge_identity \<Rightarrow> project_registration \<Rightarrow> broker_state \<Rightarrow> broker_state" where
  "refresh_project identity project s =
     (let device = bi_device_id identity; key = (device, pj_thread_id project) in s\<lparr>
        bk_projects := hm_insert (pj_project_scope project) (device, project) (bk_projects s),
        bk_sessions := hm_map_values (\<lambda>_ route.
          if sn_device_id route = device \<and> sn_thread_id route = pj_thread_id project
          then route\<lparr>sn_expires_at := max (sn_expires_at route) (pj_expires_at project)\<rparr> else route) (bk_sessions s),
        bk_dormant := (case hm_get (bk_dormant s) key of
            None \<Rightarrow> bk_dormant s
          | Some dormant \<Rightarrow> hm_insert key (dormant\<lparr>dm_route := (dm_route dormant)\<lparr>sn_expires_at :=
              max (sn_expires_at (dm_route dormant)) (pj_expires_at project)\<rparr>\<rparr>) (bk_dormant s))\<rparr>)"

text \<open>A new registration replaces the device's other project of the same thread, ends its routes,
  and drops a dormant route of another scope or binding.\<close>

definition replace_project :: "bridge_identity \<Rightarrow> project_registration \<Rightarrow> broker_state \<Rightarrow> broker_state" where
  "replace_project identity project s =
     (let device = bi_device_id identity; key = (device, pj_thread_id project) in s\<lparr>
        bk_projects := hm_insert (pj_project_scope project) (device, project)
          (hm_retain (\<lambda>scope (owner, value). owner \<noteq> device \<or> pj_thread_id value \<noteq> pj_thread_id project \<or>
             scope = pj_project_scope project) (bk_projects s)),
        bk_sessions := hm_retain (\<lambda>_ route. sn_device_id route \<noteq> device \<or>
          sn_thread_id route \<noteq> pj_thread_id project) (bk_sessions s),
        bk_dormant := (case hm_get (bk_dormant s) key of
            None \<Rightarrow> bk_dormant s
          | Some dormant \<Rightarrow>
              if dm_project_scope dormant \<noteq> pj_project_scope project \<or> dm_binding_id dormant \<noteq> pj_binding_id project
              then hm_remove key (bk_dormant s) else bk_dormant s)\<rparr>)"

definition upsert ::
  "bridge_identity \<Rightarrow> project_registration \<Rightarrow> int \<Rightarrow> broker_state \<Rightarrow> (broker_error, unit) result \<times> broker_state" where
  "upsert identity project now s0 =
     (case require_connection s0 identity of
        Inl e \<Rightarrow> (Inl e, s0)
      | Inr _ \<Rightarrow>
          let s = purge_expired now s0; existing = hm_get (bk_projects s) (pj_project_scope project) in
          if pj_expires_at project \<le> now then (Inl ProjectUnavailable, s)
          else if (case existing of None \<Rightarrow> False | Some (owner, _) \<Rightarrow> owner \<noteq> bi_device_id identity)
          then (Inl ProjectOwnedByAnotherDevice, s)
          else if list_ex (\<lambda>value. dm_project_scope value = pj_project_scope project \<and>
                 sn_device_id (dm_route value) \<noteq> bi_device_id identity) (hm_values (bk_dormant s))
          then (Inl ProjectOwnedByAnotherDevice, s)
          else if (case existing of None \<Rightarrow> False | Some (owner, current) \<Rightarrow>
                 owner = bi_device_id identity \<and> pj_binding_id current = pj_binding_id project \<and>
                 pj_thread_id current = pj_thread_id project \<and> pj_project_name current = pj_project_name project)
          then (Inr (), refresh_project identity project s)
          else (Inr (), replace_project identity project s))"

fun result_request_id :: "bridge_result \<Rightarrow> rstr" where
  "result_request_id (ProjectInfoResult rid _ _) = rid"
| "result_request_id (ListFilesResult rid _ _) = rid"
| "result_request_id (ReadFileResult rid _) = rid"
| "result_request_id (WriteFileResult rid _) = rid"
| "result_request_id (ProjectOperationResult rid _) = rid"
| "result_request_id (ProjectSessionResult rid) = rid"
| "result_request_id (OperationError rid _ _) = rid"

definition complete :: "bridge_identity \<Rightarrow> bridge_result \<Rightarrow> broker_state \<Rightarrow> broker_state" where
  "complete identity r s =
     (let rid = result_request_id r in
      if \<not> is_ok (require_connection s identity) then s
      else case opt_filter (\<lambda>pending. pq_device_id pending = bi_device_id identity \<and>
                  pq_connection_id pending = bi_connection_id identity) (hm_get (bk_pending s) rid) of
          None \<Rightarrow> s
        | Some pending \<Rightarrow> s\<lparr>bk_pending := hm_remove rid (bk_pending s),
              bk_delivered := bk_delivered s @ [(pq_response pending, r)]\<rparr>)"

section \<open>Routes (\<open>selection.rs\<close>, \<open>device_selection.rs\<close>)\<close>

text \<open>\<open>+ 1\<close> on a \<open>u64\<close> wraps in a release build.\<close>

definition next_generation :: "nat \<Rightarrow> nat" where
  "next_generation g = (g + 1) mod 2 ^ 64"

definition generation_at :: "broker_state \<Rightarrow> rstr \<times> rstr \<Rightarrow> nat" where
  "generation_at s key = (case hm_get (bk_generations s) key of None \<Rightarrow> 0 | Some g \<Rightarrow> g)"

definition other_principal :: "broker_state \<Rightarrow> rstr \<Rightarrow> rstr \<Rightarrow> bool" where
  "other_principal s session subject = (case hm_get (bk_sessions s) session of
     None \<Rightarrow> False | Some existing \<Rightarrow> sn_subject existing \<noteq> subject)"

definition install_route :: "session_route \<Rightarrow> broker_state \<Rightarrow> broker_state" where
  "install_route route s = s\<lparr>
     bk_generations := hm_insert (sn_device_id route, sn_thread_id route) (sn_generation route) (bk_generations s),
     bk_sessions := hm_insert (sn_session route) route (bk_sessions s)\<rparr>"

definition prepare_project_route ::
  "rstr \<Rightarrow> rstr \<Rightarrow> rstr \<Rightarrow> int \<Rightarrow> rstr \<Rightarrow> broker_state \<Rightarrow>
   (broker_error, session_route \<times> project_registration) result \<times> broker_state" where
  "prepare_project_route session subject scope now uuid s =
     (case opt_filter (\<lambda>(_, value). pj_expires_at value > now) (hm_get (bk_projects s) scope) of
        None \<Rightarrow> (Inl ProjectUnavailable, s)
      | Some (device_id, project) \<Rightarrow>
          if \<not> hm_contains (bk_devices s) device_id then (Inl BridgeUnavailable, s)
          else if other_principal s session subject then (Inl PrincipalMismatch, s)
          else
            let route = \<lparr> sn_session = session, sn_subject = subject, sn_device_id = device_id,
                  sn_thread_id = pj_thread_id project, sn_computer_session_id = uuid,
                  sn_generation = next_generation (generation_at s (device_id, pj_thread_id project)),
                  sn_expires_at = pj_expires_at project, sn_target = TargetProject \<rparr>
            in (Inr (route, project), install_route route s))"

definition prepare_device_route ::
  "rstr \<Rightarrow> rstr \<Rightarrow> rstr \<Rightarrow> rstr \<Rightarrow> int \<Rightarrow> rstr \<Rightarrow> broker_state \<Rightarrow>
   (broker_error, session_route) result \<times> broker_state" where
  "prepare_device_route session subject device_id directory now uuid s =
     (if \<not> hm_contains (bk_devices s) device_id then (Inl BridgeUnavailable, s)
      else if other_principal s session subject then (Inl PrincipalMismatch, s)
      else
        let route = \<lparr> sn_session = session, sn_subject = subject, sn_device_id = device_id,
              sn_thread_id = DEVICE_THREAD_ID, sn_computer_session_id = uuid,
              sn_generation = next_generation (generation_at s (device_id, DEVICE_THREAD_ID)),
              sn_expires_at = now + DEVICE_ROUTE_TTL_SECONDS, sn_target = TargetDevice directory \<rparr>
        in (Inr route, install_route route s))"

text \<open>The locked part of \<open>resume_project\<close>: \<open>None\<close> is the early \<open>Ok(false)\<close>.\<close>

definition prepare_resume ::
  "bridge_identity \<Rightarrow> project_registration \<Rightarrow> int \<Rightarrow> rstr \<Rightarrow> broker_state \<Rightarrow>
   (broker_error, session_route option) result \<times> broker_state" where
  "prepare_resume identity project now uuid s0 =
     (case require_connection s0 identity of
        Inl e \<Rightarrow> (Inl e, s0)
      | Inr _ \<Rightarrow>
          let s = s0\<lparr>bk_dormant := purge_dormant now (bk_dormant s0)\<rparr>;
              device = bi_device_id identity; key = (device, pj_thread_id project) in
          if hm_get (bk_projects s) (pj_project_scope project) \<noteq> Some (device, project) then (Inr None, s)
          else case hm_get (bk_dormant s) key of
            None \<Rightarrow> (Inr None, s)
          | Some dormant \<Rightarrow>
              let s1 = s\<lparr>bk_dormant := hm_remove key (bk_dormant s)\<rparr> in
              if dm_project_scope dormant \<noteq> pj_project_scope project \<or>
                 dm_binding_id dormant \<noteq> pj_binding_id project \<or> dm_resume_until dormant \<le> now
              then (Inr None, s1)
              else
                let route = \<lparr> sn_session = sn_session (dm_route dormant), sn_subject = sn_subject (dm_route dormant),
                      sn_device_id = device, sn_thread_id = pj_thread_id project, sn_computer_session_id = uuid,
                      sn_generation = next_generation (max (generation_at s1 key) (sn_generation (dm_route dormant))),
                      sn_expires_at = pj_expires_at project, sn_target = TargetProject \<rparr>
                in (Inr (Some route), install_route route s1))"

definition active_route ::
  "rstr \<Rightarrow> rstr \<Rightarrow> int \<Rightarrow> broker_state \<Rightarrow> (broker_error, session_route) result \<times> broker_state" where
  "active_route session subject now s0 =
     (let s = s0\<lparr>bk_sessions := hm_retain (\<lambda>_ route. sn_expires_at route > now) (bk_sessions s0)\<rparr> in
      case hm_get (bk_sessions s) session of
        None \<Rightarrow> (Inl ActiveSelectionMissing, s)
      | Some route \<Rightarrow>
          if sn_subject route \<noteq> subject then (Inl PrincipalMismatch, s)
          else if \<not> hm_contains (bk_devices s) (sn_device_id route) then (Inl BridgeUnavailable, s)
          else (Inr route, s))"

definition remove_route_if_current :: "session_route \<Rightarrow> broker_state \<Rightarrow> broker_state" where
  "remove_route_if_current route s =
     (case hm_get (bk_sessions s) (sn_session route) of
        None \<Rightarrow> s
      | Some value \<Rightarrow>
          if sn_computer_session_id value = sn_computer_session_id route
          then s\<lparr>bk_sessions := hm_remove (sn_session route) (bk_sessions s)\<rparr> else s)"

section \<open>Dispatch (\<open>dispatch.rs\<close>)\<close>

definition drop_request :: "rstr \<Rightarrow> broker_state \<Rightarrow> broker_state" where
  "drop_request rid s = s\<lparr>bk_pending := hm_remove rid (bk_pending s)\<rparr>"

definition dispatch_begin ::
  "session_route \<Rightarrow> rstr \<Rightarrow> nat \<Rightarrow> broker_state \<Rightarrow> (broker_error, nat) result \<times> broker_state" where
  "dispatch_begin route rid response s =
     (case opt_filter (\<lambda>value. sn_computer_session_id value = sn_computer_session_id route)
             (hm_get (bk_sessions s) (sn_session route)) of
        None \<Rightarrow> (Inl ActiveSelectionMissing, s)
      | Some current \<Rightarrow> (case hm_get (bk_devices s) (sn_device_id current) of
          None \<Rightarrow> (Inl BridgeUnavailable, s)
        | Some connection \<Rightarrow> (Inr (dc_connection_id connection),
            s\<lparr>bk_pending := hm_insert rid \<lparr> pq_device_id = sn_device_id route,
                pq_connection_id = dc_connection_id connection, pq_response = response \<rparr> (bk_pending s)\<rparr>)))"

datatype send_outcome = SendDone | SendFailed | SendCancelled

text \<open>The wait for the reply. A cancelled wait and one that times out drop the pending request;
  a one-shot channel whose sender is gone returns at once.\<close>

definition await_reply :: "bool \<Rightarrow> rstr \<Rightarrow> nat \<Rightarrow> broker_state \<Rightarrow> (broker_error, bridge_result) result \<times> broker_state" where
  "await_reply cancelled rid response s =
     (if cancelled then (Inl RequestCancelled, drop_request rid s)
      else case map_of (bk_delivered s) response of
        Some r \<Rightarrow> (Inr r, s)
      | None \<Rightarrow>
          if list_ex (\<lambda>pending. pq_response pending = response) (hm_values (bk_pending s))
          then (Inl ResponseTimeout, drop_request rid s)
          else (Inl MissingResult, s))"

definition dispatch_on_route ::
  "(broker_state \<Rightarrow> broker_state) \<Rightarrow> send_outcome \<Rightarrow> (broker_state \<Rightarrow> broker_state) \<Rightarrow> bool \<Rightarrow> nat \<Rightarrow>
   session_route \<Rightarrow> gateway_command \<Rightarrow> broker_state \<Rightarrow> (broker_error, bridge_result) result \<times> broker_state" where
  "dispatch_on_route during1 sent during2 cancelled response route command s =
     (let rid = command_request_id command in
      case dispatch_begin route rid response s of
        (Inl e, s1) \<Rightarrow> (Inl e, s1)
      | (Inr connection, s1) \<Rightarrow>
          let s2 = during1 s1 in
          (case sent of
             SendCancelled \<Rightarrow> (Inl RequestCancelled, drop_request rid s2)
           | SendFailed \<Rightarrow> (Inl BridgeUnavailable, drop_request rid s2)
           | SendDone \<Rightarrow> await_reply cancelled rid response
               (during2 (s2\<lparr>bk_sent := bk_sent s2 @ [(connection, command)]\<rparr>))))"

definition require_session_result :: "bridge_result \<Rightarrow> (broker_error, unit) result" where
  "require_session_result r = (case r of
     ProjectSessionResult _ \<Rightarrow> Inr ()
   | OperationError _ _ body \<Rightarrow> Inl (RemoteOperation body)
   | _ \<Rightarrow> Inl WrongResultType)"

section \<open>Selecting\<close>

text \<open>The world a call runs in: the other tasks' steps, the send outcome, the cancellation, the
  fresh request id and one-shot channel, the current time and the deadline of the command.\<close>

record call_world =
  cw_during1 :: "broker_state \<Rightarrow> broker_state"
  cw_sent :: send_outcome
  cw_during2 :: "broker_state \<Rightarrow> broker_state"
  cw_cancelled :: bool
  cw_request_id :: rstr
  cw_response :: nat
  cw_now :: int

definition dispatch_in ::
  "call_world \<Rightarrow> session_route \<Rightarrow> gateway_command \<Rightarrow> broker_state \<Rightarrow> (broker_error, bridge_result) result \<times> broker_state" where
  "dispatch_in w route command s =
     dispatch_on_route (cw_during1 w) (cw_sent w) (cw_during2 w) (cw_cancelled w) (cw_response w) route command s"

definition session_head :: "call_world \<Rightarrow> session_route \<Rightarrow> command_head" where
  "session_head w route = \<lparr> ch_request_id = cw_request_id w, ch_thread_id = sn_thread_id route,
     ch_deadline_at = default_request_deadline (cw_now w), ch_session = Some (sn_computer_session_id route) \<rparr>"

record project_selection =
  ps_project_name :: rstr
  ps_thread_id :: rstr
  ps_expires_at :: int

definition is_session_result :: "(broker_error, bridge_result) result \<Rightarrow> bool" where
  "is_session_result r = (case r of Inr (ProjectSessionResult _) \<Rightarrow> True | _ \<Rightarrow> False)"

definition select_project ::
  "call_world \<Rightarrow> rstr \<Rightarrow> rstr \<Rightarrow> rstr \<Rightarrow> rstr \<Rightarrow> broker_state \<Rightarrow> (broker_error, project_selection) result \<times> broker_state" where
  "select_project w uuid session subject scope s =
     (case prepare_project_route session subject scope (cw_now w) uuid s of
        (Inl e, s1) \<Rightarrow> (Inl e, s1)
      | (Inr (route, project), s1) \<Rightarrow>
          let (activated, s2) = dispatch_in w route
                (ProjectSession (session_head w route) (sn_generation route)) s1;
              s3 = (if is_session_result activated then s2 else remove_route_if_current route s2)
          in (case activated of
                Inl e \<Rightarrow> Inl e
              | Inr r \<Rightarrow> (case require_session_result r of
                  Inl e \<Rightarrow> Inl e
                | Inr _ \<Rightarrow> Inr \<lparr> ps_project_name = pj_project_name project, ps_thread_id = sn_thread_id route,
                    ps_expires_at = sn_expires_at route \<rparr>), s3))"

definition resume_project ::
  "call_world \<Rightarrow> rstr \<Rightarrow> bridge_identity \<Rightarrow> project_registration \<Rightarrow> broker_state \<Rightarrow>
   (broker_error, bool) result \<times> broker_state" where
  "resume_project w uuid identity project s =
     (case prepare_resume identity project (cw_now w) uuid s of
        (Inl e, s1) \<Rightarrow> (Inl e, s1)
      | (Inr None, s1) \<Rightarrow> (Inr False, s1)
      | (Inr (Some route), s1) \<Rightarrow>
          let (r, s2) = dispatch_in w route (ProjectSession (session_head w route) (sn_generation route)) s1;
              resumed = (case r of Inl _ \<Rightarrow> False | Inr v \<Rightarrow> is_ok (require_session_result v))
          in (Inr resumed, if resumed then s2 else remove_route_if_current route s2))"

text \<open>\<open>value.len()\<close> counts bytes.\<close>

definition validate_directory :: "rstr \<Rightarrow> (broker_error, unit) result" where
  "validate_directory value =
     (if value = [] \<or> byte_len value > 1000
      then Inl (InvalidRequest (lit ''working_directory must contain 1 to 1000 characters'')) else Inr ())"

record device_selection =
  ds_device_id :: rstr
  ds_working_directory :: rstr
  ds_expires_at :: int

definition device_selection_of :: "session_route \<Rightarrow> device_selection" where
  "device_selection_of route = \<lparr> ds_device_id = sn_device_id route,
     ds_working_directory = working_directory (sn_target route), ds_expires_at = sn_expires_at route \<rparr>"

definition activate_device_route ::
  "call_world \<Rightarrow> session_route \<Rightarrow> broker_state \<Rightarrow> (broker_error, unit) result \<times> broker_state" where
  "activate_device_route w route s =
     (case sn_target route of
        TargetProject \<Rightarrow> (Inl ActiveSelectionMissing, s)
      | TargetDevice directory \<Rightarrow>
          let (r, s1) = dispatch_in w route (DeviceSession (session_head w route) (sn_generation route)
                directory (sn_expires_at route)) s
          in (case r of
                Inl e \<Rightarrow> (Inl e, remove_route_if_current route s1)
              | Inr v \<Rightarrow> (require_session_result v, s1)))"

definition select_device_route ::
  "call_world \<Rightarrow> rstr \<Rightarrow> rstr \<Rightarrow> rstr \<Rightarrow> rstr \<Rightarrow> rstr \<Rightarrow> broker_state \<Rightarrow>
   (broker_error, device_selection) result \<times> broker_state" where
  "select_device_route w uuid session subject device_id directory s =
     (case prepare_device_route session subject device_id directory (cw_now w) uuid s of
        (Inl e, s1) \<Rightarrow> (Inl e, s1)
      | (Inr route, s1) \<Rightarrow> (case activate_device_route w route s1 of
          (Inl e, s2) \<Rightarrow> (Inl e, s2)
        | (Inr _, s2) \<Rightarrow> (Inr (device_selection_of route), s2)))"

definition select_device ::
  "call_world \<Rightarrow> rstr \<Rightarrow> rstr \<Rightarrow> rstr \<Rightarrow> rstr \<Rightarrow> rstr \<Rightarrow> broker_state \<Rightarrow>
   (broker_error, device_selection) result \<times> broker_state" where
  "select_device w uuid session subject device_id directory s =
     (case validate_directory directory of
        Inl e \<Rightarrow> (Inl e, s)
      | Inr _ \<Rightarrow> select_device_route w uuid session subject device_id directory s)"

definition is_device_target :: "session_route \<Rightarrow> bool" where
  "is_device_target route = (case sn_target route of TargetProject \<Rightarrow> False | TargetDevice _ \<Rightarrow> True)"

definition set_working_directory ::
  "call_world \<Rightarrow> rstr \<Rightarrow> rstr \<Rightarrow> rstr \<Rightarrow> rstr \<Rightarrow> broker_state \<Rightarrow>
   (broker_error, device_selection) result \<times> broker_state" where
  "set_working_directory w uuid session subject directory s =
     (case validate_directory directory of
        Inl e \<Rightarrow> (Inl e, s)
      | Inr _ \<Rightarrow> (case active_route session subject (cw_now w) s of
          (Inl e, s1) \<Rightarrow> (Inl e, s1)
        | (Inr current, s1) \<Rightarrow>
            if \<not> is_device_target current then (Inl ActiveSelectionMissing, s1)
            else select_device_route w uuid session subject (sn_device_id current) directory s1))"

definition device_info ::
  "rstr \<Rightarrow> rstr \<Rightarrow> int \<Rightarrow> broker_state \<Rightarrow> (broker_error, device_selection) result \<times> broker_state" where
  "device_info session subject now s =
     (case active_route session subject now s of
        (Inl e, s1) \<Rightarrow> (Inl e, s1)
      | (Inr route, s1) \<Rightarrow>
          if \<not> is_device_target route then (Inl ActiveSelectionMissing, s1)
          else (Inr (device_selection_of route), s1))"

section \<open>Operations (\<open>operations.rs\<close>)\<close>

text \<open>Every operation is the active route, a command on it, and the matching result.\<close>

definition route_call ::
  "call_world \<Rightarrow> rstr \<Rightarrow> rstr \<Rightarrow> (command_head \<Rightarrow> gateway_command) \<Rightarrow> (bridge_result \<Rightarrow> 'a option) \<Rightarrow>
   broker_state \<Rightarrow> (broker_error, 'a) result \<times> broker_state" where
  "route_call w session subject command pick s =
     (case active_route session subject (cw_now w) s of
        (Inl e, s1) \<Rightarrow> (Inl e, s1)
      | (Inr route, s1) \<Rightarrow>
          (case dispatch_in w route (command (session_head w route)) s1 of
             (Inl e, s2) \<Rightarrow> (Inl e, s2)
           | (Inr r, s2) \<Rightarrow> (case pick r of
               Some v \<Rightarrow> Inr v
             | None \<Rightarrow> (case r of OperationError _ _ body \<Rightarrow> Inl (RemoteOperation body) | _ \<Rightarrow> Inl WrongResultType), s2)))"

definition project_info where
  "project_info w session subject = route_call w session subject ProjectInfo
     (\<lambda>r. case r of ProjectInfoResult _ root thread_id \<Rightarrow> Some (root, thread_id) | _ \<Rightarrow> None)"

definition list_files where
  "list_files w session subject pattern limit = route_call w session subject
     (\<lambda>h. ListFiles h pattern limit) (\<lambda>r. case r of ListFilesResult _ files truncated \<Rightarrow> Some (files, truncated) | _ \<Rightarrow> None)"

definition read_file where
  "read_file w session subject path start_line max_lines = route_call w session subject
     (\<lambda>h. ReadFile h path start_line max_lines) (\<lambda>r. case r of ReadFileResult _ out \<Rightarrow> Some out | _ \<Rightarrow> None)"

definition write_file where
  "write_file w session subject path content expected_sha256 = route_call w session subject
     (\<lambda>h. WriteFile h path content expected_sha256) (\<lambda>r. case r of WriteFileResult _ out \<Rightarrow> Some out | _ \<Rightarrow> None)"

text \<open>An operation has its own deadline, and is validated before the route is looked up.\<close>

definition project_operation_call ::
  "url_parser \<Rightarrow> call_world \<Rightarrow> rstr \<Rightarrow> rstr \<Rightarrow> project_operation \<Rightarrow> broker_state \<Rightarrow>
   (broker_error, project_operation_output) result \<times> broker_state" where
  "project_operation_call url_parse w session subject operation s =
     (case project_operation_validate url_parse operation of
        Inl err \<Rightarrow> (Inl (InvalidRequest (ve_field err @ lit '': '' @ ve_message err)), s)
      | Inr _ \<Rightarrow> route_call w session subject
          (\<lambda>h. ProjectOperation (h\<lparr>ch_deadline_at := request_deadline (cw_now w) operation\<rparr>) operation)
          (\<lambda>r. case r of ProjectOperationResult _ out \<Rightarrow> Some out | _ \<Rightarrow> None) s)"

section \<open>Runs of the broker\<close>

text \<open>The atomic steps: what each method does while it holds the lock.\<close>

datatype bk_event =
  BkAttach rstr nat int
| BkDetach bridge_identity int
| BkUpsert bridge_identity project_registration int
| BkComplete bridge_identity bridge_result
| BkProjectRoute rstr rstr rstr int rstr
| BkDeviceRoute rstr rstr rstr rstr int rstr
| BkResume bridge_identity project_registration int rstr
| BkActive rstr rstr int
| BkRemoveRoute session_route
| BkDispatch session_route rstr nat
| BkSend nat gateway_command
| BkDrop rstr

definition bk_apply :: "bk_event \<Rightarrow> broker_state \<Rightarrow> broker_state" where
  "bk_apply e s = (case e of
     BkAttach d c now \<Rightarrow> snd (attach d c now s)
   | BkDetach i now \<Rightarrow> detach i now s
   | BkUpsert i p now \<Rightarrow> snd (upsert i p now s)
   | BkComplete i r \<Rightarrow> complete i r s
   | BkProjectRoute session subject scope now uuid \<Rightarrow> snd (prepare_project_route session subject scope now uuid s)
   | BkDeviceRoute session subject d dir now uuid \<Rightarrow> snd (prepare_device_route session subject d dir now uuid s)
   | BkResume i p now uuid \<Rightarrow> snd (prepare_resume i p now uuid s)
   | BkActive session subject now \<Rightarrow> snd (active_route session subject now s)
   | BkRemoveRoute route \<Rightarrow> remove_route_if_current route s
   | BkDispatch route rid response \<Rightarrow> snd (dispatch_begin route rid response s)
   | BkSend c command \<Rightarrow> s\<lparr>bk_sent := bk_sent s @ [(c, command)]\<rparr>
   | BkDrop rid \<Rightarrow> drop_request rid s)"

text \<open>The route a caller holds was handed out by the broker: while the session still carries its
  computer session id (a random UUID), it is still bound to the same device.\<close>

definition route_known :: "session_route \<Rightarrow> broker_state \<Rightarrow> bool" where
  "route_known route s = (case hm_get (bk_sessions s) (sn_session route) of
     None \<Rightarrow> True
   | Some current \<Rightarrow> sn_computer_session_id current = sn_computer_session_id route \<longrightarrow>
       sn_device_id current = sn_device_id route)"

text \<open>New connections and one-shot channels are new.\<close>

definition pending_responses :: "broker_state \<Rightarrow> nat list" where
  "pending_responses s = map pq_response (hm_values (bk_pending s))"

definition live_connections :: "broker_state \<Rightarrow> nat list" where
  "live_connections s = map dc_connection_id (hm_values (bk_devices s))"

definition bk_fresh :: "bk_event \<Rightarrow> broker_state \<Rightarrow> bool" where
  "bk_fresh e s = (case e of
     BkAttach _ c _ \<Rightarrow> c \<notin> set (bk_cancelled s @ live_connections s)
   | BkDispatch route _ response \<Rightarrow> route_known route s \<and>
       response \<notin> set (pending_responses s @ map fst (bk_delivered s))
   | _ \<Rightarrow> True)"

section \<open>The invariant\<close>

definition maps_wf :: "broker_state \<Rightarrow> bool" where
  "maps_wf s \<longleftrightarrow> hm_wf (bk_devices s) \<and> hm_wf (bk_projects s) \<and> hm_wf (bk_sessions s) \<and>
     hm_wf (bk_pending s)"

definition sessions_ok :: "broker_state \<Rightarrow> bool" where
  "sessions_ok s \<longleftrightarrow> (\<forall>k r. hm_get (bk_sessions s) k = Some r \<longrightarrow>
     sn_session r = k \<and> hm_get (bk_devices s) (sn_device_id r) \<noteq> None)"

definition projects_ok :: "broker_state \<Rightarrow> bool" where
  "projects_ok s \<longleftrightarrow>
     (\<forall>k owner p. hm_get (bk_projects s) k = Some (owner, p) \<longrightarrow>
        pj_project_scope p = k \<and> hm_get (bk_devices s) owner \<noteq> None) \<and>
     (\<forall>k k' owner p p'. hm_get (bk_projects s) k = Some (owner, p) \<longrightarrow>
        hm_get (bk_projects s) k' = Some (owner, p') \<longrightarrow> pj_thread_id p = pj_thread_id p' \<longrightarrow> k = k')"

definition pending_ok :: "broker_state \<Rightarrow> bool" where
  "pending_ok s \<longleftrightarrow> (\<forall>k q. hm_get (bk_pending s) k = Some q \<longrightarrow>
     hm_get (bk_devices s) (pq_device_id q) = Some \<lparr> dc_connection_id = pq_connection_id q \<rparr>)"

definition dormant_ok :: "(rstr \<times> rstr, dormant_route) hmap \<Rightarrow> bool" where
  "dormant_ok m \<longleftrightarrow> hm_wf m \<and> (\<forall>k d. hm_get m k = Some d \<longrightarrow>
     k = (sn_device_id (dm_route d), sn_thread_id (dm_route d)))"

definition bk_inv :: "broker_state \<Rightarrow> bool" where
  "bk_inv s \<longleftrightarrow> maps_wf s \<and> sessions_ok s \<and> projects_ok s \<and> pending_ok s \<and> dormant_ok (bk_dormant s)"

lemmas bk_inv_defs = bk_inv_def maps_wf_def sessions_ok_def projects_ok_def pending_ok_def

lemma broker_new_inv: "bk_inv broker_new"
  by (simp add: bk_inv_defs dormant_ok_def broker_new_def)

lemma dormant_ok_insert:
  "dormant_ok m \<Longrightarrow> k = (sn_device_id (dm_route d), sn_thread_id (dm_route d)) \<Longrightarrow> dormant_ok (hm_insert k d m)"
  by (auto simp: dormant_ok_def)

lemma dormant_ok_remove: "dormant_ok m \<Longrightarrow> dormant_ok (hm_remove k m)"
  by (auto simp: dormant_ok_def)

lemma dormant_ok_purge: "dormant_ok m \<Longrightarrow> dormant_ok (purge_dormant now m)"
  by (auto simp: dormant_ok_def purge_dormant_def hm_get_retain)

lemma make_dormant_ok:
  "dormant_ok m \<Longrightarrow> sn_device_id route = d \<Longrightarrow> dormant_ok (make_dormant d now owned route m)"
  by (auto simp: make_dormant_def intro: dormant_ok_insert split: option.split)

lemma fold_make_dormant_ok:
  "dormant_ok m \<Longrightarrow> (\<forall>r \<in> set routes. sn_device_id r = d) \<Longrightarrow>
   dormant_ok (fold (make_dormant d now owned) routes m)"
  by (induction routes arbitrary: m) (auto intro: make_dormant_ok)

lemma disconnect_stale:
  "hm_get (bk_devices s) d \<noteq> Some \<lparr> dc_connection_id = c \<rparr> \<Longrightarrow> disconnect d c now s = s"
  by (auto simp: disconnect_def split: option.split)

lemma disconnect_inv [inv_intros]:
  assumes inv: "bk_inv s"
  shows "bk_inv (disconnect d c now s)"
proof (cases "hm_get (bk_devices s) d = Some \<lparr> dc_connection_id = c \<rparr>")
  case True
  let ?routes = "filter (\<lambda>route. sn_device_id route = d) (hm_values (bk_sessions s))"
  have "dormant_ok (fold (make_dormant d now owned) ?routes (bk_dormant s))" for owned
    using inv by (intro fold_make_dormant_ok) (simp_all add: bk_inv_def)
  then show ?thesis
    using inv True by (auto simp: disconnect_def bk_inv_defs hm_get_retain Let_def)
qed (simp add: disconnect_stale inv)

lemma disconnect_devices:
  "hm_get (bk_devices (disconnect d c now s)) d' =
     (if d' = d \<and> hm_get (bk_devices s) d = Some \<lparr> dc_connection_id = c \<rparr> then None
      else hm_get (bk_devices s) d')"
  using disconnect_stale [of s d c now]
  by (cases "hm_get (bk_devices s) d = Some \<lparr> dc_connection_id = c \<rparr>") (auto simp: disconnect_def Let_def)

lemma attach_inv [inv_intros]:
  assumes inv: "bk_inv s"
  shows "bk_inv (snd (attach d c now s))"
proof -
  define s1 where "s1 = (case hm_get (bk_devices s) d of None \<Rightarrow> s
     | Some previous \<Rightarrow> disconnect d (dc_connection_id previous) now s)"
  have "bk_inv s1" using inv by (simp add: s1_def disconnect_inv split: option.split)
  moreover have "hm_get (bk_devices s1) d = None"
    by (auto simp: s1_def disconnect_devices split: option.split)
  ultimately show ?thesis
    by (auto simp: attach_def s1_def [symmetric] Let_def bk_inv_defs)
qed

lemma purge_expired_inv: "bk_inv s \<Longrightarrow> bk_inv (purge_expired now s)"
  by (auto simp: purge_expired_def bk_inv_defs hm_get_retain dormant_ok_purge)

lemma require_connection_ok:
  "require_connection s i = Inr u \<longleftrightarrow>
     hm_get (bk_devices s) (bi_device_id i) = Some \<lparr> dc_connection_id = bi_connection_id i \<rparr>"
  by (auto simp: require_connection_def split: option.splits)

lemma refresh_project_inv:
  assumes inv: "bk_inv s" and dev: "hm_get (bk_devices s) (bi_device_id i) \<noteq> None"
    and same: "hm_get (bk_projects s) (pj_project_scope p) = Some (bi_device_id i, q)"
      "pj_thread_id q = pj_thread_id p"
  shows "bk_inv (refresh_project i p s)"
proof -
  have "dormant_ok (bk_dormant (refresh_project i p s))"
    using inv by (auto simp: bk_inv_def refresh_project_def Let_def dormant_ok_def split: option.split)
  then show ?thesis
    using inv dev same by (auto simp: bk_inv_defs refresh_project_def Let_def hm_get_map_values)
qed

lemma replace_project_inv:
  assumes inv: "bk_inv s" and dev: "hm_get (bk_devices s) (bi_device_id i) \<noteq> None"
  shows "bk_inv (replace_project i p s)"
proof -
  have "dormant_ok (bk_dormant (replace_project i p s))"
    using inv by (auto simp: bk_inv_def replace_project_def Let_def intro: dormant_ok_remove split: option.split)
  then show ?thesis
    using inv dev by (auto simp: bk_inv_defs replace_project_def Let_def hm_get_retain)
qed

lemma upsert_inv [inv_intros]:
  assumes inv: "bk_inv s"
  shows "bk_inv (snd (upsert i p now s))"
proof (cases "require_connection s i")
  case (Inl e)
  then show ?thesis using inv by (simp add: upsert_def)
next
  case (Inr u)
  let ?s = "purge_expired now s"
  have dev: "hm_get (bk_devices ?s) (bi_device_id i) \<noteq> None"
    using Inr by (simp add: require_connection_ok purge_expired_def)
  have pinv: "bk_inv ?s" using inv by (rule purge_expired_inv)
  have ref: "bk_inv (refresh_project i p ?s)"
    if "hm_get (bk_projects ?s) (pj_project_scope p) = Some (bi_device_id i, q)" "pj_thread_id q = pj_thread_id p" for q
    using refresh_project_inv [OF pinv dev that] .
  have rep: "bk_inv (replace_project i p ?s)" by (rule replace_project_inv [OF pinv dev])
  show ?thesis
    using pinv rep ref Inr by (auto simp: upsert_def Let_def split: option.split)
qed

lemma complete_inv [inv_intros]: "bk_inv s \<Longrightarrow> bk_inv (complete i r s)"
  by (auto simp: complete_def Let_def bk_inv_defs split: option.split)

lemma install_route_inv:
  "bk_inv s \<Longrightarrow> hm_get (bk_devices s) (sn_device_id route) \<noteq> None \<Longrightarrow> bk_inv (install_route route s)"
  by (auto simp: install_route_def bk_inv_defs)

lemma prepare_project_route_inv [inv_intros]:
  "bk_inv s \<Longrightarrow> bk_inv (snd (prepare_project_route session subject scope now uuid s))"
  by (auto simp: prepare_project_route_def Let_def hm_contains_def intro!: install_route_inv split: option.split)

lemma prepare_device_route_inv [inv_intros]:
  "bk_inv s \<Longrightarrow> bk_inv (snd (prepare_device_route session subject d dir now uuid s))"
  by (auto simp: prepare_device_route_def Let_def hm_contains_def intro!: install_route_inv)

lemma dormant_update_inv:
  "bk_inv s \<Longrightarrow> dormant_ok m \<Longrightarrow> bk_inv (s\<lparr>bk_dormant := m\<rparr>)"
  by (simp add: bk_inv_defs)

lemma prepare_resume_inv [inv_intros]:
  assumes inv: "bk_inv s"
  shows "bk_inv (snd (prepare_resume i p now uuid s))"
proof (cases "require_connection s i")
  case (Inl e)
  then show ?thesis using inv by (simp add: prepare_resume_def)
next
  case (Inr u)
  have d: "dormant_ok (purge_dormant now (bk_dormant s))"
    using inv by (simp add: bk_inv_def dormant_ok_purge)
  have "hm_get (bk_devices s) (bi_device_id i) \<noteq> None"
    using Inr by (simp add: require_connection_ok)
  then show ?thesis
    using Inr d inv
    by (auto simp: prepare_resume_def Let_def dormant_update_inv dormant_ok_remove
        intro!: install_route_inv split: option.split)
qed

lemma active_route_inv [inv_intros]: "bk_inv s \<Longrightarrow> bk_inv (snd (active_route session subject now s))"
  by (auto simp: active_route_def Let_def bk_inv_defs hm_get_retain split: option.split)

lemma remove_route_inv [inv_intros]: "bk_inv s \<Longrightarrow> bk_inv (remove_route_if_current route s)"
  by (auto simp: remove_route_if_current_def bk_inv_defs split: option.split)

lemma drop_request_inv [inv_intros]: "bk_inv s \<Longrightarrow> bk_inv (drop_request rid s)"
  by (auto simp: drop_request_def bk_inv_defs)

lemma dispatch_begin_inv [inv_intros]:
  assumes "bk_inv s" "route_known route s"
  shows "bk_inv (snd (dispatch_begin route rid response s))"
  using assms by (auto simp: dispatch_begin_def bk_inv_defs route_known_def split: option.split)

lemma bk_apply_inv: "bk_inv s \<Longrightarrow> bk_fresh e s \<Longrightarrow> bk_inv (bk_apply e s)"
proof (cases e)
  case (BkSend c command)
  then show "bk_inv s \<Longrightarrow> bk_fresh e s \<Longrightarrow> bk_inv (bk_apply e s)"
    by (simp add: bk_apply_def bk_inv_defs)
next
  case (BkDispatch route rid response)
  then show "bk_inv s \<Longrightarrow> bk_fresh e s \<Longrightarrow> bk_inv (bk_apply e s)"
    by (simp add: bk_apply_def bk_fresh_def dispatch_begin_inv)
qed (simp_all add: bk_apply_def detach_def inv_intros)

lemma bk_run_inv:
  "bk_inv s \<Longrightarrow> all_events bk_apply bk_fresh es s \<Longrightarrow> bk_inv (run_events bk_apply es s)"
  by (rule run_events_inv [where I = bk_inv and P = bk_fresh]) (simp_all only: bk_apply_inv)

section \<open>Connections that were replaced\<close>

definition conn_inv :: "broker_state \<Rightarrow> bool" where
  "conn_inv s \<longleftrightarrow> hm_wf (bk_devices s) \<and>
     (\<forall>d c. hm_get (bk_devices s) d = Some c \<longrightarrow> dc_connection_id c \<notin> set (bk_cancelled s)) \<and>
     (\<forall>d d' c. hm_get (bk_devices s) d = Some c \<longrightarrow> hm_get (bk_devices s) d' = Some c \<longrightarrow> d = d')"

text \<open>Only attaching and disconnecting touch the connections.\<close>

lemma connections_kept:
  "bk_devices (snd (upsert i p now s)) = bk_devices s"
  "bk_cancelled (snd (upsert i p now s)) = bk_cancelled s"
  "bk_devices (complete i r s) = bk_devices s"
  "bk_cancelled (complete i r s) = bk_cancelled s"
  "bk_devices (snd (prepare_project_route session subject scope now uuid s)) = bk_devices s"
  "bk_cancelled (snd (prepare_project_route session subject scope now uuid s)) = bk_cancelled s"
  "bk_devices (snd (prepare_device_route session subject d dir now uuid s)) = bk_devices s"
  "bk_cancelled (snd (prepare_device_route session subject d dir now uuid s)) = bk_cancelled s"
  "bk_devices (snd (prepare_resume i p now uuid s)) = bk_devices s"
  "bk_cancelled (snd (prepare_resume i p now uuid s)) = bk_cancelled s"
  "bk_devices (snd (active_route session subject now s)) = bk_devices s"
  "bk_cancelled (snd (active_route session subject now s)) = bk_cancelled s"
  "bk_devices (remove_route_if_current route s) = bk_devices s"
  "bk_cancelled (remove_route_if_current route s) = bk_cancelled s"
  "bk_devices (snd (dispatch_begin route rid response s)) = bk_devices s"
  "bk_cancelled (snd (dispatch_begin route rid response s)) = bk_cancelled s"
  "bk_devices (drop_request rid s) = bk_devices s"
  "bk_cancelled (drop_request rid s) = bk_cancelled s"
  by (simp_all add: upsert_def purge_expired_def refresh_project_def replace_project_def complete_def
      prepare_project_route_def prepare_device_route_def prepare_resume_def install_route_def active_route_def
      remove_route_if_current_def dispatch_begin_def drop_request_def Let_def split: option.split sum.split prod.split)

lemma disconnect_cancelled:
  "bk_cancelled (disconnect d c now s) =
     bk_cancelled s @ (if hm_get (bk_devices s) d = Some \<lparr> dc_connection_id = c \<rparr> then [c] else [])"
  using disconnect_stale [of s d c now]
  by (cases "hm_get (bk_devices s) d = Some \<lparr> dc_connection_id = c \<rparr>") (auto simp: disconnect_def Let_def)

lemma conn_inv_new: "conn_inv broker_new"
  by (simp add: conn_inv_def broker_new_def)

lemma disconnect_conn_inv: "conn_inv s \<Longrightarrow> conn_inv (disconnect d c now s)"
proof (cases "hm_get (bk_devices s) d = Some \<lparr> dc_connection_id = c \<rparr>")
  case True
  assume inv: "conn_inv s"
  have "hm_wf (bk_devices (disconnect d c now s))"
    using inv by (simp add: conn_inv_def disconnect_def Let_def)
  moreover have "dc_connection_id x \<noteq> c" if "hm_get (bk_devices s) d' = Some x" "d' \<noteq> d" for d' x
    using inv True that by (cases x) (auto simp: conn_inv_def)
  ultimately show ?thesis
    using inv True by (auto simp: conn_inv_def disconnect_devices disconnect_cancelled)
qed (simp add: disconnect_stale)

lemma attach_conn_inv:
  assumes inv: "conn_inv s" and fresh: "c \<notin> set (bk_cancelled s @ live_connections s)"
  shows "conn_inv (snd (attach d c now s))"
proof -
  define s1 where "s1 = (case hm_get (bk_devices s) d of None \<Rightarrow> s
     | Some previous \<Rightarrow> disconnect d (dc_connection_id previous) now s)"
  have inv1: "conn_inv s1" using inv by (simp add: s1_def disconnect_conn_inv split: option.split)
  have live: "hm_get (bk_devices s) d' = Some x \<Longrightarrow> dc_connection_id x \<noteq> c" for d' x
    using fresh hm_get_values [of "bk_devices s" d' x] by (auto simp: live_connections_def)
  have "c \<notin> set (bk_cancelled s1)" "hm_get (bk_devices s1) d' = Some x \<Longrightarrow> dc_connection_id x \<noteq> c" for d' x
    using fresh live by (auto simp: s1_def disconnect_cancelled disconnect_devices split: option.splits if_splits)
  then have "c \<notin> set (bk_cancelled s1)" "hm_get (bk_devices s1) d' \<noteq> Some \<lparr> dc_connection_id = c \<rparr>" for d'
    by fastforce+
  then show ?thesis
    using inv1 by (auto simp: attach_def s1_def [symmetric] Let_def conn_inv_def)
qed

lemma attach_cancelled_mono: "set (bk_cancelled s) \<subseteq> set (bk_cancelled (snd (attach d c now s)))"
  by (auto simp: attach_def Let_def disconnect_cancelled split: option.split)

lemma bk_apply_conn_inv:
  "conn_inv s \<Longrightarrow> bk_fresh e s \<Longrightarrow>
   conn_inv (bk_apply e s) \<and> set (bk_cancelled s) \<subseteq> set (bk_cancelled (bk_apply e s))"
proof (cases e)
  case (BkAttach d c now)
  then show "conn_inv s \<Longrightarrow> bk_fresh e s \<Longrightarrow> ?thesis"
    by (simp add: bk_apply_def bk_fresh_def attach_conn_inv attach_cancelled_mono)
next
  case (BkDetach i now)
  then show "conn_inv s \<Longrightarrow> bk_fresh e s \<Longrightarrow> ?thesis"
    by (simp add: bk_apply_def detach_def disconnect_conn_inv disconnect_cancelled)
qed (simp_all add: bk_apply_def conn_inv_def connections_kept)

lemma bk_run_conn_inv:
  "conn_inv s \<Longrightarrow> all_events bk_apply bk_fresh es s \<Longrightarrow>
   conn_inv (run_events bk_apply es s) \<and> set (bk_cancelled s) \<subseteq> set (bk_cancelled (run_events bk_apply es s))"
proof (induction es arbitrary: s)
  case (Cons e es)
  then show ?case using bk_apply_conn_inv [of s e] Cons.IH [of "bk_apply e s"] by auto
qed simp

lemma cancelled_not_required:
  "conn_inv s \<Longrightarrow> bi_connection_id i \<in> set (bk_cancelled s) \<Longrightarrow> require_connection s i = Inl BridgeUnavailable"
  by (fastforce simp: conn_inv_def require_connection_def split: option.split)

section \<open>Replies\<close>

definition reply_inv :: "broker_state \<Rightarrow> bool" where
  "reply_inv s \<longleftrightarrow> hm_wf (bk_pending s) \<and> distinct (map fst (bk_delivered s)) \<and>
     (\<forall>k q. hm_get (bk_pending s) k = Some q \<longrightarrow> pq_response q \<notin> set (map fst (bk_delivered s))) \<and>
     (\<forall>k k' q q'. hm_get (bk_pending s) k = Some q \<longrightarrow> hm_get (bk_pending s) k' = Some q' \<longrightarrow>
        pq_response q = pq_response q' \<longrightarrow> k = k')"

text \<open>A state with fewer pending requests and the same deliveries keeps the invariant.\<close>

lemma reply_inv_shrink:
  assumes "reply_inv s" "bk_delivered s' = bk_delivered s" "hm_wf (bk_pending s')"
    "\<And>k q. hm_get (bk_pending s') k = Some q \<Longrightarrow> hm_get (bk_pending s) k = Some q"
  shows "reply_inv s'"
  using assms unfolding reply_inv_def by metis

lemma pending_kept:
  "bk_pending (snd (upsert i p now s)) = bk_pending s"
  "bk_delivered (snd (upsert i p now s)) = bk_delivered s"
  "bk_pending (snd (prepare_project_route session subject scope now uuid s)) = bk_pending s"
  "bk_delivered (snd (prepare_project_route session subject scope now uuid s)) = bk_delivered s"
  "bk_pending (snd (prepare_device_route session subject d dir now uuid s)) = bk_pending s"
  "bk_delivered (snd (prepare_device_route session subject d dir now uuid s)) = bk_delivered s"
  "bk_pending (snd (prepare_resume i p now uuid s)) = bk_pending s"
  "bk_delivered (snd (prepare_resume i p now uuid s)) = bk_delivered s"
  "bk_pending (snd (active_route session subject now s)) = bk_pending s"
  "bk_delivered (snd (active_route session subject now s)) = bk_delivered s"
  "bk_pending (remove_route_if_current route s) = bk_pending s"
  "bk_delivered (remove_route_if_current route s) = bk_delivered s"
  by (simp_all add: upsert_def purge_expired_def refresh_project_def replace_project_def
      prepare_project_route_def prepare_device_route_def prepare_resume_def install_route_def active_route_def
      remove_route_if_current_def Let_def split: option.split sum.split prod.split)

lemma disconnect_reply_inv: "reply_inv s \<Longrightarrow> reply_inv (disconnect d c now s)"
  by (rule reply_inv_shrink [of s]) (auto simp: disconnect_def Let_def reply_inv_def hm_get_retain split: if_splits)

lemma attach_reply_inv: "reply_inv s \<Longrightarrow> reply_inv (snd (attach d c now s))"
  using disconnect_reply_inv [of s d _ now] by (auto simp: attach_def Let_def reply_inv_def split: option.split)

lemma complete_reply_inv: "reply_inv s \<Longrightarrow> reply_inv (complete i r s)"
  by (auto simp: complete_def Let_def reply_inv_def split: option.split)

lemma dispatch_reply_inv:
  assumes "reply_inv s" "response \<notin> set (pending_responses s @ map fst (bk_delivered s))"
  shows "reply_inv (snd (dispatch_begin route rid response s))"
proof -
  have "hm_get (bk_pending s) k = Some q \<Longrightarrow> pq_response q \<noteq> response" for k q
    using assms hm_get_values [of "bk_pending s" k q] by (auto simp: pending_responses_def)
  then show ?thesis
    using assms by (auto simp: dispatch_begin_def reply_inv_def split: option.split)
qed

lemma bk_apply_reply_inv:
  assumes "reply_inv s" "bk_fresh e s"
  shows "reply_inv (bk_apply e s)"
proof (cases e)
  case (BkDrop rid)
  then show ?thesis using assms by (auto simp: bk_apply_def drop_request_def reply_inv_def)
next
  case (BkDispatch route rid response)
  then show ?thesis using assms by (simp add: bk_apply_def bk_fresh_def dispatch_reply_inv)
next
  case (BkAttach d c now)
  then show ?thesis using assms(1) by (simp add: bk_apply_def attach_reply_inv)
next
  case (BkDetach i now)
  then show ?thesis using assms(1) by (simp add: bk_apply_def detach_def disconnect_reply_inv)
next
  case (BkComplete i r)
  then show ?thesis using assms(1) by (simp add: bk_apply_def complete_reply_inv)
qed (use assms(1) in \<open>simp_all add: bk_apply_def reply_inv_def pending_kept\<close>)

end
