(* ===== verification/Broker_Safety.thy ===== *)
theory Broker_Safety
  imports Broker
begin

text \<open>
  What the broker promises over every sequence of its atomic steps: its invariant, that a
  replaced connection can do nothing, that a request is answered at most once, that a session
  answers to one principal only, that generations of a thread only grow, and what a failed
  selection leaves behind.
\<close>

section \<open>Invariants of every run\<close>

text \<open>From the empty broker, whatever the bridges, the sessions and their tool calls do,
  every session route and every registered project belongs to a connected device, every pending
  request waits on the connection its device has now, no device registers two projects for one
  thread, and dormant routes are filed under their own device and thread.\<close>
theorem broker_invariant:
  "all_events bk_apply bk_fresh es broker_new \<Longrightarrow> bk_inv (run_events bk_apply es broker_new)"
  by (rule bk_run_inv [OF broker_new_inv])

definition demo_project :: project_registration where
  "demo_project = \<lparr> pj_project_scope = lit ''scope'', pj_binding_id = lit ''b'', pj_thread_id = lit ''t'',
     pj_project_name = lit ''demo'', pj_expires_at = 900 \<rparr>"

definition demo_identity :: bridge_identity where
  "demo_identity = \<lparr> bi_device_id = lit ''pc'', bi_connection_id = 1 \<rparr>"

definition demo_route :: session_route where
  "demo_route = \<lparr> sn_session = lit ''chat'', sn_subject = lit ''me'', sn_device_id = lit ''pc'',
     sn_thread_id = lit ''t'', sn_computer_session_id = lit ''u1'', sn_generation = 1, sn_expires_at = 900,
     sn_target = TargetProject \<rparr>"

definition demo_run :: "bk_event list" where
  "demo_run = [BkAttach (lit ''pc'') 1 0, BkUpsert demo_identity demo_project 10,
     BkProjectRoute (lit ''chat'') (lit ''me'') (lit ''scope'') 20 (lit ''u1''),
     BkDispatch demo_route (lit ''r1'') 7, BkComplete demo_identity (ProjectSessionResult (lit ''r1'')),
     BkAttach (lit ''pc'') 2 30]"

lemmas demo_defs = demo_run_def demo_identity_def demo_project_def demo_route_def

lemmas broker_step_defs = bk_apply_def bk_fresh_def broker_new_def attach_def disconnect_def upsert_def
  require_connection_def purge_expired_def purge_dormant_def replace_project_def prepare_project_route_def
  other_principal_def install_route_def generation_at_def next_generation_def dispatch_begin_def route_known_def
  pending_responses_def live_connections_def complete_def make_dormant_def

lemma demo_run_fresh: "all_events bk_apply bk_fresh demo_run broker_new"
  by (simp add: demo_defs broker_step_defs hm_defs lit_def Let_def)

lemma demo_run_end:
  "bk_cancelled (run_events bk_apply demo_run broker_new) = [1]"
  "map fst (bk_delivered (run_events bk_apply demo_run broker_new)) = [7]"
  by (simp_all add: demo_defs broker_step_defs hm_defs lit_def Let_def)

theorem broker_invariant_witness:
  "all_events bk_apply bk_fresh demo_run broker_new \<and> bk_inv (run_events bk_apply demo_run broker_new)"
  using broker_invariant [OF demo_run_fresh] demo_run_fresh by simp

text \<open>C21: Once a connection has been replaced or detached, it is powerless for ever: at any later
  point of the run its registrations and resumptions are refused as unavailable, and its replies and its
  detachment change nothing.\<close>
theorem replaced_connection_powerless:
  assumes "all_events bk_apply bk_fresh (es @ es') broker_new"
    and "bi_connection_id i \<in> set (bk_cancelled (run_events bk_apply es broker_new))"
  defines "s \<equiv> run_events bk_apply (es @ es') broker_new"
  shows "upsert i p now s = (Inl BridgeUnavailable, s) \<and>
     prepare_resume i p now uuid s = (Inl BridgeUnavailable, s) \<and> complete i r s = s \<and> detach i now s = s"
proof -
  have "conn_inv (run_events bk_apply es broker_new)"
    using assms(1) bk_run_conn_inv [OF conn_inv_new] by (simp add: all_events_append)
  then have "conn_inv s" "bi_connection_id i \<in> set (bk_cancelled s)"
    using assms(1,2) bk_run_conn_inv [of "run_events bk_apply es broker_new" es']
    by (auto simp: s_def all_events_append run_events_append)
  then have off: "require_connection s i = Inl BridgeUnavailable" by (rule cancelled_not_required)
  then have "disconnect (bi_device_id i) (bi_connection_id i) now s = s"
    by (auto simp: disconnect_def require_connection_def split: option.splits if_splits)
  then show ?thesis using off by (simp add: upsert_def prepare_resume_def complete_def detach_def)
qed

theorem replaced_connection_powerless_witness:
  "bk_cancelled (run_events bk_apply demo_run broker_new) = [1] \<and>
   upsert demo_identity demo_project 40 (run_events bk_apply demo_run broker_new) =
     (Inl BridgeUnavailable, run_events bk_apply demo_run broker_new)"
proof -
  have "bi_connection_id demo_identity = 1" by (simp add: demo_identity_def)
  then show ?thesis
    using demo_run_fresh demo_run_end(1) replaced_connection_powerless [of demo_run "[]" demo_identity demo_project 40] by simp
qed

text \<open>Every one-shot channel is used at most once: over a run, no request is answered twice, and an
  answered request is no longer pending.\<close>
theorem request_answered_at_most_once:
  assumes "all_events bk_apply bk_fresh es broker_new"
  defines "s \<equiv> run_events bk_apply es broker_new"
  shows "distinct (map fst (bk_delivered s)) \<and> set (pending_responses s) \<inter> set (map fst (bk_delivered s)) = {}"
proof -
  have "reply_inv broker_new" by (simp add: reply_inv_def broker_new_def)
  then have "reply_inv s"
    unfolding s_def using run_events_inv [where I = reply_inv and P = bk_fresh] bk_apply_reply_inv assms(1) by blast
  then have "distinct (map fst (bk_delivered s))"
    "q \<in> set (hm_values (bk_pending s)) \<Longrightarrow> pq_response q \<notin> set (map fst (bk_delivered s))" for q
    unfolding reply_inv_def using hm_values_get by metis+
  then show ?thesis by (auto simp: pending_responses_def)
qed

theorem request_answered_at_most_once_witness:
  "distinct (map fst (bk_delivered (run_events bk_apply demo_run broker_new))) \<and>
   map fst (bk_delivered (run_events bk_apply demo_run broker_new)) = [7]"
  using request_answered_at_most_once [OF demo_run_fresh] demo_run_end(2) by simp

section \<open>Sessions and principals\<close>

lemma active_route_other:
  assumes "bk_inv s" "hm_get (bk_sessions s) session = Some r" "sn_subject r \<noteq> subject" "sn_expires_at r > now"
  shows "fst (active_route session subject now s) = Inl PrincipalMismatch"
    "hm_get (bk_sessions (snd (active_route session subject now s))) session = Some r"
    "bk_sent (snd (active_route session subject now s)) = bk_sent s"
    "bk_pending (snd (active_route session subject now s)) = bk_pending s"
  using assms by (simp_all add: active_route_def Let_def hm_get_retain bk_inv_defs)

text \<open>What a call by another principal comes to: an error, nothing sent, nothing pending, and the
  session's route as it was.\<close>

definition refused_untouched :: "rstr \<Rightarrow> session_route \<Rightarrow> broker_state \<Rightarrow> (broker_error, 'a) result \<times> broker_state \<Rightarrow> bool" where
  "refused_untouched session r s out \<longleftrightarrow> (\<not> is_ok (fst out) \<and> bk_sent (snd out) = bk_sent s \<and>
     bk_pending (snd out) = bk_pending s \<and> hm_get (bk_sessions (snd out)) session = Some r)"

lemma route_call_other:
  assumes "bk_inv s" "hm_get (bk_sessions s) session = Some r" "sn_subject r \<noteq> subject" "sn_expires_at r > cw_now w"
  shows "refused_untouched session r s (route_call w session subject command pick s)"
  using active_route_other [OF assms] by (auto simp: refused_untouched_def route_call_def split: prod.split)

text \<open>C20: A live session answers to the principal that selected it only. A tool call, a selection of a
  project or of a device, a change of directory or a query made in the session by another
  subject fails, sends no command to any bridge, leaves no pending request, and leaves the session's
  route as it was.\<close>
theorem session_answers_its_principal_only:
  assumes "bk_inv s" "hm_get (bk_sessions s) session = Some r" "sn_subject r \<noteq> subject" "sn_expires_at r > cw_now w"
  shows "refused_untouched session r s (project_operation_call url_parse w session subject operation s) \<and>
     refused_untouched session r s (read_file w session subject path start_line max_lines s) \<and>
     refused_untouched session r s (write_file w session subject path content sha s) \<and>
     refused_untouched session r s (list_files w session subject pattern limit s) \<and>
     refused_untouched session r s (project_info w session subject s) \<and>
     refused_untouched session r s (select_project w uuid session subject scope s) \<and>
     refused_untouched session r s (select_device w uuid session subject device dir s) \<and>
     refused_untouched session r s (set_working_directory w uuid session subject dir s) \<and>
     refused_untouched session r s (device_info session subject (cw_now w) s)"
proof -
  have other: "other_principal s session subject" using assms by (simp add: other_principal_def)
  have "refused_untouched session r s (project_operation_call url_parse w session subject operation s)"
    using route_call_other [OF assms] assms(2)
    by (auto simp: project_operation_call_def refused_untouched_def split: sum.split)
  moreover have "refused_untouched session r s (select_project w uuid session subject scope s)"
    using other assms(2) by (auto simp: select_project_def prepare_project_route_def refused_untouched_def split: option.split)
  moreover have "refused_untouched session r s (select_device w uuid session subject device dir s)"
    using other assms(2) by (auto simp: select_device_def select_device_route_def prepare_device_route_def
        refused_untouched_def split: sum.split)
  moreover have "refused_untouched session r s (set_working_directory w uuid session subject dir s)"
    using active_route_other [OF assms] assms(2)
    by (auto simp: set_working_directory_def refused_untouched_def split: sum.split prod.split)
  moreover have "refused_untouched session r s (device_info session subject (cw_now w) s)"
    using active_route_other [OF assms] by (auto simp: device_info_def refused_untouched_def split: sum.split prod.split)
  ultimately show ?thesis
    by (simp add: read_file_def write_file_def list_files_def project_info_def route_call_other [OF assms])
qed

definition demo_world :: call_world where
  "demo_world = \<lparr> cw_during1 = id, cw_sent = SendDone, cw_during2 = id, cw_cancelled = False,
     cw_request_id = lit ''r9'', cw_response = 9, cw_now = 25 \<rparr>"

definition demo_selected :: broker_state where
  "demo_selected = run_events bk_apply (take 3 demo_run) broker_new"

lemma demo_selected_facts:
  "bk_inv demo_selected" "hm_get (bk_sessions demo_selected) (lit ''chat'') = Some demo_route"
  "hm_get (bk_projects demo_selected) (lit ''scope'') = Some (lit ''pc'', demo_project)"
proof -
  have "all_events bk_apply bk_fresh (take 3 demo_run) broker_new"
    by (simp add: demo_defs broker_step_defs hm_defs lit_def Let_def)
  then show "bk_inv demo_selected" unfolding demo_selected_def by (rule bk_run_inv [OF broker_new_inv])
qed (simp_all add: demo_selected_def demo_defs broker_step_defs hm_defs lit_def Let_def)

theorem session_answers_its_principal_only_witness:
  "refused_untouched (lit ''chat'') demo_route demo_selected
     (write_file demo_world (lit ''chat'') (lit ''eve'') (lit ''x'') [] None demo_selected)"
  using session_answers_its_principal_only [of demo_selected "lit ''chat''" demo_route "lit ''eve''" demo_world]
    demo_selected_facts by (simp add: demo_route_def demo_world_def lit_def)

text \<open>A project scope that a device holds is that device's: while its registration has not expired,
  a registration of the scope by another device is refused and every project stays with its owner.\<close>
theorem scope_stays_with_its_device:
  assumes "bk_inv s" "hm_get (bk_projects s) (pj_project_scope p) = Some (owner, q)" "owner \<noteq> bi_device_id i"
    and "pj_expires_at q > now" "pj_expires_at p > now"
  shows "\<exists>e s'. upsert i p now s = (Inl e, s') \<and> hm_get (bk_projects s') (pj_project_scope p) = Some (owner, q)"
  using assms by (auto simp: upsert_def purge_expired_def Let_def hm_get_retain bk_inv_defs split: sum.split)

theorem scope_stays_with_its_device_witness:
  "\<exists>e s'. upsert \<lparr> bi_device_id = lit ''other'', bi_connection_id = 5 \<rparr> demo_project 25 demo_selected = (Inl e, s') \<and>
     hm_get (bk_projects s') (lit ''scope'') = Some (lit ''pc'', demo_project)"
proof -
  have "pj_project_scope demo_project = lit ''scope''" "pj_expires_at demo_project > 25" "lit ''pc'' \<noteq> lit ''other''"
    by (simp_all add: demo_project_def lit_def)
  then show ?thesis
    using scope_stays_with_its_device [of demo_selected demo_project "lit ''pc''" demo_project
        "\<lparr> bi_device_id = lit ''other'', bi_connection_id = 5 \<rparr>" 25] demo_selected_facts by simp
qed

section \<open>Generations\<close>

text \<open>The generation table is ahead of every route, live or dormant.\<close>

definition gen_ahead :: "broker_state \<Rightarrow> session_route \<Rightarrow> bool" where
  "gen_ahead s r = (sn_generation r \<le> generation_at s (sn_device_id r, sn_thread_id r))"

definition gen_inv :: "broker_state \<Rightarrow> bool" where
  "gen_inv s \<longleftrightarrow> (\<forall>k r. hm_get (bk_sessions s) k = Some r \<longrightarrow> gen_ahead s r) \<and>
     (\<forall>k d. hm_get (bk_dormant s) k = Some d \<longrightarrow> gen_ahead s (dm_route d))"

text \<open>No generation of the table is the last one.\<close>

definition gens_left :: "broker_state \<Rightarrow> bool" where
  "gens_left s \<longleftrightarrow> list_all (\<lambda>g. g < u64_max) (hm_values (bk_generations s))"

lemma gens_left_at: "gens_left s \<Longrightarrow> generation_at s key < u64_max"
  using hm_get_values [of "bk_generations s" key]
  by (auto simp: gens_left_def list_all_iff generation_at_def u64_max_def split: option.split)

lemma next_generation_less: "g < u64_max \<Longrightarrow> next_generation g = g + 1"
  by (simp add: next_generation_def u64_max_def)

lemma gen_inv_shrink:
  assumes "gen_inv s" "bk_generations s' = bk_generations s"
    "\<And>k r. hm_get (bk_sessions s') k = Some r \<Longrightarrow> gen_ahead s r"
    "\<And>k d. hm_get (bk_dormant s') k = Some d \<Longrightarrow> gen_ahead s (dm_route d)"
  shows "gen_inv s'"
proof -
  have "gen_ahead s' = gen_ahead s" by (rule ext) (simp add: gen_ahead_def generation_at_def assms(2))
  then show ?thesis using assms(3,4) by (simp add: gen_inv_def)
qed

lemma gen_ahead_expiry [simp]: "gen_ahead s (r\<lparr>sn_expires_at := t\<rparr>) = gen_ahead s r"
  by (simp add: gen_ahead_def)

lemma gen_inv_get:
  assumes "gen_inv s"
  shows "hm_get (bk_sessions s) k = Some r \<Longrightarrow> gen_ahead s r"
    "hm_get (bk_dormant s) key = Some d \<Longrightarrow> gen_ahead s (dm_route d)"
  using assms unfolding gen_inv_def by blast+

lemma gen_inv_devices [simp]: "gen_inv (s\<lparr>bk_devices := m\<rparr>) = gen_inv s"
  by (simp add: gen_inv_def gen_ahead_def generation_at_def)

lemma fold_make_dormant_ahead:
  assumes "\<And>k d. hm_get m k = Some d \<Longrightarrow> Q (dm_route d)" "\<And>r. r \<in> set routes \<Longrightarrow> Q r"
    and "hm_get (fold (make_dormant device now owned) routes m) k = Some d"
  shows "Q (dm_route d)"
  using assms
proof (induction routes arbitrary: m)
  case (Cons r routes)
  have "Q (dm_route d')" if "hm_get (make_dormant device now owned r m) k' = Some d'" for k' d'
    using that Cons.prems(1) [of k' d'] Cons.prems(2) [of r]
    by (auto simp: make_dormant_def split: if_splits option.splits)
  then show ?case using Cons.IH [of "make_dormant device now owned r m"] Cons.prems(2,3) by simp
qed simp

lemma disconnect_gen_inv:
  assumes "bk_inv s" "gen_inv s" shows "gen_inv (disconnect d c now s)"
proof (cases "hm_get (bk_devices s) d = Some \<lparr> dc_connection_id = c \<rparr>")
  case True
  have wf: "hm_wf (bk_sessions s)" using assms(1) by (simp add: bk_inv_defs)
  have "gen_ahead s r" if "r \<in> set (hm_values (bk_sessions s))" for r
    using that gen_inv_get(1) [OF assms(2)] wf by (auto simp: hm_values_get)
  then have "gen_ahead s (dm_route x)"
    if "hm_get (bk_dormant (disconnect d c now s)) k = Some x" for k x
    using that True gen_inv_get(2) [OF assms(2)]
    by (auto simp: disconnect_def Let_def elim!: fold_make_dormant_ahead [rotated 2])
  moreover have "gen_ahead s r" if "hm_get (bk_sessions (disconnect d c now s)) k = Some r" for k r
    using that True wf gen_inv_get(1) [OF assms(2)] by (auto simp: disconnect_def Let_def hm_get_retain split: if_splits)
  moreover have "bk_generations (disconnect d c now s) = bk_generations s" by (simp add: disconnect_def Let_def)
  ultimately show ?thesis using gen_inv_shrink [OF assms(2)] by blast
qed (simp add: disconnect_stale assms(2))

lemma attach_gen_inv: "bk_inv s \<Longrightarrow> gen_inv s \<Longrightarrow> gen_inv (snd (attach d c now s))"
  using disconnect_gen_inv [of s d _ now]
  by (simp add: attach_def Let_def split: option.split)

lemma purge_expired_gen_inv: "bk_inv s \<Longrightarrow> gen_inv s \<Longrightarrow> gen_inv (purge_expired now s)"
  by (rule gen_inv_shrink [of s])
    (auto simp: purge_expired_def purge_dormant_def hm_get_retain bk_inv_defs dormant_ok_def gen_inv_get split: if_splits)

lemma refresh_project_gen_inv: "bk_inv s \<Longrightarrow> gen_inv s \<Longrightarrow> gen_inv (refresh_project i p s)"
  by (rule gen_inv_shrink [of s])
    (auto simp: refresh_project_def Let_def gen_inv_get hm_get_map_values split: if_splits option.splits)

lemma replace_project_gen_inv: "bk_inv s \<Longrightarrow> gen_inv s \<Longrightarrow> gen_inv (replace_project i p s)"
  by (rule gen_inv_shrink [of s])
    (auto simp: replace_project_def Let_def hm_get_retain bk_inv_defs gen_inv_get split: if_splits option.splits)

lemma upsert_gen_inv:
  assumes "bk_inv s" "gen_inv s" shows "gen_inv (snd (upsert i p now s))"
proof -
  have "bk_inv (purge_expired now s)" "gen_inv (purge_expired now s)"
    using assms by (simp_all add: purge_expired_inv purge_expired_gen_inv)
  then show ?thesis
    using assms(2) by (auto simp: upsert_def Let_def refresh_project_gen_inv replace_project_gen_inv split: sum.split)
qed

lemma install_route_gen_inv:
  assumes "gen_inv s" "generation_at s (sn_device_id route, sn_thread_id route) \<le> sn_generation route"
  shows "gen_inv (install_route route s)"
proof -
  have "gen_ahead s r \<Longrightarrow> gen_ahead (install_route route s) r" for r
    using assms(2) by (auto simp: gen_ahead_def generation_at_def install_route_def split: if_splits)
  moreover have "gen_ahead (install_route route s) route"
    by (simp add: gen_ahead_def generation_at_def install_route_def)
  ultimately show ?thesis
    using gen_inv_get [OF assms(1)] by (auto simp: gen_inv_def install_route_def split: if_splits)
qed

lemma prepare_resume_gen_inv:
  assumes "bk_inv s" "gen_inv s" "gens_left s"
  shows "gen_inv (snd (prepare_resume i p now uuid s))"
proof -
  define s1 where "s1 = s\<lparr>bk_dormant := purge_dormant now (bk_dormant s)\<rparr>"
  define s2 where "s2 = s1\<lparr>bk_dormant := hm_remove (bi_device_id i, pj_thread_id p) (bk_dormant s1)\<rparr>"
  have wf: "hm_wf (bk_dormant s)" using assms(1) by (simp add: bk_inv_defs dormant_ok_def)
  have "gen_inv s1"
    by (rule gen_inv_shrink [OF assms(2)])
      (use assms(2) wf in \<open>auto simp: s1_def purge_dormant_def hm_get_retain gen_inv_get split: if_splits\<close>)
  moreover have "gen_inv s2"
    by (rule gen_inv_shrink [OF \<open>gen_inv s1\<close>])
      (use \<open>gen_inv s1\<close> in \<open>auto simp: s2_def gen_inv_get split: if_splits\<close>)
  moreover have "generation_at s2 key \<le> next_generation (max (generation_at s2 key) (sn_generation (dm_route d)))"
    if got: "hm_get (bk_dormant s1) key = Some d" for key d
  proof -
    have "key = (sn_device_id (dm_route d), sn_thread_id (dm_route d))"
      using got assms(1) by (cases key) (auto simp: s1_def bk_inv_defs dormant_ok_def purge_dormant_def hm_get_retain split: if_splits)
    moreover have "gen_ahead s1 (dm_route d)" using gen_inv_get(2) [OF \<open>gen_inv s1\<close> got] .
    moreover have "generation_at s1 key = generation_at s2 key" "generation_at s key = generation_at s2 key"
      by (simp_all add: generation_at_def s1_def s2_def)
    ultimately show ?thesis
      using gens_left_at [OF assms(3), of key] by (simp add: gen_ahead_def max_def next_generation_less)
  qed
  ultimately show ?thesis
    using assms(2) unfolding prepare_resume_def Let_def s1_def [symmetric] s2_def [symmetric]
    by (auto simp: install_route_gen_inv split: sum.split option.split)
qed

lemma prepare_project_route_gen_inv:
  assumes "gen_inv s" "gens_left s"
  shows "gen_inv (snd (prepare_project_route session subject scope now uuid s))"
  using assms by (auto simp: prepare_project_route_def Let_def install_route_gen_inv next_generation_less
      gens_left_at split: option.split)

lemma prepare_device_route_gen_inv:
  assumes "gen_inv s" "gens_left s"
  shows "gen_inv (snd (prepare_device_route session subject d dir now uuid s))"
  using assms by (auto simp: prepare_device_route_def Let_def install_route_gen_inv next_generation_less gens_left_at)

definition bk_bounded :: "bk_event \<Rightarrow> broker_state \<Rightarrow> bool" where
  "bk_bounded e s \<longleftrightarrow> bk_fresh e s \<and> gens_left s"

lemma active_route_gen_inv: "bk_inv s \<Longrightarrow> gen_inv s \<Longrightarrow> gen_inv (snd (active_route session subject now s))"
  by (rule gen_inv_shrink [of s])
    (auto simp: active_route_def Let_def hm_get_retain bk_inv_defs gen_inv_get split: option.splits if_splits)

lemma remove_route_gen_inv: "gen_inv s \<Longrightarrow> gen_inv (remove_route_if_current route s)"
  by (rule gen_inv_shrink [of s])
    (auto simp: remove_route_if_current_def gen_inv_get split: option.splits if_splits)

lemma gen_inv_requests:
  "gen_inv s \<Longrightarrow> gen_inv (complete i r s)" "gen_inv s \<Longrightarrow> gen_inv (drop_request rid s)"
  "gen_inv s \<Longrightarrow> gen_inv (snd (dispatch_begin route rid response s))" "gen_inv s \<Longrightarrow> gen_inv (s\<lparr>bk_sent := x\<rparr>)"
  by (auto simp: complete_def drop_request_def dispatch_begin_def Let_def gen_inv_def gen_ahead_def generation_at_def
      split: option.split)

lemma bk_apply_gen_inv:
  "bk_inv s \<and> gen_inv s \<Longrightarrow> bk_bounded e s \<Longrightarrow> bk_inv (bk_apply e s) \<and> gen_inv (bk_apply e s)"
  by (cases e) (simp_all add: bk_apply_inv bk_bounded_def, simp_all add: bk_apply_def detach_def attach_gen_inv
      disconnect_gen_inv upsert_gen_inv prepare_project_route_gen_inv prepare_device_route_gen_inv
      prepare_resume_gen_inv active_route_gen_inv remove_route_gen_inv gen_inv_requests)

lemma bk_run_gen_inv:
  "all_events bk_apply bk_bounded es broker_new \<Longrightarrow>
   bk_inv (run_events bk_apply es broker_new) \<and> gen_inv (run_events bk_apply es broker_new)"
  by (rule run_events_inv [where I = "\<lambda>s. bk_inv s \<and> gen_inv s" and P = bk_bounded])
    (simp_all only: bk_apply_gen_inv, simp_all add: broker_new_inv, simp add: gen_inv_def broker_new_def)

text \<open>Generations order the selections of a thread. Along a run in which no generation counter has
  reached the end of its 64 bits, the route a new selection of a project installs has a greater generation
  than every other route, live or dormant, of the same device and thread, so the bridge, which keeps the
  newest generation, is always handed over to the last selection.\<close>
theorem new_selection_is_newest:
  assumes "all_events bk_apply bk_bounded es broker_new"
  defines "s \<equiv> run_events bk_apply es broker_new"
  assumes "gens_left s" "prepare_project_route session subject scope now uuid s = (Inr (route, p), s')"
    and "hm_get (bk_sessions s) k = Some r \<or> hm_get (bk_dormant s) key = Some d \<and> r = dm_route d"
    and "sn_device_id r = sn_device_id route" "sn_thread_id r = sn_thread_id route"
  shows "sn_generation r < sn_generation route \<and> hm_get (bk_sessions s') session = Some route"
proof -
  have "gen_inv s" using bk_run_gen_inv [OF assms(1)] by (simp add: s_def)
  then have "gen_ahead s r" using assms(5) gen_inv_get [of s] by metis
  moreover have "sn_generation route = next_generation (generation_at s (sn_device_id route, sn_thread_id route))"
    "hm_get (bk_sessions s') session = Some route"
    using assms(4) by (auto simp: prepare_project_route_def install_route_def Let_def split: option.splits prod.splits if_splits)
  ultimately show ?thesis
    using gens_left_at [OF assms(3)] assms(6,7) by (simp add: gen_ahead_def next_generation_less less_Suc_eq_le)
qed

theorem new_selection_is_newest_witness:
  "\<exists>route p s'. prepare_project_route (lit ''chat2'') (lit ''you'') (lit ''scope'') 25 (lit ''u2'') demo_selected =
     (Inr (route, p), s') \<and> sn_generation demo_route < sn_generation route"
proof -
  have run: "all_events bk_apply bk_bounded (take 3 demo_run) broker_new"
    by (simp add: demo_defs bk_bounded_def gens_left_def u64_max_def broker_step_defs hm_defs lit_def Let_def)
  have left: "gens_left demo_selected"
    by (simp add: demo_selected_def demo_defs gens_left_def u64_max_def broker_step_defs hm_defs lit_def Let_def)
  obtain route p s' where sel: "prepare_project_route (lit ''chat2'') (lit ''you'') (lit ''scope'') 25 (lit ''u2'')
      demo_selected = (Inr (route, p), s')" "sn_device_id route = lit ''pc''" "sn_thread_id route = lit ''t''"
    by (simp add: demo_selected_def demo_defs broker_step_defs hm_defs lit_def Let_def)
  then have "sn_generation demo_route < sn_generation route"
    using new_selection_is_newest [OF run, folded demo_selected_def, OF left sel(1), of "lit ''chat''" demo_route]
      demo_selected_facts(2) by (simp add: demo_route_def)
  then show ?thesis using sel(1) by blast
qed

section \<open>What a failed selection leaves\<close>

lemma dispatch_in_inv:
  assumes "bk_inv s" "route_known route s" "\<And>s. bk_inv s \<Longrightarrow> bk_inv (cw_during1 w s)"
    "\<And>s. bk_inv s \<Longrightarrow> bk_inv (cw_during2 w s)"
  shows "bk_inv (snd (dispatch_in w route command s))"
proof -
  have sent: "bk_inv s \<Longrightarrow> bk_inv (s\<lparr>bk_sent := x\<rparr>)" for s x by (simp add: bk_inv_defs)
  have wait: "bk_inv s \<Longrightarrow> bk_inv (snd (await_reply cancelled rid response s))" for s cancelled rid response
    by (auto simp: await_reply_def intro: inv_intros split: option.split)
  obtain out s1 where "dispatch_begin route (command_request_id command) (cw_response w) s = (out, s1)" "bk_inv s1"
    using dispatch_begin_inv [OF assms(1,2), of "command_request_id command" "cw_response w"] by (metis prod.collapse)
  then show ?thesis
    using assms(3,4) wait sent
    by (auto simp: dispatch_in_def dispatch_on_route_def Let_def intro: inv_intros split: sum.split send_outcome.split)
qed

lemma removed_route_gone:
  "hm_get (bk_sessions (remove_route_if_current route s)) (sn_session route) = Some r \<Longrightarrow>
   sn_computer_session_id r \<noteq> sn_computer_session_id route"
  by (auto simp: remove_route_if_current_def split: option.splits if_splits)

text \<open>A project selection that fails leaves no route of its own behind, whatever other tasks did
  while it waited for the bridge: the session does not carry the computer session id the selection
  drew.\<close>
theorem failed_selection_leaves_no_route:
  assumes "select_project w uuid session subject scope s = (Inl e, s')"
    and "\<And>r. hm_get (bk_sessions s) session = Some r \<Longrightarrow> sn_computer_session_id r \<noteq> uuid"
    and "hm_get (bk_sessions s') session = Some r"
  shows "sn_computer_session_id r \<noteq> uuid"
proof (cases "fst (prepare_project_route session subject scope (cw_now w) uuid s)")
  case (Inl e1)
  then have "s' = s"
    using assms(1) by (auto simp: select_project_def prepare_project_route_def Let_def split: option.splits prod.splits if_splits)
  then show ?thesis using assms(2,3) by simp
next
  case (Inr rp)
  then obtain route project s1 where prep: "prepare_project_route session subject scope (cw_now w) uuid s = (Inr (route, project), s1)"
    by (cases rp) (metis prod.collapse)
  then have ids: "sn_session route = session" "sn_computer_session_id route = uuid"
    by (auto simp: prepare_project_route_def Let_def split: option.splits prod.splits if_splits)
  obtain activated s2 where act: "dispatch_in w route (ProjectSession (session_head w route) (sn_generation route)) s1 = (activated, s2)"
    by fastforce
  have "\<not> is_session_result activated" "s' = (if is_session_result activated then s2 else remove_route_if_current route s2)"
    using assms(1) by (auto simp: select_project_def prep act is_session_result_def require_session_result_def
        split: sum.splits bridge_result.splits)
  then show ?thesis using removed_route_gone [of route s2 r] assms(3) ids by simp
qed

definition refusing_world :: call_world where
  "refusing_world = demo_world\<lparr>cw_during2 := complete demo_identity (OperationError (lit ''r9'') (lit ''c'') (lit ''no''))\<rparr>"

theorem failed_selection_leaves_no_route_witness:
  "fst (select_project refusing_world (lit ''u2'') (lit ''chat'') (lit ''me'') (lit ''scope'') demo_selected) =
     Inl (RemoteOperation (lit ''no'')) \<and>
   (case hm_get (bk_sessions (snd (select_project refusing_world (lit ''u2'') (lit ''chat'') (lit ''me'') (lit ''scope'')
       demo_selected))) (lit ''chat'') of None \<Rightarrow> True | Some r \<Rightarrow> sn_computer_session_id r \<noteq> lit ''u2'')"
proof -
  let ?out = "select_project refusing_world (lit ''u2'') (lit ''chat'') (lit ''me'') (lit ''scope'') demo_selected"
  have e: "fst ?out = Inl (RemoteOperation (lit ''no''))"
    by (simp add: demo_selected_def refusing_world_def demo_world_def select_project_def dispatch_in_def dispatch_on_route_def
        await_reply_def is_session_result_def require_session_result_def command_request_id_def session_head_def
        demo_defs broker_step_defs hm_defs lit_def Let_def)
  have "sn_computer_session_id demo_route \<noteq> lit ''u2''" by (simp add: demo_route_def lit_def)
  then have "hm_get (bk_sessions (snd ?out)) (lit ''chat'') = Some r \<Longrightarrow> sn_computer_session_id r \<noteq> lit ''u2''" for r
    using failed_selection_leaves_no_route [of refusing_world "lit ''u2''" "lit ''chat''" "lit ''me''" "lit ''scope''"
        demo_selected _ "snd ?out" r] e demo_selected_facts(2) by (metis option.inject prod.collapse)
  then show ?thesis using e by (simp split: option.split)
qed

text \<open>C34: A device selection that the bridge refuses stays in force. When the bridge answers the device
  session command with an operation error, the selection reports the error but, unlike a project
  selection, keeps the refused route: until it expires, the session's device information reports the
  refused directory as the current selection.\<close>
theorem refused_device_selection_stays:
  assumes "prepare_device_route session subject d dir (cw_now w) uuid s = (Inr route, s1)"
    and "dispatch_in w route (DeviceSession (session_head w route) (sn_generation route) dir (sn_expires_at route)) s1 =
      (Inr (OperationError rid code body), s2)"
    and "bk_inv s2" "hm_get (bk_sessions s2) session = Some route" "now' < cw_now w + DEVICE_ROUTE_TTL_SECONDS"
  shows "select_device_route w uuid session subject d dir s = (Inl (RemoteOperation body), s2) \<and>
     fst (device_info session subject now' s2) = Inr \<lparr> ds_device_id = d, ds_working_directory = dir,
       ds_expires_at = cw_now w + DEVICE_ROUTE_TTL_SECONDS \<rparr>"
proof -
  have route: "sn_target route = TargetDevice dir" "sn_device_id route = d" "sn_subject route = subject"
    "sn_expires_at route = cw_now w + DEVICE_ROUTE_TTL_SECONDS"
    using assms(1) by (auto simp: prepare_device_route_def Let_def split: if_splits)
  have "hm_get (bk_devices s2) d \<noteq> None" using assms(3,4) route by (auto simp: bk_inv_defs)
  then have "fst (active_route session subject now' s2) = Inr route"
    using assms(3-5) route by (auto simp: active_route_def Let_def hm_get_retain bk_inv_defs hm_contains_def)
  then have "fst (device_info session subject now' s2) = Inr (device_selection_of route)"
    using route by (auto simp: device_info_def is_device_target_def split: prod.split)
  then show ?thesis
    using assms(1,2) route
    by (simp add: select_device_route_def activate_device_route_def require_session_result_def device_selection_of_def)
qed

theorem refused_device_selection_stays_witness:
  "\<exists>s2. select_device_route refusing_world (lit ''u2'') (lit ''chat'') (lit ''me'') (lit ''pc'') (lit ''C'') demo_selected =
     (Inl (RemoteOperation (lit ''no'')), s2) \<and>
     fst (device_info (lit ''chat'') (lit ''me'') 30 s2) = Inr \<lparr> ds_device_id = lit ''pc'', ds_working_directory = lit ''C'',
       ds_expires_at = 25 + 1800 \<rparr>"
proof -
  let ?prep = "prepare_device_route (lit ''chat'') (lit ''me'') (lit ''pc'') (lit ''C'') 25 (lit ''u2'') demo_selected"
  define route where "route = (case fst ?prep of Inr r \<Rightarrow> r | Inl _ \<Rightarrow> demo_route)"
  let ?disp = "dispatch_in refusing_world route (DeviceSession (session_head refusing_world route) (sn_generation route)
     (lit ''C'') (sn_expires_at route)) (snd ?prep)"
  note defs = demo_selected_def refusing_world_def demo_world_def prepare_device_route_def dispatch_in_def
    dispatch_on_route_def await_reply_def command_request_id_def session_head_def DEVICE_THREAD_ID_def
    DEVICE_ROUTE_TTL_SECONDS_def demo_defs broker_step_defs hm_defs lit_def Let_def
  have prep: "?prep = (Inr route, snd ?prep)" by (simp add: route_def defs)
  have disp: "?disp = (Inr (OperationError (lit ''r9'') (lit ''c'') (lit ''no'')), snd ?disp)"
    "hm_get (bk_sessions (snd ?disp)) (lit ''chat'') = Some route" by (simp_all add: route_def defs)
  have now: "cw_now refusing_world = 25" by (simp add: refusing_world_def demo_world_def)
  have "bk_inv (snd ?prep)" by (simp add: demo_selected_facts(1) prepare_device_route_inv)
  moreover have "route_known route (snd ?prep)" by (simp add: route_def route_known_def defs)
  ultimately have "bk_inv (snd ?disp)"
    by (rule dispatch_in_inv) (simp_all add: refusing_world_def demo_world_def inv_intros)
  then show ?thesis
    using refused_device_selection_stays [of "lit ''chat''" "lit ''me''" "lit ''pc''" "lit ''C''" refusing_world "lit ''u2''"
      demo_selected route "snd ?prep" "lit ''r9''" "lit ''c''" "lit ''no''" "snd ?disp" 30]
      prep disp now by (simp add: DEVICE_ROUTE_TTL_SECONDS_def)
qed

section \<open>The commands the broker sends\<close>

text \<open>The session commands that a selection sends are well formed: with a directory the broker
  accepts, a computer session id of 32 characters and a generation counter short of its end, the
  project session and the device session commands pass the validation the bridge applies to them.\<close>
theorem selection_commands_valid:
  assumes "gens_left s" "length uuid = 32" "validate_directory dir = Inr ()"
  shows "(prepare_project_route session subject scope now uuid s = (Inr (route, p), s') \<longrightarrow>
       command_validate url_parse (ProjectSession (session_head w route) (sn_generation route)) = Inr ()) \<and>
     (prepare_device_route session subject d dir now uuid s = (Inr route, s') \<longrightarrow>
       command_validate url_parse (DeviceSession (session_head w route) (sn_generation route) dir (sn_expires_at route)) = Inr ())"
proof -
  have "length dir \<le> byte_len dir" by (rule length_le_byte_len)
  then have "dir \<noteq> []" "length dir \<le> 1000" using assms(3) by (auto simp: validate_directory_def split: if_splits)
  moreover have "1 \<le> sn_generation route \<and> sn_generation route \<le> u64_max \<and> sn_computer_session_id route = uuid"
    if "prepare_project_route session subject scope now uuid s = (Inr (route, p), s') \<or>
        prepare_device_route session subject d dir now uuid s = (Inr route, s')"
    using that gens_left_at [OF assms(1)] by (auto simp: prepare_project_route_def prepare_device_route_def Let_def
        next_generation_less Suc_le_eq split: option.splits prod.splits if_splits)
  ultimately show ?thesis
    using assms(2) by (auto simp: command_validate_def command_session_id_def session_head_def Suc_le_eq)
qed

theorem selection_commands_valid_witness:
  "case prepare_device_route (lit ''chat'') (lit ''me'') (lit ''pc'') (lit ''C'') 25
     (lit ''0123456789abcdef0123456789abcdef'') demo_selected of
     (Inr route, s') \<Rightarrow> command_validate (\<lambda>_. Inl []) (DeviceSession (session_head demo_world route) (sn_generation route)
       (lit ''C'') (sn_expires_at route)) = Inr ()
   | _ \<Rightarrow> False"
proof -
  have left: "gens_left demo_selected"
    by (simp add: demo_selected_def demo_defs gens_left_def u64_max_def broker_step_defs hm_defs lit_def Let_def)
  have dir: "validate_directory (lit ''C'') = Inr ()" by (simp add: validate_directory_def lit_def byte_len_def utf8_width_def)
  have "length (lit ''0123456789abcdef0123456789abcdef'') = 32" by (simp add: lit_def)
  note valid = selection_commands_valid [OF left this dir]
  show ?thesis
    using valid by (auto split: prod.split sum.split)
      (simp add: demo_selected_def prepare_device_route_def demo_defs broker_step_defs hm_defs lit_def Let_def)
qed

end
