(* ===== verification/Agent.thy ===== *)
theory Agent
  imports Broker
begin

text \<open>
  The local dispatcher of the remote agent (\<open>cdr-remote-agent/src/dispatcher.rs\<close>,
  \<open>dispatcher/*.rs\<close>): projects bound to threads, the session activated for each, the cache that
  makes retried mutations run once, and the routing of a command to the backend that does its work.
  An \<open>Arc<ActiveProject>\<close> is a number into \<open>ag_heap\<close>, so a task may hold a project that
  was replaced in the table meanwhile. The backends (files, Git, commands, images, checkpoints, terminals,
  desktop) are the fields of the record \<open>agent_backend\<close>, functions on a world \<open>'w\<close>; what other
  tasks do while a call awaits is given by the call's environment.
\<close>

section \<open>Errors of the backends and their replies (\<open>dispatcher/error.rs\<close>)\<close>

datatype file_error_kind = UnsafePath | UnsafePattern | FileSize | FileEncoding | FileConflict | FileLimit | FileIo

record remote_file_error =
  fe_kind :: file_error_kind
  fe_display :: rstr

datatype checkpoint_failure = CheckpointFile remote_file_error | CheckpointOther rstr
datatype code_failure = CodeFile remote_file_error | CodeCancelled
datatype git_failure = GitFile remote_file_error | GitOther rstr
datatype image_failure = ImageFile remote_file_error | ImageCheckpoint checkpoint_failure | ImageCancelled | ImageOther rstr
datatype computer_failure = ComputerStopped rstr | ComputerFailed rstr

type_synonym redactor = "rstr \<Rightarrow> rstr"

definition operation_error :: "rstr \<Rightarrow> string \<Rightarrow> rstr \<Rightarrow> bridge_result" where
  "operation_error rid code body = OperationError rid (lit code) body"

definition binding_error :: "rstr \<Rightarrow> string \<Rightarrow> bridge_result" where
  "binding_error rid code = operation_error rid code (lit
     (if code = ''binding_expired'' then ''The local project binding expired. Run !pro again.''
      else ''The Codex thread is not bound on this device.''))"

definition expired_result :: "rstr \<Rightarrow> bridge_result" where
  "expired_result rid = operation_error rid ''request_expired''
     (lit ''The remote project request expired before it could run.'')"

definition cancelled_result :: "rstr \<Rightarrow> bridge_result" where
  "cancelled_result rid = operation_error rid ''request_cancelled''
     (lit ''The remote project request was cancelled because the local bridge disconnected.'')"

definition session_error :: "rstr \<Rightarrow> rstr \<Rightarrow> bridge_result" where
  "session_error rid body = operation_error rid ''computer_control'' body"

definition file_error :: "redactor \<Rightarrow> rstr \<Rightarrow> remote_file_error \<Rightarrow> bridge_result" where
  "file_error redact rid e = operation_error rid (case fe_kind e of
       UnsafePath \<Rightarrow> ''unsafeprojectpath'' | UnsafePattern \<Rightarrow> ''unsafeprojectpath''
     | FileSize \<Rightarrow> ''projectfilesize'' | FileEncoding \<Rightarrow> ''projectfileencoding''
     | FileConflict \<Rightarrow> ''fileconflict'' | FileLimit \<Rightarrow> ''projectfilelimit'' | FileIo \<Rightarrow> ''projectfile'')
     (redact (fe_display e))"

definition command_error :: "redactor \<Rightarrow> rstr \<Rightarrow> rstr \<Rightarrow> bridge_result" where
  "command_error redact rid e = operation_error rid ''projectcommand'' (redact e)"

fun checkpoint_error :: "redactor \<Rightarrow> rstr \<Rightarrow> checkpoint_failure \<Rightarrow> bridge_result" where
  "checkpoint_error redact rid (CheckpointFile e) = file_error redact rid e"
| "checkpoint_error redact rid (CheckpointOther e) = operation_error rid ''projectcheckpoint'' (redact e)"

fun code_error :: "redactor \<Rightarrow> rstr \<Rightarrow> code_failure \<Rightarrow> bridge_result" where
  "code_error redact rid (CodeFile e) = file_error redact rid e"
| "code_error redact rid CodeCancelled = cancelled_result rid"

fun git_error :: "redactor \<Rightarrow> rstr \<Rightarrow> git_failure \<Rightarrow> bridge_result" where
  "git_error redact rid (GitFile e) = file_error redact rid e"
| "git_error redact rid (GitOther e) = operation_error rid ''projectgit'' (redact e)"

fun image_error :: "redactor \<Rightarrow> rstr \<Rightarrow> image_failure \<Rightarrow> bridge_result" where
  "image_error redact rid (ImageFile e) = file_error redact rid e"
| "image_error redact rid (ImageCheckpoint e) = checkpoint_error redact rid e"
| "image_error redact rid ImageCancelled = cancelled_result rid"
| "image_error redact rid (ImageOther e) = operation_error rid ''projectimage'' (redact e)"

definition terminal_error :: "redactor \<Rightarrow> rstr \<Rightarrow> rstr \<Rightarrow> bridge_result" where
  "terminal_error redact rid e = operation_error rid ''terminal_execution'' (redact e)"

fun computer_error :: "redactor \<Rightarrow> rstr \<Rightarrow> computer_failure \<Rightarrow> bridge_result" where
  "computer_error redact rid (ComputerStopped e) = operation_error rid ''computer_control_stopped'' (redact e)"
| "computer_error redact rid (ComputerFailed e) = operation_error rid ''computer_control'' (redact e)"

definition unsupported :: "rstr \<Rightarrow> bridge_result" where
  "unsupported rid = operation_error rid ''projectcapability''
     (lit ''This project capability is not implemented by the Rust local agent yet.'')"

section \<open>Sessions, projects and the mutation cache (\<open>dispatcher/state.rs\<close>)\<close>

datatype computer_access_mode = ModeProject | ModeDevice

record session_activation =
  sa_connection :: "nat option"
  sa_generation :: nat
  sa_session_id :: rstr
  sa_mode :: computer_access_mode

datatype cache_key = CacheKey (key_thread: rstr) (key_session: "rstr option") (key_request: rstr)

record cached_result =
  cr_fingerprint :: rstr
  cr_result :: bridge_result

record mutation_cache =
  mc_values :: "(cache_key, cached_result) hmap"
  mc_order :: "cache_key list"

definition MAX_CACHED_RESULTS :: nat where
  "MAX_CACHED_RESULTS = 256"

definition cache_empty :: mutation_cache where
  "cache_empty = \<lparr> mc_values = [], mc_order = [] \<rparr>"

definition cache_key_of :: "gateway_command \<Rightarrow> cache_key" where
  "cache_key_of c = (let h = command_head_of c in CacheKey (ch_thread_id h) (ch_session h) (ch_request_id h))"

text \<open>The canonical JSON of a command leaves out its deadline and request id. The serialisation
  and SHA-256 of what remains are the parameter \<open>digest\<close>.\<close>

definition blank_head :: "command_head \<Rightarrow> command_head" where
  "blank_head h = h\<lparr>ch_request_id := [], ch_deadline_at := 0\<rparr>"

fun command_content :: "gateway_command \<Rightarrow> gateway_command" where
  "command_content (ProjectInfo h) = ProjectInfo (blank_head h)"
| "command_content (ListFiles h p l) = ListFiles (blank_head h) p l"
| "command_content (ReadFile h p a b) = ReadFile (blank_head h) p a b"
| "command_content (WriteFile h p c x) = WriteFile (blank_head h) p c x"
| "command_content (ProjectOperation h operation) = ProjectOperation (blank_head h) operation"
| "command_content (ProjectSession h g) = ProjectSession (blank_head h) g"
| "command_content (DeviceSession h g d e) = DeviceSession (blank_head h) g d e"

type_synonym digest = "gateway_command \<Rightarrow> rstr"

definition fingerprint :: "digest \<Rightarrow> gateway_command \<Rightarrow> rstr" where
  "fingerprint digest c = digest (command_content c)"

definition conflict :: "gateway_command \<Rightarrow> bridge_result" where
  "conflict c = OperationError (command_request_id c) (lit ''request_id_conflict'')
     (lit ''The request ID was reused with different command content.'')"

definition cache_lookup :: "digest \<Rightarrow> gateway_command \<Rightarrow> mutation_cache \<Rightarrow> bridge_result option \<times> mutation_cache" where
  "cache_lookup digest c m =
     (let key = cache_key_of c in
      case hm_get (mc_values m) key of
        None \<Rightarrow> (None, m)
      | Some cached \<Rightarrow>
          if cr_fingerprint cached = fingerprint digest c
          then (Some (cr_result cached), m\<lparr>mc_order := filter (\<lambda>item. item \<noteq> key) (mc_order m) @ [key]\<rparr>)
          else (Some (conflict c), m))"

text \<open>The eviction loop: while more than the maximum is held, the oldest goes.\<close>

fun evict :: "cache_key list \<Rightarrow> (cache_key, cached_result) hmap \<Rightarrow> mutation_cache" where
  "evict [] values = \<lparr> mc_values = values, mc_order = [] \<rparr>"
| "evict (oldest # order) values =
     (if length (oldest # order) > MAX_CACHED_RESULTS then evict order (hm_remove oldest values)
      else \<lparr> mc_values = values, mc_order = oldest # order \<rparr>)"

fun is_operation_error :: "bridge_result \<Rightarrow> bool" where
  "is_operation_error (OperationError _ _ _) = True"
| "is_operation_error _ = False"

definition cache_remember :: "digest \<Rightarrow> gateway_command \<Rightarrow> bridge_result \<Rightarrow> mutation_cache \<Rightarrow> mutation_cache" where
  "cache_remember digest c r m =
     (if is_operation_error r then m
      else let key = cache_key_of c in
        evict (filter (\<lambda>item. item \<noteq> key) (mc_order m) @ [key])
          (hm_insert key \<lparr> cr_fingerprint = fingerprint digest c, cr_result = r \<rparr> (mc_values m)))"

fun session_activation_of :: "gateway_command \<Rightarrow> (nat \<times> computer_access_mode) option" where
  "session_activation_of (ProjectSession _ g) = Some (g, ModeProject)"
| "session_activation_of (DeviceSession _ g _ _) = Some (g, ModeDevice)"
| "session_activation_of _ = None"

fun is_read_only :: "core_request \<Rightarrow> bool" where
  "is_read_only ReqProjectRules = True"
| "is_read_only ReqProjectStatus = True"
| "is_read_only (ReqCodeSearch _ _) = True"
| "is_read_only ReqCommandList = True"
| "is_read_only ReqRepoStatus = True"
| "is_read_only ReqRepoDiff = True"
| "is_read_only ReqListImages = True"
| "is_read_only (ReqRetrieveImage _) = True"
| "is_read_only ReqCheckpointList = True"
| "is_read_only (ReqCheckpointShow _) = True"
| "is_read_only _ = False"

fun is_terminal_exec :: "terminal_request \<Rightarrow> bool" where
  "is_terminal_exec (TerminalExec _) = True"
| "is_terminal_exec _ = False"

fun is_mutation :: "gateway_command \<Rightarrow> bool" where
  "is_mutation (WriteFile _ _ _ _) = True"
| "is_mutation (ProjectOperation _ (OpCore r)) = (\<not> is_read_only r)"
| "is_mutation (ProjectOperation _ (OpTerminal r)) = (\<not> is_terminal_exec r)"
| "is_mutation (ProjectOperation _ (OpComputer _)) = True"
| "is_mutation _ = False"

record active_project =
  ap_root :: rstr
  ap_expires_at :: int
  ap_session :: "session_activation option"
  ap_mutations :: mutation_cache

record 'w agent_state =
  ag_connection :: "nat option"
  ag_projects :: "(rstr, nat) hmap"
  ag_heap :: "(nat, active_project) hmap"
  ag_next :: nat
  ag_world :: 'w

definition agent_new :: "'w \<Rightarrow> 'w agent_state" where
  "agent_new w = \<lparr> ag_connection = None, ag_projects = [], ag_heap = [], ag_next = 0, ag_world = w \<rparr>"

definition on_project :: "nat \<Rightarrow> (active_project \<Rightarrow> active_project) \<Rightarrow> 'w agent_state \<Rightarrow> 'w agent_state" where
  "on_project pid f s = (case hm_get (ag_heap s) pid of
     None \<Rightarrow> s | Some p \<Rightarrow> s\<lparr>ag_heap := hm_insert pid (f p) (ag_heap s)\<rparr>)"

section \<open>The backends\<close>

text \<open>Each backend may change the world. The cancellation signal and the remaining budget that the
  code hands down are part of the world a backend sees.\<close>

record 'w agent_backend =
  be_redact :: redactor
  be_now :: "'w \<Rightarrow> int"
  be_open :: "rstr \<Rightarrow> 'w \<Rightarrow> (remote_file_error, rstr) result \<times> 'w"
  be_terminal_engine :: "rstr \<Rightarrow> rstr \<Rightarrow> 'w \<Rightarrow> (rstr, unit) result \<times> 'w"
  be_terminal_windows :: "rstr \<Rightarrow> 'w \<Rightarrow> (rstr, unit) result \<times> 'w"
  be_close_windows :: "session_activation \<Rightarrow> 'w \<Rightarrow> (rstr, unit) result \<times> 'w"
  be_close_terminals :: "session_activation \<Rightarrow> 'w \<Rightarrow> (rstr, unit) result \<times> 'w"
  be_computer :: "session_activation \<Rightarrow> computer_request \<Rightarrow> 'w \<Rightarrow> (computer_failure, computer_output) result \<times> 'w"
  be_terminal_exec :: "session_activation \<Rightarrow> terminal_request \<Rightarrow> 'w \<Rightarrow> (rstr, terminal_output) result \<times> 'w"
  be_terminal_window :: "session_activation \<Rightarrow> terminal_request \<Rightarrow> 'w \<Rightarrow> (rstr, terminal_output) result \<times> 'w"
  be_list_files :: "rstr \<Rightarrow> rstr \<Rightarrow> nat \<Rightarrow> 'w \<Rightarrow> (remote_file_error, file_entry list \<times> bool) result \<times> 'w"
  be_read_file :: "rstr \<Rightarrow> rstr \<Rightarrow> nat \<Rightarrow> nat \<Rightarrow> 'w \<Rightarrow> (remote_file_error, read_file_output) result \<times> 'w"
  be_write_with_checkpoint :: "rstr \<Rightarrow> rstr \<Rightarrow> rstr \<Rightarrow> rstr option \<Rightarrow> 'w \<Rightarrow> (checkpoint_failure, write_file_output) result \<times> 'w"
  be_project_rules :: "rstr \<Rightarrow> 'w \<Rightarrow> (code_failure, rule_file list) result \<times> 'w"
  be_search :: "rstr \<Rightarrow> rstr \<Rightarrow> nat \<Rightarrow> 'w \<Rightarrow> (code_failure, core_output) result \<times> 'w"
  be_create_file :: "rstr \<Rightarrow> rstr \<Rightarrow> rstr \<Rightarrow> bool \<Rightarrow> 'w \<Rightarrow> (checkpoint_failure, core_output) result \<times> 'w"
  be_apply_patch :: "rstr \<Rightarrow> file_change list \<Rightarrow> 'w \<Rightarrow> (checkpoint_failure, core_output) result \<times> 'w"
  be_discover_commands :: "rstr \<Rightarrow> 'w \<Rightarrow> (rstr, command_descriptor list) result \<times> 'w"
  be_run_command :: "rstr \<Rightarrow> rstr \<Rightarrow> int \<Rightarrow> 'w \<Rightarrow> (rstr, core_output) result \<times> 'w"
  be_repo_status :: "rstr \<Rightarrow> 'w \<Rightarrow> (git_failure, repo_status_output) result \<times> 'w"
  be_repo_diff :: "rstr \<Rightarrow> 'w \<Rightarrow> (git_failure, core_output) result \<times> 'w"
  be_commit :: "rstr \<Rightarrow> rstr \<Rightarrow> rstr list \<Rightarrow> 'w \<Rightarrow> (git_failure, core_output) result \<times> 'w"
  be_push :: "rstr \<Rightarrow> rstr \<Rightarrow> rstr option \<Rightarrow> 'w \<Rightarrow> (git_failure, core_output) result \<times> 'w"
  be_save_image :: "rstr \<Rightarrow> rstr \<Rightarrow> rstr \<Rightarrow> bool \<Rightarrow> 'w \<Rightarrow> (image_failure, core_output) result \<times> 'w"
  be_save_from_url :: "rstr \<Rightarrow> rstr \<Rightarrow> rstr \<Rightarrow> bool \<Rightarrow> 'w \<Rightarrow> (image_failure, core_output) result \<times> 'w"
  be_list_images :: "rstr \<Rightarrow> 'w \<Rightarrow> (image_failure, core_output) result \<times> 'w"
  be_retrieve_image :: "rstr \<Rightarrow> rstr \<Rightarrow> 'w \<Rightarrow> (image_failure, core_output) result \<times> 'w"
  be_checkpoint_list :: "rstr \<Rightarrow> 'w \<Rightarrow> (checkpoint_failure, checkpoint_entry list) result \<times> 'w"
  be_checkpoint_show :: "rstr \<Rightarrow> rstr \<Rightarrow> 'w \<Rightarrow> (checkpoint_failure, checkpoint_entry \<times> rstr) result \<times> 'w"
  be_checkpoint_restore :: "rstr \<Rightarrow> rstr \<Rightarrow> 'w \<Rightarrow> (checkpoint_failure, rstr list) result \<times> 'w"

section \<open>Executing an admitted command (\<open>dispatcher/execution.rs\<close>, \<open>execution/helpers.rs\<close>)\<close>

text \<open>The reply for a backend's outcome.\<close>

definition answered ::
  "('e, 'a) result \<times> 'w \<Rightarrow> ('a \<Rightarrow> bridge_result) \<Rightarrow> ('e \<Rightarrow> bridge_result) \<Rightarrow> bridge_result \<times> 'w" where
  "answered out ok err = (case out of (Inl e, w) \<Rightarrow> (err e, w) | (Inr v, w) \<Rightarrow> (ok v, w))"

definition core_result :: "rstr \<Rightarrow> core_output \<Rightarrow> bridge_result" where
  "core_result rid out = ProjectOperationResult rid (OutCore out)"

definition computer_operation ::
  "'w agent_backend \<Rightarrow> rstr \<Rightarrow> project_operation \<Rightarrow> session_activation \<Rightarrow> 'w \<Rightarrow> (bridge_result \<times> 'w) option" where
  "computer_operation be rid operation session w = (case operation of
     OpComputer request \<Rightarrow> Some (answered (be_computer be session request w)
       (\<lambda>v. ProjectOperationResult rid (OutComputer v)) (computer_error (be_redact be) rid))
   | _ \<Rightarrow> None)"

definition terminal_operation ::
  "'w agent_backend \<Rightarrow> rstr \<Rightarrow> project_operation \<Rightarrow> session_activation \<Rightarrow> 'w \<Rightarrow> (bridge_result \<times> 'w) option" where
  "terminal_operation be rid operation session w = (case operation of
     OpTerminal request \<Rightarrow> Some (answered
       (if is_terminal_exec request then be_terminal_exec be session request w else be_terminal_window be session request w)
       (\<lambda>v. ProjectOperationResult rid (OutTerminal v)) (terminal_error (be_redact be) rid))
   | _ \<Rightarrow> None)"

definition checkpoint_operation ::
  "'w agent_backend \<Rightarrow> rstr \<Rightarrow> core_request \<Rightarrow> rstr \<Rightarrow> 'w \<Rightarrow> (bridge_result \<times> 'w) option" where
  "checkpoint_operation be rid request root w = (case request of
     ReqCheckpointList \<Rightarrow> Some (answered (be_checkpoint_list be root w)
       (\<lambda>v. core_result rid (OutCheckpointList v)) (checkpoint_error (be_redact be) rid))
   | ReqCheckpointShow i \<Rightarrow> Some (answered (be_checkpoint_show be root i w)
       (\<lambda>(checkpoint, patch). core_result rid (OutCheckpointShow checkpoint patch)) (checkpoint_error (be_redact be) rid))
   | ReqCheckpointRestore i \<Rightarrow> Some (answered (be_checkpoint_restore be root i w)
       (\<lambda>v. core_result rid (OutCheckpointRestore i v)) (checkpoint_error (be_redact be) rid))
   | _ \<Rightarrow> None)"

definition git_operation ::
  "'w agent_backend \<Rightarrow> rstr \<Rightarrow> core_request \<Rightarrow> rstr \<Rightarrow> 'w \<Rightarrow> (bridge_result \<times> 'w) option" where
  "git_operation be rid request root w = (case request of
     ReqRepoStatus \<Rightarrow> Some (answered (be_repo_status be root w)
       (\<lambda>v. core_result rid (OutRepoStatus v)) (git_error (be_redact be) rid))
   | ReqRepoDiff \<Rightarrow> Some (answered (be_repo_diff be root w) (core_result rid) (git_error (be_redact be) rid))
   | ReqGitCommit body paths \<Rightarrow> Some (answered (be_commit be root body paths w) (core_result rid) (git_error (be_redact be) rid))
   | ReqGitPush remote branch \<Rightarrow> Some (answered (be_push be root remote branch w) (core_result rid) (git_error (be_redact be) rid))
   | _ \<Rightarrow> None)"

definition image_operation ::
  "'w agent_backend \<Rightarrow> rstr \<Rightarrow> core_request \<Rightarrow> rstr \<Rightarrow> 'w \<Rightarrow> (bridge_result \<times> 'w) option" where
  "image_operation be rid request root w = (case request of
     ReqSaveImage path data_base64 overwrite \<Rightarrow>
       Some (answered (be_save_image be root path data_base64 overwrite w) (core_result rid) (image_error (be_redact be) rid))
   | ReqSaveImageFromUrl path url overwrite \<Rightarrow>
       Some (answered (be_save_from_url be root path url overwrite w) (core_result rid) (image_error (be_redact be) rid))
   | ReqListImages \<Rightarrow> Some (answered (be_list_images be root w) (core_result rid) (image_error (be_redact be) rid))
   | ReqRetrieveImage path \<Rightarrow> Some (answered (be_retrieve_image be root path w) (core_result rid) (image_error (be_redact be) rid))
   | _ \<Rightarrow> None)"

definition project_status :: "'w agent_backend \<Rightarrow> rstr \<Rightarrow> rstr \<Rightarrow> 'w \<Rightarrow> bridge_result \<times> 'w" where
  "project_status be rid root w =
     (case be_repo_status be root w of
        (Inl e, w1) \<Rightarrow> (git_error (be_redact be) rid e, w1)
      | (Inr status, w1) \<Rightarrow> (case be_project_rules be root w1 of
          (Inl e, w2) \<Rightarrow> (code_error (be_redact be) rid e, w2)
        | (Inr rules, w2) \<Rightarrow> answered (be_discover_commands be root w2)
            (\<lambda>commands. core_result rid (OutProjectStatus (ro_branch status) (ro_dirty_files status)
               (ro_staged_files status) (map rule_path rules) (map cd_command_id commands)))
            (command_error (be_redact be) rid)))"

text \<open>A command runs for its time-out at most, and for no longer than its deadline leaves it, but for a
  second at least.\<close>

definition run_seconds :: "int \<Rightarrow> int \<Rightarrow> nat \<Rightarrow> int" where
  "run_seconds deadline_at now timeout_seconds = min (max (deadline_at - now) 1) (int timeout_seconds)"

definition execute_core ::
  "'w agent_backend \<Rightarrow> rstr \<Rightarrow> core_request \<Rightarrow> int \<Rightarrow> rstr \<Rightarrow> 'w \<Rightarrow> bridge_result \<times> 'w" where
  "execute_core be rid request deadline_at root w = (case request of
     ReqProjectRules \<Rightarrow> answered (be_project_rules be root w)
       (\<lambda>v. core_result rid (OutProjectRules v)) (code_error (be_redact be) rid)
   | ReqCodeSearch query max_results \<Rightarrow> answered (be_search be root query max_results w)
       (core_result rid) (code_error (be_redact be) rid)
   | ReqProjectStatus \<Rightarrow> project_status be rid root w
   | ReqFileCreate path content overwrite \<Rightarrow> answered (be_create_file be root path content overwrite w)
       (core_result rid) (checkpoint_error (be_redact be) rid)
   | ReqFileApplyPatch changes \<Rightarrow> answered (be_apply_patch be root changes w)
       (core_result rid) (checkpoint_error (be_redact be) rid)
   | ReqCommandList \<Rightarrow> answered (be_discover_commands be root w)
       (\<lambda>v. core_result rid (OutCommandList v)) (command_error (be_redact be) rid)
   | ReqCommandRun command_id timeout_seconds \<Rightarrow> answered
       (be_run_command be root command_id (run_seconds deadline_at (be_now be w) timeout_seconds) w)
       (core_result rid) (command_error (be_redact be) rid)
   | _ \<Rightarrow> (unsupported rid, w))"

fun core_of :: "project_operation \<Rightarrow> core_request option" where
  "core_of (OpCore request) = Some request"
| "core_of _ = None"

definition first_some :: "'a option list \<Rightarrow> 'a \<Rightarrow> 'a" where
  "first_some xs d = (case find (\<lambda>x. x \<noteq> None) xs of Some (Some x) \<Rightarrow> x | _ \<Rightarrow> d)"

text \<open>Each routine is tried in turn; the first that knows the operation answers it.\<close>

definition execute_operation ::
  "'w agent_backend \<Rightarrow> rstr \<Rightarrow> project_operation \<Rightarrow> int \<Rightarrow> rstr \<Rightarrow> session_activation \<Rightarrow> 'w \<Rightarrow> bridge_result \<times> 'w" where
  "execute_operation be rid operation deadline_at root session w = first_some
     [computer_operation be rid operation session w,
      terminal_operation be rid operation session w,
      Option.bind (core_of operation) (\<lambda>r. checkpoint_operation be rid r root w),
      Option.bind (core_of operation) (\<lambda>r. git_operation be rid r root w),
      Option.bind (core_of operation) (\<lambda>r. image_operation be rid r root w)]
     (case core_of operation of Some r \<Rightarrow> execute_core be rid r deadline_at root w | None \<Rightarrow> (unsupported rid, w))"

definition execute_command ::
  "'w agent_backend \<Rightarrow> gateway_command \<Rightarrow> rstr \<Rightarrow> session_activation \<Rightarrow> 'w \<Rightarrow> bridge_result \<times> 'w" where
  "execute_command be command root session w =
     (let rid = command_request_id command in
      case command of
        ProjectInfo h \<Rightarrow> (ProjectInfoResult rid root (ch_thread_id h), w)
      | ListFiles _ pattern limit \<Rightarrow> answered (be_list_files be root pattern limit w)
          (\<lambda>(files, truncated). ListFilesResult rid files truncated) (file_error (be_redact be) rid)
      | ReadFile _ path start_line max_lines \<Rightarrow> answered (be_read_file be root path start_line max_lines w)
          (ReadFileResult rid) (file_error (be_redact be) rid)
      | WriteFile _ path content expected_sha256 \<Rightarrow>
          answered (be_write_with_checkpoint be root path content expected_sha256 w)
          (WriteFileResult rid) (checkpoint_error (be_redact be) rid)
      | ProjectOperation h operation \<Rightarrow> execute_operation be rid operation (ch_deadline_at h) root session w
      | ProjectSession _ _ \<Rightarrow> (unsupported rid, w)
      | DeviceSession _ _ _ _ \<Rightarrow> (unsupported rid, w))"

section \<open>Sessions (\<open>dispatcher/session.rs\<close>)\<close>

text \<open>The environment of a call: what other tasks do at each of its await points, the clock
  at each reading, and whether the call is found cancelled.\<close>

record 'w call_env =
  ce_during :: "nat \<Rightarrow> 'w agent_state \<Rightarrow> 'w agent_state"
  ce_now :: "nat \<Rightarrow> int"
  ce_cancelled :: "nat \<Rightarrow> bool"

fun computer_display :: "computer_failure \<Rightarrow> rstr" where
  "computer_display (ComputerStopped e) = e"
| "computer_display (ComputerFailed e) = e"

fun and_result :: "('e, 'a) result \<Rightarrow> ('e, 'b) result \<Rightarrow> ('e, 'b) result" where
  "and_result (Inl e) r = Inl e"
| "and_result (Inr _) r = r"

text \<open>All three parts of a session are closed; the first error is reported.\<close>

definition close_session :: "'w agent_backend \<Rightarrow> session_activation \<Rightarrow> 'w \<Rightarrow> (rstr, unit) result \<times> 'w" where
  "close_session be session w =
     (let (computer, w1) = be_computer be session ComputerStop w;
          (window, w2) = be_close_windows be session w1;
          (terminal, w3) = be_close_terminals be session w2;
          computer_result = (case computer of Inl e \<Rightarrow> Inl (computer_display e) | Inr _ \<Rightarrow> Inr ())
      in (and_result (and_result computer_result window) terminal, w3))"

definition close_on :: "'w agent_backend \<Rightarrow> session_activation \<Rightarrow> 'w agent_state \<Rightarrow> (rstr, unit) result \<times> 'w agent_state" where
  "close_on be session s = (let (r, w) = close_session be session (ag_world s) in (r, s\<lparr>ag_world := w\<rparr>))"

definition take_session :: "nat \<Rightarrow> 'w agent_state \<Rightarrow> session_activation option \<times> 'w agent_state" where
  "take_session pid s =
     (Option.bind (hm_get (ag_heap s) pid) ap_session, on_project pid (\<lambda>p. p\<lparr>ap_session := None\<rparr>) s)"

fun take_sessions :: "nat list \<Rightarrow> 'w agent_state \<Rightarrow> session_activation list \<times> 'w agent_state" where
  "take_sessions [] s = ([], s)"
| "take_sessions (pid # pids) s =
     (let (taken, s1) = take_session pid s; (rest, s2) = take_sessions pids s1
      in (case taken of None \<Rightarrow> rest | Some session \<Rightarrow> session # rest, s2))"

fun close_sessions :: "'w agent_backend \<Rightarrow> session_activation list \<Rightarrow> 'w agent_state \<Rightarrow> (rstr, unit) result \<times> 'w agent_state" where
  "close_sessions be [] s = (Inr (), s)"
| "close_sessions be (session # sessions) s =
     (case close_on be session s of (Inl e, s1) \<Rightarrow> (Inl e, s1) | (Inr _, s1) \<Rightarrow> close_sessions be sessions s1)"

definition close_project_sessions ::
  "'w agent_backend \<Rightarrow> nat list \<Rightarrow> 'w agent_state \<Rightarrow> (rstr, unit) result \<times> 'w agent_state" where
  "close_project_sessions be pids s = (let (sessions, s1) = take_sessions pids s in close_sessions be sessions s1)"

definition begin_connection ::
  "'w agent_backend \<Rightarrow> nat \<Rightarrow> 'w agent_state \<Rightarrow> (rstr, unit) result \<times> 'w agent_state" where
  "begin_connection be generation s =
     (if (case ag_connection s of None \<Rightarrow> False | Some current \<Rightarrow> generation \<le> current)
      then (Inl (lit ''The local bridge connection generation did not advance.''), s)
      else close_project_sessions be (hm_values (ag_projects s)) (s\<lparr>ag_connection := Some generation\<rparr>))"

definition retire_sessions :: "'w agent_backend \<Rightarrow> 'w agent_state \<Rightarrow> (rstr, unit) result \<times> 'w agent_state" where
  "retire_sessions be s = close_project_sessions be (hm_values (ag_projects s)) (s\<lparr>ag_connection := None\<rparr>)"

text \<open>What the session lock protects: the checks against the active session (\<open>Some\<close> is the reply
  that ends the activation at once).\<close>

definition check_active ::
  "rstr \<Rightarrow> rstr \<Rightarrow> nat \<Rightarrow> computer_access_mode \<Rightarrow> nat option \<Rightarrow> session_activation \<Rightarrow> bridge_result option" where
  "check_active rid session_id generation mode connection active =
     (if sa_connection active \<noteq> connection
      then Some (session_error rid (lit ''The project session belongs to a stale bridge connection.''))
      else if generation < sa_generation active
      then Some (session_error rid (lit ''The project session command is older than the active session.''))
      else if generation = sa_generation active \<and> session_id \<noteq> sa_session_id active
      then Some (session_error rid (lit ''The project session generation conflicts with another session.''))
      else if generation = sa_generation active \<and> session_id = sa_session_id active \<and> mode \<noteq> sa_mode active
      then Some (session_error rid (lit ''The project session mode conflicts with the active session.''))
      else if generation = sa_generation active \<and> session_id = sa_session_id active
      then Some (ProjectSessionResult rid)
      else None)"

definition activate_locked ::
  "'w agent_backend \<Rightarrow> nat \<Rightarrow> rstr \<Rightarrow> rstr \<Rightarrow> nat \<Rightarrow> computer_access_mode \<Rightarrow> nat option \<Rightarrow> 'w agent_state \<Rightarrow>
   (bridge_result, session_activation option) result \<times> 'w agent_state" where
  "activate_locked be pid rid session_id generation mode connection s =
     (case hm_get (ag_heap s) pid of
        None \<Rightarrow> (Inl (binding_error rid ''binding_missing''), s)
      | Some p \<Rightarrow>
          (case Option.bind (ap_session p) (check_active rid session_id generation mode connection) of
             Some reply \<Rightarrow> (Inl reply, s)
           | None \<Rightarrow> (case be_terminal_engine be (ap_root p) session_id (ag_world s) of
               (Inl e, w1) \<Rightarrow> (Inl (session_error rid e), s\<lparr>ag_world := w1\<rparr>)
             | (Inr _, w1) \<Rightarrow> (case be_terminal_windows be (ap_root p) w1 of
                 (Inl e, w2) \<Rightarrow> (Inl (session_error rid e), s\<lparr>ag_world := w2\<rparr>)
               | (Inr _, w2) \<Rightarrow> (Inr (ap_session p), on_project pid (\<lambda>p. p\<lparr>ap_session := Some
                   \<lparr> sa_connection = connection, sa_generation = generation, sa_session_id = session_id,
                     sa_mode = mode \<rparr>\<rparr>) (s\<lparr>ag_world := w2\<rparr>))))))"

definition activate ::
  "'w agent_backend \<Rightarrow> 'w call_env \<Rightarrow> nat \<Rightarrow> rstr \<Rightarrow> rstr \<Rightarrow> nat \<Rightarrow> computer_access_mode \<Rightarrow> nat option \<Rightarrow> 'w agent_state \<Rightarrow>
   bridge_result \<times> 'w agent_state" where
  "activate be env pid rid session_id generation mode connection s0 =
     (let s1 = ce_during env 2 s0 in
      if connection \<noteq> None \<and> ag_connection s1 \<noteq> connection
      then (session_error rid (lit ''The command belongs to a stale local bridge connection.''), s1)
      else case activate_locked be pid rid session_id generation mode connection (ce_during env 3 s1) of
          (Inl reply, s2) \<Rightarrow> (reply, s2)
        | (Inr None, s2) \<Rightarrow> (ProjectSessionResult rid, s2)
        | (Inr (Some previous), s2) \<Rightarrow> (case close_on be previous (ce_during env 4 s2) of
            (Inl e, s3) \<Rightarrow> (session_error rid e, s3)
          | (Inr _, s3) \<Rightarrow> (ProjectSessionResult rid, s3)))"

definition require_session ::
  "'w call_env \<Rightarrow> nat \<Rightarrow> rstr option \<Rightarrow> nat option \<Rightarrow> 'w agent_state \<Rightarrow> (rstr, session_activation) result \<times> 'w agent_state" where
  "require_session env pid session_id connection s0 =
     (let s1 = ce_during env 2 s0 in
      if connection \<noteq> None \<and> ag_connection s1 \<noteq> connection
      then (Inl (lit ''The command belongs to a stale local bridge connection.''), s1)
      else let s2 = ce_during env 3 s1 in
        case opt_filter (\<lambda>active. Some (sa_session_id active) = session_id \<and> sa_connection active = connection)
               (Option.bind (hm_get (ag_heap s2) pid) ap_session) of
          None \<Rightarrow> (Inl (lit ''The ChatGPT session is stale or was not acknowledged locally.''), s2)
        | Some active \<Rightarrow> (Inr active, s2))"

section \<open>The dispatcher (\<open>dispatcher.rs\<close>)\<close>

datatype project_binding_error = BindingFile remote_file_error | BindingCleanup rstr

definition install_project :: "rstr \<Rightarrow> rstr \<Rightarrow> int \<Rightarrow> 'w agent_state \<Rightarrow> nat option \<times> 'w agent_state" where
  "install_project thread_id root expires_at s =
     (hm_get (ag_projects s) thread_id,
      s\<lparr>ag_projects := hm_insert thread_id (ag_next s) (ag_projects s),
        ag_heap := hm_insert (ag_next s) \<lparr> ap_root = root, ap_expires_at = expires_at, ap_session = None,
          ap_mutations = cache_empty \<rparr> (ag_heap s),
        ag_next := ag_next s + 1\<rparr>)"

definition upsert_project ::
  "'w agent_backend \<Rightarrow> rstr \<Rightarrow> rstr \<Rightarrow> int \<Rightarrow> 'w agent_state \<Rightarrow> (project_binding_error, unit) result \<times> 'w agent_state" where
  "upsert_project be thread_id root expires_at s0 =
     (case be_open be root (ag_world s0) of
        (Inl e, w) \<Rightarrow> (Inl (BindingFile e), s0\<lparr>ag_world := w\<rparr>)
      | (Inr opened, w) \<Rightarrow>
          let (previous, s1) = install_project thread_id opened expires_at (s0\<lparr>ag_world := w\<rparr>) in
          case previous of
            None \<Rightarrow> (Inr (), s1)
          | Some pid \<Rightarrow> (case take_session pid s1 of
              (None, s2) \<Rightarrow> (Inr (), s2)
            | (Some session, s2) \<Rightarrow> (case close_on be session s2 of
                (Inl e, s3) \<Rightarrow> (Inl (BindingCleanup e), s3)
              | (Inr _, s3) \<Rightarrow> (Inr (), s3))))"

record restart_project =
  rp_thread_id :: rstr
  rp_root :: rstr
  rp_expires_at :: int

definition restart_projects :: "int \<Rightarrow> 'w agent_state \<Rightarrow> restart_project list" where
  "restart_projects now s = sort_key rp_thread_id (List.map_filter (\<lambda>(thread_id, pid).
     case hm_get (ag_heap s) pid of
       None \<Rightarrow> None
     | Some p \<Rightarrow> if ap_expires_at p > now
         then Some \<lparr> rp_thread_id = thread_id, rp_root = ap_root p, rp_expires_at = ap_expires_at p \<rparr> else None)
     (ag_projects s))"

fun restore_restart_projects ::
  "'w agent_backend \<Rightarrow> restart_project list \<Rightarrow> 'w agent_state \<Rightarrow> (project_binding_error, unit) result \<times> 'w agent_state" where
  "restore_restart_projects be [] s = (Inr (), s)"
| "restore_restart_projects be (p # ps) s =
     (case upsert_project be (rp_thread_id p) (rp_root p) (rp_expires_at p) s of
        (Inl e, s1) \<Rightarrow> (Inl e, s1)
      | (Inr _, s1) \<Rightarrow> restore_restart_projects be ps s1)"

text \<open>A device session command binds its directory before anything else is looked at.\<close>

definition bind_device :: "'w agent_backend \<Rightarrow> gateway_command \<Rightarrow> 'w agent_state \<Rightarrow> bridge_result option \<times> 'w agent_state" where
  "bind_device be command s = (case command of
     DeviceSession h _ directory expires_at \<Rightarrow>
       (case upsert_project be (ch_thread_id h) directory expires_at s of
          (Inl (BindingFile e), s1) \<Rightarrow> (Some (file_error (be_redact be) (ch_request_id h) e), s1)
        | (Inl (BindingCleanup e), s1) \<Rightarrow> (Some (session_error (ch_request_id h) e), s1)
        | (Inr _, s1) \<Rightarrow> (None, s1))
   | _ \<Rightarrow> (None, s))"

text \<open>The project a command is for, when its deadline and the binding are still good.\<close>

definition find_project :: "'w call_env \<Rightarrow> gateway_command \<Rightarrow> 'w agent_state \<Rightarrow> (bridge_result, nat \<times> active_project) result" where
  "find_project env command s =
     (let h = command_head_of command in
      case Option.bind (hm_get (ag_projects s) (ch_thread_id h))
             (\<lambda>pid. map_option (Pair pid) (hm_get (ag_heap s) pid)) of
        None \<Rightarrow> Inl (binding_error (ch_request_id h) ''binding_missing'')
      | Some (pid, p) \<Rightarrow>
          if ch_deadline_at h \<le> ce_now env 0 then Inl (expired_result (ch_request_id h))
          else if ap_expires_at p \<le> ce_now env 1 then Inl (binding_error (ch_request_id h) ''binding_expired'')
          else Inr (pid, p))"

definition execute_on :: "'w agent_backend \<Rightarrow> gateway_command \<Rightarrow> rstr \<Rightarrow> session_activation \<Rightarrow> 'w agent_state \<Rightarrow>
   bridge_result \<times> 'w agent_state" where
  "execute_on be command root session s =
     (let (r, w) = execute_command be command root session (ag_world s) in (r, s\<lparr>ag_world := w\<rparr>))"

text \<open>A mutation holds the project's cache lock from the lookup to the end.\<close>

definition run_mutation ::
  "digest \<Rightarrow> 'w agent_backend \<Rightarrow> 'w call_env \<Rightarrow> gateway_command \<Rightarrow> nat \<Rightarrow> active_project \<Rightarrow> session_activation \<Rightarrow>
   'w agent_state \<Rightarrow> bridge_result \<times> 'w agent_state" where
  "run_mutation digest be env command pid p session s0 =
     (let rid = command_request_id command; s = ce_during env 4 s0 in
      if ce_cancelled env 1 then (cancelled_result rid, s)
      else if ch_deadline_at (command_head_of command) \<le> ce_now env 2 then (expired_result rid, s)
      else case hm_get (ag_heap s) pid of
        None \<Rightarrow> (binding_error rid ''binding_missing'', s)
      | Some current \<Rightarrow>
          let (found, cache) = cache_lookup digest command (ap_mutations current);
              s1 = on_project pid (\<lambda>p. p\<lparr>ap_mutations := cache\<rparr>) s in
          (case found of
             Some r \<Rightarrow> (r, s1)
           | None \<Rightarrow>
               let (r, s2) = execute_on be command (ap_root p) session s1; s3 = ce_during env 5 s2
               in (r, on_project pid (\<lambda>p. p\<lparr>ap_mutations := cache_remember digest command r (ap_mutations p)\<rparr>) s3)))"

text \<open>What happens to a command whose project was found.\<close>

definition run_admitted ::
  "digest \<Rightarrow> 'w agent_backend \<Rightarrow> 'w call_env \<Rightarrow> gateway_command \<Rightarrow> nat option \<Rightarrow> nat \<Rightarrow> active_project \<Rightarrow> 'w agent_state \<Rightarrow>
   bridge_result \<times> 'w agent_state" where
  "run_admitted digest be env c connection pid p s = (case session_activation_of c of
     Some (generation, mode) \<Rightarrow> activate be env pid (command_request_id c)
       (case ch_session (command_head_of c) of Some i \<Rightarrow> i | None \<Rightarrow> []) generation mode connection s
   | None \<Rightarrow> (case require_session env pid (ch_session (command_head_of c)) connection s of
       (Inl e, s4) \<Rightarrow> (session_error (command_request_id c) e, s4)
     | (Inr session, s4) \<Rightarrow> if is_mutation c then run_mutation digest be env c pid p session s4
         else execute_on be c (ap_root p) session s4))"

definition execute_cancellable ::
  "digest \<Rightarrow> 'w agent_backend \<Rightarrow> 'w call_env \<Rightarrow> gateway_command \<Rightarrow> nat option \<Rightarrow> 'w agent_state \<Rightarrow> bridge_result \<times> 'w agent_state" where
  "execute_cancellable digest be env command connection s0 =
     (if ce_cancelled env 0 then (cancelled_result (command_request_id command), s0)
      else case bind_device be command s0 of
        (Some reply, s1) \<Rightarrow> (reply, s1)
      | (None, s1) \<Rightarrow>
          let s2 = ce_during env 0 s1 in
          (case find_project env command s2 of
             Inl reply \<Rightarrow> (reply, s2)
           | Inr (pid, p) \<Rightarrow> run_admitted digest be env command connection pid p (ce_during env 1 s2)))"

end
