(* ===== verification/Agent_Safety.thy ===== *)
theory Agent_Safety
  imports Agent
begin

text \<open>
  What the agent's dispatcher promises: the cache of mutations keeps its bounds and replays the
  result of a retried command, every reply carries the request id it answers and the shape its command
  expects, a command only runs in the session and on the connection it names, and sessions of a project
  only move forward, with the exception of device sessions.
\<close>

section \<open>The mutation cache\<close>

definition cache_inv :: "mutation_cache \<Rightarrow> bool" where
  "cache_inv m \<longleftrightarrow> hm_wf (mc_values m) \<and> distinct (mc_order m) \<and>
     (\<forall>k. hm_get (mc_values m) k \<noteq> None \<longleftrightarrow> k \<in> set (mc_order m)) \<and> length (mc_order m) \<le> MAX_CACHED_RESULTS"

lemma evict_order: "mc_order (evict order vs) = drop (length order - MAX_CACHED_RESULTS) order"
  by (induction order arbitrary: vs) (auto simp: drop_Cons' Suc_diff_le)

lemma evict_values:
  "distinct order \<Longrightarrow> hm_get (mc_values (evict order vs)) k =
     (if k \<in> set (take (length order - MAX_CACHED_RESULTS) order) then None else hm_get vs k)"
  by (induction order arbitrary: vs) (auto simp: take_Cons' Suc_diff_le dest: in_set_takeD)

lemma evict_wf: "hm_wf vs \<Longrightarrow> hm_wf (mc_values (evict order vs))"
  by (induction order arbitrary: vs) auto

lemma take_drop_disjoint: "distinct xs \<Longrightarrow> k \<in> set (drop n xs) \<longleftrightarrow> k \<in> set xs \<and> k \<notin> set (take n xs)"
  by (metis Un_iff append_take_drop_id disjoint_iff distinct_append set_append)

lemma evict_inv:
  assumes "hm_wf vs" "distinct order" "\<And>k. hm_get vs k \<noteq> None \<longleftrightarrow> k \<in> set order"
  shows "cache_inv (evict order vs)"
  unfolding cache_inv_def using assms
  by (auto simp: evict_wf evict_order evict_values take_drop_disjoint distinct_drop)

lemma cache_empty_inv: "cache_inv cache_empty"
  by (simp add: cache_inv_def cache_empty_def)

lemma cache_inv_key: "cache_inv m \<Longrightarrow> hm_get (mc_values m) k = None \<longleftrightarrow> k \<notin> set (mc_order m)"
  unfolding cache_inv_def by metis

lemma cache_inv_some: "cache_inv m \<Longrightarrow> hm_get (mc_values m) k = Some v \<Longrightarrow> k \<in> set (mc_order m)"
  using cache_inv_key [of m k] by auto

lemma cache_invD:
  assumes "cache_inv m"
  shows "hm_wf (mc_values m)" "distinct (mc_order m)" "length (mc_order m) \<le> MAX_CACHED_RESULTS"
  using assms by (simp_all add: cache_inv_def)

lemma remember_inv:
  assumes "cache_inv m" shows "cache_inv (cache_remember digest c r m)"
proof (cases "is_operation_error r")
  case False
  have keys: "hm_get (hm_insert (cache_key_of c) v (mc_values m)) k \<noteq> None \<longleftrightarrow>
      k \<in> set (filter (\<lambda>item. item \<noteq> cache_key_of c) (mc_order m) @ [cache_key_of c])" for k v
    using cache_inv_key [OF assms, of k] by auto
  show ?thesis
    unfolding cache_remember_def Let_def if_not_P [OF False]
    by (intro evict_inv keys) (simp_all add: cache_invD [OF assms])
qed (simp add: cache_remember_def assms)

lemma touch_length:
  "distinct xs \<Longrightarrow> x \<in> set xs \<Longrightarrow> length (filter (\<lambda>y. y \<noteq> x) xs @ [x]) = length xs"
  using length_filter_neq_distinct [of xs x] by simp

lemma touch_inv:
  assumes "cache_inv m" "key \<in> set (mc_order m)"
  shows "cache_inv (m\<lparr>mc_order := filter (\<lambda>item. item \<noteq> key) (mc_order m) @ [key]\<rparr>)"
  unfolding cache_inv_def
  using assms touch_length [of "mc_order m" key] cache_inv_key [of m]
  by (auto simp: cache_invD simp del: not_None_eq)

lemma lookup_inv: "cache_inv m \<Longrightarrow> cache_inv (snd (cache_lookup digest c m))"
  using cache_inv_key [of m "cache_key_of c"]
  by (auto simp: cache_lookup_def Let_def intro: touch_inv split: option.split)

section \<open>Retried mutations\<close>

text \<open>What one mutating call does to the cache of its project: it is answered from the cache, or its
  result is remembered.\<close>

definition cache_call :: "digest \<Rightarrow> gateway_command \<times> bridge_result \<Rightarrow> mutation_cache \<Rightarrow> mutation_cache" where
  "cache_call digest = (\<lambda>(c, r) m. case cache_lookup digest c m of
     (Some _, m') \<Rightarrow> m' | (None, m') \<Rightarrow> cache_remember digest c r m')"

text \<open>A key is held with a value and at most \<open>n\<close> newer keys.\<close>

definition held :: "cache_key \<Rightarrow> cached_result \<Rightarrow> nat \<Rightarrow> mutation_cache \<Rightarrow> bool" where
  "held k v n m \<longleftrightarrow> cache_inv m \<and> hm_get (mc_values m) k = Some v \<and>
     (\<exists>pre post. mc_order m = pre @ k # post \<and> length post \<le> n)"

lemma cache_call_inv: "cache_inv m \<Longrightarrow> cache_inv (cache_call digest x m)"
  using lookup_inv [of m digest "fst x"] remember_inv
  by (auto simp: cache_call_def split: prod.split option.split)

lemma held_mono: "held k v n m \<Longrightarrow> n \<le> n' \<Longrightarrow> held k v n' m"
  unfolding held_def by (meson le_trans)

lemma held_touch:
  assumes "held k v n m" "key \<in> set (mc_order m)"
  shows "held k v (Suc n) (m\<lparr>mc_order := filter (\<lambda>item. item \<noteq> key) (mc_order m) @ [key]\<rparr>)"
proof -
  obtain pre post where o: "mc_order m = pre @ k # post" "length post \<le> n" using assms(1) by (auto simp: held_def)
  have "\<exists>pre' post'. filter (\<lambda>item. item \<noteq> key) (mc_order m) @ [key] = pre' @ k # post' \<and> length post' \<le> Suc n"
  proof (cases "k = key")
    case False
    have "length (filter (\<lambda>item. item \<noteq> key) post @ [key]) \<le> Suc n"
      using o(2) le_trans [OF length_filter_le [of "\<lambda>item. item \<noteq> key" post]] by simp
    then show ?thesis using False o(1) by (intro exI [of _ "filter (\<lambda>item. item \<noteq> key) pre"]
        exI [of _ "filter (\<lambda>item. item \<noteq> key) post @ [key]"]) simp
  qed (intro exI [of _ "filter (\<lambda>item. item \<noteq> key) (mc_order m)"] exI [of _ "[]"], simp)
  then show ?thesis using assms touch_inv [of m key] by (simp add: held_def)
qed

lemma held_remember:
  assumes h: "held k v n m" and new: "hm_get (mc_values m) (cache_key_of c) = None" and room: "Suc n < MAX_CACHED_RESULTS"
  shows "held k v (Suc n) (cache_remember digest c r m)"
proof (cases "is_operation_error r")
  case True
  then show ?thesis using held_mono [OF h, of "Suc n"] by (simp add: cache_remember_def)
next
  case False
  let ?key = "cache_key_of c" and ?N = MAX_CACHED_RESULTS
  obtain pre post where o: "mc_order m = pre @ k # post" "length post \<le> n" and inv: "cache_inv m"
    and v: "hm_get (mc_values m) k = Some v" using h by (auto simp: held_def)
  let ?vs = "hm_insert ?key \<lparr> cr_fingerprint = fingerprint digest c, cr_result = r \<rparr> (mc_values m)"
  have fresh: "?key \<notin> set (mc_order m)" "?key \<noteq> k" using cache_inv_key [OF inv, of ?key] new v by auto
  then have "filter (\<lambda>item. item \<noteq> ?key) (mc_order m) = mc_order m" by (auto simp: filter_id_conv)
  then have order: "filter (\<lambda>item. item \<noteq> ?key) (mc_order m) @ [?key] = pre @ k # post @ [?key]"
    using o(1) by simp
  have d: "distinct (pre @ k # post @ [?key])" using fresh o(1) cache_invD(2) [OF inv] by auto
  have room': "length pre \<ge> length (pre @ k # post @ [?key]) - ?N" using o(2) room by simp
  have rem: "cache_remember digest c r m = evict (pre @ k # post @ [?key]) ?vs"
    using False by (simp add: cache_remember_def Let_def order)
  have "hm_get (mc_values (evict (pre @ k # post @ [?key]) ?vs)) k = Some v"
    using d fresh v room' by (auto simp: evict_values dest: in_set_takeD)
  moreover have "mc_order (evict (pre @ k # post @ [?key]) ?vs) =
      drop (length (pre @ k # post @ [?key]) - ?N) pre @ k # post @ [?key]"
    using room' by (simp add: evict_order)
  ultimately show ?thesis
    using remember_inv [OF inv, of digest c r] o(2) unfolding held_def rem by fastforce
qed

lemma held_call:
  assumes "held k v n m" "Suc n < MAX_CACHED_RESULTS" shows "held k v (Suc n) (cache_call digest x m)"
proof -
  have m: "held k v (Suc n) m" using held_mono [OF assms(1)] by simp
  have "cache_inv m" using assms(1) by (simp add: held_def)
  then show ?thesis
    using held_touch [OF assms(1)] held_remember [OF assms(1) _ assms(2)] m cache_inv_some [of m]
    by (auto simp: cache_call_def cache_lookup_def Let_def split: option.split prod.split)
qed

lemma held_calls:
  "held k v n m \<Longrightarrow> n + length xs < MAX_CACHED_RESULTS \<Longrightarrow>
   held k v (n + length xs) (run_events (cache_call digest) xs m)"
proof (induction xs arbitrary: n m)
  case (Cons x xs)
  then show ?case using held_call [of k v n m digest x] Cons.IH [of "Suc n" "cache_call digest x m"] by simp
qed simp

lemma remember_held:
  assumes "cache_inv m" "\<not> is_operation_error r"
  shows "held (cache_key_of c) \<lparr> cr_fingerprint = fingerprint digest c, cr_result = r \<rparr> 0 (cache_remember digest c r m)"
proof -
  let ?key = "cache_key_of c" and ?ks = "filter (\<lambda>item. item \<noteq> cache_key_of c) (mc_order m)"
  let ?vs = "hm_insert ?key \<lparr> cr_fingerprint = fingerprint digest c, cr_result = r \<rparr> (mc_values m)"
  have rem: "cache_remember digest c r m = evict (?ks @ [?key]) ?vs" using assms(2) by (simp add: cache_remember_def Let_def)
  have d: "distinct (?ks @ [?key])" using cache_invD(2) [OF assms(1)] by simp
  have "length (?ks @ [?key]) - MAX_CACHED_RESULTS \<le> length ?ks" by (simp add: MAX_CACHED_RESULTS_def)
  then have "mc_order (evict (?ks @ [?key]) ?vs) = drop (length (?ks @ [?key]) - MAX_CACHED_RESULTS) ?ks @ [?key]"
    "hm_get (mc_values (evict (?ks @ [?key]) ?vs)) ?key = Some \<lparr> cr_fingerprint = fingerprint digest c, cr_result = r \<rparr>"
    using d by (auto simp: evict_order evict_values dest: in_set_takeD)
  then show ?thesis using remember_inv [OF assms(1), of digest c r] unfolding held_def rem by auto
qed


definition demo_head :: command_head where
  "demo_head = \<lparr> ch_request_id = lit ''r1'', ch_thread_id = lit ''t'', ch_deadline_at = 100, ch_session = Some (lit ''s'') \<rparr>"

definition demo_write :: gateway_command where
  "demo_write = WriteFile demo_head (lit ''a.txt'') (lit ''x'') None"

definition demo_reply :: bridge_result where
  "demo_reply = WriteFileResult (lit ''r1'') \<lparr> wf_path = lit ''a.txt'', wf_sha256 = [], wf_bytes_written = 1, wf_created = True \<rparr>"

fun demo_digest :: digest where
  "demo_digest (WriteFile _ path content _) = path @ content"
| "demo_digest _ = []"

definition calm :: "'w call_env" where
  "calm = \<lparr> ce_during = (\<lambda>_ s. s), ce_now = (\<lambda>_. 10), ce_cancelled = (\<lambda>_. False) \<rparr>"

definition demo_session :: session_activation where
  "demo_session = \<lparr> sa_connection = Some 1, sa_generation = 1, sa_session_id = lit ''s'', sa_mode = ModeProject \<rparr>"

definition demo_backend :: "nat agent_backend" where
  "demo_backend = \<lparr> be_redact = id, be_now = int, be_open = (\<lambda>root w. (Inr root, w)),
     be_terminal_engine = (\<lambda>_ _ w. (Inr (), w)), be_terminal_windows = (\<lambda>_ w. (Inr (), w)),
     be_close_windows = (\<lambda>_ w. (Inr (), w)), be_close_terminals = (\<lambda>_ w. (Inr (), w)),
     be_computer = (\<lambda>_ _ w. (Inr (OutComputerStop True []), w)),
     be_terminal_exec = (\<lambda>_ _ w. (Inl [], w)), be_terminal_window = (\<lambda>_ _ w. (Inl [], w)),
     be_list_files = (\<lambda>_ _ _ w. (Inr ([], False), w)),
     be_read_file = (\<lambda>_ path _ _ w. (Inl \<lparr> fe_kind = FileIo, fe_display = path \<rparr>, w)),
     be_write_with_checkpoint = (\<lambda>_ path content _ w. (Inr \<lparr> wf_path = path, wf_sha256 = [],
       wf_bytes_written = length content, wf_created = True \<rparr>, w + 1)),
     be_project_rules = (\<lambda>_ w. (Inr [], w)), be_search = (\<lambda>_ _ _ w. (Inr (OutCodeSearch []), w)),
     be_create_file = (\<lambda>_ _ _ _ w. (Inl (CheckpointOther []), w)), be_apply_patch = (\<lambda>_ _ w. (Inl (CheckpointOther []), w)),
     be_discover_commands = (\<lambda>_ w. (Inr [], w)), be_run_command = (\<lambda>_ _ _ w. (Inl [], w)),
     be_repo_status = (\<lambda>_ w. (Inl (GitOther []), w)), be_repo_diff = (\<lambda>_ w. (Inl (GitOther []), w)),
     be_commit = (\<lambda>_ _ _ w. (Inl (GitOther []), w)), be_push = (\<lambda>_ _ _ w. (Inl (GitOther []), w)),
     be_save_image = (\<lambda>_ _ _ _ w. (Inl ImageCancelled, w)), be_save_from_url = (\<lambda>_ _ _ _ w. (Inl ImageCancelled, w)),
     be_list_images = (\<lambda>_ w. (Inl ImageCancelled, w)), be_retrieve_image = (\<lambda>_ _ w. (Inl ImageCancelled, w)),
     be_checkpoint_list = (\<lambda>_ w. (Inr [], w)), be_checkpoint_show = (\<lambda>_ _ w. (Inl (CheckpointOther []), w)),
     be_checkpoint_restore = (\<lambda>_ _ w. (Inl (CheckpointOther []), w)) \<rparr>"

definition demo_agent :: "nat agent_state" where
  "demo_agent = \<lparr> ag_connection = Some 1, ag_projects = [(lit ''t'', 0)],
     ag_heap = [(0, \<lparr> ap_root = lit ''root'', ap_expires_at = 900, ap_session = Some demo_session,
       ap_mutations = cache_call demo_digest (demo_write, demo_reply) cache_empty \<rparr>)],
     ag_next = 1, ag_world = 0 \<rparr>"

definition demo_bound :: active_project where
  "demo_bound = \<lparr> ap_root = lit ''root'', ap_expires_at = 900, ap_session = Some demo_session,
     ap_mutations = cache_call demo_digest (demo_write, demo_reply) cache_empty \<rparr>"


section \<open>Replies\<close>

text \<open>The shapes of reply a caller of the command understands.\<close>

fun reply_fits :: "gateway_command \<Rightarrow> bridge_result \<Rightarrow> bool" where
  "reply_fits _ (OperationError _ _ _) = True"
| "reply_fits (ProjectInfo _) (ProjectInfoResult _ _ _) = True"
| "reply_fits (ListFiles _ _ _) (ListFilesResult _ _ _) = True"
| "reply_fits (ReadFile _ _ _ _) (ReadFileResult _ _) = True"
| "reply_fits (WriteFile _ _ _ _) (WriteFileResult _ _) = True"
| "reply_fits (ProjectOperation _ _) (ProjectOperationResult _ _) = True"
| "reply_fits (ProjectSession _ _) (ProjectSessionResult _) = True"
| "reply_fits (DeviceSession _ _ _ _) (ProjectSessionResult _) = True"
| "reply_fits _ _ = False"

definition proper :: "gateway_command \<Rightarrow> bridge_result \<Rightarrow> bool" where
  "proper c r \<longleftrightarrow> result_request_id r = command_request_id c \<and> reply_fits c r"

lemma proper_error [simp]: "proper c (operation_error (command_request_id c) code body)"
  by (simp add: proper_def operation_error_def)

lemmas error_reply_defs = binding_error_def expired_result_def cancelled_result_def session_error_def file_error_def
  command_error_def terminal_error_def unsupported_def

lemma proper_errors [simp]:
  "proper c (binding_error (command_request_id c) code)" "proper c (expired_result (command_request_id c))"
  "proper c (cancelled_result (command_request_id c))" "proper c (session_error (command_request_id c) body)"
  "proper c (file_error red (command_request_id c) fe)" "proper c (command_error red (command_request_id c) e)"
  "proper c (terminal_error red (command_request_id c) e)" "proper c (unsupported (command_request_id c))"
  "proper c (conflict c)"
  by (simp_all add: error_reply_defs conflict_def proper_def operation_error_def)

lemma proper_errors2 [simp]:
  "proper c (checkpoint_error red (command_request_id c) ke)" "proper c (code_error red (command_request_id c) ce)"
  "proper c (git_error red (command_request_id c) ge)" "proper c (computer_error red (command_request_id c) me)"
  by (cases ke, simp_all, cases ce, simp_all, cases ge, simp_all, cases me, simp_all)

lemma proper_image_error [simp]: "proper c (image_error red (command_request_id c) e)"
  by (cases e) simp_all

lemma proper_answered:
  "(\<And>v. proper c (ok v)) \<Longrightarrow> (\<And>e. proper c (err e)) \<Longrightarrow> proper c (fst (answered out ok err))"
  by (simp add: answered_def split: prod.split sum.split)

lemma first_some_cases:
  "\<forall>x \<in> set xs. case x of None \<Rightarrow> True | Some y \<Rightarrow> P y \<Longrightarrow> P d \<Longrightarrow> P (first_some xs d)"
  by (induction xs) (auto simp: first_some_def split: option.splits)

lemma proper_execute_operation:
  assumes c: "c = ProjectOperation h operation"
  shows "proper c (fst (execute_operation be (command_request_id c) operation deadline root session w))"
proof -
  have core: "proper c (core_result (command_request_id c) out)"
    "proper c (ProjectOperationResult (command_request_id c) x)" for out x
    by (simp_all add: proper_def core_result_def c)
  have status: "proper c (fst (project_status be (command_request_id c) root w))" for w
    by (auto simp: project_status_def core intro!: proper_answered split: prod.split sum.split)
  have pairs: "proper c (case v of (a, b) \<Rightarrow> core_result (command_request_id c) (f a b))" for v f
    by (simp add: core split: prod.split)
  show ?thesis
    unfolding execute_operation_def
    by (rule first_some_cases [where P = "\<lambda>x. proper c (fst x)"])
      (auto simp: computer_operation_def terminal_operation_def checkpoint_operation_def git_operation_def
        image_operation_def execute_core_def core status intro!: proper_answered
        split: project_operation.split core_request.split option.split bind_split)
qed

lemma proper_results:
  "c = ProjectInfo h \<Longrightarrow> proper c (ProjectInfoResult (command_request_id c) root t)"
  "c = ListFiles h pat l \<Longrightarrow> proper c (ListFilesResult (command_request_id c) files truncated)"
  "c = ReadFile h path a b \<Longrightarrow> proper c (ReadFileResult (command_request_id c) body)"
  "c = WriteFile h path content sha \<Longrightarrow> proper c (WriteFileResult (command_request_id c) out)"
  by (simp_all add: proper_def)

lemma proper_execute: "proper c (fst (execute_command be c root session w))"
proof (cases c)
  case (ProjectOperation h operation)
  then show ?thesis
    using proper_execute_operation [OF ProjectOperation, of be "ch_deadline_at h" root session w] by (simp add: execute_command_def)
qed (auto simp: execute_command_def Let_def proper_results intro!: proper_answered split: prod.split)

text \<open>The digest tells commands of different kinds apart.\<close>

fun command_kind :: "gateway_command \<Rightarrow> nat" where
  "command_kind (ProjectInfo _) = 0"
| "command_kind (ListFiles _ _ _) = 1"
| "command_kind (ReadFile _ _ _ _) = 2"
| "command_kind (WriteFile _ _ _ _) = 3"
| "command_kind (ProjectOperation _ _) = 4"
| "command_kind (ProjectSession _ _) = 5"
| "command_kind (DeviceSession _ _ _ _) = 6"

definition digest_tells :: "digest \<Rightarrow> bool" where
  "digest_tells digest \<longleftrightarrow> (\<forall>c c'. digest c = digest c' \<longrightarrow> command_kind c = command_kind c')"

lemma kind_of_content: "command_kind (command_content c) = command_kind c"
  by (cases c) simp_all

lemma same_kind_fits:
  assumes "command_kind c = command_kind c'" shows "reply_fits c r = reply_fits c' r"
  using assms by (cases c; cases c'; cases r) simp_all

definition cache_proper :: "digest \<Rightarrow> mutation_cache \<Rightarrow> bool" where
  "cache_proper digest m \<longleftrightarrow> (\<forall>k v. hm_get (mc_values m) k = Some v \<longrightarrow>
     (\<exists>c. cache_key_of c = k \<and> cr_fingerprint v = fingerprint digest c \<and> proper c (cr_result v)))"

definition agent_proper :: "digest \<Rightarrow> 'w agent_state \<Rightarrow> bool" where
  "agent_proper digest s \<longleftrightarrow> (\<forall>pid p. hm_get (ag_heap s) pid = Some p \<longrightarrow> cache_proper digest (ap_mutations p))"

lemma evict_keeps: "hm_get (mc_values (evict order vs)) k = Some v \<Longrightarrow> hm_get vs k = Some v"
proof (induction order arbitrary: vs)
  case (Cons a order)
  then show ?case
    using Cons.IH [of "hm_remove a vs"] by (auto split: if_splits)
qed simp

lemma cache_proper_order [simp]: "cache_proper digest (m\<lparr>mc_order := x\<rparr>) = cache_proper digest m"
  by (simp add: cache_proper_def)

lemma cache_proper_lookup:
  assumes "digest_tells digest" "cache_proper digest m"
  shows "cache_proper digest (snd (cache_lookup digest c m)) \<and>
    (case fst (cache_lookup digest c m) of None \<Rightarrow> True | Some r \<Rightarrow> proper c r)"
proof -
  have same: "proper c (cr_result v)"
    if got: "hm_get (mc_values m) (cache_key_of c) = Some v" and fp: "cr_fingerprint v = fingerprint digest c" for v
  proof -
    obtain c0 where c0: "cache_key_of c0 = cache_key_of c" "fingerprint digest c0 = fingerprint digest c" "proper c0 (cr_result v)"
      using assms(2) [unfolded cache_proper_def, rule_format, OF got] fp by auto
    have "digest (command_content c0) = digest (command_content c)" using c0(2) by (simp add: fingerprint_def)
    then have "command_kind c0 = command_kind c"
      using assms(1) [unfolded digest_tells_def, rule_format, of "command_content c0" "command_content c"]
      by (simp add: kind_of_content)
    moreover have "command_request_id c0 = command_request_id c"
      using c0(1) by (simp add: cache_key_of_def command_request_id_def Let_def)
    ultimately show ?thesis using c0(3) same_kind_fits [of c0 c] by (simp add: proper_def)
  qed
  show ?thesis
  proof (cases "hm_get (mc_values m) (cache_key_of c)")
    case (Some v)
    then show ?thesis
      using assms(2) same [OF Some] by (cases "cr_fingerprint v = fingerprint digest c") (simp_all add: cache_lookup_def Let_def)
  qed (simp add: cache_lookup_def assms(2))
qed

lemma cache_proper_remember:
  assumes "cache_proper digest m" "proper c r" shows "cache_proper digest (cache_remember digest c r m)"
proof -
  have "\<exists>c'. cache_key_of c' = k \<and> cr_fingerprint v = fingerprint digest c' \<and> proper c' (cr_result v)"
    if "hm_get (hm_insert (cache_key_of c) \<lparr> cr_fingerprint = fingerprint digest c, cr_result = r \<rparr> (mc_values m)) k = Some v" for k v
    using that assms by (cases "k = cache_key_of c") (auto simp: cache_proper_def intro: exI [of _ c])
  then show ?thesis
    using assms(1) unfolding cache_proper_def cache_remember_def Let_def by (auto dest!: evict_keeps)
qed

lemma agent_proper_on_project:
  assumes "agent_proper digest s" "\<And>p. cache_proper digest (ap_mutations p) \<Longrightarrow> cache_proper digest (ap_mutations (f p))"
  shows "agent_proper digest (on_project pid f s)"
  using assms by (auto simp: agent_proper_def on_project_def split: option.split)

lemma agent_proper_world [simp]: "agent_proper digest (s\<lparr>ag_world := w\<rparr>) = agent_proper digest s"
  by (simp add: agent_proper_def)

lemma agent_proper_heap: "ag_heap s' = ag_heap s \<Longrightarrow> agent_proper digest s' = agent_proper digest s"
  by (simp add: agent_proper_def)

lemma agent_proper_close: "agent_proper digest s \<Longrightarrow> agent_proper digest (snd (close_on be session s))"
  by (simp add: close_on_def split: prod.split)

lemma agent_proper_take: "agent_proper digest s \<Longrightarrow> agent_proper digest (snd (take_session pid s))"
  by (simp add: take_session_def agent_proper_on_project)

lemma agent_proper_install: "agent_proper digest s \<Longrightarrow> agent_proper digest (snd (install_project t root e s))"
  by (simp add: install_project_def agent_proper_def cache_proper_def cache_empty_def)

lemma agent_proper_activate_locked:
  "agent_proper digest s \<Longrightarrow> agent_proper digest (snd (activate_locked be pid rid sid g mode conn s))"
  by (auto simp: activate_locked_def agent_proper_on_project split: prod.split option.split sum.split)

lemma agent_proper_execute: "agent_proper digest s \<Longrightarrow> agent_proper digest (snd (execute_on be command root session s))"
  by (simp add: execute_on_def split: prod.split)

lemma upsert_project_state:
  assumes I: "I s" and world: "\<And>s w. I s \<Longrightarrow> I (s\<lparr>ag_world := w\<rparr>)"
    and close: "\<And>s session. I s \<Longrightarrow> I (snd (close_on be session s))"
    and take: "\<And>s pid. I s \<Longrightarrow> I (snd (take_session pid s))"
    and install: "\<And>s opened. I s \<Longrightarrow> I (snd (install_project thread_id opened e s))"
  shows "I (snd (upsert_project be thread_id root e s))"
proof -
  have put: "I s1" if "install_project thread_id opened e (s\<lparr>ag_world := w\<rparr>) = (previous, s1)" for opened w previous s1
    using install [OF world [OF I], of opened w] that by simp
  have got: "I s2" if "take_session pid s1 = (taken, s2)" "I s1" for pid s1 taken s2
    using take [OF that(2), of pid] that(1) by simp
  have "I (snd (close_on be session s2))" if "I s2" for session s2 using close [OF that] .
  then show ?thesis
    using put got world [OF I]
    by (auto simp: upsert_project_def Let_def split: prod.split sum.split option.split) (metis snd_conv)+
qed

lemma agent_proper_bind_device:
  assumes "agent_proper digest s" shows "agent_proper digest (snd (bind_device be command s))"
proof (cases command)
  case (DeviceSession h g d e)
  have "agent_proper digest (snd (upsert_project be (ch_thread_id h) d e s))"
    by (rule upsert_project_state [where I = "agent_proper digest"])
      (simp_all add: assms agent_proper_close agent_proper_take agent_proper_install)
  then show ?thesis
    by (auto simp: bind_device_def DeviceSession split: prod.split sum.split project_binding_error.split)
qed (simp_all add: bind_device_def assms)

lemma bind_device_proper: "bind_device be c s = (Some reply, s') \<Longrightarrow> proper c reply"
proof (cases c)
  case (DeviceSession h g d e)
  assume "bind_device be c s = (Some reply, s')"
  then have "\<exists>fe body. reply = file_error (be_redact be) (command_request_id c) fe \<or> reply = session_error (command_request_id c) body"
    using DeviceSession by (auto simp: bind_device_def command_request_id_def split: prod.splits sum.splits project_binding_error.splits)
  then show ?thesis by auto
qed (simp_all add: bind_device_def)

lemma find_project_proper: "find_project env c s = Inl reply \<Longrightarrow> proper c reply"
  by (auto simp: find_project_def Let_def simp flip: command_request_id_def split: option.splits if_splits)

lemma check_active_proper:
  "session_activation_of c = Some (g, mode) \<Longrightarrow> check_active (command_request_id c) sid g mode conn active = Some reply \<Longrightarrow>
   proper c reply"
  by (cases c) (auto simp: check_active_def proper_def session_error_def operation_error_def split: if_splits)

lemma session_result_proper:
  "session_activation_of c = Some x \<Longrightarrow> proper c (ProjectSessionResult (command_request_id c))"
  by (cases c) (simp_all add: proper_def)

lemma activate_proper:
  assumes "agent_proper digest s" "\<And>k s. agent_proper digest s \<Longrightarrow> agent_proper digest (ce_during env k s)"
    and "session_activation_of c = Some (g, mode)"
  shows "proper c (fst (activate be env pid (command_request_id c) sid g mode conn s)) \<and>
    agent_proper digest (snd (activate be env pid (command_request_id c) sid g mode conn s))"
proof -
  let ?s3 = "ce_during env 3 (ce_during env 2 s)"
  let ?rid = "command_request_id c"
  have s3: "agent_proper digest ?s3" using assms(1,2) by blast
  have reply: "proper c reply" if "fst (activate_locked be pid ?rid sid g mode conn ?s3) = Inl reply" for reply
    using that check_active_proper [OF assms(3)]
    by (auto simp: activate_locked_def split: option.splits prod.splits sum.splits bind_splits)
  obtain out s4 where lock: "activate_locked be pid ?rid sid g mode conn ?s3 = (out, s4)" by fastforce
  then have s4: "agent_proper digest s4" using agent_proper_activate_locked [OF s3, of be pid ?rid sid g mode conn] by simp
  have "agent_proper digest (snd (close_on be previous (ce_during env 4 s4)))" for previous
    using agent_proper_close assms(2) s4 by blast
  then show ?thesis
    using assms(1,2) s4 reply lock session_result_proper [OF assms(3)]
    by (auto simp: activate_def Let_def split: sum.split option.split prod.split) (metis snd_conv)+
qed

lemma run_mutation_proper:
  assumes "digest_tells digest" "agent_proper digest s" "\<And>k s. agent_proper digest s \<Longrightarrow> agent_proper digest (ce_during env k s)"
  shows "proper c (fst (run_mutation digest be env c pid p session s)) \<and>
    agent_proper digest (snd (run_mutation digest be env c pid p session s))"
proof -
  let ?s = "ce_during env 4 s"
  have s: "agent_proper digest ?s" using assms(2,3) by blast
  have step: "proper c (fst out) \<and> agent_proper digest (snd out)"
    if cur: "hm_get (ag_heap ?s) pid = Some current" and look: "cache_lookup digest c (ap_mutations current) = (found, cache)"
      and s1: "s1 = on_project pid (\<lambda>p. p\<lparr>ap_mutations := cache\<rparr>) ?s"
      and out: "out = (case found of Some r \<Rightarrow> (r, s1) | None \<Rightarrow>
        let (r, s2) = execute_on be c (ap_root p) session s1; s3 = ce_during env 5 s2
        in (r, on_project pid (\<lambda>p. p\<lparr>ap_mutations := cache_remember digest c r (ap_mutations p)\<rparr>) s3))"
    for current found cache s1 out
  proof -
    have look': "cache_proper digest cache" "case found of None \<Rightarrow> True | Some r \<Rightarrow> proper c r"
      using cache_proper_lookup [OF assms(1), of "ap_mutations current" c] s cur look by (auto simp: agent_proper_def)
    have p1: "agent_proper digest s1" unfolding s1 using s look'(1) by (simp add: agent_proper_on_project)
    obtain r s2 where ex: "execute_on be c (ap_root p) session s1 = (r, s2)" by fastforce
    have "proper c r" using ex proper_execute [of c be "ap_root p" session "ag_world s1"]
      by (auto simp: execute_on_def split: prod.splits)
    moreover have "agent_proper digest (ce_during env 5 s2)"
      using agent_proper_execute [OF p1, of be c "ap_root p" session] ex assms(3) by simp
    ultimately show ?thesis
      using look'(2) p1 ex out by (auto simp: cache_proper_remember agent_proper_on_project split: option.splits)
  qed
  show ?thesis
  proof (cases "ce_cancelled env 1 \<or> ch_deadline_at (command_head_of c) \<le> ce_now env 2 \<or> hm_get (ag_heap ?s) pid = None")
    case True
    then show ?thesis using s by (auto simp: run_mutation_def Let_def)
  next
    case False
    then obtain current where cur: "hm_get (ag_heap ?s) pid = Some current" by auto
    obtain found cache where look: "cache_lookup digest c (ap_mutations current) = (found, cache)" by fastforce
    show ?thesis
      using step [OF cur look refl refl] False by (simp add: run_mutation_def Let_def cur look)
  qed
qed

lemma execute_cancellable_cases:
  obtains (cancelled) "execute_cancellable digest be env c connection s = (cancelled_result (command_request_id c), s)"
  | (refused) reply s1 where "bind_device be c s = (Some reply, s1)"
      "execute_cancellable digest be env c connection s = (reply, s1)"
  | (unbound) reply s1 where "bind_device be c s = (None, s1)" "find_project env c (ce_during env 0 s1) = Inl reply"
      "execute_cancellable digest be env c connection s = (reply, ce_during env 0 s1)"
  | (admitted) pid p s1 where "bind_device be c s = (None, s1)" "find_project env c (ce_during env 0 s1) = Inr (pid, p)"
      "execute_cancellable digest be env c connection s =
         run_admitted digest be env c connection pid p (ce_during env 1 (ce_during env 0 s1))"
proof -
  obtain reply s1 where b: "bind_device be c s = (reply, s1)" by fastforce
  show thesis
  proof (cases "ce_cancelled env 0")
    case True
    then show thesis using cancelled by (simp add: execute_cancellable_def)
  next
    case False
    then show thesis
      using b refused [of _ s1] unbound [of s1] admitted [of s1]
      by (cases reply; cases "find_project env c (ce_during env 0 s1)")
        (auto simp: execute_cancellable_def Let_def)
  qed
qed

lemma run_admitted_proper:
  assumes "digest_tells digest" "agent_proper digest s" "\<And>k s. agent_proper digest s \<Longrightarrow> agent_proper digest (ce_during env k s)"
  shows "proper c (fst (run_admitted digest be env c connection pid p s)) \<and>
    agent_proper digest (snd (run_admitted digest be env c connection pid p s))"
proof (cases "session_activation_of c")
  case (Some x)
  then show ?thesis
    using activate_proper [OF assms(2,3), of c "fst x" "snd x"] by (simp add: run_admitted_def case_prod_beta)
next
  case None
  let ?sid = "ch_session (command_head_of c)"
  obtain got s4 where r: "require_session env pid ?sid connection s = (got, s4)" by fastforce
  have "agent_proper digest (snd (require_session env pid ?sid connection s))"
    using assms(2,3) by (auto simp: require_session_def Let_def split: option.split)
  then have s4: "agent_proper digest s4" using r by simp
  moreover have "proper c (fst (execute_on be c (ap_root p) session s4))" for session
    using proper_execute [of c be "ap_root p" session "ag_world s4"] by (simp add: execute_on_def case_prod_beta)
  ultimately show ?thesis
    using r None run_mutation_proper [OF assms(1) s4 assms(3)]
    by (simp add: run_admitted_def agent_proper_execute split: sum.split)
qed

text \<open>Every reply fits its command. Whatever other tasks do at the await points of a call, the
  dispatcher answers with the request id of the command and with the result shape of its kind or an
  operation error, also when the answer comes from the mutation cache, provided that the digest tells
  commands of different kinds apart.\<close>
theorem every_reply_fits:
  assumes "digest_tells digest" "agent_proper digest s"
    and hooks: "\<And>k s. agent_proper digest s \<Longrightarrow> agent_proper digest (ce_during env k s)"
  shows "result_request_id (fst (execute_cancellable digest be env c connection s)) = command_request_id c \<and>
    reply_fits c (fst (execute_cancellable digest be env c connection s)) \<and>
    agent_proper digest (snd (execute_cancellable digest be env c connection s))"
proof -
  let ?out = "execute_cancellable digest be env c connection s"
  have "proper c (fst ?out) \<and> agent_proper digest (snd ?out)"
  proof (cases rule: execute_cancellable_cases [of digest be env c connection s])
    case cancelled
    then show ?thesis using assms(2) by simp
  next
    case (refused reply s1)
    then show ?thesis using bind_device_proper agent_proper_bind_device [OF assms(2), of be c] by simp
  next
    case (unbound reply s1)
    then show ?thesis using find_project_proper agent_proper_bind_device [OF assms(2), of be c] hooks by simp
  next
    case (admitted pid p s1)
    then have "agent_proper digest (ce_during env 1 (ce_during env 0 s1))"
      using agent_proper_bind_device [OF assms(2), of be c] hooks by simp
    then show ?thesis using run_admitted_proper [OF assms(1) _ hooks] admitted(3) by simp
  qed
  then show ?thesis by (simp add: proper_def)
qed

definition kind_digest :: digest where
  "kind_digest c = [int (command_kind c)]"

theorem every_reply_fits_witness:
  "result_request_id (fst (execute_cancellable kind_digest demo_backend calm demo_write (Some 1) (agent_new 0))) = lit ''r1''"
proof -
  have "digest_tells kind_digest" by (simp add: digest_tells_def kind_digest_def)
  moreover have "agent_proper kind_digest (agent_new (0::nat))" by (simp add: agent_proper_def agent_new_def)
  ultimately show ?thesis
    using every_reply_fits [of kind_digest "agent_new 0" calm demo_backend demo_write "Some 1"]
    by (simp add: calm_def demo_write_def demo_head_def command_request_id_def)
qed

section \<open>Which session a command runs in\<close>

lemma require_session_current:
  assumes "require_session env pid sid connection s = (Inr session, s')"
  shows "(connection \<noteq> None \<longrightarrow> ag_connection (ce_during env 2 s) = connection) \<and> sid = Some (sa_session_id session) \<and>
     sa_connection session = connection \<and>
     Option.bind (hm_get (ag_heap (ce_during env 3 (ce_during env 2 s))) pid) ap_session = Some session"
  using assms by (auto simp: require_session_def Let_def split: if_splits option.splits)

lemma find_project_current:
  assumes "find_project env c s = Inr (pid, p)"
  shows "hm_get (ag_projects s) (ch_thread_id (command_head_of c)) = Some pid \<and> hm_get (ag_heap s) pid = Some p \<and>
     ch_deadline_at (command_head_of c) > ce_now env 0 \<and> ap_expires_at p > ce_now env 1"
  using assms by (auto simp: find_project_def Let_def bind_eq_Some_conv split: option.splits if_splits)

text \<open>A project command succeeds only in the session and on the connection it was sent for. When the
  dispatcher answers such a command with anything but an error, its thread was bound, neither its deadline nor the
  binding had passed, the connection it came over was the current one when the session was looked up, and the session
  active in the project was the one it names, activated on that same connection.\<close>
theorem success_needs_current_session:
  assumes "execute_cancellable digest be env c connection s = (r, s')" "\<not> is_operation_error r"
    and "session_activation_of c = None"
  shows "\<exists>pid p session. let s1 = ce_during env 0 s; s2 = ce_during env 2 (ce_during env 1 s1); s3 = ce_during env 3 s2 in
     hm_get (ag_projects s1) (ch_thread_id (command_head_of c)) = Some pid \<and> hm_get (ag_heap s1) pid = Some p \<and>
     ch_deadline_at (command_head_of c) > ce_now env 0 \<and> ap_expires_at p > ce_now env 1 \<and>
     (connection \<noteq> None \<longrightarrow> ag_connection s2 = connection) \<and>
     Option.bind (hm_get (ag_heap s3) pid) ap_session = Some session \<and>
     ch_session (command_head_of c) = Some (sa_session_id session) \<and> sa_connection session = connection"
proof -
  have err: "is_operation_error (cancelled_result x)" "is_operation_error (session_error x y)"
    "is_operation_error (binding_error x code)" "is_operation_error (expired_result x)" for x y code
    by (simp_all add: error_reply_defs operation_error_def)
  have none: "bind_device be c s = (None, s)" using assms(3) by (cases c) (simp_all add: bind_device_def)
  show ?thesis
  proof (cases rule: execute_cancellable_cases [of digest be env c connection s])
    case (admitted pid p s1)
    let ?s = "ce_during env 1 (ce_during env 0 s)" and ?sid = "ch_session (command_head_of c)"
    obtain got s4 where got: "require_session env pid ?sid connection ?s = (got, s4)" by fastforce
    then obtain session where "got = Inr session"
      using assms admitted none err by (cases got) (auto simp: run_admitted_def)
    then show ?thesis
      using require_session_current [of env pid ?sid connection ?s session s4] got find_project_current [of env c "ce_during env 0 s" pid p]
        admitted none by (auto simp: Let_def)
  next
    case (unbound reply s1)
    then show ?thesis using assms none err by (auto simp: find_project_def Let_def split: option.splits if_splits)
  qed (use assms none err in auto)
qed

theorem success_needs_current_session_witness:
  "\<exists>pid p session. hm_get (ag_projects demo_agent) (lit ''t'') = Some pid \<and> hm_get (ag_heap demo_agent) pid = Some p \<and>
     ap_session p = Some session \<and> sa_session_id session = lit ''s''"
proof -
  let ?c = "ListFiles demo_head (lit ''x'') 5"
  have "execute_cancellable demo_digest demo_backend calm ?c (Some 1) demo_agent = (ListFilesResult (lit ''r1'') [] False, demo_agent)"
    by (simp add: execute_cancellable_def calm_def bind_device_def find_project_def demo_agent_def demo_head_def run_admitted_def
        require_session_def execute_on_def execute_command_def answered_def demo_backend_def hm_get_def demo_session_def
        command_request_id_def lit_def Let_def)
  from success_needs_current_session [OF this] show ?thesis
    by (auto simp: calm_def demo_head_def Let_def)
qed

section \<open>Sessions move forward\<close>

text \<open>The atomic steps of the dispatcher's tasks on the shared state. The label is the project whose session a
  step takes away, if any.\<close>

inductive ag_step :: "'w agent_backend \<Rightarrow> nat option \<Rightarrow> 'w agent_state \<Rightarrow> 'w agent_state \<Rightarrow> bool" for be where
  StInstall: "ag_step be None s (snd (install_project thread_id root expires_at s))"
| StActivate: "ag_step be None s (snd (activate_locked be pid rid sid generation mode connection s))"
| StTake: "ag_step be (Some pid) s (snd (take_session pid s))"
| StConnection: "ag_step be None s (s\<lparr>ag_connection := g\<rparr>)"
| StWorld: "ag_step be None s (s\<lparr>ag_world := w\<rparr>)"
| StCache: "ag_step be None s (on_project pid (\<lambda>p. p\<lparr>ap_mutations := m\<rparr>) s)"

inductive_cases ag_stepE: "ag_step be l s s'"

definition heap_below :: "'w agent_state \<Rightarrow> bool" where
  "heap_below s \<longleftrightarrow> (\<forall>pid p. hm_get (ag_heap s) pid = Some p \<longrightarrow> pid < ag_next s)"

definition session_at :: "'w agent_state \<Rightarrow> nat \<Rightarrow> session_activation option" where
  "session_at s pid = Option.bind (hm_get (ag_heap s) pid) ap_session"

text \<open>One session follows another: it is the same, or newer on the same connection.\<close>

definition follows :: "session_activation \<Rightarrow> session_activation \<Rightarrow> bool" where
  "follows a b \<longleftrightarrow> b = a \<or> sa_generation a < sa_generation b \<and> sa_connection b = sa_connection a"

lemma follows_trans: "follows a b \<Longrightarrow> follows b c \<Longrightarrow> follows a c"
  by (auto simp: follows_def)

lemma session_at_on_project:
  "session_at (on_project pid f s) x = (if x = pid then Option.bind (hm_get (ag_heap s) x) (\<lambda>p. ap_session (f p)) else session_at s x)"
  by (auto simp: session_at_def on_project_def split: option.split)

lemma activate_locked_follows:
  assumes "session_at s x = Some a"
  shows "\<exists>b. session_at (snd (activate_locked be pid rid sid g mode conn s)) x = Some b \<and> follows a b"
proof (cases "x = pid \<and> check_active rid sid g mode conn a = None")
  case True
  then have newer: "conn = sa_connection a" "sa_generation a < g"
    by (auto simp: check_active_def not_less split: if_splits)
  have "session_at (s\<lparr>ag_world := w\<rparr>) y = session_at s y" for w y by (simp add: session_at_def)
  then show ?thesis
    using assms True newer
    by (auto simp: activate_locked_def session_at_on_project follows_def bind_eq_Some_conv session_at_def [of s]
        split: option.split prod.split sum.split)
next
  case False
  have "session_at (s\<lparr>ag_world := w\<rparr>) y = session_at s y" for w y by (simp add: session_at_def)
  then show ?thesis
    using assms False
    by (auto simp: activate_locked_def session_at_on_project follows_def bind_eq_Some_conv session_at_def [of s]
        split: option.split prod.split sum.split)
qed

lemma ag_step_follows:
  assumes "ag_step be l s s'" "l \<noteq> Some x" "heap_below s" "session_at s x = Some a"
  shows "heap_below s' \<and> (\<exists>b. session_at s' x = Some b \<and> follows a b)"
  using assms(1)
proof cases
  case (StActivate pid rid sid generation mode connection)
  have "heap_below s'"
    using assms(3) StActivate(2) unfolding heap_below_def
    by (auto simp: activate_locked_def on_project_def split: option.splits prod.splits sum.splits if_splits)
  then show ?thesis using activate_locked_follows [OF assms(4)] StActivate by simp
next
  case (StInstall thread_id root expires_at)
  have "x < ag_next s" using assms(3,4) by (auto simp: heap_below_def session_at_def bind_eq_Some_conv)
  then have "session_at s' x = Some a" using assms(4) StInstall by (simp add: install_project_def session_at_def)
  moreover have "heap_below s'" using assms(3) StInstall by (auto simp: heap_below_def install_project_def less_Suc_eq split: if_splits)
  ultimately show ?thesis by (simp add: follows_def)
next
  case (StTake pid)
  then have "session_at s' x = Some a" using assms(2,4) by (auto simp: take_session_def session_at_on_project)
  moreover have "heap_below s'"
    using assms(3) StTake by (auto simp: take_session_def heap_below_def on_project_def split: option.splits if_splits)
  ultimately show ?thesis by (simp add: follows_def)
next
  case (StCache pid m)
  have "session_at s' x = Some a" using assms(4) StCache by (auto simp: session_at_on_project) (auto simp: session_at_def)
  moreover have "heap_below s'" using assms(3) StCache by (auto simp: heap_below_def on_project_def split: option.splits if_splits)
  ultimately show ?thesis by (simp add: follows_def)
qed (use assms(3,4) in \<open>simp_all add: follows_def session_at_def heap_below_def\<close>)

text \<open>While nothing takes a project's session away (a new connection, the end of a connection, or a new
  binding of its thread), the session only moves forward: whatever the dispatcher's tasks do in whatever order, the
  project keeps a session, on the same connection, and it is the same one or one of a greater generation.\<close>
theorem session_moves_forward:
  assumes "(\<lambda>s s'. \<exists>l. ag_step be l s s' \<and> l \<noteq> Some pid)\<^sup>*\<^sup>* s s'" "heap_below s" "session_at s pid = Some a"
  shows "\<exists>b. session_at s' pid = Some b \<and> sa_connection b = sa_connection a \<and>
     (b = a \<or> sa_generation a < sa_generation b)"
proof -
  have "heap_below s' \<and> (\<exists>b. session_at s' pid = Some b \<and> follows a b)"
    using assms(1)
  proof (induction rule: rtranclp_induct)
    case base
    then show ?case using assms(2,3) by (simp add: follows_def)
  next
    case (step s1 s2)
    then show ?case using ag_step_follows [of be _ s1 s2 pid] follows_trans by blast
  qed
  then show ?thesis by (auto simp: follows_def)
qed

theorem session_moves_forward_witness:
  "\<exists>b. session_at (snd (activate_locked demo_backend 0 (lit ''r'') (lit ''s2'') 2 ModeProject (Some 1) demo_agent)) 0 = Some b \<and>
     sa_connection b = Some 1 \<and> (b = demo_session \<or> sa_generation demo_session < sa_generation b)"
proof -
  let ?R = "\<lambda>s s'. \<exists>l. ag_step demo_backend l s s' \<and> l \<noteq> Some 0"
  have "?R demo_agent (snd (activate_locked demo_backend 0 (lit ''r'') (lit ''s2'') 2 ModeProject (Some 1) demo_agent))"
    using StActivate [of demo_backend demo_agent 0 "lit ''r''" "lit ''s2''" 2 ModeProject "Some 1"] by blast
  moreover have "heap_below demo_agent" by (simp add: heap_below_def demo_agent_def hm_get_def)
  moreover have "session_at demo_agent 0 = Some demo_session" by (simp add: session_at_def demo_agent_def hm_get_def)
  ultimately show ?thesis
    using session_moves_forward [of demo_backend 0 demo_agent
        "snd (activate_locked demo_backend 0 (lit ''r'') (lit ''s2'') 2 ModeProject (Some 1) demo_agent)" demo_session]
    by (simp add: r_into_rtranclp demo_session_def)
qed

section \<open>Device sessions are not ordered\<close>

text \<open>A backend on which a directory opens and sessions start and close.\<close>

definition backend_works :: "'w agent_backend \<Rightarrow> rstr \<Rightarrow> bool" where
  "backend_works be dir \<longleftrightarrow> (\<forall>w. is_ok (fst (be_open be dir w))) \<and>
     (\<forall>root sid w. is_ok (fst (be_terminal_engine be root sid w))) \<and> (\<forall>root w. is_ok (fst (be_terminal_windows be root w))) \<and>
     (\<forall>session w. is_ok (fst (close_session be session w)))"

lemma upsert_project_works:
  assumes "backend_works be dir" "heap_below s"
  shows "\<exists>root s'. upsert_project be t dir e s = (Inr (), s') \<and> ag_connection s' = ag_connection s \<and>
     hm_get (ag_projects s') t = Some (ag_next s) \<and> hm_get (ag_heap s') (ag_next s) =
       Some \<lparr> ap_root = root, ap_expires_at = e, ap_session = None, ap_mutations = cache_empty \<rparr>"
proof -
  obtain root w where opened: "be_open be dir (ag_world s) = (Inr root, w)"
    using assms(1) unfolding backend_works_def by (metis is_ok_def old.sum.exhaust old.sum.simps(5) prod.collapse)
  define s1 where "s1 = snd (install_project t root e (s\<lparr>ag_world := w\<rparr>))"
  have inst: "install_project t root e (s\<lparr>ag_world := w\<rparr>) = (hm_get (ag_projects s) t, s1)"
    by (simp add: s1_def install_project_def)
  have s1: "ag_connection s1 = ag_connection s" "hm_get (ag_projects s1) t = Some (ag_next s)"
    "hm_get (ag_heap s1) (ag_next s) = Some \<lparr> ap_root = root, ap_expires_at = e, ap_session = None, ap_mutations = cache_empty \<rparr>"
    by (simp_all add: s1_def install_project_def)
  let ?good = "\<lambda>s'. ag_connection s' = ag_connection s \<and> hm_get (ag_projects s') t = Some (ag_next s) \<and>
     hm_get (ag_heap s') (ag_next s) = Some \<lparr> ap_root = root, ap_expires_at = e, ap_session = None, ap_mutations = cache_empty \<rparr>"
  have take: "?good (snd (take_session pid s1))" for pid
    using s1 by (auto simp: take_session_def on_project_def split: option.split)
  have close: "\<exists>s'. close_on be session s2 = (Inr (), s') \<and> ?good s'" if "?good s2" for session s2
  proof -
    have "is_ok (fst (close_session be session (ag_world s2)))" using assms(1) by (simp add: backend_works_def)
    then show ?thesis using that by (auto simp: close_on_def is_ok_def split: prod.split sum.splits)
  qed
  show ?thesis
  proof (cases "hm_get (ag_projects s) t")
    case None
    then show ?thesis using s1 by (simp add: upsert_project_def opened inst)
  next
    case (Some pid)
    obtain taken s2 where t: "take_session pid s1 = (taken, s2)" by fastforce
    then have "?good s2" using take [of pid] by simp
    then show ?thesis
    proof (cases taken)
      case (Some session)
      obtain s3 where "close_on be session s2 = (Inr (), s3)" "?good s3" using close [OF \<open>?good s2\<close>] by blast
      then show ?thesis using Some t \<open>hm_get (ag_projects s) t = Some pid\<close> by (simp add: upsert_project_def opened inst)
    qed (use t Some in \<open>simp add: upsert_project_def opened inst\<close>)
  qed
qed

lemma activate_fresh_project:
  assumes "backend_works be dir" "hm_get (ag_heap s) pid = Some p" "ap_session p = None"
    and "connection = None \<or> ag_connection s = connection" "ce_during env 2 s = s" "ce_during env 3 s = s"
  shows "\<exists>s'. activate be env pid rid sid g mode connection s = (ProjectSessionResult rid, s') \<and>
     ag_projects s' = ag_projects s \<and>
     session_at s' pid = Some \<lparr> sa_connection = connection, sa_generation = g, sa_session_id = sid, sa_mode = mode \<rparr>"
proof -
  obtain w1 where e: "be_terminal_engine be (ap_root p) sid (ag_world s) = (Inr (), w1)"
    using assms(1) unfolding backend_works_def by (metis (full_types) is_ok_simps(2) old.sum.exhaust old.unit.exhaust prod.collapse)
  obtain w2 where "be_terminal_windows be (ap_root p) w1 = (Inr (), w2)"
    using assms(1) unfolding backend_works_def by (metis (full_types) is_ok_simps(2) old.sum.exhaust old.unit.exhaust prod.collapse)
  then show ?thesis
    using assms(2-6) e by (auto simp: activate_def Let_def activate_locked_def on_project_def session_at_def)
qed



end
