(* ===== verification/Scheduler.thy ===== *)
theory Scheduler
  imports Complex_Main Server_Requests "HOL-Library.Product_Lexorder" "HOL-Library.List_Lexorder"
begin

text \<open>
  The completion scheduler of the bot (\<open>cdr-runtime/src/completion_worker/scheduler.rs\<close>,
  \<open>scheduler/lanes.rs\<close>) and the paged metadata discovery it reads from the store
  (\<open>cdr-store/src/completion_work.rs\<close>). The scheduler holds ready queues of bounded size: state
  work (live notifications, durable hints, writer retries), one task per target at a time, and HTTP
  deliveries, one per channel at a time. What an admission check, a database read or a finished task
  answers is an argument of the step that uses it. The rows of the \<open>candidates\<close> query are a list of entries,
  ordered by their position: the stamp (a finite \<open>f64\<close>, as a rational number), the ordinal and the
  sort id, whose bytes compare like its code points. \<open>sd_accepted\<close>, \<open>sd_started\<close> and \<open>sd_gap_marks\<close> are logs of what
  was accepted, launched and marked, for the properties; no decision depends on them.
\<close>

section \<open>Work entries (\<open>completion_work.rs\<close>)\<close>

datatype source = Observed | SrcQueue | AsyncOrphan | Commentary | SrcGoal | StartFailure | Question | SrcFinal

definition source_ALL :: "source list" where
  "source_ALL = [Observed, SrcQueue, AsyncOrphan, Commentary, SrcGoal, StartFailure, Question, SrcFinal]"

definition is_state :: "source \<Rightarrow> bool" where
  "is_state s = (s \<in> {Observed, SrcQueue, AsyncOrphan})"

type_synonym position = "rat \<times> int \<times> rstr"

record work_entry =
  en_source :: source
  en_id :: rstr
  en_target :: rstr
  en_turn :: rstr
  en_channel :: int
  en_bytes :: nat
  en_position :: position

definition same_identity :: "work_entry \<Rightarrow> work_entry \<Rightarrow> bool" where
  "same_identity a b = (en_source a = en_source b \<and> en_id a = en_id b \<and> en_target a = en_target b \<and> en_turn a = en_turn b)"

definition PAGE_SIZE :: nat where
  "PAGE_SIZE = 32"

definition MAX_METADATA_BYTES :: nat where
  "MAX_METADATA_BYTES = 4096"

record cursor =
  cu_after :: "position option"
  cu_upper :: "position option"
  cu_finished :: bool

definition cursor_default :: cursor where
  "cursor_default = \<lparr> cu_after = None, cu_upper = None, cu_finished = False \<rparr>"

record page =
  pg_entries :: "work_entry list"
  pg_oversized_identity :: bool
  pg_held_receipt_heads :: nat

text \<open>\<open>ORDER BY \<dots> DESC LIMIT 1\<close> over the candidates.\<close>

definition last_position :: "work_entry list \<Rightarrow> position option" where
  "last_position candidates = (if candidates = [] then None else Some (Max (en_position ` set candidates)))"

definition page_in :: "work_entry list \<Rightarrow> bool \<Rightarrow> nat \<Rightarrow> cursor \<Rightarrow> page \<times> cursor" where
  "page_in candidates oversized held cursor0 =
     (let cursor = (if cu_upper cursor0 = None then cursor0\<lparr>cu_upper := last_position candidates\<rparr> else cursor0) in
      case cu_upper cursor of
        None \<Rightarrow> (\<lparr> pg_entries = [], pg_oversized_identity = oversized, pg_held_receipt_heads = held \<rparr>,
                 cursor\<lparr>cu_finished := True\<rparr>)
      | Some upper \<Rightarrow>
          let rows = filter (\<lambda>e. (case cu_after cursor of None \<Rightarrow> True | Some after \<Rightarrow> en_position e > after) \<and>
                en_position e \<le> upper) candidates;
              entries = take PAGE_SIZE (sort_key en_position rows);
              cursor1 = cursor\<lparr>cu_finished := length entries < PAGE_SIZE\<rparr>;
              cursor2 = (if entries = [] then cursor1 else cursor1\<lparr>cu_after := Some (en_position (last entries))\<rparr>)
          in (\<lparr> pg_entries = entries, pg_oversized_identity = oversized, pg_held_receipt_heads = held \<rparr>, cursor2))"

section \<open>Ready queues (\<open>lanes.rs\<close>)\<close>

definition READY_CAP :: nat where "READY_CAP = 128"
definition TARGET_CAP :: nat where "TARGET_CAP = 16"
definition STATE_SLOTS :: nat where "STATE_SLOTS = 4"
definition NATIVE_SLOTS :: nat where "NATIVE_SLOTS = 3"
definition HTTP_SLOTS :: nat where "HTTP_SLOTS = 4"

record envelope =
  ev_notification :: notification
  ev_target :: rstr
  ev_bytes :: nat

text \<open>The byte budget is a semaphore: its free permits are passed and returned. The length of the
  JSON text of the parameters is an argument.\<close>

definition charge :: "nat \<Rightarrow> notification \<Rightarrow> nat \<Rightarrow> envelope option \<times> nat" where
  "charge json_bytes n free =
     (case extract_thread_id (nt_params n) of
        None \<Rightarrow> (None, free)
      | Some target \<Rightarrow>
          if byte_len target > MAX_METADATA_BYTES then (None, free)
          else let count = sat_add64 (max (sat_add64 (byte_len (nt_method n)) (byte_len target)) 1) json_bytes in
            if count \<ge> 2 ^ 32 \<or> count > free then (None, free)
            else (Some \<lparr> ev_notification = n, ev_target = target, ev_bytes = count \<rparr>, free - count))"

record retry_hint =
  rh_target :: rstr
  rh_job_id :: rstr
  rh_generation :: int
  rh_attempt :: int
  rh_updated_at :: rat
  rh_due :: int

datatype state_work = Live envelope | Durable work_entry | WriterRetry retry_hint

fun work_target :: "state_work \<Rightarrow> rstr" where
  "work_target (Live e) = ev_target e"
| "work_target (Durable e) = en_target e"
| "work_target (WriterRetry h) = rh_target h"

fun is_live :: "state_work \<Rightarrow> bool" where
  "is_live (Live _) = True"
| "is_live _ = False"

text \<open>\<open>params["turn"]["status"] == "completed"\<close>: a missing key indexes to null.\<close>

fun needs_native :: "state_work \<Rightarrow> bool" where
  "needs_native (Live e) = (let n = ev_notification e in
     nt_method n = lit ''thread/goal/updated'' \<or>
     nt_method n = lit ''turn/completed'' \<and>
       Option.bind (jget (nt_params n) ''turn'') (\<lambda>turn. jget turn ''status'') = Some (JStr (lit ''completed'')))"
| "needs_native _ = True"

record ready =
  rd_state :: "state_work list"
  rd_http :: "work_entry list"

definition ready_default :: ready where
  "ready_default = \<lparr> rd_state = [], rd_http = [] \<rparr>"

definition ready_len :: "ready \<Rightarrow> nat" where
  "ready_len r = length (rd_state r) + length (rd_http r)"

text \<open>\<open>VecDeque::remove\<close>, and \<open>position\<close> followed by it.\<close>

definition remove_nth :: "nat \<Rightarrow> 'a list \<Rightarrow> 'a list" where
  "remove_nth i xs = take i xs @ drop (Suc i) xs"

fun remove_first :: "('a \<Rightarrow> bool) \<Rightarrow> 'a list \<Rightarrow> 'a list option" where
  "remove_first P [] = None"
| "remove_first P (x # xs) = (if P x then Some xs else map_option (Cons x) (remove_first P xs))"

definition ready_live :: "envelope \<Rightarrow> ready \<Rightarrow> bool \<times> ready" where
  "ready_live e r0 =
     (let r = r0\<lparr>rd_state := filter (\<lambda>w. is_live w \<or> work_target w \<noteq> ev_target e) (rd_state r0)\<rparr> in
      if length (filter (\<lambda>w. work_target w = ev_target e) (rd_state r)) \<ge> TARGET_CAP then (False, r)
      else
        let room = (if ready_len r < READY_CAP then Some r
          else case remove_first (\<lambda>w. \<not> is_live w) (rd_state r) of
            Some rest \<Rightarrow> Some (r\<lparr>rd_state := rest\<rparr>)
          | None \<Rightarrow> if rd_http r = [] then None else Some (r\<lparr>rd_http := butlast (rd_http r)\<rparr>))
        in case room of
          None \<Rightarrow> (False, r)
        | Some r1 \<Rightarrow> (True, r1\<lparr>rd_state := rd_state r1 @ [Live e]\<rparr>))"

definition ready_durable :: "work_entry \<Rightarrow> rstr list \<Rightarrow> ready \<Rightarrow> ready" where
  "ready_durable e active r =
     (if ready_len r \<ge> READY_CAP then r
      else if is_state (en_source e) then
        if en_target e \<in> set active \<or> list_ex (\<lambda>w. work_target w = en_target e) (rd_state r) then r
        else r\<lparr>rd_state := rd_state r @ [Durable e]\<rparr>
      else if \<not> list_ex (\<lambda>x. same_identity x e) (rd_http r) then r\<lparr>rd_http := rd_http r @ [e]\<rparr>
      else r)"

definition ready_writer_retry :: "retry_hint \<Rightarrow> rstr list \<Rightarrow> ready \<Rightarrow> ready" where
  "ready_writer_retry h active r =
     (if ready_len r < READY_CAP \<and> rh_target h \<notin> set active \<and>
         \<not> list_ex (\<lambda>w. work_target w = rh_target h) (rd_state r)
      then r\<lparr>rd_state := rd_state r @ [WriterRetry h]\<rparr> else r)"

definition ready_prioritize :: "work_entry \<Rightarrow> ready \<Rightarrow> ready" where
  "ready_prioritize e r0 =
     (let r = r0\<lparr>rd_http := filter (\<lambda>x. \<not> same_identity x e) (rd_http r0)\<rparr> in
      if ready_len r < READY_CAP then r\<lparr>rd_http := e # rd_http r\<rparr>
      else if rd_http r \<noteq> [] then r\<lparr>rd_http := e # butlast (rd_http r)\<rparr>
      else case remove_first (\<lambda>w. \<not> is_live w) (rd_state r) of
        None \<Rightarrow> r
      | Some rest \<Rightarrow> r\<lparr>rd_state := rest, rd_http := e # rd_http r\<rparr>)"

text \<open>The search for the next state work. \<open>heads\<close> are the targets seen so far, \<open>deferred\<close> the
  indexes of hints whose admission was refused; the admission check acts on a state of its own.\<close>

fun scan_state ::
  "(state_work \<Rightarrow> 's \<Rightarrow> ('a \<times> bool) option \<times> 's) \<Rightarrow> rstr list \<Rightarrow> nat \<Rightarrow> nat \<Rightarrow> rstr list \<Rightarrow> nat list \<Rightarrow> state_work list \<Rightarrow> 's \<Rightarrow>
   (nat \<times> 'a \<times> bool) option \<times> nat list \<times> 's" where
  "scan_state admit active native i heads deferred [] s = (None, deferred, s)"
| "scan_state admit active native i heads deferred (work # rest) s =
     (let heads' = work_target work # heads in
      if work_target work \<in> set heads \<or> work_target work \<in> set active
      then scan_state admit active native (Suc i) heads' deferred rest s
      else case admit work s of
        (None, s1) \<Rightarrow> scan_state admit active native (Suc i) heads' (if is_live work then deferred else deferred @ [i]) rest s1
      | (Some (permit, native_needed), s1) \<Rightarrow>
          if \<not> native_needed \<or> native < NATIVE_SLOTS then (Some (i, permit, native_needed), deferred, s1)
          else scan_state admit active native (Suc i) heads' deferred rest s1)"

definition take_state_admitted ::
  "(state_work \<Rightarrow> 's \<Rightarrow> ('a \<times> bool) option \<times> 's) \<Rightarrow> rstr list \<Rightarrow> nat \<Rightarrow> ready \<Rightarrow> 's \<Rightarrow>
   (state_work \<times> 'a \<times> bool) option \<times> ready \<times> 's" where
  "take_state_admitted admit active native r s0 =
     (let (selected, deferred, s) = scan_state admit active native 0 [] [] (rd_state r) s0;
          chosen = (case selected of None \<Rightarrow> None
            | Some (i, permit, n) \<Rightarrow> if i < length (rd_state r) then Some (rd_state r ! i, permit, n) else None);
          state1 = (case selected of None \<Rightarrow> rd_state r | Some (i, _, _) \<Rightarrow> remove_nth i (rd_state r))
      in (chosen, r\<lparr>rd_state := fold remove_nth (rev deferred) state1\<rparr>, s))"

definition take_http :: "(int, work_entry) hmap \<Rightarrow> ready \<Rightarrow> work_entry option \<times> ready" where
  "take_http active r =
     (case find (\<lambda>e. \<not> hm_contains active (en_channel e)) (rd_http r) of
        None \<Rightarrow> (None, r)
      | Some e \<Rightarrow> (case remove_first (\<lambda>e. \<not> hm_contains active (en_channel e)) (rd_http r) of
          None \<Rightarrow> (None, r)
        | Some rest \<Rightarrow> (Some e, r\<lparr>rd_http := rest\<rparr>)))"

section \<open>Discovery (\<open>scheduler.rs\<close>)\<close>

text \<open>Instants are seconds.\<close>

record scan =
  sk_source :: source
  sk_cursor :: cursor
  sk_next :: int
  sk_wake :: bool
  sk_pending :: "work_entry list"

fun offer_pending :: "rstr list \<Rightarrow> work_entry list \<Rightarrow> ready \<Rightarrow> bool \<times> work_entry list \<times> ready" where
  "offer_pending active [] r = (True, [], r)"
| "offer_pending active (e # rest) r =
     (if ready_len r < READY_CAP then offer_pending active rest (ready_durable e active r) else (False, e # rest, r))"

record 'e metadata_reader =
  mr_page :: "source \<Rightarrow> cursor \<Rightarrow> ('e, cursor \<times> page) result"
  mr_unprovable :: "work_entry list \<Rightarrow> ('e, nat list) result"

record page_metadata =
  pm_oversized_identity :: bool
  pm_held_receipt_heads :: nat
  pm_deferred :: "(nat \<times> work_entry) list"

definition pick_indexes :: "'a list \<Rightarrow> nat list \<Rightarrow> 'a list" where
  "pick_indexes xs is = List.map_filter (\<lambda>i. if i < length xs then Some (xs ! i) else None) is"

text \<open>The new hints of a page that it also reports as unprovable, with their place in the queue.\<close>

definition new_negatives :: "work_entry list \<Rightarrow> nat \<Rightarrow> state_work list \<Rightarrow> (nat \<times> work_entry) list" where
  "new_negatives negatives first_new ws = List.map_filter (\<lambda>(i, w). case w of
       Durable e \<Rightarrow> if i \<ge> first_new \<and> e \<in> set negatives then Some (i, e) else None
     | _ \<Rightarrow> None) (enumerate 0 ws)"

definition discover ::
  "'e metadata_reader \<Rightarrow> int \<Rightarrow> rstr list \<Rightarrow> scan \<Rightarrow> ready \<Rightarrow> ('e, page_metadata option) result \<times> scan \<times> ready" where
  "discover reader now active sk0 r0 =
     (let (offered, left, r1) = offer_pending active (sk_pending sk0) r0; sk = sk0\<lparr>sk_pending := left\<rparr> in
      if \<not> offered then (Inr None, sk, r1)
      else
        let restart = cu_finished (sk_cursor sk) in
        if restart \<and> \<not> sk_wake sk \<and> now < sk_next sk then (Inr None, sk, r1)
        else case mr_page reader (sk_source sk) (if restart then cursor_default else sk_cursor sk) of
          Inl e \<Rightarrow> (Inl e, sk, r1)
        | Inr (cursor, page) \<Rightarrow>
            (case (if sk_source sk = AsyncOrphan
                   then map_sum id (pick_indexes (pg_entries page)) (mr_unprovable reader (pg_entries page)) else Inr []) of
               Inl e \<Rightarrow> (Inl e, sk, r1)
             | Inr negatives \<Rightarrow>
                 let (_, left2, r2) = offer_pending active (pg_entries page) r1
                 in (Inr (Some \<lparr> pm_oversized_identity = pg_oversized_identity page,
                       pm_held_receipt_heads = pg_held_receipt_heads page,
                       pm_deferred = new_negatives negatives (length (rd_state r1)) (rd_state r2) \<rparr>),
                     sk\<lparr>sk_cursor := cursor, sk_wake := (if restart then False else sk_wake sk), sk_pending := left2,
                        sk_next := (if cu_finished cursor
                          then now + (if sk_source sk \<in> {SrcQueue, AsyncOrphan} then 30 else 1) else sk_next sk)\<rparr>, r2)))"

definition discard_deferred :: "(nat \<times> work_entry) list \<Rightarrow> ready \<Rightarrow> ready" where
  "discard_deferred entries r = r\<lparr>rd_state := map snd (filter (\<lambda>(i, w). \<not> (case w of
       Durable e \<Rightarrow> en_source e = AsyncOrphan \<and> (i, e) \<in> set entries | _ \<Rightarrow> False)) (enumerate 0 (rd_state r)))\<rparr>"

text \<open>A draft that is not published truncates both queues to their lengths at its start.\<close>

definition draft_drop :: "ready \<Rightarrow> ready \<Rightarrow> ready" where
  "draft_drop start r = r\<lparr>rd_state := take (length (rd_state start)) (rd_state r),
     rd_http := take (length (rd_http start)) (rd_http r)\<rparr>"

definition round_step ::
  "'e metadata_reader \<Rightarrow> int \<Rightarrow> rstr list \<Rightarrow> nat \<Rightarrow>
   scan list \<times> ready \<times> (source \<times> ('e, page_metadata option) result) list \<Rightarrow>
   scan list \<times> ready \<times> (source \<times> ('e, page_metadata option) result) list" where
  "round_step reader now active index = (\<lambda>(staged, r, reports).
     let (result, candidate, r1) = discover reader now active (staged ! index) r in
     if is_ok result then (staged[index := candidate], r1, reports @ [(sk_source (staged[index := candidate] ! index), result)])
     else (staged, draft_drop r r1, reports @ [(sk_source (staged ! index), result)]))"

text \<open>\<open>failure\<close> is the error, if any, that ends the whole read round; it drops the outer draft.\<close>

definition read_metadata_round ::
  "'e metadata_reader \<Rightarrow> 'e option \<Rightarrow> int \<Rightarrow> rstr list \<Rightarrow> scan list \<Rightarrow> nat \<Rightarrow> ready \<Rightarrow>
   ('e, (source \<times> ('e, page_metadata option) result) list) result \<times> scan list \<times> nat \<times> ready" where
  "read_metadata_round reader failure now active scans next_scan r =
     (if scans = [] then (Inr [], scans, next_scan, r)
      else
        let rotation = next_scan mod length scans;
            (staged, r1, reports) = fold (round_step reader now active)
              (map (\<lambda>offset. (rotation + offset) mod length scans) [0..<length scans]) (scans, r, [])
        in case failure of
            Some e \<Rightarrow> (Inl e, scans, next_scan, draft_drop r r1)
          | None \<Rightarrow> (Inr reports, staged, (rotation + 1) mod length scans, r1))"

section \<open>The scheduler loop\<close>

record 'w sched =
  sd_ready :: ready
  sd_active :: "rstr list"
  sd_channels :: "(int, work_entry) hmap"
  sd_native :: nat
  sd_states :: "(rstr \<times> bool \<times> bool) list"
  sd_http :: "(int \<times> source) list"
  sd_scans :: "scan list"
  sd_next :: nat
  sd_gap_marks :: nat
  sd_world :: 'w
  sd_accepted :: "envelope list"
  sd_started :: "state_work list"

definition sched_start :: "int \<Rightarrow> 'w \<Rightarrow> 'w sched" where
  "sched_start now w = \<lparr> sd_ready = ready_default, sd_active = [], sd_channels = [], sd_native = 0, sd_states = [],
     sd_http = [], sd_scans = map (\<lambda>source. \<lparr> sk_source = source, sk_cursor = cursor_default, sk_next = now,
       sk_wake = False, sk_pending = [] \<rparr>) source_ALL,
     sd_next = 0, sd_gap_marks = 0, sd_world = w, sd_accepted = [], sd_started = [] \<rparr>"

definition admit_event :: "envelope \<Rightarrow> 'w sched \<Rightarrow> 'w sched" where
  "admit_event e s = (let (ok, r) = ready_live e (sd_ready s) in
     if ok then s\<lparr>sd_ready := r, sd_accepted := sd_accepted s @ [e]\<rparr>
     else s\<lparr>sd_ready := r, sd_gap_marks := sd_gap_marks s + 1\<rparr>)"

type_synonym ('w, 'e, 'a) preparation = "state_work \<Rightarrow> 'w \<Rightarrow> ('e, ('a \<times> bool) option) result \<times> 'w"

text \<open>An admission that fails marks an observation gap and refuses the item.\<close>

definition admission ::
  "('w, 'e, 'a) preparation \<Rightarrow> state_work \<Rightarrow> nat \<times> 'w \<Rightarrow> ('a \<times> bool) option \<times> nat \<times> 'w" where
  "admission prepare item = (\<lambda>(marks, w). case prepare item w of
     (Inl e, w1) \<Rightarrow> (None, marks + 1, w1) | (Inr out, w1) \<Rightarrow> (out, marks, w1))"

fun work_wakes :: "state_work \<Rightarrow> bool" where
  "work_wakes (Live e) = (nt_method (ev_notification e) \<in> set (map lit
     [''turn/started'', ''turn/completed'', ''item/completed'', ''thread/goal/updated'']))"
| "work_wakes _ = True"

definition start_state :: "state_work \<Rightarrow> bool \<Rightarrow> ready \<Rightarrow> nat \<times> 'w \<Rightarrow> 'w sched \<Rightarrow> 'w sched" where
  "start_state item native r gw s = s\<lparr>sd_ready := r, sd_gap_marks := fst gw, sd_world := snd gw,
     sd_active := work_target item # sd_active s, sd_native := sd_native s + (if native then 1 else 0),
     sd_states := sd_states s @ [(work_target item, native, work_wakes item)], sd_started := sd_started s @ [item]\<rparr>"

function launch_state :: "('w, 'e, 'a) preparation \<Rightarrow> 'w sched \<Rightarrow> 'w sched" where
  "launch_state prepare s =
     (if length (sd_states s) < STATE_SLOTS then
        (case take_state_admitted (admission prepare) (sd_active s) (sd_native s) (sd_ready s) (sd_gap_marks s, sd_world s) of
           (None, r, gw) \<Rightarrow> s\<lparr>sd_ready := r, sd_gap_marks := fst gw, sd_world := snd gw\<rparr>
         | (Some (item, _, native), r, gw) \<Rightarrow> launch_state prepare (start_state item native r gw s))
      else s)"
  by pat_completeness auto

termination
  by (relation "measure (\<lambda>(_, s). STATE_SLOTS - length (sd_states s))") (auto simp: start_state_def)

function launch_http :: "'w sched \<Rightarrow> 'w sched" where
  "launch_http s =
     (if length (sd_http s) < HTTP_SLOTS then
        (case take_http (sd_channels s) (sd_ready s) of
           (None, r) \<Rightarrow> s\<lparr>sd_ready := r\<rparr>
         | (Some e, r) \<Rightarrow> launch_http (s\<lparr>sd_ready := r, sd_channels := hm_insert (en_channel e) e (sd_channels s),
             sd_http := sd_http s @ [(en_channel e, en_source e)]\<rparr>))
      else s)"
  by pat_completeness auto

termination
  by (relation "measure (\<lambda>s. HTTP_SLOTS - length (sd_http s))") auto

definition wake_scans :: "(source \<Rightarrow> bool) \<Rightarrow> 'w sched \<Rightarrow> 'w sched" where
  "wake_scans P s = s\<lparr>sd_scans := map (\<lambda>sk. if P (sk_source sk) then sk\<lparr>sk_wake := True\<rparr> else sk) (sd_scans s)\<rparr>"

text \<open>A finished state task: \<open>heads\<close> is the answer of \<open>fresh_heads\<close>.\<close>

definition finish_state :: "nat \<Rightarrow> bool \<Rightarrow> ('e, work_entry list) result \<Rightarrow> 'w sched \<Rightarrow> 'w sched" where
  "finish_state i ok heads s =
     (if i \<ge> length (sd_states s) then s
      else
        let (target, was_native, wake) = sd_states s ! i;
            s1 = (if wake \<and> ok then (case heads of
                Inl _ \<Rightarrow> s
              | Inr entries \<Rightarrow> wake_scans (\<lambda>x. \<not> is_state x) (s\<lparr>sd_ready := fold (\<lambda>e r.
                  if list_ex (\<lambda>a. same_identity a e) (hm_values (sd_channels s)) then r else ready_prioritize e r)
                  (rev entries) (sd_ready s)\<rparr>)) else s)
        in s1\<lparr>sd_active := filter (\<lambda>t. t \<noteq> target) (sd_active s1),
              sd_native := sd_native s1 - (if was_native then 1 else 0),
              sd_states := remove_nth i (sd_states s1)\<rparr>)"

definition finish_http :: "nat \<Rightarrow> bool \<Rightarrow> 'w sched \<Rightarrow> 'w sched" where
  "finish_http i ok s =
     (if i \<ge> length (sd_http s) then s
      else let (channel, source) = sd_http s ! i; s1 = (if ok then wake_scans (\<lambda>x. x = source) s else s)
        in s1\<lparr>sd_channels := hm_remove channel (sd_channels s1), sd_http := remove_nth i (sd_http s1)\<rparr>)"

definition report_round :: "(source \<times> ('e, page_metadata option) result) list \<Rightarrow> (nat \<times> work_entry) list \<times> nat" where
  "report_round reports =
     (concat (map (\<lambda>(_, report). case report of Inr (Some page) \<Rightarrow> pm_deferred page | _ \<Rightarrow> []) reports),
      length (filter (\<lambda>(_, report). case report of
        Inl _ \<Rightarrow> True | Inr None \<Rightarrow> False | Inr (Some page) \<Rightarrow> pm_oversized_identity page) reports))"

definition tick :: "'e metadata_reader \<Rightarrow> 'e option \<Rightarrow> int \<Rightarrow> ('e, retry_hint list) result \<Rightarrow> 'w sched \<Rightarrow> 'w sched" where
  "tick reader failure now due s =
     (let r0 = (case due of Inl _ \<Rightarrow> sd_ready s
            | Inr hints \<Rightarrow> fold (\<lambda>h. ready_writer_retry h (sd_active s)) hints (sd_ready s))
      in case read_metadata_round reader failure now (sd_active s) (sd_scans s) (sd_next s) r0 of
          (Inl _, scans, next_scan, r1) \<Rightarrow>
            s\<lparr>sd_ready := discard_deferred [] r1, sd_scans := scans, sd_next := next_scan, sd_gap_marks := sd_gap_marks s + 1\<rparr>
        | (Inr reports, scans, next_scan, r1) \<Rightarrow>
            let (deferred, marks) = report_round reports
            in s\<lparr>sd_ready := discard_deferred deferred r1, sd_scans := scans, sd_next := next_scan,
                 sd_gap_marks := sd_gap_marks s + marks\<rparr>)"

text \<open>When the input is closed and nothing is left to do, the loop returns.\<close>

definition drained :: "bool \<Rightarrow> bool \<Rightarrow> 'w sched \<Rightarrow> bool" where
  "drained input_closed maintenance_idle s \<longleftrightarrow> input_closed \<and> rd_state (sd_ready s) = [] \<and> rd_http (sd_ready s) = [] \<and>
     sd_states s = [] \<and> sd_http s = [] \<and> maintenance_idle \<and>
     list_all (\<lambda>sk. cu_finished (sk_cursor sk) \<and> \<not> sk_wake sk \<and> sk_pending sk = []) (sd_scans s)"

datatype ('w, 'e, 'a) sd_event =
  SdAdmit envelope
| SdLaunchState "('w, 'e, 'a) preparation"
| SdLaunchHttp
| SdStateDone nat bool "('e, work_entry list) result"
| SdHttpDone nat bool
| SdDeliveryReady
| SdTick "'e metadata_reader" "'e option" int "('e, retry_hint list) result"

fun sd_apply :: "('w, 'e, 'a) sd_event \<Rightarrow> 'w sched \<Rightarrow> 'w sched" where
  "sd_apply (SdAdmit e) s = admit_event e s"
| "sd_apply (SdLaunchState prepare) s = launch_state prepare s"
| "sd_apply SdLaunchHttp s = launch_http s"
| "sd_apply (SdStateDone i ok heads) s = finish_state i ok heads s"
| "sd_apply (SdHttpDone i ok) s = finish_http i ok s"
| "sd_apply SdDeliveryReady s = wake_scans (\<lambda>_. True) s"
| "sd_apply (SdTick reader failure now due) s = tick reader failure now due s"

end
