(* ===== verification/Scheduler_Safety.thy ===== *)
theory Scheduler_Safety
  imports Scheduler "HOL-Library.Sublist"
begin

text \<open>
  What the scheduler promises: its queues and slots stay bounded, one task runs per target and per
  channel, an accepted live notification is started exactly once and in order with the others of its
  target, a failed discovery leaves no trace, and a discovery pass over unchanged rows ends and
  finds every row once.
\<close>

section \<open>Queues with lanes\<close>

text \<open>A queue that keeps the accepted elements of each lane in order: \<open>waiting\<close> is what it holds for a lane.\<close>

locale lane_queue =
  fixes waiting :: "'q \<Rightarrow> 't \<Rightarrow> 'e list"
    and lane :: "'e \<Rightarrow> 't"
    and put :: "'e \<Rightarrow> 'q \<Rightarrow> bool \<times> 'q"
    and get :: "'g \<Rightarrow> 'q \<Rightarrow> 'e option \<times> 'q"
    and other :: "'o \<Rightarrow> 'q \<Rightarrow> 'q"
  assumes put_taken: "put e q = (True, q') \<Longrightarrow> waiting q' = (waiting q)(lane e := waiting q (lane e) @ [e])"
    and put_refused: "put e q = (False, q') \<Longrightarrow> waiting q' = waiting q"
    and get_some: "get g q = (Some e, q') \<Longrightarrow> waiting q = (waiting q')(lane e := e # waiting q' (lane e))"
    and get_none: "get g q = (None, q') \<Longrightarrow> waiting q' = waiting q"
    and other_keeps: "waiting (other x q) = waiting q"
begin

text \<open>Everything accepted has been served, in the order of its lane, or waits behind what was served.\<close>

definition ledger :: "'q \<Rightarrow> 'e list \<Rightarrow> 'e list \<Rightarrow> bool" where
  "ledger q accepted served \<longleftrightarrow>
     (\<forall>t. filter (\<lambda>e. lane e = t) accepted = filter (\<lambda>e. lane e = t) served @ waiting q t)"

lemma ledger_start: "(\<And>t. waiting q t = []) \<Longrightarrow> ledger q [] []"
  by (simp add: ledger_def)

lemma ledger_put: "ledger q a s \<Longrightarrow> put e q = (True, q') \<Longrightarrow> ledger q' (a @ [e]) s"
  by (auto simp: ledger_def put_taken)

lemma ledger_refused: "ledger q a s \<Longrightarrow> put e q = (False, q') \<Longrightarrow> ledger q' a s"
  by (simp add: ledger_def put_refused)

lemma ledger_get: "ledger q a s \<Longrightarrow> get g q = (Some e, q') \<Longrightarrow> ledger q' a (s @ [e])"
  using get_some [of g q e q'] by (auto simp: ledger_def)

lemma ledger_get_none: "ledger q a s \<Longrightarrow> get g q = (None, q') \<Longrightarrow> ledger q' a s"
  by (simp add: ledger_def get_none)

lemma ledger_other: "ledger q a s \<Longrightarrow> ledger (other x q) a s"
  by (simp add: ledger_def other_keeps)

lemma ledger_same: "ledger q a s \<Longrightarrow> waiting q' = waiting q \<Longrightarrow> ledger q' a s"
  by (simp add: ledger_def)

end

section \<open>The live events of a target\<close>

fun lives :: "state_work list \<Rightarrow> rstr \<Rightarrow> envelope list" where
  "lives [] t = []"
| "lives (Live e # ws) t = (if ev_target e = t then e # lives ws t else lives ws t)"
| "lives (Durable e # ws) t = lives ws t"
| "lives (WriterRetry h # ws) t = lives ws t"

lemma lives_append [simp]: "lives (xs @ ys) t = lives xs t @ lives ys t"
  by (induction xs t rule: lives.induct) auto

lemma lives_cons_hint: "\<not> is_live w \<Longrightarrow> lives (w # ws) t = lives ws t"
  by (cases w) auto

lemma lives_filter: "(\<And>w. is_live w \<Longrightarrow> P w) \<Longrightarrow> lives (filter P ws) t = lives ws t"
proof (induction ws)
  case (Cons w ws)
  then show ?case by (cases w) auto
qed simp

lemma lives_remove_first: "remove_first (\<lambda>w. \<not> is_live w) ws = Some rest \<Longrightarrow> lives rest t = lives ws t"
proof (induction ws arbitrary: rest)
  case (Cons w ws)
  then show ?case by (cases w) (auto split: if_splits)
qed simp

lemma remove_nth_split: "i < length xs \<Longrightarrow> \<exists>pre post. xs = pre @ xs ! i # post \<and> length pre = i \<and> remove_nth i xs = pre @ post"
  by (metis id_take_nth_drop length_take less_imp_le_nat min.absorb2 remove_nth_def)

lemma lives_remove_hint: "i < length ws \<Longrightarrow> \<not> is_live (ws ! i) \<Longrightarrow> lives (remove_nth i ws) t = lives ws t"
  using remove_nth_split [of i ws] lives_cons_hint [of "ws ! i"] by (metis lives_append)

lemma lives_no_target: "\<forall>w \<in> set ws. work_target w \<noteq> t \<Longrightarrow> lives ws t = []"
  by (induction ws t rule: lives.induct) auto

lemma remove_nth_before: "j < i \<Longrightarrow> i < length xs \<Longrightarrow> remove_nth i xs ! j = xs ! j"
  by (simp add: remove_nth_def nth_append)

lemma length_remove_nth: "i < length xs \<Longrightarrow> length (remove_nth i xs) = length xs - 1"
  by (simp add: remove_nth_def)

lemma lives_remove_hints:
  assumes "sorted_wrt (<) D" "\<forall>d \<in> set D. d < length ws \<and> \<not> is_live (ws ! d)"
  shows "lives (fold remove_nth (rev D) ws) t = lives ws t"
  using assms
proof (induction D arbitrary: ws rule: rev_induct)
  case (snoc d D)
  have "\<forall>x \<in> set D. x < d" using snoc.prems(1) by (simp add: sorted_wrt_append)
  then have "\<forall>x \<in> set D. x < length (remove_nth d ws) \<and> \<not> is_live (remove_nth d ws ! x)"
    using snoc.prems(2) by (auto simp: remove_nth_before length_remove_nth)
  then have "lives (fold remove_nth (rev D) (remove_nth d ws)) t = lives (remove_nth d ws) t"
    using snoc.IH [of "remove_nth d ws"] snoc.prems(1) by (simp add: sorted_wrt_append)
  then show ?case using snoc.prems(2) lives_remove_hint [of d ws t] by simp
qed simp

text \<open>What the search for state work finds: refused hints before the chosen item, which is the first of a target
  that is not running.\<close>

lemma scan_state_spec:
  assumes "scan_state admit active native i heads deferred ws s = (selected, deferred', s')"
  shows "\<exists>D. deferred' = deferred @ D \<and> sorted_wrt (<) D \<and>
    (\<forall>d \<in> set D. i \<le> d \<and> d < i + length ws \<and> \<not> is_live (ws ! (d - i))) \<and>
    (case selected of None \<Rightarrow> True | Some (j, permit, n) \<Rightarrow>
      i \<le> j \<and> j < i + length ws \<and> (\<forall>d \<in> set D. d < j) \<and> (n \<longrightarrow> native < NATIVE_SLOTS) \<and>
      work_target (ws ! (j - i)) \<notin> set active \<union> set heads \<union> work_target ` set (take (j - i) ws))"
  using assms
proof (induction ws arbitrary: i heads deferred s)
  case (Cons w ws)
  have step: ?case
    if rec: "scan_state admit active native (Suc i) (work_target w # heads) (deferred @ D0) ws s1 = (selected, deferred', s')"
      and D0: "D0 = [] \<or> D0 = [i] \<and> \<not> is_live w" for D0 s1
  proof -
    obtain D where D: "deferred' = (deferred @ D0) @ D" "sorted_wrt (<) D"
      "\<forall>d \<in> set D. Suc i \<le> d \<and> d < Suc i + length ws \<and> \<not> is_live (ws ! (d - Suc i))"
      and sel: "case selected of None \<Rightarrow> True | Some (j, permit, n) \<Rightarrow>
        Suc i \<le> j \<and> j < Suc i + length ws \<and> (\<forall>d \<in> set D. d < j) \<and> (n \<longrightarrow> native < NATIVE_SLOTS) \<and>
        work_target (ws ! (j - Suc i)) \<notin> set active \<union> set (work_target w # heads) \<union> work_target ` set (take (j - Suc i) ws)"
      using Cons.IH [OF rec] by blast
    have shift: "(w # ws) ! (d - i) = ws ! (d - Suc i) \<and> take (d - i) (w # ws) = w # take (d - Suc i) ws" if "Suc i \<le> d" for d
      using that by (auto simp: Suc_diff_Suc [symmetric] Suc_le_eq)
    show ?thesis
      using D D0 sel shift by (intro exI [of _ "D0 @ D"]) (auto simp: sorted_wrt_append split: option.splits)
  qed
  show ?case
  proof (cases "work_target w \<in> set heads \<or> work_target w \<in> set active")
    case True
    then show ?thesis using Cons.prems step [of "[]" s] by (simp add: Let_def)
  next
    case False
    obtain out s1 where out: "admit w s = (out, s1)" by fastforce
    show ?thesis
    proof (cases "\<exists>p n. out = Some (p, n) \<and> (\<not> n \<or> native < NATIVE_SLOTS)")
      case True
      then show ?thesis using Cons.prems False out by (auto simp: Let_def)
    next
      case no: False
      show ?thesis
        using Cons.prems False out no step [of "[]" s1] step [of "[i]" s1] by (cases out) (auto simp: Let_def split: if_splits)
    qed
  qed
qed simp

lemma subseq_remove_nth: "subseq (remove_nth i xs) xs"
proof -
  have "subseq (drop (Suc i) xs) (drop i xs)" by (metis add.commute drop_drop plus_1_eq_Suc suffix_drop suffix_imp_subseq)
  then have "subseq (take i xs @ drop (Suc i) xs) (take i xs @ drop i xs)" by (simp only: subseq_append')
  then show ?thesis by (simp only: remove_nth_def append_take_drop_id)
qed

lemma subseq_remove_all: "subseq (fold remove_nth D xs) xs"
  by (induction D arbitrary: xs) (auto intro: subseq_order.trans [OF _ subseq_remove_nth])

lemma subseq_remove_first: "remove_first P xs = Some rest \<Longrightarrow> subseq rest xs \<and> length xs = Suc (length rest)"
  by (induction xs arbitrary: rest) (auto split: if_splits)

lemma subseq_butlast: "subseq (butlast xs) xs"
  by (simp add: prefixeq_butlast prefix_imp_subseq)

lemma sorted_wrt_subseq: "subseq xs ys \<Longrightarrow> sorted_wrt R ys \<Longrightarrow> sorted_wrt R xs"
  by (induction rule: list_emb.induct) (auto dest: list_emb_set)

lemma take_state_spec:
  assumes "take_state_admitted admit active native r s = (chosen, r', s')"
  shows "rd_http r' = rd_http r \<and> (case chosen of
    None \<Rightarrow> subseq (rd_state r') (rd_state r) \<and> lives (rd_state r') = lives (rd_state r)
  | Some (w, permit, n) \<Rightarrow> \<exists>pre post. rd_state r = pre @ w # post \<and>
      work_target w \<notin> set active \<union> work_target ` set pre \<and> (n \<longrightarrow> native < NATIVE_SLOTS) \<and>
      subseq (rd_state r') (pre @ post) \<and> lives (rd_state r') = lives (pre @ post))"
proof -
  let ?ws = "rd_state r"
  obtain selected D where scan: "scan_state admit active native 0 [] [] ?ws s = (selected, D, s')"
    using assms by (auto simp: take_state_admitted_def Let_def split: prod.splits)
  have D: "sorted_wrt (<) D" "\<forall>d \<in> set D. d < length ?ws \<and> \<not> is_live (?ws ! d)"
    and sel: "case selected of None \<Rightarrow> True | Some (j, permit, n) \<Rightarrow> j < length ?ws \<and> (\<forall>d \<in> set D. d < j) \<and>
      (n \<longrightarrow> native < NATIVE_SLOTS) \<and> work_target (?ws ! j) \<notin> set active \<union> work_target ` set (take j ?ws)"
    using scan_state_spec [OF scan] by (auto split: option.splits)
  show ?thesis
  proof (cases selected)
    case None
    then show ?thesis
      using assms scan lives_remove_hints [OF D] by (auto simp: take_state_admitted_def subseq_remove_all)
  next
    case (Some sp)
    obtain j permit n where sp: "sp = (j, permit, n)" by (cases sp)
    have j: "j < length ?ws" "\<forall>d \<in> set D. d < j" "n \<longrightarrow> native < NATIVE_SLOTS"
      "work_target (?ws ! j) \<notin> set active \<union> work_target ` set (take j ?ws)"
      using sel Some sp by auto
    obtain pre post where split: "?ws = pre @ ?ws ! j # post" "length pre = j" "remove_nth j ?ws = pre @ post"
      using remove_nth_split [OF j(1)] by blast
    have out: "chosen = Some (?ws ! j, permit, n)" "r' = r\<lparr>rd_state := fold remove_nth (rev D) (pre @ post)\<rparr>"
      using assms scan Some sp j(1) split(3) by (auto simp: take_state_admitted_def)
    have "\<forall>d \<in> set D. d < length (pre @ post) \<and> \<not> is_live ((pre @ post) ! d)"
      using D(2) j(2) j(1) remove_nth_before [of _ j ?ws] length_remove_nth [OF j(1)] split(3) by fastforce
    then have "lives (rd_state r') = lives (pre @ post)"
      using lives_remove_hints [OF D(1), of "pre @ post"] out(2) by auto
    moreover have "take j ?ws = pre" using split(1,2) by (metis append_eq_conv_conj)
    moreover have "rd_http r' = rd_http r" "subseq (rd_state r') (pre @ post)" using out(2) subseq_remove_all by auto
    ultimately show ?thesis unfolding out(1) option.case prod.case using j(3,4) split(1) by metis
  qed
qed

text \<open>Discovery only appends hints, so a dropped draft restores the queues.\<close>

definition extends :: "ready \<Rightarrow> ready \<Rightarrow> bool" where
  "extends r r' \<longleftrightarrow> (\<exists>hints entries. rd_state r' = rd_state r @ hints \<and> rd_http r' = rd_http r @ entries \<and>
     (\<forall>h \<in> set hints. \<not> is_live h))"

lemma extends_refl [simp]: "extends r r"
  by (simp add: extends_def)

lemma extends_trans: "extends a b \<Longrightarrow> extends b c \<Longrightarrow> extends a c"
  by (force simp: extends_def)

lemma ready_durable_extends: "extends r (ready_durable e active r)"
  by (auto simp: extends_def ready_durable_def)

lemma ready_writer_retry_extends: "extends r (ready_writer_retry h active r)"
  by (auto simp: extends_def ready_writer_retry_def)

lemma draft_drop_extends: "extends r r' \<Longrightarrow> draft_drop r r' = r"
  by (auto simp: extends_def draft_drop_def)

lemma lives_hints: "\<forall>h \<in> set hs. \<not> is_live h \<Longrightarrow> lives hs t = []"
  by (induction hs) (auto simp: lives_cons_hint)

lemma lives_extends: "extends r r' \<Longrightarrow> lives (rd_state r') = lives (rd_state r)"
  by (auto simp: extends_def lives_hints fun_eq_iff)

lemma offer_pending_extends: "offer_pending active es r = (ok, left, r') \<Longrightarrow> extends r r'"
proof (induction es arbitrary: r)
  case (Cons e es)
  then show ?case using ready_durable_extends extends_trans by (fastforce split: if_splits)
qed simp

lemma discover_extends:
  assumes "discover reader now active sk r = (result, sk', r')"
  shows "extends r r'"
proof -
  obtain ok left r1 where first: "offer_pending active (sk_pending sk) r = (ok, left, r1)" by (cases "offer_pending active (sk_pending sk) r")
  have "extends r r1" using offer_pending_extends [OF first] .
  moreover have "extends r1 r'"
    using assms first offer_pending_extends [of active _ r1]
    by (auto simp: discover_def Let_def split: if_splits sum.splits prod.splits)
  ultimately show ?thesis by (rule extends_trans)
qed

lemma round_step_extends: "round_step reader now active i (st, r, rep) = (st', r', rep') \<Longrightarrow> extends r r'"
  using discover_extends [of reader now active "st ! i" r]
  by (auto simp: round_step_def Let_def draft_drop_extends split: if_splits prod.splits)

lemma fold_round_extends: "fold (round_step reader now active) ks (st, r, rep) = (st', r', rep') \<Longrightarrow> extends r r'"
proof (induction ks arbitrary: st r rep)
  case (Cons k ks)
  obtain st1 r1 rep1 where one: "round_step reader now active k (st, r, rep) = (st1, r1, rep1)"
    by (cases "round_step reader now active k (st, r, rep)")
  then show ?case using Cons round_step_extends [OF one] extends_trans by fastforce
qed simp

lemma round_extends:
  "read_metadata_round reader failure now active scans next_scan r = (result, scans', next', r') \<Longrightarrow> extends r r'"
  by (auto simp: read_metadata_round_def Let_def draft_drop_extends fold_round_extends split: if_splits prod.splits option.splits)

text \<open>A discovery that fails leaves no trace. When the read round of a tick fails as a whole, the scans, the rotation and
  both ready queues are what they were, whatever the sources had already offered; when one source fails within
  the round, its scan and the queues are as before that source and the round goes on with the error in its report.\<close>

lemma failed_discovery_leaves_no_trace:
  "(scans \<noteq> [] \<longrightarrow> read_metadata_round reader (Some e) now active scans next_scan r = (Inl e, scans, next_scan, r)) \<and>
   (fst (discover reader now active (scans ! k) r) = Inl x \<longrightarrow>
      round_step reader now active k (scans, r, reports) = (scans, r, reports @ [(sk_source (scans ! k), Inl x)]))"
proof (intro conjI impI)
  assume "scans \<noteq> []"
  then show "read_metadata_round reader (Some e) now active scans next_scan r = (Inl e, scans, next_scan, r)"
    by (auto simp: read_metadata_round_def Let_def draft_drop_extends fold_round_extends split: prod.splits)
next
  assume "fst (discover reader now active (scans ! k) r) = Inl x"
  then obtain sk r1 where "discover reader now active (scans ! k) r = (Inl x, sk, r1)" by (metis prod.collapse)
  then show "round_step reader now active k (scans, r, reports) = (scans, r, reports @ [(sk_source (scans ! k), Inl x)])"
    using draft_drop_extends [OF discover_extends] by (fastforce simp: round_step_def is_ok_def)
qed

definition demo_entry :: "rat \<Rightarrow> work_entry" where
  "demo_entry stamp = \<lparr> en_source = Commentary, en_id = lit ''c1'', en_target = lit ''t'', en_turn = lit ''u'', en_channel = 4,
     en_bytes = 10, en_position = (stamp, 0, lit ''c1'') \<rparr>"

definition demo_scan :: scan where
  "demo_scan = \<lparr> sk_source = Commentary, sk_cursor = cursor_default, sk_next = 0, sk_wake = False, sk_pending = [demo_entry 1] \<rparr>"

definition failing_reader :: "nat metadata_reader" where
  "failing_reader = \<lparr> mr_page = (\<lambda>_ _. Inl 7), mr_unprovable = (\<lambda>_. Inr []) \<rparr>"

lemma failed_discovery_leaves_no_trace_witness:
  "read_metadata_round failing_reader (Some 1) 5 [] [demo_scan] 0 ready_default = (Inl 1, [demo_scan], 0, ready_default) \<and>
   fst (discover failing_reader 5 [] demo_scan ready_default) = Inl 7 \<and>
   round_step failing_reader 5 [] 0 ([demo_scan], ready_default, []) = ([demo_scan], ready_default, [(Commentary, Inl 7)])"
proof -
  have fails: "fst (discover failing_reader 5 [] ([demo_scan] ! 0) ready_default) = Inl 7"
    by (simp add: discover_def failing_reader_def demo_scan_def cursor_default_def ready_default_def ready_len_def READY_CAP_def)
  have "sk_source demo_scan = Commentary" by (simp add: demo_scan_def)
  then show ?thesis
    using failed_discovery_leaves_no_trace [of "[demo_scan]" failing_reader 1 5 "[]" 0 ready_default 0 7 "[]"] fails by simp
qed

section \<open>Accepted live events\<close>

datatype 'e queue_op =
  Retries "retry_hint list" "rstr list"
| Round "'e metadata_reader" "'e option" int "rstr list" "scan list" nat
| Discard "(nat \<times> work_entry) list"
| Heads "work_entry list"

fun run_op :: "'e queue_op \<Rightarrow> ready \<Rightarrow> ready" where
  "run_op (Retries hints active) r = fold (\<lambda>h. ready_writer_retry h active) hints r"
| "run_op (Round reader failure now active scans next_scan) r =
     (case read_metadata_round reader failure now active scans next_scan r of (_, _, _, r') \<Rightarrow> r')"
| "run_op (Discard entries) r = discard_deferred entries r"
| "run_op (Heads entries) r = fold ready_prioritize entries r"

fun take_live ::
  "(state_work \<Rightarrow> 's \<Rightarrow> ('a \<times> bool) option \<times> 's) \<times> rstr list \<times> nat \<times> 's \<Rightarrow> ready \<Rightarrow> envelope option \<times> ready" where
  "take_live (admit, active, native, s) r =
     (case take_state_admitted admit active native r s of
        (Some (Live e, _, _), r', _) \<Rightarrow> (Some e, r')
      | (_, r', _) \<Rightarrow> (None, r'))"

lemma fold_retries_extends: "extends r (fold (\<lambda>h. ready_writer_retry h active) hs r)"
  by (induction hs arbitrary: r) (auto intro: extends_trans [OF ready_writer_retry_extends])

lemma lives_discard_from:
  "lives (map snd (filter (\<lambda>(i, w). \<not> (case w of Durable e \<Rightarrow> Q i e | _ \<Rightarrow> False)) (enumerate n ws))) t = lives ws t"
proof (induction ws arbitrary: n)
  case (Cons w ws)
  then show ?case by (cases w) auto
qed simp

lemma lives_discard: "lives (rd_state (discard_deferred entries r)) = lives (rd_state r)"
  using lives_discard_from [of "\<lambda>i e. en_source e = AsyncOrphan \<and> (i, e) \<in> set entries" 0 "rd_state r"]
  by (simp add: discard_deferred_def fun_eq_iff)

lemma lives_prioritize: "lives (rd_state (ready_prioritize e r)) = lives (rd_state r)"
  by (auto simp: ready_prioritize_def Let_def fun_eq_iff lives_remove_first split: option.splits)

lemma lives_fold_prioritize: "lives (rd_state (fold ready_prioritize es r)) = lives (rd_state r)"
  by (induction es arbitrary: r) (simp_all add: lives_prioritize)

lemma lives_run_op: "lives (rd_state (run_op x r)) = lives (rd_state r)"
proof (cases x)
  case (Round reader failure now active scans next_scan)
  then show ?thesis using round_extends lives_extends by (fastforce split: prod.splits)
qed (simp_all add: lives_discard lives_fold_prioritize lives_extends [OF fold_retries_extends])

lemma ready_live_lives:
  "ready_live e r = (ok, r') \<Longrightarrow>
   lives (rd_state r') = (if ok then (lives (rd_state r))(ev_target e := lives (rd_state r) (ev_target e) @ [e]) else lives (rd_state r))"
  by (auto simp: ready_live_def Let_def fun_eq_iff lives_filter lives_remove_first split: if_splits option.splits)

lemma take_live_lives:
  assumes "take_live g r = (found, r')"
  shows "case found of None \<Rightarrow> lives (rd_state r') = lives (rd_state r)
    | Some e \<Rightarrow> lives (rd_state r) = (lives (rd_state r'))(ev_target e := e # lives (rd_state r') (ev_target e))"
proof -
  obtain admit active native s where g: "g = (admit, active, native, s)" by (cases g)
  obtain chosen r2 s' where t: "take_state_admitted admit active native r s = (chosen, r2, s')"
    by (cases "take_state_admitted admit active native r s")
  have r2: "r2 = r'" using assms t g by (auto split: option.splits prod.splits state_work.splits)
  show ?thesis
  proof (cases chosen)
    case None
    then show ?thesis using assms t g take_state_spec [OF t] by auto
  next
    case (Some c)
    then obtain w permit n where c: "chosen = Some (w, permit, n)" by (cases c) auto
    obtain pre post where w: "rd_state r = pre @ w # post" "work_target w \<notin> work_target ` set pre"
      "lives (rd_state r') = lives (pre @ post)"
      using take_state_spec [OF t] c r2 by auto
    have "lives pre (work_target w) = []" using w(2) by (intro lives_no_target ballI) (metis imageI)
    then show ?thesis using assms t g c w by (cases w) (auto simp: fun_eq_iff)
  qed
qed

interpretation lq: lane_queue "\<lambda>r. lives (rd_state r)" ev_target ready_live take_live run_op
  by unfold_locales (auto dest: ready_live_lives take_live_lives simp: lives_run_op)


declare launch_state.simps [simp del] launch_http.simps [simp del]

lemma launch_state_inv:
  assumes "I s"
    and idle: "\<And>s r gw. I s \<Longrightarrow>
      take_state_admitted (admission prepare) (sd_active s) (sd_native s) (sd_ready s) (sd_gap_marks s, sd_world s) = (None, r, gw) \<Longrightarrow>
      I (s\<lparr>sd_ready := r, sd_gap_marks := fst gw, sd_world := snd gw\<rparr>)"
    and start: "\<And>s item permit native r gw. I s \<Longrightarrow> length (sd_states s) < STATE_SLOTS \<Longrightarrow>
      take_state_admitted (admission prepare) (sd_active s) (sd_native s) (sd_ready s) (sd_gap_marks s, sd_world s) =
        (Some (item, permit, native), r, gw) \<Longrightarrow> I (start_state item native r gw s)"
  shows "I (launch_state prepare s)"
  using \<open>I s\<close>
proof (induction "STATE_SLOTS - length (sd_states s)" arbitrary: s rule: less_induct)
  case less
  let ?take = "take_state_admitted (admission prepare) (sd_active s) (sd_native s) (sd_ready s) (sd_gap_marks s, sd_world s)"
  show ?case
  proof (cases "length (sd_states s) < STATE_SLOTS")
    case room: True
    obtain chosen r gw where t: "?take = (chosen, r, gw)" by (cases ?take)
    show ?thesis
    proof (cases chosen)
      case None
      then show ?thesis using t room idle [OF less.prems] by (subst launch_state.simps) simp
    next
      case (Some c)
      then obtain item permit native where c: "chosen = Some (item, permit, native)" by (cases c) auto
      have "I (launch_state prepare (start_state item native r gw s))"
        using less.hyps start [OF less.prems room] t c room by (auto simp: start_state_def)
      then show ?thesis using t c room by (subst launch_state.simps) simp
    qed
  next
    case False
    then show ?thesis using less.prems by (subst launch_state.simps) simp
  qed
qed

lemma launch_http_inv:
  assumes "I s"
    and start: "\<And>s e r. I s \<Longrightarrow> length (sd_http s) < HTTP_SLOTS \<Longrightarrow> take_http (sd_channels s) (sd_ready s) = (Some e, r) \<Longrightarrow>
      I (s\<lparr>sd_ready := r, sd_channels := hm_insert (en_channel e) e (sd_channels s), sd_http := sd_http s @ [(en_channel e, en_source e)]\<rparr>)"
  shows "I (launch_http s)"
  using \<open>I s\<close>
proof (induction s rule: launch_http.induct)
  case (1 s)
  obtain found r where t: "take_http (sd_channels s) (sd_ready s) = (found, r)" by (cases "take_http (sd_channels s) (sd_ready s)")
  have "found = None \<Longrightarrow> r = sd_ready s" using t by (auto simp: take_http_def split: option.splits)
  then show ?case using "1.IH" "1.prems" start t by (subst launch_http.simps) (auto split: option.splits)
qed

text \<open>The live notifications among the started work.\<close>

definition live_events :: "state_work list \<Rightarrow> envelope list" where
  "live_events ws = List.map_filter (\<lambda>w. case w of Live e \<Rightarrow> Some e | _ \<Rightarrow> None) ws"

lemma live_events_simps [simp]:
  "live_events [] = []" "live_events (ws @ [Live e]) = live_events ws @ [e]" "live_events (ws @ [Durable d]) = live_events ws"
  "live_events (ws @ [WriterRetry h]) = live_events ws"
  by (simp_all add: live_events_def map_filter_def)

lemma filter_live_events: "filter (\<lambda>e. ev_target e = t) (live_events ws) = lives ws t"
  by (induction ws t rule: lives.induct) (auto simp: live_events_def map_filter_def)

definition sd_ledger :: "'w sched \<Rightarrow> bool" where
  "sd_ledger s = lq.ledger (sd_ready s) (sd_accepted s) (live_events (sd_started s))"

lemma ledger_take:
  assumes "lq.ledger q a (live_events ws)" "take_state_admitted admit active native q s0 = (chosen, q', s1)"
  shows "lq.ledger q' a (live_events (case chosen of None \<Rightarrow> ws | Some (item, _) \<Rightarrow> ws @ [item]))"
proof (cases "\<exists>e p. chosen = Some (Live e, p)")
  case True
  then obtain e p where "chosen = Some (Live e, p)" by blast
  then show ?thesis using assms lq.ledger_get [OF assms(1), of "(admit, active, native, s0)" e q'] by (cases p) simp
next
  case False
  then have "take_live (admit, active, native, s0) q = (None, q')"
    using assms(2) by (auto split: option.splits state_work.splits)
  then have "lq.ledger q' a (live_events ws)" using lq.ledger_get_none [OF assms(1)] by blast
  moreover have "live_events (ws @ [w]) = live_events ws" if "chosen = Some (w, p)" for w p
    using that False by (cases w) auto
  ultimately show ?thesis by (auto split: option.splits)
qed

lemma fold_skip: "fold (\<lambda>e r. if P e then r else f e r) es r = fold f (filter (\<lambda>e. \<not> P e) es) r"
  by (induction es arbitrary: r) auto

lemma tick_fields:
  "\<exists>d. sd_ready (tick reader failure now due s) =
     run_op (Discard d) (run_op (Round reader failure now (sd_active s) (sd_scans s) (sd_next s))
       (run_op (Retries (case due of Inl _ \<Rightarrow> [] | Inr hints \<Rightarrow> hints) (sd_active s)) (sd_ready s)))"
  "sd_active (tick reader failure now due s) = sd_active s" "sd_channels (tick reader failure now due s) = sd_channels s"
  "sd_native (tick reader failure now due s) = sd_native s" "sd_states (tick reader failure now due s) = sd_states s"
  "sd_http (tick reader failure now due s) = sd_http s" "sd_accepted (tick reader failure now due s) = sd_accepted s"
  "sd_started (tick reader failure now due s) = sd_started s"
  by (auto simp: tick_def Let_def split: sum.splits prod.splits)

lemma sd_ledger_start: "sd_ledger (sched_start now w)"
  by (simp add: sd_ledger_def sched_start_def ready_default_def lq.ledger_start)

lemma sd_ledger_apply:
  fixes s :: "'w sched" and e :: "('w, 'e, 'a) sd_event"
  shows "sd_ledger s \<Longrightarrow> sd_ledger (sd_apply e s)"
proof (induction e)
  case (SdAdmit e)
  obtain ok r where out: "ready_live e (sd_ready s) = (ok, r)" by (cases "ready_live e (sd_ready s)")
  then show ?case
    using SdAdmit lq.ledger_put [of _ _ _ e r] lq.ledger_refused [of _ _ _ e r] by (cases ok) (simp_all add: sd_ledger_def admit_event_def)
next
  case (SdLaunchState prepare)
  show ?case unfolding sd_apply.simps
  proof (rule launch_state_inv [where I = sd_ledger, OF SdLaunchState])
    fix s :: "'w sched" and r gw
    assume a: "sd_ledger s"
      "take_state_admitted (admission prepare) (sd_active s) (sd_native s) (sd_ready s) (sd_gap_marks s, sd_world s) = (None, r, gw)"
    show "sd_ledger (s\<lparr>sd_ready := r, sd_gap_marks := fst gw, sd_world := snd gw\<rparr>)"
      using ledger_take [OF a(1) [unfolded sd_ledger_def] a(2)] by (simp add: sd_ledger_def)
  next
    fix s :: "'w sched" and item permit native r gw
    assume a: "sd_ledger s"
      "take_state_admitted (admission prepare) (sd_active s) (sd_native s) (sd_ready s) (sd_gap_marks s, sd_world s) =
        (Some (item, permit, native), r, gw)"
    show "sd_ledger (start_state item native r gw s)"
      using ledger_take [OF a(1) [unfolded sd_ledger_def] a(2)] by (simp add: sd_ledger_def start_state_def)
  qed
next
  case SdLaunchHttp
  have "\<And>c r e r'. take_http c r = (Some e, r') \<Longrightarrow> lives (rd_state r') = lives (rd_state r)"
    by (auto simp: take_http_def split: option.splits)
  then show ?case unfolding sd_apply.simps
    by (intro launch_http_inv [where I = sd_ledger, OF SdLaunchHttp]) (auto simp: sd_ledger_def intro: lq.ledger_same)
next
  case (SdStateDone i ok heads)
  then show ?case
    using lq.ledger_other [where x = "Heads _"]
    by (auto simp: sd_ledger_def finish_state_def Let_def wake_scans_def fold_skip split: prod.splits sum.splits)
next
  case (SdHttpDone i ok)
  then show ?case by (auto simp: sd_ledger_def finish_http_def Let_def wake_scans_def split: prod.splits)
next
  case SdDeliveryReady
  then show ?case by (simp add: sd_ledger_def wake_scans_def)
next
  case (SdTick reader failure now due)
  have "lives (rd_state (sd_ready (tick reader failure now due s))) = lives (rd_state (sd_ready s))"
    using tick_fields(1) [of reader failure now due s] by (metis lives_run_op)
  then show ?case
    using SdTick lq.ledger_same [of "sd_ready s"] by (simp add: sd_ledger_def tick_fields(2-))
qed

text \<open>C25: The queue of live notifications refines a first-in first-out channel per target. After any sequence of
  admissions, launches, finished tasks, deliveries and ticks, with any answers of the admission check, the store
  and the tasks, the accepted notifications of a target are exactly those started for it, in order, followed by those that
  still wait in the ready queue, in order: none is lost, duplicated or overtaken, even when hints are
  discarded or displaced.\<close>

lemma live_events_fifo:
  "let s = run_events sd_apply es (sched_start now w)
   in filter (\<lambda>e. ev_target e = t) (sd_accepted s) = lives (sd_started s) t @ lives (rd_state (sd_ready s)) t"
proof -
  have "sd_ledger (run_events sd_apply es (sched_start now w))"
    by (rule run_events_inv [where I = sd_ledger and P = "\<lambda>_ _. True"])
      (simp_all add: sd_ledger_apply sd_ledger_start all_events_True)
  then show ?thesis by (simp add: Let_def sd_ledger_def lq.ledger_def filter_live_events)
qed

text \<open>The work that is left when the hints of an event's target are dropped.\<close>

definition without_hints :: "envelope \<Rightarrow> state_work list \<Rightarrow> state_work list" where
  "without_hints e ws = filter (\<lambda>w. is_live w \<or> work_target w \<noteq> ev_target e) ws"

text \<open>Admission of a live notification. It first drops the hints of its target. It is then refused exactly when
  sixteen notifications of the target wait already, or the ready queues are full of live notifications;
  a refusal marks an observation gap and displaces nothing, an acceptance puts it last.\<close>

lemma admission_of_live_event:
  "let r = sd_ready s; rest = without_hints e (rd_state r)
   in if length (lives (rd_state r) (ev_target e)) \<ge> TARGET_CAP \<or>
            length rest + length (rd_http r) \<ge> READY_CAP \<and> list_all is_live rest \<and> rd_http r = []
         then admit_event e s = s\<lparr>sd_ready := r\<lparr>rd_state := rest\<rparr>, sd_gap_marks := sd_gap_marks s + 1\<rparr>
         else sd_accepted (admit_event e s) = sd_accepted s @ [e] \<and> sd_gap_marks (admit_event e s) = sd_gap_marks s \<and>
              rd_state (sd_ready (admit_event e s)) \<noteq> [] \<and> last (rd_state (sd_ready (admit_event e s))) = Live e \<and>
              subseq (butlast (rd_state (sd_ready (admit_event e s)))) rest"
proof -
  have same: "length (filter (\<lambda>w. work_target w = t) (filter (\<lambda>w. is_live w \<or> work_target w \<noteq> t) ws)) = length (lives ws t)" for ws t
    by (induction ws t rule: lives.induct) auto
  have none: "list_all is_live ws \<longleftrightarrow> remove_first (\<lambda>w. \<not> is_live w) ws = None" for ws
    by (induction ws) auto
  let ?rest = "filter (\<lambda>w. is_live w \<or> work_target w \<noteq> ev_target e) (rd_state (sd_ready s))"
  show ?thesis
    using subseq_remove_first [of "\<lambda>w. \<not> is_live w" ?rest]
    by (cases "remove_first (\<lambda>w. \<not> is_live w) ?rest")
      (simp_all add: admit_event_def ready_live_def Let_def ready_len_def same none without_hints_def del: filter_filter, auto)
qed

section \<open>The scheduler's invariant\<close>

text \<open>The ready queues: bounded in all and for each target, a hint is the only work of its target and waits only while
  the target does not run, and no delivery is queued twice.\<close>

definition lane_apart :: "state_work \<Rightarrow> state_work \<Rightarrow> bool" where
  "lane_apart x y \<longleftrightarrow> (work_target x = work_target y \<longrightarrow> is_live x \<and> is_live y)"

definition queue_ok :: "rstr list \<Rightarrow> ready \<Rightarrow> bool" where
  "queue_ok active r \<longleftrightarrow> ready_len r \<le> READY_CAP \<and> (\<forall>t. length (lives (rd_state r) t) \<le> TARGET_CAP) \<and>
     sorted_wrt lane_apart (rd_state r) \<and> (\<forall>w \<in> set (rd_state r). \<not> is_live w \<longrightarrow> work_target w \<notin> set active) \<and>
     sorted_wrt (\<lambda>x y. \<not> same_identity x y) (rd_http r)"

lemma lives_subseq: "subseq xs ys \<Longrightarrow> length (lives xs t) \<le> length (lives ys t)"
proof (induction rule: list_emb.induct)
  case (list_emb_Cons xs ys y)
  then show ?case by (cases y) auto
next
  case (list_emb_Cons2 x y xs ys)
  then show ?case by (cases y) auto
qed simp

lemma queue_ok_shrink:
  assumes "queue_ok active r" "subseq (rd_state r') (rd_state r)" "subseq (rd_http r') (rd_http r)" "set active' \<subseteq> set active"
  shows "queue_ok active' r'"
  unfolding queue_ok_def
proof (intro conjI)
  have r: "ready_len r \<le> READY_CAP" "\<And>t. length (lives (rd_state r) t) \<le> TARGET_CAP" "sorted_wrt lane_apart (rd_state r)"
    "\<And>w. w \<in> set (rd_state r) \<Longrightarrow> \<not> is_live w \<Longrightarrow> work_target w \<notin> set active" "sorted_wrt (\<lambda>x y. \<not> same_identity x y) (rd_http r)"
    using assms(1) by (auto simp: queue_ok_def)
  show "ready_len r' \<le> READY_CAP"
    using r(1) list_emb_length [OF assms(2)] list_emb_length [OF assms(3)] by (simp add: ready_len_def)
  show "\<forall>t. length (lives (rd_state r') t) \<le> TARGET_CAP" using r(2) lives_subseq [OF assms(2)] order_trans by blast
  show "sorted_wrt lane_apart (rd_state r')" "sorted_wrt (\<lambda>x y. \<not> same_identity x y) (rd_http r')"
    using r(3,5) assms(2,3) sorted_wrt_subseq by blast+
  show "\<forall>w \<in> set (rd_state r'). \<not> is_live w \<longrightarrow> work_target w \<notin> set active'"
    using r(4) assms(4) list_emb_set [OF assms(2)] by (metis subsetD)
qed

lemma same_identity_sym: "same_identity x y = same_identity y x"
  by (auto simp: same_identity_def)

lemma queue_ok_durable: "queue_ok active r \<Longrightarrow> queue_ok active (ready_durable e active r)"
  by (auto simp: queue_ok_def ready_durable_def ready_len_def sorted_wrt_append lane_apart_def list_ex_iff)

lemma queue_ok_writer_retry: "queue_ok active r \<Longrightarrow> queue_ok active (ready_writer_retry h active r)"
  by (auto simp: queue_ok_def ready_writer_retry_def ready_len_def sorted_wrt_append lane_apart_def list_ex_iff)

lemma queue_ok_offer: "offer_pending active es r = (ok, left, r') \<Longrightarrow> queue_ok active r \<Longrightarrow> queue_ok active r'"
  by (induction es arbitrary: r) (auto simp: queue_ok_durable split: if_splits)

lemma queue_ok_discover:
  assumes "queue_ok active r" "discover reader now active sk r = (result, sk', r')"
  shows "queue_ok active r'"
proof -
  obtain ok left r1 where first: "offer_pending active (sk_pending sk) r = (ok, left, r1)" by (cases "offer_pending active (sk_pending sk) r")
  have "queue_ok active r1" using queue_ok_offer [OF first assms(1)] .
  then show ?thesis
    using assms(2) first queue_ok_offer [of active _ r1]
    by (auto simp: discover_def Let_def split: if_splits sum.splits prod.splits)
qed

lemma queue_ok_fold_round:
  "fold (round_step reader now active) ks (st, r, rep) = (st', r', rep') \<Longrightarrow> queue_ok active r \<Longrightarrow> queue_ok active r'"
proof (induction ks arbitrary: st r rep)
  case (Cons k ks)
  obtain result sk r1 where d: "discover reader now active (st ! k) r = (result, sk, r1)" by (cases "discover reader now active (st ! k) r")
  then have "queue_ok active r1" "draft_drop r r1 = r"
    using queue_ok_discover [OF Cons.prems(2)] draft_drop_extends [OF discover_extends] by blast+
  then show ?case using Cons d by (auto simp: round_step_def split: if_splits)
qed simp

lemma queue_ok_round:
  "queue_ok active r \<Longrightarrow> read_metadata_round reader failure now active scans next_scan r = (result, scans', next', r') \<Longrightarrow>
   queue_ok active r'"
  by (auto simp: read_metadata_round_def Let_def draft_drop_extends fold_round_extends queue_ok_fold_round
    split: if_splits prod.splits option.splits)

lemma queue_ok_prioritize:
  assumes "queue_ok active r"
  shows "queue_ok active (ready_prioritize e r)"
proof -
  let ?h = "filter (\<lambda>x. \<not> same_identity x e) (rd_http r)"
  have http: "sorted_wrt (\<lambda>x y. \<not> same_identity x y) (e # xs)" if "subseq xs ?h" for xs
  proof -
    have "sorted_wrt (\<lambda>x y. \<not> same_identity x y) xs"
      using assms that sorted_wrt_subseq subseq_order.trans subseq_filter_left by (metis queue_ok_def)
    moreover have "set xs \<subseteq> set ?h" using list_emb_set [OF that] by blast
    then have "\<forall>x \<in> set xs. \<not> same_identity e x" by (auto simp: same_identity_sym)
    ultimately show ?thesis by simp
  qed
  have keep: "queue_ok active (r\<lparr>rd_state := ws, rd_http := e # xs\<rparr>)"
    if "subseq ws (rd_state r)" "subseq xs ?h" "length ws + length xs < READY_CAP" for ws xs
    using queue_ok_shrink [OF assms, of "r\<lparr>rd_state := ws, rd_http := []\<rparr>" active] http [OF that(2)] that
    by (auto simp: queue_ok_def ready_len_def)
  have "length (rd_state r) + length (rd_http r) \<le> READY_CAP" using assms by (simp add: queue_ok_def ready_len_def)
  moreover have "length ?h \<le> length (rd_http r)" by simp
  ultimately have len: "length (rd_state r) + length ?h \<le> READY_CAP" by linarith
  show ?thesis
  proof (cases "length (rd_state r) + length ?h < READY_CAP")
    case True
    then show ?thesis using keep [of "rd_state r" ?h] by (simp add: ready_prioritize_def Let_def ready_len_def)
  next
    case full: False
    show ?thesis
    proof (cases "?h = []")
      case False
      then have "length (rd_state r) + length (butlast ?h) < READY_CAP" using len by (cases ?h) auto
      from keep [OF subseq_order.refl subseq_butlast this] show ?thesis using full False
        by (simp add: ready_prioritize_def Let_def ready_len_def)
    next
      case none: True
      show ?thesis
        using full none keep [of _ "[]"] subseq_remove_first [of "\<lambda>w. \<not> is_live w" "rd_state r"] len
          queue_ok_shrink [OF assms, of "r\<lparr>rd_http := []\<rparr>" active]
        by (auto simp: ready_prioritize_def Let_def ready_len_def split: option.splits)
    qed
  qed
qed

lemma subseq_discard_from: "subseq (map snd (filter P (enumerate n ws))) ws"
  by (metis map_snd_enumerate subseq_filter_left subseq_map)

lemma queue_ok_run_op:
  assumes "queue_ok active r"
  shows "queue_ok active (fold (\<lambda>h. ready_writer_retry h active) hs r)" "queue_ok active (discard_deferred entries r)"
    "queue_ok active (fold ready_prioritize es r)"
proof -
  show "queue_ok active (fold (\<lambda>h. ready_writer_retry h active) hs r)"
    using assms by (induction hs arbitrary: r) (simp_all add: queue_ok_writer_retry)
  show "queue_ok active (fold ready_prioritize es r)"
    using assms by (induction es arbitrary: r) (simp_all add: queue_ok_prioritize)
  show "queue_ok active (discard_deferred entries r)"
    using queue_ok_shrink [OF assms] by (simp add: discard_deferred_def subseq_discard_from)
qed

lemma length_lives_le: "length (lives ws t) \<le> length (filter (\<lambda>w. work_target w = t) ws)"
  by (induction ws t rule: lives.induct) auto

lemma queue_ok_live:
  assumes "queue_ok active r" "ready_live e r = (ok, r')"
  shows "queue_ok active r'"
proof -
  let ?ws = "filter (\<lambda>w. is_live w \<or> work_target w \<noteq> ev_target e) (rd_state r)"
  have push: "queue_ok active r'"
    if "rd_state r' = ws @ [Live e]" "subseq ws ?ws" "subseq (rd_http r') (rd_http r)" "length ws + length (rd_http r') < READY_CAP"
      "length (lives ?ws (ev_target e)) < TARGET_CAP" for ws
  proof -
    have "queue_ok active (r'\<lparr>rd_state := ws\<rparr>)"
      using queue_ok_shrink [OF assms(1)] that(2,3) subseq_order.trans [OF that(2)] by simp
    moreover have "length (lives ws (ev_target e)) < TARGET_CAP" using lives_subseq [OF that(2)] that(5) le_less_trans by blast
    moreover have "\<forall>w \<in> set ws. lane_apart w (Live e)" using list_emb_set [OF that(2)] by (force simp: lane_apart_def)
    ultimately show ?thesis using that(1,4) by (auto simp: queue_ok_def ready_len_def sorted_wrt_append Suc_le_eq)
  qed
  have keep: "queue_ok active (r\<lparr>rd_state := ?ws\<rparr>)" using queue_ok_shrink [OF assms(1)] by simp
  then have len: "length ?ws + length (rd_http r) \<le> READY_CAP" by (simp add: queue_ok_def ready_len_def)
  show ?thesis
  proof (cases ok)
    case False
    then show ?thesis using assms(2) keep by (auto simp: ready_live_def Let_def split: if_splits option.splits)
  next
    case True
    then have few: "length (lives ?ws (ev_target e)) < TARGET_CAP"
      using assms(2) length_lives_le [of ?ws "ev_target e"]
      by (auto simp: ready_live_def Let_def simp del: filter_filter split: if_splits)
    have http: "rd_http r \<noteq> [] \<Longrightarrow> length ?ws + length (butlast (rd_http r)) < READY_CAP" using len by (cases "rd_http r") auto
    have "\<exists>ws. rd_state r' = ws @ [Live e] \<and> subseq ws ?ws \<and> subseq (rd_http r') (rd_http r) \<and> length ws + length (rd_http r') < READY_CAP"
      using True assms(2) subseq_butlast [of "rd_http r"] http len subseq_remove_first [of "\<lambda>w. \<not> is_live w" ?ws]
      by (auto simp: ready_live_def Let_def ready_len_def simp del: filter_filter split: if_splits option.splits)
    then show ?thesis using push few by blast
  qed
qed

lemma queue_ok_take:
  assumes "queue_ok active r" "take_state_admitted admit active native r s = (chosen, r', s')"
  shows "queue_ok (case chosen of None \<Rightarrow> active | Some (item, _) \<Rightarrow> work_target item # active) r'"
proof (cases chosen)
  case None
  then show ?thesis using queue_ok_shrink [OF assms(1)] take_state_spec [OF assms(2)] by simp
next
  case (Some c)
  then obtain w permit n where c: "chosen = Some (w, permit, n)" by (cases c) auto
  obtain pre post where w: "rd_state r = pre @ w # post" "subseq (rd_state r') (pre @ post)" "rd_http r' = rd_http r"
    using take_state_spec [OF assms(2)] c by auto
  have "subseq (pre @ post) (rd_state r)" by (simp add: w(1) subseq_append' list_emb_Cons)
  then have ok: "queue_ok active r'" using queue_ok_shrink [OF assms(1)] w(2,3) subseq_order.trans by simp
  have "is_live x \<or> work_target x \<noteq> work_target w" if "x \<in> set (rd_state r')" for x
  proof -
    have "x \<in> set pre \<union> set post" using list_emb_set [OF w(2) that] by auto
    then have "lane_apart x w \<or> lane_apart w x" using assms(1) by (auto simp: queue_ok_def w(1) sorted_wrt_append)
    then show ?thesis by (auto simp: lane_apart_def)
  qed
  then show ?thesis using ok c by (auto simp: queue_ok_def)
qed

lemma remove_first_find: "find P xs = Some x \<Longrightarrow> \<exists>pre post. xs = pre @ x # post \<and> P x \<and> remove_first P xs = Some (pre @ post)"
proof (induction xs)
  case (Cons y ys)
  show ?case
  proof (cases "P y")
    case True
    then show ?thesis using Cons.prems by (intro exI [of _ "[]"] exI [of _ ys]) simp
  next
    case False
    then obtain pre post where "ys = pre @ x # post" "P x" "remove_first P ys = Some (pre @ post)" using Cons by auto
    then show ?thesis using False by (intro exI [of _ "y # pre"] exI [of _ post]) simp
  qed
qed simp

lemma take_http_spec:
  assumes "take_http channels r = (Some e, r')"
  shows "\<not> hm_contains channels (en_channel e) \<and> rd_state r' = rd_state r \<and> subseq (rd_http r') (rd_http r)"
proof -
  have found: "find (\<lambda>e. \<not> hm_contains channels (en_channel e)) (rd_http r) = Some e"
    using assms by (auto simp: take_http_def split: option.splits)
  show ?thesis
    using assms remove_first_find [OF found]
    by (auto simp: take_http_def found subseq_append' list_emb_Cons split: option.splits)
qed

text \<open>The running tasks: one for each active target, one for each busy channel, within their slots.\<close>

definition slots_ok :: "'w sched \<Rightarrow> bool" where
  "slots_ok s \<longleftrightarrow> distinct (map fst (sd_states s)) \<and> set (sd_active s) = fst ` set (sd_states s) \<and>
     length (sd_states s) \<le> STATE_SLOTS \<and> sd_native s = length (filter (fst \<circ> snd) (sd_states s)) \<and> sd_native s \<le> NATIVE_SLOTS \<and>
     distinct (map fst (sd_http s)) \<and> (\<forall>c. hm_contains (sd_channels s) c \<longleftrightarrow> c \<in> fst ` set (sd_http s)) \<and>
     length (sd_http s) \<le> HTTP_SLOTS"

definition sched_ok :: "'w sched \<Rightarrow> bool" where
  "sched_ok s \<longleftrightarrow> queue_ok (sd_active s) (sd_ready s) \<and> slots_ok s"

lemma sched_ok_start: "sched_ok (sched_start now w)"
  by (simp add: sched_ok_def queue_ok_def slots_ok_def sched_start_def ready_default_def ready_len_def)

lemma sched_ok_start_state:
  assumes "sched_ok s" "length (sd_states s) < STATE_SLOTS"
    "take_state_admitted admit (sd_active s) (sd_native s) (sd_ready s) g = (Some (item, permit, native), r, gw)"
  shows "sched_ok (start_state item native r gw' s)"
proof -
  have "work_target item \<notin> set (sd_active s)" "native \<longrightarrow> sd_native s < NATIVE_SLOTS"
    using take_state_spec [OF assms(3)] by auto
  moreover have "queue_ok (work_target item # sd_active s) r"
    using assms(1) queue_ok_take [OF _ assms(3)] by (simp add: sched_ok_def)
  ultimately show ?thesis using assms(1,2) by (auto simp: sched_ok_def slots_ok_def start_state_def image_iff)
qed

lemma sched_ok_start_http:
  assumes "sched_ok s" "length (sd_http s) < HTTP_SLOTS" "take_http (sd_channels s) (sd_ready s) = (Some e, r)"
  shows "sched_ok (s\<lparr>sd_ready := r, sd_channels := hm_insert (en_channel e) e (sd_channels s),
    sd_http := sd_http s @ [(en_channel e, en_source e)]\<rparr>)"
  using assms take_http_spec [OF assms(3)] queue_ok_shrink [of "sd_active s" "sd_ready s" r]
  by (auto simp: sched_ok_def slots_ok_def)

lemma remove_nth_keyed:
  assumes "i < length xs" "distinct (map fst xs)"
  shows "distinct (map fst (remove_nth i xs))" "fst ` set (remove_nth i xs) = fst ` set xs - {fst (xs ! i)}"
    "length (filter P xs) = length (filter P (remove_nth i xs)) + (if P (xs ! i) then 1 else 0)"
proof -
  obtain pre post x where x: "xs ! i = x" "xs = pre @ x # post" "remove_nth i xs = pre @ post"
    using remove_nth_split [OF assms(1)] by metis
  show "distinct (map fst (remove_nth i xs))" "length (filter P xs) = length (filter P (remove_nth i xs)) + (if P (xs ! i) then 1 else 0)"
    using assms(2) unfolding x(1,3) unfolding x(2) by auto
  have "fst x \<notin> fst ` set (pre @ post)" using assms(2) unfolding x(2) by auto
  then show "fst ` set (remove_nth i xs) = fst ` set xs - {fst (xs ! i)}" unfolding x(1,3) unfolding x(2) by (simp add: Un_Diff)
qed

lemma queue_ok_fewer: "queue_ok active r \<Longrightarrow> set active' \<subseteq> set active \<Longrightarrow> queue_ok active' r"
  by (rule queue_ok_shrink [OF _ subseq_order.refl subseq_order.refl])

lemma wake_scans_fields [simp]:
  "sd_ready (wake_scans P s) = sd_ready s" "sd_active (wake_scans P s) = sd_active s" "sd_native (wake_scans P s) = sd_native s"
  "sd_states (wake_scans P s) = sd_states s" "sd_http (wake_scans P s) = sd_http s" "sd_channels (wake_scans P s) = sd_channels s"
  by (simp_all add: wake_scans_def)

lemma sched_ok_wake [simp]: "sched_ok (wake_scans P s) = sched_ok s"
  by (simp add: sched_ok_def slots_ok_def wake_scans_def)

lemma sched_ok_drop_state:
  assumes "sched_ok s" "i < length (sd_states s)" "sd_states s ! i = (target, was_native, wake)"
  shows "sched_ok (s\<lparr>sd_active := filter (\<lambda>t. t \<noteq> target) (sd_active s), sd_native := sd_native s - (if was_native then 1 else 0),
    sd_states := remove_nth i (sd_states s)\<rparr>)"
proof -
  have d: "distinct (map fst (sd_states s))" using assms(1) by (simp add: sched_ok_def slots_ok_def)
  show ?thesis
    using assms remove_nth_keyed(1,2) [OF assms(2) d] remove_nth_keyed(3) [OF assms(2) d, of "fst \<circ> snd"] length_remove_nth [OF assms(2)]
    by (auto simp: sched_ok_def slots_ok_def intro: queue_ok_fewer)
qed

lemma sched_ok_drop_http:
  assumes "sched_ok s" "i < length (sd_http s)" "sd_http s ! i = (channel, src)"
  shows "sched_ok (s\<lparr>sd_channels := hm_remove channel (sd_channels s), sd_http := remove_nth i (sd_http s)\<rparr>)"
proof -
  have d: "distinct (map fst (sd_http s))" using assms(1) by (simp add: sched_ok_def slots_ok_def)
  show ?thesis
    using assms remove_nth_keyed(1,2) [OF assms(2) d] length_remove_nth [OF assms(2)]
    by (auto simp: sched_ok_def slots_ok_def)
qed

lemma sched_ok_ready: "sched_ok s \<Longrightarrow> queue_ok (sd_active s) r \<Longrightarrow> sched_ok (s\<lparr>sd_ready := r\<rparr>)"
  by (simp add: sched_ok_def slots_ok_def)

lemma sched_ok_apply:
  fixes s :: "'w sched" and e :: "('w, 'e, 'a) sd_event"
  assumes "sched_ok s"
  shows "sched_ok (sd_apply e s)"
proof (cases e)
  case (SdAdmit e)
  have "queue_ok (sd_active s) (snd (ready_live e (sd_ready s)))"
    using assms queue_ok_live by (metis prod.collapse sched_ok_def)
  then show ?thesis using assms SdAdmit by (auto simp: admit_event_def Let_def sched_ok_def slots_ok_def split: prod.splits)
next
  case (SdLaunchState prepare)
  have "sched_ok (launch_state prepare s)"
  proof (rule launch_state_inv [where I = sched_ok, OF assms])
    fix s :: "'w sched" and r gw
    assume a: "sched_ok s"
      "take_state_admitted (admission prepare) (sd_active s) (sd_native s) (sd_ready s) (sd_gap_marks s, sd_world s) = (None, r, gw)"
    show "sched_ok (s\<lparr>sd_ready := r, sd_gap_marks := fst gw, sd_world := snd gw\<rparr>)"
      using a(1) queue_ok_take [OF _ a(2)] by (simp add: sched_ok_def slots_ok_def)
  qed (rule sched_ok_start_state)
  then show ?thesis using SdLaunchState by simp
next
  case SdLaunchHttp
  then show ?thesis unfolding SdLaunchHttp sd_apply.simps by (intro launch_http_inv [where I = sched_ok] assms sched_ok_start_http)
next
  case (SdStateDone i ok heads)
  show ?thesis
  proof (cases "i < length (sd_states s)")
    case True
    obtain target was_native wake where st: "sd_states s ! i = (target, was_native, wake)" by (cases "sd_states s ! i")
    have ready: "sched_ok (s\<lparr>sd_ready := fold ready_prioritize es (sd_ready s)\<rparr>)" for es
      using assms by (intro sched_ok_ready) (simp_all add: queue_ok_run_op sched_ok_def)
    have drop: "sched_ok (s1\<lparr>sd_active := filter (\<lambda>t. t \<noteq> target) (sd_active s1), sd_native := sd_native s1 - (if was_native then 1 else 0),
        sd_states := remove_nth i (sd_states s1)\<rparr>)" if "sched_ok s1" "sd_states s1 = sd_states s" for s1 :: "'w sched"
      using sched_ok_drop_state [of s1 i target was_native wake] that st True by simp
    have woken: "sched_ok (wake_scans (\<lambda>x. \<not> is_state x) (s\<lparr>sd_ready := fold ready_prioritize es (sd_ready s)\<rparr>))" for es
      using ready by simp
    show ?thesis
    proof (cases "wake \<and> ok \<and> (\<exists>es. heads = Inr es)")
      case go: True
      then obtain es where "heads = Inr es" by blast
      then show ?thesis
        using True go drop [OF woken] by (simp only: SdStateDone sd_apply.simps finish_state_def st fold_skip Let_def prod.case sum.case if_True
          wake_scans_fields sched.simps linorder_not_le simp_thms) simp
    next
      case False
      then have "finish_state i ok heads s = s\<lparr>sd_active := filter (\<lambda>t. t \<noteq> target) (sd_active s),
          sd_native := sd_native s - (if was_native then 1 else 0), sd_states := remove_nth i (sd_states s)\<rparr>"
        using True by (cases heads) (auto simp: finish_state_def st Let_def)
      then show ?thesis using drop [OF assms] SdStateDone by simp
    qed
  qed (simp add: SdStateDone finish_state_def assms)
next
  case (SdHttpDone i ok)
  have "sched_ok s1 \<Longrightarrow> sd_http s1 = sd_http s \<Longrightarrow> i < length (sd_http s) \<Longrightarrow>
    sched_ok (s1\<lparr>sd_channels := hm_remove (fst (sd_http s ! i)) (sd_channels s1), sd_http := remove_nth i (sd_http s1)\<rparr>)" for s1
    using sched_ok_drop_http [of s1 i] by (metis prod.collapse)
  from this [of s] this [of "wake_scans (\<lambda>x. x = snd (sd_http s ! i)) s"] show ?thesis
    using assms SdHttpDone by (auto simp: finish_http_def Let_def split: prod.splits)
next
  case SdDeliveryReady
  then show ?thesis using assms by simp
next
  case (SdTick reader failure now due)
  have "queue_ok (sd_active s) (sd_ready (tick reader failure now due s))"
    using assms tick_fields(1) [of reader failure now due s]
    by (auto simp: sched_ok_def split: prod.splits intro!: queue_ok_run_op elim!: queue_ok_round [rotated])
  then show ?thesis using assms SdTick by (simp add: sched_ok_def slots_ok_def tick_fields(2-))
qed

text \<open>C26: The scheduler stays within its bounds over every run. The ready queues hold at most 128 items and at most sixteen
  live notifications of a target; a rediscoverable hint is the only work of its target and waits only while that
  target does not run; no delivery is queued twice. At most four state tasks run, one per target, the set of active
  targets being exactly theirs; the native counter equals the running native tasks and is at most three, so its
  decrement never underflows; at most four deliveries run, one per channel, exactly those of the channel map.\<close>

lemma scheduler_stays_bounded: "sched_ok (run_events sd_apply es (sched_start now w))"
  by (rule run_events_inv [where I = sched_ok and P = "\<lambda>_ _. True"]) (simp_all add: sched_ok_apply sched_ok_start all_events_True)

section \<open>A discovery pass\<close>

text \<open>Pages are read, each from the cursor the one before left, until the cursor is finished; \<open>None\<close> when \<open>n\<close> pages do not suffice.\<close>

fun read_pass :: "nat \<Rightarrow> work_entry list \<Rightarrow> cursor \<Rightarrow> work_entry list option" where
  "read_pass 0 candidates c = None"
| "read_pass (Suc n) candidates c =
     (let (p, c') = page_in candidates False 0 c in
      if cu_finished c' then Some (pg_entries p) else map_option ((@) (pg_entries p)) (read_pass n candidates c'))"

definition behind :: "work_entry list \<Rightarrow> work_entry list \<Rightarrow> cursor \<Rightarrow> bool" where
  "behind S pre c \<longleftrightarrow> cu_upper c = Some (en_position (last S)) \<and>
     cu_after c = (if pre = [] then None else Some (en_position (last pre)))"

lemma rows_behind:
  assumes "sorted_wrt (\<lambda>x y. en_position x < en_position y) (pre @ post)" "behind (pre @ post) pre c"
  shows "filter (\<lambda>e. (case cu_after c of None \<Rightarrow> True | Some after \<Rightarrow> en_position e > after) \<and>
    en_position e \<le> the (cu_upper c)) (pre @ post) = post"
proof -
  have top: "en_position e \<le> en_position (last (pre @ post))" if "e \<in> set (pre @ post)" for e
    using assms(1) that by (cases "pre @ post" rule: rev_cases) (auto simp: sorted_wrt_append)
  have low: "\<not> en_position (last pre) < en_position e" if "e \<in> set pre" for e
    using assms(1) that by (cases pre rule: rev_cases) (auto simp: sorted_wrt_append)
  have high: "en_position (last pre) < en_position e" if "pre \<noteq> []" "e \<in> set post" for e
    using assms(1) that by (simp add: sorted_wrt_append)
  show ?thesis
    using assms(2) top low high by (auto simp: behind_def filter_empty_conv intro!: filter_True)
qed

lemma page_behind:
  assumes "sort_key en_position candidates = pre @ post" "sorted_wrt (\<lambda>x y. en_position x < en_position y) (pre @ post)"
    "behind (pre @ post) pre c"
  shows "pg_entries (fst (page_in candidates False 0 c)) = take PAGE_SIZE post"
    "cu_finished (snd (page_in candidates False 0 c)) = (length post < PAGE_SIZE)"
    "PAGE_SIZE \<le> length post \<Longrightarrow> behind (pre @ post) (pre @ take PAGE_SIZE post) (snd (page_in candidates False 0 c))"
proof -
  obtain upper where upper: "cu_upper c = Some upper" using assms(3) by (auto simp: behind_def)
  have rows: "sort_key en_position (filter (\<lambda>e. (case cu_after c of None \<Rightarrow> True | Some after \<Rightarrow> en_position e > after) \<and>
    en_position e \<le> upper) candidates) = post"
    using rows_behind [OF assms(2,3)] upper by (simp only: filter_sort [symmetric] assms(1) option.sel)
  show "pg_entries (fst (page_in candidates False 0 c)) = take PAGE_SIZE post"
    "cu_finished (snd (page_in candidates False 0 c)) = (length post < PAGE_SIZE)"
    using rows upper by (auto simp: page_in_def Let_def)
  show "behind (pre @ post) (pre @ take PAGE_SIZE post) (snd (page_in candidates False 0 c))" if "PAGE_SIZE \<le> length post"
  proof -
    have "take PAGE_SIZE post \<noteq> []" using that by (auto simp: PAGE_SIZE_def)
    then show ?thesis using rows upper assms(3) by (auto simp: page_in_def Let_def behind_def)
  qed
qed

lemma read_pass_behind:
  assumes "sort_key en_position candidates = S" "sorted_wrt (\<lambda>x y. en_position x < en_position y) S"
  shows "S = pre @ post \<Longrightarrow> behind S pre c \<Longrightarrow> length post < n * PAGE_SIZE \<Longrightarrow> read_pass n candidates c = Some post"
proof (induction n arbitrary: pre post c)
  case (Suc n)
  obtain p c' where page: "page_in candidates False 0 c = (p, c')" by (cases "page_in candidates False 0 c")
  have facts: "pg_entries p = take PAGE_SIZE post" "cu_finished c' = (length post < PAGE_SIZE)"
    "PAGE_SIZE \<le> length post \<Longrightarrow> behind S (pre @ take PAGE_SIZE post) c'"
    using page_behind [of candidates pre post c] assms Suc.prems(1,2) page by auto
  show ?case
  proof (cases "length post < PAGE_SIZE")
    case False
    then have "read_pass n candidates c' = Some (drop PAGE_SIZE post)"
      using Suc.IH [of "pre @ take PAGE_SIZE post" "drop PAGE_SIZE post"] Suc.prems(1,3) facts(3) by simp
    then show ?thesis using False page facts(1,2) by simp
  qed (use page facts in simp)
qed simp

text \<open>C27: A discovery pass ends and is complete. Over candidates with distinct positions, reading pages of 32 from the default
  cursor finishes after at most one page more than the full ones, and the pages together are every candidate exactly once, in
  the order of their positions.\<close>

lemma discovery_pass_terminates:
  assumes "distinct (map en_position candidates)"
  shows "read_pass (length candidates div PAGE_SIZE + 1) candidates cursor_default = Some (sort_key en_position candidates)"
proof (cases "candidates = []")
  case True
  then show ?thesis by (simp add: page_in_def last_position_def cursor_default_def)
next
  case False
  let ?S = "sort_key en_position candidates" and ?c = "cursor_default\<lparr>cu_upper := last_position candidates\<rparr>"
  have fill: "read_pass (Suc n) candidates cursor_default = read_pass (Suc n) candidates ?c" for n
    by (simp add: page_in_def cursor_default_def last_position_def False)
  have "sorted_wrt (<) (map en_position ?S)"
    using assms by (simp add: strict_sorted_iff distinct_map)
  then have S: "sorted_wrt (\<lambda>x y. en_position x < en_position y) ?S" by (simp add: sorted_wrt_map)
  have "?S \<noteq> []" using False by (metis set_empty set_sort)
  have "Max (en_position ` set candidates) = en_position (last ?S)"
  proof (rule Max_eqI)
    show "e \<le> en_position (last ?S)" if "e \<in> en_position ` set candidates" for e
      using that S \<open>?S \<noteq> []\<close> unfolding set_sort [of en_position candidates, symmetric]
      by (cases ?S rule: rev_cases) (auto simp: sorted_wrt_append)
    show "en_position (last ?S) \<in> en_position ` set candidates" using \<open>?S \<noteq> []\<close> last_in_set by (metis imageI set_sort)
  qed simp
  then have "behind ?S [] ?c" by (simp add: behind_def cursor_default_def last_position_def False)
  moreover have "length ?S < (length candidates div PAGE_SIZE + 1) * PAGE_SIZE"
    by (simp add: PAGE_SIZE_def)
  ultimately show ?thesis
    using fill [of "length candidates div PAGE_SIZE"] read_pass_behind [OF refl S, of "[]" ?S ?c "length candidates div PAGE_SIZE + 1"]
    by (simp del: read_pass.simps)
qed

lemma discovery_pass_terminates_witness:
  "distinct (map en_position [demo_entry 2, demo_entry 1]) \<and>
   read_pass 1 [demo_entry 2, demo_entry 1] cursor_default = Some [demo_entry 1, demo_entry 2]"
proof -
  have d: "distinct (map en_position [demo_entry 2, demo_entry 1])" by (simp add: demo_entry_def)
  have "sort_key en_position [demo_entry 2, demo_entry 1] = [demo_entry 1, demo_entry 2]" by (simp add: demo_entry_def)
  then show ?thesis using discovery_pass_terminates [OF d] d by (simp add: PAGE_SIZE_def)
qed

end
