(* ===== verification/Turn_Queue.thy ===== *)
theory Turn_Queue
  imports Complex_Main Rust_Str "HOL-Library.Product_Lexorder" "HOL-Library.List_Lexorder"
begin

text \<open>
  The durable queue of prompts: \<open>cdr-store/src/queue.rs\<close>, \<open>queue/read.rs\<close>, \<open>queue/write.rs\<close>, \<open>queue/write/*.rs\<close>,
  \<open>queue/failure.rs\<close>, \<open>queue/generation.rs\<close>, \<open>queue/goal.rs\<close>, with the holds and fences it consults
  (\<open>dead_generation.rs\<close>, \<open>execution_hold.rs\<close>, \<open>queue/fork_handoff/read.rs\<close>, \<open>archived_cleanup.rs\<close>) and the triggers
  of its table (\<open>queue/cancellation_schema.rs\<close>, \<open>archive_fence/schema.sql\<close>, \<open>archived_cleanup/records.rs\<close>).

  A table is a list of rows and the database a record of tables. A function that opens an immediate
  transaction is one atomic step: it returns an error, and the transaction is rolled back, or a value
  and the committed database. \<open>RAISE(ABORT)\<close> fails the statement, \<open>RAISE(IGNORE)\<close> skips the
  row, which is then not counted. Times are finite numbers; the clock is the argument \<open>now\<close>. The state column
  holds one of the three words the code writes, and the baseline column the turn ids it encodes. The variants that compare no claim
  (\<open>begin_attempt\<close>, \<open>mark_running\<close>, \<open>record_start_failure\<close>, \<open>attach_goal_turn\<close>) have no caller in the bot.
\<close>

section \<open>Results\<close>

definition and_then :: "('e, 'a) result \<Rightarrow> ('a \<Rightarrow> ('e, 'b) result) \<Rightarrow> ('e, 'b) result" where
  "and_then r f = (case r of Inl e \<Rightarrow> Inl e | Inr x \<Rightarrow> f x)"

lemma and_then_simps [simp]: "and_then (Inl e) f = Inl e" "and_then (Inr x) f = f x"
  by (simp_all add: and_then_def)

lemma and_then_Inr: "and_then r f = Inr y \<longleftrightarrow> (\<exists>x. r = Inr x \<and> f x = Inr y)"
  by (cases r) auto

lemma and_thenE: "and_then r f = Inr y \<Longrightarrow> (\<And>x. r = Inr x \<Longrightarrow> f x = Inr y \<Longrightarrow> thesis) \<Longrightarrow> thesis"
  by (auto simp: and_then_Inr)

definition require :: "bool \<Rightarrow> 'e \<Rightarrow> ('e, unit) result" where
  "require ok e = (if ok then Inr () else Inl e)"

lemma require_simps [simp]: "require True e = Inr ()" "require False e = Inl e" "require ok e = Inr u \<longleftrightarrow> ok"
  by (simp_all add: require_def)

section \<open>Jobs (\<open>queue.rs\<close>, \<open>queue/read.rs\<close>)\<close>

datatype queue_job_state = JPending | JStarting | JRunning | JQuarantined

datatype raw_state = RPending | RStarting | RRunning

record queue_job =
  qj_job_id :: rstr
  qj_target :: rstr
  qj_channel :: int
  qj_owner :: "int option"
  qj_message :: "int option"
  qj_generation :: int
  qj_execution_generation :: "int option"
  qj_observation_generation :: "int option"
  qj_goal_waiting :: bool
  qj_prompt :: rstr
  qj_queued :: bool
  qj_ack_sent :: bool
  qj_raw :: raw_state
  qj_attempts :: int
  qj_turn_id :: "rstr option"
  qj_baseline :: "rstr list"
  qj_last_error :: rstr
  qj_created_at :: rat
  qj_updated_at :: rat

definition QUARANTINED_TURN_PREFIX :: rstr where
  "QUARANTINED_TURN_PREFIX = lit ''cdr-quarantined:''"

definition QUARANTINED_ERROR_PREFIX :: rstr where
  "QUARANTINED_ERROR_PREFIX = lit ''[cdr-rust:app-server-fork-quarantine:v1] ''"

definition is_quarantine_encoding :: "raw_state \<Rightarrow> rstr option \<Rightarrow> rstr \<Rightarrow> bool" where
  "is_quarantine_encoding raw turn_id last_error \<longleftrightarrow> raw = RRunning \<and>
     (case turn_id of None \<Rightarrow> False | Some value \<Rightarrow> starts_with value QUARANTINED_TURN_PREFIX) \<and>
     starts_with last_error QUARANTINED_ERROR_PREFIX"

text \<open>The decoded state of a row; the row otherwise is the stored job.\<close>

definition job_state :: "queue_job \<Rightarrow> queue_job_state" where
  "job_state j = (case qj_raw j of RPending \<Rightarrow> JPending | RStarting \<Rightarrow> JStarting
     | RRunning \<Rightarrow> if is_quarantine_encoding (qj_raw j) (qj_turn_id j) (qj_last_error j) then JQuarantined else JRunning)"

definition completion_evidence_generation :: "queue_job \<Rightarrow> int" where
  "completion_evidence_generation j = (case qj_observation_generation j of Some g \<Rightarrow> g | None \<Rightarrow> qj_generation j)"

record new_queue_job =
  nj_job_id :: rstr
  nj_target :: rstr
  nj_channel :: int
  nj_owner :: "int option"
  nj_message :: "int option"
  nj_generation :: int
  nj_prompt :: rstr
  nj_queued :: bool
  nj_ack_sent :: bool
  nj_created_at :: rat

record fork_handoff =
  fh_id :: rstr
  fh_ambiguous_job :: "rstr option"
  fh_source :: rstr
  fh_expected_generation :: int
  fh_channel :: int
  fh_thread :: int
  fh_reason :: rstr
  fh_last_error :: rstr
  fh_ambiguous :: bool
  fh_observed :: "rstr option"
  fh_target :: "rstr option"
  fh_completed_generation :: "int option"

record disposition =
  ds_operation :: rstr
  ds_channel :: int
  ds_target :: rstr
  ds_phase :: rstr

record mirror_row =
  mr_codex_thread :: rstr
  mr_channel :: int
  mr_thread :: int
  mr_updated_at :: rat

record idle_intent =
  ii_thread :: rstr
  ii_state :: rstr
  ii_detail :: rstr
  ii_revision :: int

record exec_hold =
  eh_job :: rstr
  eh_target :: rstr
  eh_reason :: rstr

record start_notice =
  sn_job :: rstr
  sn_target :: rstr
  sn_channel :: int
  sn_generation :: int
  sn_attempts :: int
  sn_content :: rstr

record new_reply_row =
  nr_job :: rstr
  nr_thread :: rstr
  nr_channel :: int
  nr_turn :: "rstr option"

record delivery =
  dl_id :: rstr
  dl_job :: rstr
  dl_target :: rstr
  dl_turn :: rstr
  dl_channel :: int
  dl_content :: rstr
  dl_attempts :: int
  dl_last_error :: rstr
  dl_created_at :: rat
  dl_updated_at :: rat

datatype event_marker = UserOrigin rstr rstr rstr | TurnOrigin rstr rstr

text \<open>The database. \<open>qd_stop_held\<close> are the events whose ingress row carries a stop hold, \<open>qd_async_held\<close> the threads that
  \<open>async_resolution::held_in\<close> reports, \<open>qd_dispatching\<close> those with a question whose reply is being dispatched.\<close>

record queue_db =
  qd_jobs :: "queue_job list"
  qd_cancellations :: "(rstr \<times> int option) list"
  qd_archive_fences :: "rstr list"
  qd_dispositions :: "disposition list"
  qd_retired :: "(rstr \<times> rstr) list"
  qd_dead_holds :: "rstr list"
  qd_runtime :: "rstr option"
  qd_incidents :: "(rstr \<times> int) list"
  qd_exec_holds :: "exec_hold list"
  qd_start_notices :: "start_notice list"
  qd_handoffs :: "fork_handoff list"
  qd_exact_routing :: bool
  qd_mirrors :: "mirror_row list"
  qd_idle :: "idle_intent list"
  qd_stop_held :: "int list"
  qd_dispatching :: "rstr list"
  qd_async_held :: "rstr list"
  qd_new_replies :: "new_reply_row list"
  qd_events :: "(event_marker \<times> rstr) list"
  qd_outbox :: "delivery list"

datatype store_error =
  QueueJobNotFound rstr
| Integrity rstr
| DeadGenerationTargetHeld rstr
| ForkHandoffUnresolved rstr "rstr option"
| ForkHandoffTargetMoved rstr rstr
| ForkHandoffCycle rstr
| InvalidQueueState rstr
| MirrorMappingChanged int rstr "rstr option"
| QueueJobHasNoTurn rstr
| DeliveryNotFound rstr
| AsyncResolutionHeld rstr
| StatementAborted rstr
| InvalidAppServerManagedTarget rstr

type_synonym 'a stored = "(store_error, 'a) result"

definition select_job :: "queue_db \<Rightarrow> rstr \<Rightarrow> queue_job stored" where
  "select_job db jid = (case find (\<lambda>j. qj_job_id j = jid) (qd_jobs db) of
     None \<Rightarrow> Inl (QueueJobNotFound jid) | Some j \<Rightarrow> Inr j)"

section \<open>Triggers and views of the table\<close>

definition cancelled_row :: "queue_db \<Rightarrow> queue_job \<Rightarrow> bool" where
  "cancelled_row db j = list_ex (\<lambda>(jid, event). jid = qj_job_id j \<or> qj_message j \<noteq> None \<and> event = qj_message j) (qd_cancellations db)"

definition fenced_row :: "queue_db \<Rightarrow> queue_job \<Rightarrow> bool" where
  "fenced_row db j = (qj_target j \<in> set (qd_archive_fences db))"

definition retired_row :: "queue_db \<Rightarrow> rstr \<Rightarrow> bool" where
  "retired_row db jid = list_ex (\<lambda>(_, key). key = jid) (qd_retired db)"

definition frozen_row :: "queue_db \<Rightarrow> rstr \<Rightarrow> bool" where
  "frozen_row db jid = list_ex (\<lambda>(operation, key). key = jid \<and>
     list_ex (\<lambda>d. ds_operation d = operation \<and> ds_phase d \<noteq> lit ''prepared'') (qd_dispositions db)) (qd_retired db)"

definition attributed :: "disposition \<Rightarrow> rstr \<Rightarrow> int \<Rightarrow> bool" where
  "attributed d target channel \<longleftrightarrow>
     ds_phase d \<notin> {lit ''mapping_retired'', lit ''aborted_source_changed''} \<and> ds_target d = target \<or>
     ds_phase d \<noteq> lit ''aborted_source_changed'' \<and> ds_channel d = channel"

definition live_row :: "queue_db \<Rightarrow> queue_job \<Rightarrow> bool" where
  "live_row db j \<longleftrightarrow> \<not> list_ex (\<lambda>d. attributed d (qj_target j) (qj_channel j)) (qd_dispositions db) \<and> \<not> retired_row db (qj_job_id j)"

definition cancelled_text :: rstr where
  "cancelled_text = lit ''request was cancelled by its original sender; no automatic retry''"

text \<open>\<open>UPDATE\<close>: \<open>moves\<close> says that the statement sets the state or the target.\<close>

fun update_rows ::
  "bool \<Rightarrow> (queue_job \<Rightarrow> bool) \<Rightarrow> (queue_job \<Rightarrow> queue_job) \<Rightarrow> queue_db \<Rightarrow> queue_job list \<Rightarrow> (nat \<times> queue_job list) stored" where
  "update_rows moves P f db [] = Inr (0, [])"
| "update_rows moves P f db (j # js) =
     (if \<not> P j then and_then (update_rows moves P f db js) (\<lambda>(n, rest). Inr (n, j # rest))
      else if cancelled_row db (f j) then Inl (StatementAborted cancelled_text)
      else if moves \<and> fenced_row db (f j) then Inl (StatementAborted (lit ''archive fence prevents queue execution or retargeting''))
      else and_then (update_rows moves P f db js) (\<lambda>(n, rest).
        if frozen_row db (qj_job_id j) then Inr (n, j # rest) else Inr (Suc n, f j # rest)))"

definition sql_update :: "bool \<Rightarrow> (queue_job \<Rightarrow> bool) \<Rightarrow> (queue_job \<Rightarrow> queue_job) \<Rightarrow> queue_db \<Rightarrow> (nat \<times> queue_db) stored" where
  "sql_update moves P f db =
     and_then (update_rows moves P f db (qd_jobs db)) (\<lambda>(n, js). Inr (n, db\<lparr>qd_jobs := js\<rparr>))"

definition sql_delete :: "(queue_job \<Rightarrow> bool) \<Rightarrow> queue_db \<Rightarrow> nat \<times> queue_db" where
  "sql_delete P db =
     (let gone = (\<lambda>j. P j \<and> \<not> retired_row db (qj_job_id j))
      in (length (filter gone (qd_jobs db)), db\<lparr>qd_jobs := filter (\<lambda>j. \<not> gone j) (qd_jobs db)\<rparr>))"

text \<open>\<open>INSERT OR IGNORE\<close>: the job id and, when present, the message id are unique.\<close>

definition sql_insert :: "queue_job \<Rightarrow> queue_db \<Rightarrow> (bool \<times> queue_db) stored" where
  "sql_insert j db =
     (if cancelled_row db j then Inl (StatementAborted cancelled_text)
      else if fenced_row db j then Inl (StatementAborted (lit ''archive fence prevents queue handoff''))
      else if retired_row db (qj_job_id j) then Inr (False, db)
      else if list_ex (\<lambda>x. qj_job_id x = qj_job_id j \<or> qj_message j \<noteq> None \<and> qj_message x = qj_message j) (qd_jobs db)
      then Inr (False, db)
      else Inr (True, db\<lparr>qd_jobs := qd_jobs db @ [j],
        qd_retired := qd_retired db @ map (\<lambda>d. (ds_operation d, qj_job_id j))
          (filter (\<lambda>d. attributed d (qj_target j) (qj_channel j)) (qd_dispositions db))\<rparr>))"

definition all_jobs :: "queue_db \<Rightarrow> queue_job list" where
  "all_jobs db = sort_key (\<lambda>j. (qj_created_at j, qj_job_id j)) (filter (live_row db) (qd_jobs db))"

definition list_filtered :: "rstr option \<Rightarrow> int option \<Rightarrow> queue_db \<Rightarrow> queue_job list" where
  "list_filtered target generation db =
     filter (\<lambda>j. (target = None \<or> target = Some (qj_target j)) \<and> (generation = None \<or> generation = Some (qj_generation j)))
       (all_jobs db)"

section \<open>Holds (\<open>dead_generation.rs\<close>, \<open>execution_hold.rs\<close>, \<open>archived_cleanup.rs\<close>)\<close>

definition target_is_held_in :: "queue_db \<Rightarrow> rstr \<Rightarrow> bool" where
  "target_is_held_in db target = (target \<in> set (qd_dead_holds db))"

definition ensure_target_available :: "queue_db \<Rightarrow> rstr \<Rightarrow> unit stored" where
  "ensure_target_available db target = require (\<not> target_is_held_in db target) (DeadGenerationTargetHeld target)"

definition generation_is_sealed_in :: "queue_db \<Rightarrow> int \<Rightarrow> bool" where
  "generation_is_sealed_in db generation = list_ex (\<lambda>(runtime, g). qd_runtime db = Some runtime \<and> g = generation) (qd_incidents db)"

definition job_can_mutate :: "queue_db \<Rightarrow> queue_job \<Rightarrow> bool" where
  "job_can_mutate db j \<longleftrightarrow> \<not> target_is_held_in db (qj_target j) \<and> \<not> generation_is_sealed_in db (qj_generation j)"

definition activate_runtime :: "rstr \<Rightarrow> queue_db \<Rightarrow> queue_db stored" where
  "activate_runtime runtime db = (if trim runtime = [] then Inl (Integrity (lit ''empty app-server runtime identity''))
     else Inr (db\<lparr>qd_runtime := Some runtime\<rparr>))"

definition HELD_PREFIX :: rstr where
  "HELD_PREFIX = lit ''[cdr-rust:execution-held:v1] ''"

definition RESERVE_HOLD_PREFIX :: rstr where
  "RESERVE_HOLD_PREFIX = lit ''[cdr-rust:auto-reserve-hold:v1] ''"

definition reason_in :: "queue_db \<Rightarrow> rstr \<Rightarrow> rstr option" where
  "reason_in db jid = map_option eh_reason (find (\<lambda>h. eh_job h = jid) (qd_exec_holds db))"

definition require_unheld_in :: "queue_db \<Rightarrow> rstr \<Rightarrow> unit stored" where
  "require_unheld_in db jid = (case reason_in db jid of None \<Rightarrow> Inr () | Some reason \<Rightarrow> Inl (Integrity (HELD_PREFIX @ reason)))"

definition hold_in :: "rstr \<Rightarrow> rstr \<Rightarrow> rstr \<Rightarrow> queue_db \<Rightarrow> queue_db" where
  "hold_in jid target reason db = (if reason_in db jid \<noteq> None then db
     else db\<lparr>qd_exec_holds := qd_exec_holds db @ [\<lparr> eh_job = jid, eh_target = target, eh_reason = reason \<rparr>]\<rparr>)"

definition eligible_jobs :: "queue_db \<Rightarrow> queue_job list \<Rightarrow> queue_job list" where
  "eligible_jobs db js = filter (\<lambda>j. job_state j \<noteq> JPending \<or> reason_in db (qj_job_id j) = None) js"

definition legacy_or_current_error :: "rstr \<Rightarrow> bool" where
  "legacy_or_current_error e \<longleftrightarrow> starts_with e HELD_PREFIX \<or> starts_with e RESERVE_HOLD_PREFIX"

definition blocked_in :: "queue_db \<Rightarrow> int option \<Rightarrow> rstr option \<Rightarrow> bool" where
  "blocked_in db channel target = list_ex (\<lambda>d.
     Some (ds_channel d) = channel \<and> ds_phase d \<noteq> lit ''aborted_source_changed'' \<or>
     Some (ds_target d) = target \<and> ds_phase d \<noteq> lit ''aborted_source_changed'' \<and>
       (ds_phase d \<noteq> lit ''mapping_retired'' \<or>
        \<not> list_ex (\<lambda>m. Some (mr_codex_thread m) = target \<and> mr_thread m \<noteq> ds_channel d) (qd_mirrors db)))
     (qd_dispositions db)"

definition assert_admission_in :: "queue_db \<Rightarrow> rstr \<Rightarrow> unit stored" where
  "assert_admission_in db thread = require (thread \<notin> set (qd_async_held db)) (AsyncResolutionHeld thread)"

section \<open>Fork handoffs as fences (\<open>fork_handoff/read.rs\<close>, \<open>storage.rs\<close>)\<close>

definition by_source :: "queue_db \<Rightarrow> rstr \<Rightarrow> fork_handoff option" where
  "by_source db source = find (\<lambda>h. fh_source h = source) (qd_handoffs db)"

definition unresolved_in_connection :: "queue_db \<Rightarrow> rstr \<Rightarrow> fork_handoff option" where
  "unresolved_in_connection db source = opt_filter (\<lambda>h. fh_target h = None) (by_source db source)"

text \<open>\<open>NOT EXISTS (SELECT 1 FROM codex_thread_fork_handoffs \<dots> target_thread_id IS NULL)\<close>\<close>

definition fork_fenced :: "queue_db \<Rightarrow> rstr \<Rightarrow> bool" where
  "fork_fenced db source = list_ex (\<lambda>h. fh_source h = source \<and> fh_target h = None) (qd_handoffs db)"

definition ensure_no_unresolved_handoff :: "queue_db \<Rightarrow> rstr \<Rightarrow> unit stored" where
  "ensure_no_unresolved_handoff db target = (case unresolved_in_connection db target of
     None \<Rightarrow> Inr ()
   | Some h \<Rightarrow> Inl (ForkHandoffUnresolved target (if trim (fh_last_error h) = [] then None else Some (fh_last_error h))))"

text \<open>A completed handoff is one with a target: the table checks that target and completion time are set together.\<close>

definition completed_target_for_source :: "queue_db \<Rightarrow> rstr \<Rightarrow> rstr option" where
  "completed_target_for_source db source = Option.bind (find (\<lambda>h. fh_source h = source \<and> fh_target h \<noteq> None) (qd_handoffs db)) fh_target"

definition ensure_source_not_moved :: "queue_db \<Rightarrow> rstr \<Rightarrow> unit stored" where
  "ensure_source_not_moved db source = (if qd_exact_routing db then Inr ()
     else case completed_target_for_source db source of None \<Rightarrow> Inr () | Some t \<Rightarrow> Inl (ForkHandoffTargetMoved source t))"

lemma completed_source_in: "completed_target_for_source db source = Some t \<Longrightarrow> source \<in> fh_source ` set (qd_handoffs db)"
  by (auto simp: completed_target_for_source_def Option.bind_eq_Some_conv dest!: find_Some_set)

text \<open>Follows completed handoffs; each step visits a source of the table that was not visited before, or ends.\<close>

function follow_handoffs :: "queue_db \<Rightarrow> rstr \<Rightarrow> rstr list \<Rightarrow> rstr \<Rightarrow> rstr stored" where
  "follow_handoffs db source visited current =
     (if current \<in> set visited then Inl (ForkHandoffCycle source)
      else and_then (ensure_target_available db current) (\<lambda>_.
        case completed_target_for_source db current of
          None \<Rightarrow> Inr current
        | Some t \<Rightarrow> follow_handoffs db source (current # visited) t))"
  by pat_completeness auto

termination
proof (relation "measure (\<lambda>(db, _, visited, _). card (fh_source ` set (qd_handoffs db) - set visited))", goal_cases)
  case (2 db source visited current x t)
  then have "current \<in> fh_source ` set (qd_handoffs db) - set visited" using completed_source_in by simp
  then have "fh_source ` set (qd_handoffs db) - set (current # visited) \<subset> fh_source ` set (qd_handoffs db) - set visited" by auto
  from psubset_card_mono [OF _ this] show ?case by simp
qed simp

definition canonical_completed_target :: "queue_db \<Rightarrow> rstr \<Rightarrow> rstr stored" where
  "canonical_completed_target db source =
     (if qd_exact_routing db then and_then (ensure_target_available db source) (\<lambda>_. Inr source)
      else follow_handoffs db source [] source)"

section \<open>Enqueueing (\<open>write/enqueue.rs\<close>)\<close>

definition before_enqueue :: "rstr \<Rightarrow> queue_db \<Rightarrow> queue_db stored" where
  "before_enqueue thread db = (case find (\<lambda>i. ii_thread i = thread) (qd_idle db) of
     None \<Rightarrow> Inr db
   | Some i \<Rightarrow>
       if ii_state i = lit ''Candidate'' then Inr (db\<lparr>qd_idle := map (\<lambda>x. if x = i
         then x\<lparr>ii_state := lit ''Settled'', ii_detail := lit ''CancelledBeforeSend'', ii_revision := ii_revision x + 1\<rparr> else x) (qd_idle db)\<rparr>)
       else if ii_state i \<in> {lit ''Settled'', lit ''AwaitUnload''} then Inr db
       else Inl (Integrity (lit ''idle release '' @ ii_state i @ lit '' requires review for thread '' @ thread @
         lit ''; new prompt was not enqueued: '' @ ii_detail i)))"

definition require_unheld_origin_in :: "int option \<Rightarrow> queue_db \<Rightarrow> unit stored" where
  "require_unheld_origin_in event db = (case event of None \<Rightarrow> Inr ()
     | Some e \<Rightarrow> require (e \<notin> set (qd_stop_held db)) (Integrity (lit ''stop custody differs or could not be preserved; no stop acceptance'')))"

definition new_row :: "new_queue_job \<Rightarrow> queue_job" where
  "new_row n = \<lparr> qj_job_id = nj_job_id n, qj_target = nj_target n, qj_channel = nj_channel n, qj_owner = nj_owner n,
     qj_message = nj_message n, qj_generation = nj_generation n, qj_execution_generation = None,
     qj_observation_generation = None, qj_goal_waiting = False, qj_prompt = nj_prompt n, qj_queued = nj_queued n,
     qj_ack_sent = nj_ack_sent n, qj_raw = RPending, qj_attempts = 0, qj_turn_id = None, qj_baseline = [],
     qj_last_error = [], qj_created_at = nj_created_at n, qj_updated_at = nj_created_at n \<rparr>"

definition select_by_message :: "queue_db \<Rightarrow> int \<Rightarrow> queue_job stored" where
  "select_by_message db message = (case find (\<lambda>j. qj_message j = Some message) (qd_jobs db) of
     None \<Rightarrow> Inl (QueueJobNotFound (if message < 0 then lit ''-'' @ decimal (nat (- message)) else decimal (nat message)))
   | Some j \<Rightarrow> select_job db (qj_job_id j))"

text \<open>The result: the stored job, and whether this call created it.\<close>

definition enqueue :: "new_queue_job \<Rightarrow> queue_db \<Rightarrow> ((queue_job \<times> bool) \<times> queue_db) stored" where
  "enqueue n db0 =
     and_then (before_enqueue (nj_target n) db0) (\<lambda>db1.
     and_then (require_unheld_origin_in (nj_message n) db1) (\<lambda>_.
     and_then (require (nj_target n \<notin> set (qd_dispatching db1))
       (Integrity (lit ''async question reply outcome is unconfirmed; target held without automatic retry''))) (\<lambda>_.
     and_then (ensure_no_unresolved_handoff db1 (nj_target n)) (\<lambda>_.
     and_then (ensure_source_not_moved db1 (nj_target n)) (\<lambda>_.
     and_then (sql_insert (new_row n) db1) (\<lambda>(created, db2).
     and_then (case nj_message n of
         Some message \<Rightarrow> if created then select_job db2 (nj_job_id n) else select_by_message db2 message
       | None \<Rightarrow> select_job db2 (nj_job_id n)) (\<lambda>job.
     Inr ((job, created), db2))))))))"

definition strict_mirror_target :: "queue_db \<Rightarrow> int \<Rightarrow> rstr option" where
  "strict_mirror_target db channel =
     (let exact = filter (\<lambda>m. mr_thread m = channel) (qd_mirrors db); project = filter (\<lambda>m. mr_channel m = channel) (qd_mirrors db)
      in if length exact = 1 then Some (mr_codex_thread (hd exact))
         else if exact \<noteq> [] then None
         else if length project = 1 then Some (mr_codex_thread (hd project)) else None)"

definition ensure_mirror_matches :: "queue_db \<Rightarrow> new_queue_job \<Rightarrow> int \<Rightarrow> rstr \<Rightarrow> unit stored" where
  "ensure_mirror_matches db n channel target =
     require (strict_mirror_target db channel = Some target \<and> nj_channel n = channel \<and> nj_target n = target)
       (MirrorMappingChanged channel target (strict_mirror_target db channel))"

definition enqueue_if_mirror_matches :: "new_queue_job \<Rightarrow> int \<Rightarrow> rstr \<Rightarrow> queue_db \<Rightarrow> ((queue_job \<times> bool) \<times> queue_db) stored" where
  "enqueue_if_mirror_matches n channel target db =
     and_then (ensure_mirror_matches db n channel target) (\<lambda>_. enqueue n db)"

section \<open>Attempts (\<open>write/attempt.rs\<close>, \<open>failure.rs\<close>)\<close>

definition I64_MAX :: int where
  "I64_MAX = 9223372036854775807"

definition next_attempt :: "int \<Rightarrow> int" where
  "next_attempt n = (if n < I64_MAX then n + 1 else n)"

definition bounded_error :: "rstr \<Rightarrow> rstr" where
  "bounded_error e = take 1000 (trim e)"

definition bind_running_in :: "queue_job \<Rightarrow> queue_db \<Rightarrow> queue_db stored" where
  "bind_running_in j db =
     (if job_state j \<noteq> JRunning then Inr db
      else case find (\<lambda>r. nr_job r = qj_job_id j) (qd_new_replies db) of
        None \<Rightarrow> Inr db
      | Some r \<Rightarrow> (case qj_turn_id j of
          None \<Rightarrow> Inr db
        | Some turn \<Rightarrow>
            if nr_thread r \<noteq> qj_target j \<or> nr_channel r \<noteq> qj_channel j
            then Inl (Integrity (lit ''new first-turn binding changed its destination''))
            else if nr_turn r \<noteq> None then Inr db
            else Inr (db\<lparr>qd_new_replies := map (\<lambda>x. if nr_job x = qj_job_id j \<and> nr_turn x = None
              then x\<lparr>nr_turn := Some turn\<rparr> else x) (qd_new_replies db)\<rparr>)))"

text \<open>The marker carries the SHA-256 digest of the trimmed prompt; here it carries the prompt.\<close>

definition record_event :: "event_marker \<Rightarrow> rstr \<Rightarrow> queue_db \<Rightarrow> queue_db" where
  "record_event marker thread db = (if list_ex (\<lambda>(m, _). m = marker) (qd_events db) then db
     else db\<lparr>qd_events := qd_events db @ [(marker, thread)]\<rparr>)"

definition record_job_origin :: "queue_job \<Rightarrow> queue_db \<Rightarrow> queue_db" where
  "record_job_origin j db = (case qj_turn_id j of None \<Rightarrow> db
     | Some turn \<Rightarrow> record_event (UserOrigin (qj_target j) turn (trim (qj_prompt j))) (qj_target j) db)"

definition claimed_result :: "rstr \<Rightarrow> nat \<Rightarrow> queue_db \<Rightarrow> (queue_job option \<times> queue_db) stored" where
  "claimed_result jid updated db =
     (if updated \<noteq> 1 then Inr (None, db)
      else and_then (select_job db jid) (\<lambda>j.
           and_then (bind_running_in j db) (\<lambda>db1. Inr (Some j, record_job_origin j db1))))"

definition try_begin_attempt :: "rstr \<Rightarrow> rstr list \<Rightarrow> int \<Rightarrow> rat \<Rightarrow> queue_db \<Rightarrow> (queue_job option \<times> queue_db) stored" where
  "try_begin_attempt jid baseline generation now db =
     (case select_job db jid of
        Inl _ \<Rightarrow> Inr (None, db)
      | Inr candidate \<Rightarrow>
          if blocked_in db (Some (qj_channel candidate)) (Some (qj_target candidate)) \<or> retired_row db jid then Inr (None, db)
          else and_then (assert_admission_in db (qj_target candidate)) (\<lambda>_.
            if \<not> job_can_mutate db candidate \<or> reason_in db jid \<noteq> None \<or> starts_with (qj_last_error candidate) RESERVE_HOLD_PREFIX
            then Inr (None, db)
            else and_then (sql_update True
              (\<lambda>j. qj_job_id j = jid \<and> qj_generation j = generation \<and> qj_raw j = RPending \<and> \<not> fork_fenced db (qj_target j))
              (\<lambda>j. j\<lparr>qj_raw := RStarting, qj_execution_generation := Some generation, qj_observation_generation := None,
                 qj_goal_waiting := False, qj_attempts := next_attempt (qj_attempts j), qj_turn_id := None,
                 qj_baseline := baseline, qj_last_error := [], qj_updated_at := now\<rparr>) db)
              (\<lambda>(updated, db1). claimed_result jid updated db1)))"

text \<open>The compare-and-set both outcomes of a start use: the row is still the claimed attempt, starting and without a turn.\<close>

definition claim_stands :: "queue_db \<Rightarrow> queue_job \<Rightarrow> queue_job \<Rightarrow> bool" where
  "claim_stands db claimed j \<longleftrightarrow> qj_job_id j = qj_job_id claimed \<and> qj_target j = qj_target claimed \<and>
     qj_generation j = qj_generation claimed \<and> qj_attempts j = qj_attempts claimed \<and> qj_updated_at j = qj_updated_at claimed \<and>
     qj_baseline j = qj_baseline claimed \<and> qj_raw j = RStarting \<and> qj_turn_id j = None \<and> \<not> fork_fenced db (qj_target j)"

definition matching_baseline :: "queue_db \<Rightarrow> queue_job \<Rightarrow> bool" where
  "matching_baseline db claimed = (case select_job db (qj_job_id claimed) of
     Inl _ \<Rightarrow> False | Inr j \<Rightarrow> qj_baseline j = qj_baseline claimed)"

text \<open>\<open>late_stop\<close> is the answer of \<open>bind_late_start_in\<close>, which is asked when the resident identity is known.\<close>

definition mark_running_with_resident_if_claimed ::
  "queue_job \<Rightarrow> rstr \<Rightarrow> unit stored option \<Rightarrow> rat \<Rightarrow> queue_db \<Rightarrow> (queue_job option \<times> queue_db) stored" where
  "mark_running_with_resident_if_claimed claimed turn_id late_stop now db =
     (if \<not> job_can_mutate db claimed \<or> \<not> matching_baseline db claimed then Inr (None, db)
      else and_then (sql_update True (claim_stands db claimed)
        (\<lambda>j. j\<lparr>qj_raw := RRunning, qj_observation_generation := Some (qj_generation j), qj_goal_waiting := False,
           qj_turn_id := Some turn_id, qj_updated_at := now\<rparr>) db) (\<lambda>(updated, db1).
        and_then (if updated \<noteq> 1 then Inr ()
          else and_then (select_job db1 (qj_job_id claimed)) (\<lambda>running.
            if qj_turn_id running \<noteq> Some turn_id
            then Inl (Integrity (lit ''queue ACK turn differs from backend response; original Starting preserved''))
            else case late_stop of None \<Rightarrow> Inr () | Some answer \<Rightarrow> answer)) (\<lambda>_.
        claimed_result (qj_job_id claimed) updated db1)))"

definition mark_running_if_claimed :: "queue_job \<Rightarrow> rstr \<Rightarrow> rat \<Rightarrow> queue_db \<Rightarrow> (queue_job option \<times> queue_db) stored" where
  "mark_running_if_claimed claimed turn_id now db = mark_running_with_resident_if_claimed claimed turn_id None now db"

text \<open>The sender's notice: \<open>Failed\<close>, that the usage limit refused the start (in Korean), the job, the reason, and that the request will
  not run again by itself.\<close>

definition start_notice_head :: rstr where
  "start_notice_head = lit ''Failed'' @ [10, 49324, 50857, 47049, 32, 54620, 46020, 47196, 32, 50836, 52397, 32, 49884, 51089, 51060, 32,
     44144, 51208, 46096, 49845, 45768, 45796] @ lit ''.'' @ [10] @ lit ''job: ''"

definition start_notice_tail :: rstr where
  "start_notice_tail = [10, 51060, 32, 50836, 52397, 51008, 32, 51088, 46041, 32, 51116, 49892, 54665, 54616, 51648, 32, 50506, 49845, 45768,
     45796] @ lit ''. '' @ [54596, 50836, 54616, 47732, 32, 47784, 45944, 51012, 32, 49688, 46041, 51004, 47196, 32, 48320,
     44221, 54620, 32, 46244, 32, 49352, 32, 50836, 52397, 51012, 32, 48372, 45236, 49464, 50836] @ lit ''.''"

definition start_notice_reason :: "rstr \<Rightarrow> rstr" where
  "start_notice_reason reason = take 700 (case strip_prefix HELD_PREFIX reason of Some rest \<Rightarrow> rest
     | None \<Rightarrow> (case strip_prefix RESERVE_HOLD_PREFIX reason of Some rest \<Rightarrow> rest | None \<Rightarrow> reason))"

definition stage_start_notice :: "queue_job \<Rightarrow> rstr \<Rightarrow> queue_db \<Rightarrow> queue_db" where
  "stage_start_notice j reason db = (if list_ex (\<lambda>x. sn_job x = qj_job_id j) (qd_start_notices db) then db
     else db\<lparr>qd_start_notices := qd_start_notices db @ [\<lparr> sn_job = qj_job_id j, sn_target = qj_target j, sn_channel = qj_channel j,
       sn_generation = qj_generation j, sn_attempts = qj_attempts j,
       sn_content = start_notice_head @ qj_job_id j @ [10] @ start_notice_reason reason @ start_notice_tail \<rparr>]\<rparr>)"

definition record_start_failure_if_claimed ::
  "queue_job \<Rightarrow> rstr \<Rightarrow> bool \<Rightarrow> rat \<Rightarrow> queue_db \<Rightarrow> (queue_job option \<times> queue_db) stored" where
  "record_start_failure_if_claimed claimed error ambiguous now db =
     (if \<not> job_can_mutate db claimed \<or> \<not> matching_baseline db claimed then Inr (None, db)
      else and_then (sql_update True (claim_stands db claimed)
        (\<lambda>j. j\<lparr>qj_raw := (if ambiguous then RStarting else RPending), qj_last_error := bounded_error error, qj_updated_at := now\<rparr>) db)
        (\<lambda>(updated, db1).
        let db2 = (if updated = 1 \<and> \<not> ambiguous \<and> legacy_or_current_error error
          then stage_start_notice claimed (bounded_error error) (hold_in (qj_job_id claimed) (qj_target claimed) (bounded_error error) db1)
          else db1)
        in claimed_result (qj_job_id claimed) updated db2))"

definition record_preflight_failure :: "rstr \<Rightarrow> int \<Rightarrow> rstr \<Rightarrow> rat \<Rightarrow> queue_db \<Rightarrow> (queue_job option \<times> queue_db) stored" where
  "record_preflight_failure jid generation error now db =
     and_then (sql_update False (\<lambda>j. qj_job_id j = jid \<and> qj_generation j = generation \<and> qj_raw j = RPending)
       (\<lambda>j. j\<lparr>qj_attempts := next_attempt (qj_attempts j), qj_last_error := bounded_error error, qj_updated_at := now\<rparr>) db)
     (\<lambda>(updated, db1). if updated \<noteq> 1 then Inr (None, db1) else and_then (select_job db1 jid) (\<lambda>j. Inr (Some j, db1)))"

text \<open>The unconditional writes, kept for callers that hold the row already.\<close>

definition update_job :: "rstr \<Rightarrow> int \<Rightarrow> (queue_job \<Rightarrow> queue_job) \<Rightarrow> queue_db \<Rightarrow> (queue_job \<times> queue_db) stored" where
  "update_job jid generation f db =
     and_then (require_unheld_in db jid) (\<lambda>_.
     and_then (select_job db jid) (\<lambda>original.
     and_then (require (job_can_mutate db original) (DeadGenerationTargetHeld (qj_target original))) (\<lambda>_.
     and_then (sql_update True (\<lambda>j. qj_job_id j = jid \<and> qj_generation j = generation) f db) (\<lambda>(updated, db1).
     and_then (require (updated = 1) (QueueJobNotFound jid)) (\<lambda>_.
     and_then (select_job db1 jid) (\<lambda>j.
     and_then (bind_running_in j db1) (\<lambda>db2. Inr (j, record_job_origin j db2))))))))"

definition begin_attempt :: "rstr \<Rightarrow> rstr list \<Rightarrow> int \<Rightarrow> rat \<Rightarrow> queue_db \<Rightarrow> (queue_job \<times> queue_db) stored" where
  "begin_attempt jid baseline generation now db = update_job jid generation
     (\<lambda>j. j\<lparr>qj_raw := RStarting, qj_execution_generation := Some (qj_generation j), qj_observation_generation := None,
        qj_goal_waiting := False, qj_attempts := next_attempt (qj_attempts j), qj_turn_id := None, qj_baseline := baseline,
        qj_last_error := [], qj_updated_at := now\<rparr>) db"

definition mark_running :: "rstr \<Rightarrow> rstr \<Rightarrow> int \<Rightarrow> rat \<Rightarrow> queue_db \<Rightarrow> (queue_job \<times> queue_db) stored" where
  "mark_running jid turn_id generation now db = update_job jid generation
     (\<lambda>j. j\<lparr>qj_raw := RRunning, qj_observation_generation := Some (qj_generation j), qj_goal_waiting := False,
        qj_turn_id := Some turn_id, qj_updated_at := now\<rparr>) db"

definition record_start_failure :: "rstr \<Rightarrow> int \<Rightarrow> rstr \<Rightarrow> bool \<Rightarrow> rat \<Rightarrow> queue_db \<Rightarrow> (queue_job \<times> queue_db) stored" where
  "record_start_failure jid generation error ambiguous now db =
     and_then (select_job db jid) (\<lambda>original.
     and_then (require (job_can_mutate db original) (DeadGenerationTargetHeld (qj_target original))) (\<lambda>_.
     and_then (sql_update True (\<lambda>j. qj_job_id j = jid \<and> qj_generation j = generation)
       (\<lambda>j. j\<lparr>qj_raw := (if ambiguous then RStarting else RPending), qj_last_error := bounded_error error, qj_updated_at := now\<rparr>) db)
       (\<lambda>(updated, db1).
     and_then (require (updated = 1) (QueueJobNotFound jid)) (\<lambda>_.
     and_then (select_job db1 jid) (\<lambda>j. Inr (j, db1))))))"

section \<open>Removal and adoption (\<open>write.rs\<close>, \<open>generation.rs\<close>, \<open>delivery.rs\<close>)\<close>

definition queue_complete :: "rstr \<Rightarrow> queue_db \<Rightarrow> bool \<times> queue_db" where
  "queue_complete jid db = (let (n, db1) = sql_delete (\<lambda>j. qj_job_id j = jid \<and> \<not> target_is_held_in db (qj_target j)) db in (n = 1, db1))"

definition delete_observed :: "queue_job list \<Rightarrow> queue_db \<Rightarrow> queue_db" where
  "delete_observed js db = fold (\<lambda>j d. snd (sql_delete (\<lambda>x. qj_job_id x = qj_job_id j \<and> qj_generation x = qj_generation j) d)) js db"

definition discard_for_generation :: "int option \<Rightarrow> queue_db \<Rightarrow> queue_job list \<times> queue_db" where
  "discard_for_generation current db =
     (let js = filter (\<lambda>j. case current of None \<Rightarrow> True | Some g \<Rightarrow> qj_generation j \<noteq> g) (all_jobs db) in (js, delete_observed js db))"

definition discard_observed :: "queue_job list \<Rightarrow> queue_db \<Rightarrow> queue_job list \<times> queue_db" where
  "discard_observed observed db =
     (let js = filter (\<lambda>j. list_ex (\<lambda>i. qj_job_id i = qj_job_id j \<and> qj_generation i = qj_generation j) observed) (all_jobs db)
      in (js, delete_observed js db))"

definition queue_flush :: "rstr \<Rightarrow> int \<Rightarrow> queue_db \<Rightarrow> queue_job list \<times> queue_db" where
  "queue_flush target generation db =
     (let js = filter (\<lambda>j. qj_target j = target \<and> qj_generation j = generation) (all_jobs db) in (js, delete_observed js db))"

definition queue_retract :: "rstr \<Rightarrow> int option \<Rightarrow> int option \<Rightarrow> queue_db \<Rightarrow> (queue_job option \<times> queue_db) stored" where
  "queue_retract target channel owner db =
     and_then (ensure_no_unresolved_handoff db target) (\<lambda>_.
     and_then (ensure_source_not_moved db target) (\<lambda>_.
       let selected = find (\<lambda>j. qj_target j = target \<and> job_state j = JPending \<and> (channel = None \<or> channel = Some (qj_channel j)) \<and>
             (owner = None \<or> owner = qj_owner j)) (rev (all_jobs db))
       in Inr (selected, case selected of None \<Rightarrow> db | Some j \<Rightarrow> snd (sql_delete (\<lambda>x. qj_job_id x = qj_job_id j) db))))"

definition adopt_where :: "(queue_job \<Rightarrow> bool) \<Rightarrow> int \<Rightarrow> queue_db \<Rightarrow> (nat \<times> queue_db) stored" where
  "adopt_where P generation db = sql_update False
     (\<lambda>j. P j \<and> qj_raw j = RPending \<and> qj_generation j \<noteq> generation \<and> \<not> target_is_held_in db (qj_target j))
     (\<lambda>j. j\<lparr>qj_generation := generation\<rparr>) db"

definition adopt_generation :: "int \<Rightarrow> queue_db \<Rightarrow> ((queue_job list \<times> nat) \<times> queue_db) stored" where
  "adopt_generation generation db =
     and_then (adopt_where (\<lambda>_. True) generation db) (\<lambda>(n, db1). Inr ((all_jobs db1, n), db1))"

definition adopt_target_generation :: "rstr \<Rightarrow> int \<Rightarrow> queue_db \<Rightarrow> ((queue_job list \<times> nat) \<times> queue_db) stored" where
  "adopt_target_generation target generation db =
     and_then (adopt_where (\<lambda>j. qj_target j = target) generation db)
       (\<lambda>(n, db1). Inr ((filter (\<lambda>j. qj_target j = target) (all_jobs db1), n), db1))"

text \<open>\<open>settled\<close> is the answer of \<open>async_question::reconcile_job_in\<close> and \<open>async_resolution::settle_owned_in\<close>, which write
  tables of their own; \<open>idle\<close> is the idle-release table as \<open>idle_release::stage_candidate\<close> leaves it, when it is asked.\<close>

definition outbox_insert :: "delivery \<Rightarrow> queue_db \<Rightarrow> queue_db" where
  "outbox_insert d db = (if list_ex (\<lambda>x. dl_id x = dl_id d \<or> dl_job x = dl_job d) (qd_outbox db) then db
     else db\<lparr>qd_outbox := qd_outbox db @ [d]\<rparr>)"

definition outbox_select :: "queue_db \<Rightarrow> rstr \<Rightarrow> delivery stored" where
  "outbox_select db d = (case find (\<lambda>x. dl_id x = d) (qd_outbox db) of None \<Rightarrow> Inl (DeliveryNotFound d) | Some x \<Rightarrow> Inr x)"

definition completion_owned :: "queue_db \<Rightarrow> queue_job \<Rightarrow> queue_job \<Rightarrow> bool" where
  "completion_owned db expected j \<longleftrightarrow> j = expected \<and> job_state j = JRunning \<and>
     length (filter (\<lambda>x. qj_target x = qj_target expected \<and> qj_turn_id expected \<noteq> None \<and> qj_turn_id x = qj_turn_id expected \<and>
       qj_raw x = RRunning) (qd_jobs db)) = 1"

definition stage_rows :: "queue_job \<Rightarrow> rstr \<Rightarrow> rstr \<Rightarrow> rat \<Rightarrow> queue_db \<Rightarrow> queue_db" where
  "stage_rows j turn content now db =
     (let db1 = outbox_insert \<lparr> dl_id = qj_job_id j, dl_job = qj_job_id j, dl_target = qj_target j, dl_turn = turn,
            dl_channel = qj_channel j, dl_content = content, dl_attempts = 0, dl_last_error = [], dl_created_at = now,
            dl_updated_at = now \<rparr> (record_job_origin j db);
          db2 = record_event (TurnOrigin (qj_target j) turn) (qj_target j) db1
      in snd (sql_delete (\<lambda>x. qj_job_id x = qj_job_id j) db2))"

definition stage_completion_inner ::
  "rstr \<Rightarrow> rstr \<Rightarrow> rat \<Rightarrow> unit stored \<Rightarrow> idle_intent list option \<Rightarrow> queue_job option \<Rightarrow> queue_db \<Rightarrow> (delivery \<times> queue_db) stored" where
  "stage_completion_inner jid content now settled idle expected db =
     and_then (select_job db jid) (\<lambda>j.
     and_then (require (case expected of None \<Rightarrow> True | Some e \<Rightarrow> completion_owned db e j)
       (InvalidQueueState (lit ''completion ownership changed before commit''))) (\<lambda>_.
     and_then (ensure_target_available db (qj_target j)) (\<lambda>_.
     and_then (case qj_turn_id j of None \<Rightarrow> Inl (QueueJobHasNoTurn jid) | Some turn \<Rightarrow> Inr turn) (\<lambda>turn.
     and_then settled (\<lambda>_.
     and_then (outbox_select (stage_rows j turn content now db) (qj_job_id j)) (\<lambda>d.
     Inr (d, (case idle of None \<Rightarrow> id | Some table \<Rightarrow> qd_idle_update (\<lambda>_. table)) (stage_rows j turn content now db))))))))"

definition delivery_record_failure :: "rstr \<Rightarrow> rstr \<Rightarrow> rat \<Rightarrow> queue_db \<Rightarrow> (delivery \<times> queue_db) stored" where
  "delivery_record_failure d error now db =
     (let db1 = db\<lparr>qd_outbox := map (\<lambda>x. if dl_id x = d
        then x\<lparr>dl_attempts := dl_attempts x + 1, dl_last_error := bounded_error error, dl_updated_at := now\<rparr> else x) (qd_outbox db)\<rparr>
      in and_then (require (length (filter (\<lambda>x. dl_id x = d) (qd_outbox db)) = 1) (DeliveryNotFound d)) (\<lambda>_.
         and_then (outbox_select db1 d) (\<lambda>x. Inr (x, db1))))"

definition delivery_complete :: "rstr \<Rightarrow> queue_db \<Rightarrow> bool \<times> queue_db" where
  "delivery_complete d db = (length (filter (\<lambda>x. dl_id x = d) (qd_outbox db)) = 1,
     db\<lparr>qd_outbox := filter (\<lambda>x. dl_id x \<noteq> d) (qd_outbox db)\<rparr>)"

section \<open>Goal turns (\<open>goal.rs\<close>)\<close>

definition mark_goal_waiting :: "rstr \<Rightarrow> rstr \<Rightarrow> int \<Rightarrow> rat \<Rightarrow> queue_db \<Rightarrow> (bool \<times> queue_db) stored" where
  "mark_goal_waiting jid turn generation now db =
     and_then (sql_update False (\<lambda>j. qj_job_id j = jid \<and> qj_turn_id j = Some turn \<and> qj_raw j = RRunning \<and>
         qj_generation j = generation \<and> \<not> target_is_held_in db (qj_target j))
       (\<lambda>j. j\<lparr>qj_goal_waiting := True, qj_updated_at := now\<rparr>) db) (\<lambda>(n, db1). Inr (n = 1, db1))"

definition set_goal_turn :: "rstr \<Rightarrow> rstr \<Rightarrow> int \<Rightarrow> rat \<Rightarrow> queue_db \<Rightarrow> (nat \<times> queue_db) stored" where
  "set_goal_turn jid turn observed now db = sql_update False (\<lambda>j. qj_job_id j = jid)
     (\<lambda>j. j\<lparr>qj_turn_id := Some turn, qj_observation_generation := Some observed, qj_goal_waiting := False, qj_updated_at := now\<rparr>) db"

definition attach_goal_turn :: "rstr \<Rightarrow> rstr \<Rightarrow> int \<Rightarrow> rat \<Rightarrow> queue_db \<Rightarrow> (bool \<times> queue_db) stored" where
  "attach_goal_turn target turn generation now db =
     (if target_is_held_in db target then Inr (False, db)
      else case filter (\<lambda>j. qj_target j = target \<and> qj_raw j = RRunning \<and> qj_goal_waiting j \<and> qj_generation j = generation) (qd_jobs db) of
        [] \<Rightarrow> Inr (False, db)
      | [j] \<Rightarrow> and_then (set_goal_turn (qj_job_id j) turn generation now db) (\<lambda>(_, db1). Inr (True, db1))
      | _ \<Rightarrow> Inl (InvalidQueueState (lit ''multiple goal-waiting jobs for '' @ target)))"

text \<open>\<open>handed_off\<close> is the answer of \<open>async_resolution::handoff_owned_in\<close>.\<close>

definition attach_goal_turn_observed_if_owned ::
  "queue_job \<Rightarrow> rstr \<Rightarrow> int \<Rightarrow> unit stored \<Rightarrow> rat \<Rightarrow> queue_db \<Rightarrow> (bool \<times> queue_db) stored" where
  "attach_goal_turn_observed_if_owned expected turn observed handed_off now db =
     (if observed < 0 \<or> job_state expected \<noteq> JRunning \<or> \<not> qj_goal_waiting expected \<or> qj_turn_id expected = None \<or>
         qj_turn_id expected = Some turn \<or> trim turn = [] then Inr (False, db)
      else if target_is_held_in db (qj_target expected) then Inr (False, db)
      else
        let owners = filter (\<lambda>j. qj_target j = qj_target expected \<and> qj_raw j = RRunning) (qd_jobs db) in
        if length owners > 1 then Inl (InvalidQueueState (lit ''multiple running jobs for '' @ qj_target expected))
        else if owners = [] \<or> qj_job_id (hd owners) \<noteq> qj_job_id expected then Inr (False, db)
        else and_then (select_job db (qj_job_id expected)) (\<lambda>current.
          if current \<noteq> expected then Inr (False, db)
          else if list_ex (\<lambda>(m, thread). m = TurnOrigin (qj_target expected) turn \<and> thread = qj_target expected) (qd_events db)
          then Inr (False, db)
          else and_then (set_goal_turn (qj_job_id expected) turn observed now db) (\<lambda>(n, db1).
            and_then (if n = 1 then handed_off else Inr ()) (\<lambda>_. Inr (n = 1, db1)))))"

definition attach_goal_turn_if_owned :: "queue_job \<Rightarrow> rstr \<Rightarrow> unit stored \<Rightarrow> rat \<Rightarrow> queue_db \<Rightarrow> (bool \<times> queue_db) stored" where
  "attach_goal_turn_if_owned expected turn handed_off now db =
     attach_goal_turn_observed_if_owned expected turn (completion_evidence_generation expected) handed_off now db"

section \<open>Ambiguous starts (\<open>starting_hold.rs\<close>)\<close>

definition STARTING_CANDIDATE_HOLD_PREFIX :: rstr where
  "STARTING_CANDIDATE_HOLD_PREFIX = lit ''[cdr-rust:turn-start-candidates-ambiguous:v1] ''"

definition NOTICE_PREFIX :: rstr where
  "NOTICE_PREFIX = lit ''turn-start-candidates-ambiguous:''"

record candidate_summary =
  cs_count :: nat
  cs_marker_ids :: "rstr list"
  cs_notice_ids :: "rstr list"

text \<open>A \<open>BTreeSet\<close> of strings iterates in the order of their bytes, which is that of their code points.\<close>

definition candidate_summary_new :: "rstr list \<Rightarrow> candidate_summary" where
  "candidate_summary_new ids = (let unique = sort (remdups ids) in
     \<lparr> cs_count = length unique, cs_marker_ids = map (take 80) (take 4 unique), cs_notice_ids = map (take 120) (take 8 unique) \<rparr>)"

definition previous_error :: "rstr \<Rightarrow> rstr" where
  "previous_error e = (if starts_with (trim e) (lit ''[cdr-rust:'') then [] else take 400 (trim e))"

text \<open>\<open>json\<close> prints a list of strings.\<close>

definition hold_marker :: "(rstr list \<Rightarrow> rstr) \<Rightarrow> queue_job \<Rightarrow> candidate_summary \<Rightarrow> rstr" where
  "hold_marker json claimed c =
     (let previous = previous_error (qj_last_error claimed);
          suffix = (if previous = [] then [] else lit ''; previous_error='' @ previous)
      in take 1000 (STARTING_CANDIDATE_HOLD_PREFIX @ lit ''candidate_count='' @ decimal (cs_count c) @ lit ''; candidate_turn_ids='' @
           json (cs_marker_ids c) @ lit ''; candidate_ids_listed='' @ decimal (length (cs_marker_ids c)) @ suffix))"

definition hold_notice :: "(rstr list \<Rightarrow> rstr) \<Rightarrow> queue_job \<Rightarrow> candidate_summary \<Rightarrow> rstr" where
  "hold_notice json held c = take 1900 (lit ''Codex could not safely determine which turn belongs to queued job '' @ qj_job_id held @
     lit '' on thread '' @ qj_target held @ lit ''. The target queue is held, so later queued requests will not start until this is resolved. Candidate turns: count='' @
     decimal (cs_count c) @ lit '', listed='' @ decimal (length (cs_notice_ids c)) @ lit '' '' @ json (cs_notice_ids c))"

text \<open>Every column of the claimed row but the two generations of its execution is compared.\<close>

definition exact_starting :: "queue_db \<Rightarrow> queue_job \<Rightarrow> queue_job \<Rightarrow> bool" where
  "exact_starting db claimed j \<longleftrightarrow> qj_job_id j = qj_job_id claimed \<and> qj_target j = qj_target claimed \<and> qj_channel j = qj_channel claimed \<and>
     qj_owner j = qj_owner claimed \<and> qj_message j = qj_message claimed \<and> qj_generation j = qj_generation claimed \<and>
     qj_prompt j = qj_prompt claimed \<and> qj_queued j = qj_queued claimed \<and> qj_ack_sent j = qj_ack_sent claimed \<and>
     qj_raw j = RStarting \<and> qj_attempts j = qj_attempts claimed \<and> qj_turn_id j = None \<and> qj_baseline j = qj_baseline claimed \<and>
     qj_last_error j = qj_last_error claimed \<and> qj_created_at j = qj_created_at claimed \<and> qj_updated_at j = qj_updated_at claimed \<and>
     qj_goal_waiting j = qj_goal_waiting claimed \<and> \<not> fork_fenced db (qj_target j)"

definition exact_starting_snapshot_matches :: "queue_db \<Rightarrow> queue_job \<Rightarrow> bool" where
  "exact_starting_snapshot_matches db claimed \<longleftrightarrow> job_state claimed = JStarting \<and> qj_turn_id claimed = None \<and>
     matching_baseline db claimed \<and> list_ex (exact_starting db claimed) (qd_jobs db)"

definition insert_notice :: "queue_job \<Rightarrow> rstr \<Rightarrow> rat \<Rightarrow> queue_db \<Rightarrow> queue_db stored" where
  "insert_notice held content now db =
     (let notice_id = NOTICE_PREFIX @ qj_job_id held in
      if list_ex (\<lambda>x. dl_id x = notice_id \<or> dl_job x = notice_id) (qd_outbox db)
      then Inl (StatementAborted (lit ''UNIQUE constraint failed''))
      else Inr (db\<lparr>qd_outbox := qd_outbox db @ [\<lparr> dl_id = notice_id, dl_job = notice_id, dl_target = qj_target held, dl_turn = notice_id,
        dl_channel = qj_channel held, dl_content = content, dl_attempts = 0, dl_last_error = [], dl_created_at = now, dl_updated_at = now \<rparr>]\<rparr>))"

definition refresh_notice_if_pending :: "queue_job \<Rightarrow> rstr \<Rightarrow> rat \<Rightarrow> queue_db \<Rightarrow> queue_db" where
  "refresh_notice_if_pending held content now db =
     (let notice_id = NOTICE_PREFIX @ qj_job_id held in
      db\<lparr>qd_outbox := map (\<lambda>x. if dl_id x = notice_id \<and> dl_job x = notice_id \<and> dl_target x = qj_target held \<and> dl_content x \<noteq> content
        then x\<lparr>dl_content := content, dl_updated_at := now\<rparr> else x) (qd_outbox db)\<rparr>)"

definition hold_starting_for_ambiguous_candidates_if_claimed ::
  "(rstr list \<Rightarrow> rstr) \<Rightarrow> queue_job \<Rightarrow> rstr list \<Rightarrow> rat \<Rightarrow> queue_db \<Rightarrow> (queue_job option \<times> queue_db) stored" where
  "hold_starting_for_ambiguous_candidates_if_claimed json claimed ids now db =
     (let c = candidate_summary_new ids in
      if starts_with (qj_last_error claimed) STARTING_CANDIDATE_HOLD_PREFIX then
        if \<not> exact_starting_snapshot_matches db claimed then Inr (None, db)
        else let db1 = refresh_notice_if_pending claimed (hold_notice json claimed c) now db
          in and_then (select_job db1 (qj_job_id claimed)) (\<lambda>j. Inr (Some j, db1))
      else if \<not> matching_baseline db claimed then Inr (None, db)
      else and_then (sql_update False (exact_starting db claimed)
        (\<lambda>j. j\<lparr>qj_last_error := hold_marker json claimed c, qj_updated_at := now\<rparr>) db) (\<lambda>(updated, db1).
        if updated \<noteq> 1 then Inr (None, db1)
        else and_then (select_job db1 (qj_job_id claimed)) (\<lambda>held.
             and_then (insert_notice held (hold_notice json held c) now db1) (\<lambda>db2. Inr (Some held, db2)))))"

end
