(* ===== verification/Queue_Safety.thy ===== *)
theory Queue_Safety
  imports Turn_Queue
begin

text \<open>
  What the queue promises. Every operation of the store is shown to move the rows of the table only along the
  steps of a job's life (\<open>row_step\<close>), and the properties follow from those steps over any sequence of operations.
\<close>

section \<open>The life of a row\<close>

datatype step_kind = KBegin | KAck | KFail | KUnknown | KPreflight | KAdopt | KGoalWait | KGoalTurn | KGoalOwned | KHold | KInsert | KRemove

inductive row_step :: "queue_db \<Rightarrow> step_kind \<Rightarrow> queue_job \<Rightarrow> queue_job \<Rightarrow> bool" for db where
  begins: "qj_raw j = RPending \<Longrightarrow> reason_in db (qj_job_id j) = None \<Longrightarrow> job_can_mutate db j \<Longrightarrow>
    \<not> fork_fenced db (qj_target j) \<Longrightarrow> \<not> fenced_row db j \<Longrightarrow>
    row_step db KBegin j (j\<lparr>qj_raw := RStarting, qj_execution_generation := Some (qj_generation j), qj_observation_generation := None,
      qj_goal_waiting := False, qj_attempts := next_attempt (qj_attempts j), qj_turn_id := None, qj_baseline := baseline,
      qj_last_error := [], qj_updated_at := now\<rparr>)"
| ack: "qj_raw j = RStarting \<Longrightarrow> qj_turn_id j = None \<Longrightarrow> job_can_mutate db j \<Longrightarrow>
    row_step db KAck j (j\<lparr>qj_raw := RRunning, qj_observation_generation := Some (qj_generation j), qj_goal_waiting := False,
      qj_turn_id := Some turn, qj_updated_at := now\<rparr>)"
| fail: "qj_raw j = RStarting \<Longrightarrow> qj_turn_id j = None \<Longrightarrow>
    row_step db KFail j (j\<lparr>qj_raw := RPending, qj_last_error := e, qj_updated_at := now\<rparr>)"
| unknown: "qj_raw j = RStarting \<Longrightarrow> qj_turn_id j = None \<Longrightarrow>
    row_step db KUnknown j (j\<lparr>qj_raw := RStarting, qj_last_error := e, qj_updated_at := now\<rparr>)"
| preflight: "qj_raw j = RPending \<Longrightarrow>
    row_step db KPreflight j (j\<lparr>qj_attempts := next_attempt (qj_attempts j), qj_last_error := e, qj_updated_at := now\<rparr>)"
| adopt: "qj_raw j = RPending \<Longrightarrow> \<not> target_is_held_in db (qj_target j) \<Longrightarrow> row_step db KAdopt j (j\<lparr>qj_generation := g\<rparr>)"
| goal_wait: "qj_raw j = RRunning \<Longrightarrow> row_step db KGoalWait j (j\<lparr>qj_goal_waiting := True, qj_updated_at := now\<rparr>)"
| goal_turn: "qj_raw j = RRunning \<Longrightarrow> row_step db KGoalTurn j
    (j\<lparr>qj_turn_id := Some turn, qj_observation_generation := Some g, qj_goal_waiting := False, qj_updated_at := now\<rparr>)"
| goal_owned: "job_state j = JRunning \<Longrightarrow> row_step db KGoalOwned j
    (j\<lparr>qj_turn_id := Some turn, qj_observation_generation := Some g, qj_goal_waiting := False, qj_updated_at := now\<rparr>)"
| hold: "qj_raw j = RStarting \<Longrightarrow> qj_turn_id j = None \<Longrightarrow> row_step db KHold j (j\<lparr>qj_last_error := e, qj_updated_at := now\<rparr>)"

inductive_cases row_step_begin: "row_step db KBegin j j'"

lemma row_step_keeps:
  "row_step db k j j' \<Longrightarrow> qj_job_id j' = qj_job_id j \<and> qj_target j' = qj_target j \<and> qj_channel j' = qj_channel j \<and>
    qj_message j' = qj_message j \<and> qj_owner j' = qj_owner j \<and> qj_prompt j' = qj_prompt j \<and> qj_created_at j' = qj_created_at j"
  by (induction rule: row_step.induct) simp_all

text \<open>The tables no operation of the queue writes, and the holds, which only grow.\<close>

definition frame :: "queue_db \<Rightarrow> queue_db \<Rightarrow> bool" where
  "frame db db' \<longleftrightarrow> qd_cancellations db' = qd_cancellations db \<and> qd_archive_fences db' = qd_archive_fences db \<and>
     qd_dispositions db' = qd_dispositions db \<and> qd_dead_holds db' = qd_dead_holds db \<and> qd_runtime db' = qd_runtime db \<and>
     qd_incidents db' = qd_incidents db \<and> qd_handoffs db' = qd_handoffs db \<and>
     set (qd_exec_holds db) \<subseteq> set (qd_exec_holds db') \<and> set (qd_retired db) \<subseteq> set (qd_retired db')"

lemma frame_refl [simp]: "frame db db"
  by (simp add: frame_def)

lemma frame_trans: "frame a b \<Longrightarrow> frame b c \<Longrightarrow> frame a c"
  by (auto simp: frame_def)

definition fresh_row :: "queue_db \<Rightarrow> queue_job \<Rightarrow> bool" where
  "fresh_row db n \<longleftrightarrow> qj_raw n = RPending \<and> qj_turn_id n = None \<and> \<not> cancelled_row db n \<and> \<not> fenced_row db n \<and>
     (\<forall>j \<in> set (qd_jobs db). qj_job_id j \<noteq> qj_job_id n \<and> (qj_message n \<noteq> None \<longrightarrow> qj_message j \<noteq> qj_message n))"

definition table_moves :: "step_kind set \<Rightarrow> queue_db \<Rightarrow> queue_db \<Rightarrow> bool" where
  "table_moves K db db' \<longleftrightarrow> frame db db' \<and> (\<exists>g keep news.
     qd_jobs db' = map g (filter keep (qd_jobs db)) @ news \<and> length news \<le> 1 \<and> (\<forall>n \<in> set news. fresh_row db n) \<and>
     (\<forall>j \<in> set (qd_jobs db). keep j \<longrightarrow> g j = j \<or> (\<exists>k \<in> K. row_step db k j (g j)) \<and> \<not> cancelled_row db j) \<and>
     (KRemove \<in> K \<or> (\<forall>j \<in> set (qd_jobs db). keep j)) \<and> (KInsert \<in> K \<or> news = []))"

lemma table_moves_same: "frame db db' \<Longrightarrow> qd_jobs db' = qd_jobs db \<Longrightarrow> table_moves K db db'"
  unfolding table_moves_def by (intro conjI exI [of _ id] exI [of _ "\<lambda>_. True"] exI [of _ "[]"]) simp_all

lemma table_moves_refl [simp]: "table_moves K db db"
  by (rule table_moves_same) simp_all

lemma table_moves_jobs: "table_moves K db db1 \<Longrightarrow> frame db1 db2 \<Longrightarrow> qd_jobs db2 = qd_jobs db1 \<Longrightarrow> table_moves K db db2"
  unfolding table_moves_def using frame_trans by auto

lemma table_moves_mono: "table_moves K db db' \<Longrightarrow> K \<subseteq> L \<Longrightarrow> table_moves L db db'"
  unfolding table_moves_def by (elim conjE exE, intro conjI exI) (assumption | blast)+

section \<open>The statements\<close>

lemma update_rows_ok:
  "update_rows moves P f db js = Inr (n, js') \<Longrightarrow>
   js' = map (\<lambda>j. if P j \<and> \<not> frozen_row db (qj_job_id j) then f j else j) js \<and>
   n = length (filter (\<lambda>j. P j \<and> \<not> frozen_row db (qj_job_id j)) js) \<and>
   (\<forall>j \<in> set js. P j \<longrightarrow> \<not> cancelled_row db (f j) \<and> (moves \<longrightarrow> \<not> fenced_row db (f j)))"
  by (induction js arbitrary: n js') (auto simp: and_then_Inr split: if_splits)

lemma sql_update_jobs:
  "sql_update moves P f db = Inr (n, db') \<Longrightarrow>
   db' = db\<lparr>qd_jobs := map (\<lambda>j. if P j \<and> \<not> frozen_row db (qj_job_id j) then f j else j) (qd_jobs db)\<rparr> \<and>
   n = length (filter (\<lambda>j. P j \<and> \<not> frozen_row db (qj_job_id j)) (qd_jobs db)) \<and>
   (\<forall>j \<in> set (qd_jobs db). P j \<longrightarrow> \<not> cancelled_row db (f j) \<and> (moves \<longrightarrow> \<not> fenced_row db (f j)))"
  using update_rows_ok [of moves P f db "qd_jobs db"] by (auto simp: sql_update_def and_then_Inr)

lemma sql_update_moves:
  assumes "sql_update moves P f db = Inr (n, db')"
    and "\<And>j. j \<in> set (qd_jobs db) \<Longrightarrow> P j \<Longrightarrow> (moves \<Longrightarrow> \<not> fenced_row db (f j)) \<Longrightarrow> \<exists>k \<in> K. row_step db k j (f j)"
  shows "table_moves K db db'"
proof -
  let ?g = "\<lambda>j. if P j \<and> \<not> frozen_row db (qj_job_id j) then f j else j"
  have u: "db' = db\<lparr>qd_jobs := map ?g (qd_jobs db)\<rparr>"
    "\<And>j. j \<in> set (qd_jobs db) \<Longrightarrow> P j \<Longrightarrow> \<not> cancelled_row db (f j) \<and> (moves \<longrightarrow> \<not> fenced_row db (f j))"
    using sql_update_jobs [OF assms(1)] by auto
  have "cancelled_row db (f j) = cancelled_row db j" if "j \<in> set (qd_jobs db)" "P j" for j
    using assms(2) [OF that] u(2) [OF that] row_step_keeps [of db _ j "f j"] by (auto simp: cancelled_row_def)
  then have "\<forall>j \<in> set (qd_jobs db). ?g j = j \<or> (\<exists>k \<in> K. row_step db k j (?g j)) \<and> \<not> cancelled_row db j"
    using assms(2) u(2) by auto
  then show ?thesis
    unfolding table_moves_def u(1)
    by (intro conjI exI [of _ ?g] exI [of _ "\<lambda>_. True"] exI [of _ "[]"]) (simp_all add: frame_def)
qed

lemma sql_delete_moves: "KRemove \<in> K \<Longrightarrow> table_moves K db (snd (sql_delete P db))"
  unfolding table_moves_def sql_delete_def
  by (intro conjI exI [of _ id] exI [of _ "\<lambda>j. \<not> (P j \<and> \<not> retired_row db (qj_job_id j))"] exI [of _ "[]"])
    (simp_all add: frame_def Let_def)

lemma table_moves_new:
  "KInsert \<in> K \<Longrightarrow> frame db db' \<Longrightarrow> qd_jobs db' = qd_jobs db @ [j] \<Longrightarrow> fresh_row db j \<Longrightarrow> table_moves K db db'"
  unfolding table_moves_def by (intro conjI exI [of _ id] exI [of _ "\<lambda>_. True"] exI [of _ "[j]"]) simp_all

lemma sql_insert_cases:
  assumes "sql_insert j db = Inr (created, db')"
  shows "frame db db' \<and> (if created then qd_jobs db' = qd_jobs db @ [j] \<and> \<not> cancelled_row db j \<and> \<not> fenced_row db j \<and>
      (\<forall>x \<in> set (qd_jobs db). qj_job_id x \<noteq> qj_job_id j \<and> (qj_message j \<noteq> None \<longrightarrow> qj_message x \<noteq> qj_message j))
    else db' = db)"
  using assms by (auto simp: sql_insert_def frame_def list_ex_iff split: if_splits)

section \<open>The operations\<close>

datatype qd_event =
  QEnqueue new_queue_job
| QEnqueueMirror new_queue_job int rstr
| QTryBegin rstr "rstr list" int rat
| QAck queue_job rstr "unit stored option" rat
| QFailure queue_job rstr bool rat
| QPreflight rstr int rstr rat
| QComplete rstr
| QStage rstr rstr rat "unit stored" "idle_intent list option" "queue_job option"
| QDiscardGeneration "int option"
| QDiscardObserved "queue_job list"
| QFlush rstr int
| QRetract rstr "int option" "int option"
| QAdopt int
| QAdoptTarget rstr int
| QGoalWaiting rstr rstr int rat
| QGoalAttach rstr rstr int rat
| QGoalObserved queue_job rstr int "unit stored" rat
| QHoldStarting "rstr list \<Rightarrow> rstr" queue_job "rstr list" rat
| QDeliveryFailed rstr rstr rat
| QDelivered rstr

definition commit :: "queue_db \<Rightarrow> ('a \<times> queue_db) stored \<Rightarrow> queue_db" where
  "commit db r = (case r of Inl _ \<Rightarrow> db | Inr (_, db') \<Rightarrow> db')"

lemma commit_simps [simp]: "commit db (Inl e) = db" "commit db (Inr (x, db')) = db'"
  by (simp_all add: commit_def)

lemma commit_moves: "(\<And>x db'. r = Inr (x, db') \<Longrightarrow> table_moves K db db') \<Longrightarrow> table_moves K db (commit db r)"
  by (cases r) auto

fun qd_apply :: "qd_event \<Rightarrow> queue_db \<Rightarrow> queue_db" where
  "qd_apply (QEnqueue n) db = commit db (enqueue n db)"
| "qd_apply (QEnqueueMirror n channel target) db = commit db (enqueue_if_mirror_matches n channel target db)"
| "qd_apply (QTryBegin jid baseline generation now) db = commit db (try_begin_attempt jid baseline generation now db)"
| "qd_apply (QAck claimed turn late now) db = commit db (mark_running_with_resident_if_claimed claimed turn late now db)"
| "qd_apply (QFailure claimed e ambiguous now) db = commit db (record_start_failure_if_claimed claimed e ambiguous now db)"
| "qd_apply (QPreflight jid generation e now) db = commit db (record_preflight_failure jid generation e now db)"
| "qd_apply (QComplete jid) db = snd (queue_complete jid db)"
| "qd_apply (QStage jid content now settled idle expected) db = commit db (stage_completion_inner jid content now settled idle expected db)"
| "qd_apply (QDiscardGeneration current) db = snd (discard_for_generation current db)"
| "qd_apply (QDiscardObserved observed) db = snd (discard_observed observed db)"
| "qd_apply (QFlush target generation) db = snd (queue_flush target generation db)"
| "qd_apply (QRetract target channel owner) db = commit db (queue_retract target channel owner db)"
| "qd_apply (QAdopt generation) db = commit db (adopt_generation generation db)"
| "qd_apply (QAdoptTarget target generation) db = commit db (adopt_target_generation target generation db)"
| "qd_apply (QGoalWaiting jid turn generation now) db = commit db (mark_goal_waiting jid turn generation now db)"
| "qd_apply (QGoalAttach target turn generation now) db = commit db (attach_goal_turn target turn generation now db)"
| "qd_apply (QGoalObserved expected turn observed handed now) db =
     commit db (attach_goal_turn_observed_if_owned expected turn observed handed now db)"
| "qd_apply (QHoldStarting json claimed ids now) db =
     commit db (hold_starting_for_ambiguous_candidates_if_claimed json claimed ids now db)"
| "qd_apply (QDeliveryFailed d e now) db = commit db (delivery_record_failure d e now db)"
| "qd_apply (QDelivered d) db = snd (delivery_complete d db)"

text \<open>The steps an operation may make a row take.\<close>

fun qd_kinds :: "qd_event \<Rightarrow> step_kind set" where
  "qd_kinds (QTryBegin _ _ _ _) = {KBegin}"
| "qd_kinds (QAck _ _ _ _) = {KAck}"
| "qd_kinds (QFailure _ _ ambiguous _) = (if ambiguous then {KUnknown} else {KFail})"
| "qd_kinds (QPreflight _ _ _ _) = {KPreflight}"
| "qd_kinds (QAdopt _) = {KAdopt}"
| "qd_kinds (QAdoptTarget _ _) = {KAdopt}"
| "qd_kinds (QGoalWaiting _ _ _ _) = {KGoalWait}"
| "qd_kinds (QGoalAttach _ _ _ _) = {KGoalTurn}"
| "qd_kinds (QGoalObserved _ _ _ _ _) = {KGoalOwned}"
| "qd_kinds (QHoldStarting _ _ _ _) = {KHold}"
| "qd_kinds (QEnqueue _) = {KInsert}"
| "qd_kinds (QEnqueueMirror _ _ _) = {KInsert}"
| "qd_kinds (QComplete _) = {KRemove}"
| "qd_kinds (QStage _ _ _ _ _ _) = {KRemove}"
| "qd_kinds (QDiscardGeneration _) = {KRemove}"
| "qd_kinds (QDiscardObserved _) = {KRemove}"
| "qd_kinds (QFlush _ _) = {KRemove}"
| "qd_kinds (QRetract _ _ _) = {KRemove}"
| "qd_kinds _ = {}"

definition ids_ok :: "queue_db \<Rightarrow> bool" where
  "ids_ok db \<longleftrightarrow> distinct (map qj_job_id (qd_jobs db))"

lemma ids_ok_eq: "ids_ok db \<Longrightarrow> a \<in> set (qd_jobs db) \<Longrightarrow> b \<in> set (qd_jobs db) \<Longrightarrow> qj_job_id a = qj_job_id b \<Longrightarrow> a = b"
  by (auto simp: ids_ok_def distinct_map inj_on_def)

lemma select_job_in: "select_job db jid = Inr j \<Longrightarrow> j \<in> set (qd_jobs db) \<and> qj_job_id j = jid"
  by (auto simp: select_job_def dest!: find_Some_set split: option.splits)

lemma is_ok_select: "is_ok (select_job db jid) \<longleftrightarrow> (\<exists>j \<in> set (qd_jobs db). qj_job_id j = jid)"
  using find_None_set [of "\<lambda>x. qj_job_id x = jid" "qd_jobs db"]
  by (cases "find (\<lambda>x. qj_job_id x = jid) (qd_jobs db)") (auto simp: select_job_def is_ok_def dest: find_Some_set)

lemma select_job_Inr: "ids_ok db \<Longrightarrow> select_job db jid = Inr j \<longleftrightarrow> j \<in> set (qd_jobs db) \<and> qj_job_id j = jid"
proof
  assume ok: "ids_ok db" and j: "j \<in> set (qd_jobs db) \<and> qj_job_id j = jid"
  then obtain x where x: "find (\<lambda>j. qj_job_id j = jid) (qd_jobs db) = Some x"
    using find_None_set [of "\<lambda>j. qj_job_id j = jid" "qd_jobs db"] by blast
  then have "x = j" using ids_ok_eq [OF ok] j find_Some_set [OF x] by blast
  then show "select_job db jid = Inr j" using x by (simp add: select_job_def)
qed (rule select_job_in)

lemma side_tables:
  "frame db (record_event m t db)" "qd_jobs (record_event m t db) = qd_jobs db"
  "frame db (record_job_origin j db)" "qd_jobs (record_job_origin j db) = qd_jobs db"
  "bind_running_in j db = Inr db' \<Longrightarrow> frame db db' \<and> qd_jobs db' = qd_jobs db"
  "frame db (hold_in jid target reason db)" "qd_jobs (hold_in jid target reason db) = qd_jobs db"
  "frame db (stage_start_notice j reason db)" "qd_jobs (stage_start_notice j reason db) = qd_jobs db"
  "frame db (outbox_insert d db)" "qd_jobs (outbox_insert d db) = qd_jobs db"
  by (auto simp: record_event_def record_job_origin_def bind_running_in_def hold_in_def stage_start_notice_def outbox_insert_def frame_def
    split: option.splits if_splits)

lemma claimed_result_frame: "claimed_result jid n db = Inr (r, db') \<Longrightarrow> frame db db' \<and> qd_jobs db' = qd_jobs db"
proof (cases "n = 1")
  case True
  assume "claimed_result jid n db = Inr (r, db')"
  then obtain j db1 where d: "bind_running_in j db = Inr db1" "db' = record_job_origin j db1"
    using True by (auto simp: claimed_result_def and_then_Inr)
  show ?thesis using side_tables(5) [OF d(1)] d(2) frame_trans side_tables(3,4) by metis
qed (simp add: claimed_result_def)

lemma job_can_mutate_same: "qj_target a = qj_target b \<Longrightarrow> qj_generation a = qj_generation b \<Longrightarrow> job_can_mutate db a = job_can_mutate db b"
  by (simp add: job_can_mutate_def)

lemma before_enqueue_frame: "before_enqueue thread db = Inr db1 \<Longrightarrow> frame db db1 \<and> qd_jobs db1 = qd_jobs db"
  by (auto simp: before_enqueue_def frame_def split: option.splits if_splits)

lemma row_guards_frame:
  assumes "frame db db'"
  shows "cancelled_row db' j = cancelled_row db j" "fenced_row db' j = fenced_row db j"
  using assms by (simp_all add: cancelled_row_def fenced_row_def frame_def)

lemma new_row_fields [simp]:
  "qj_job_id (new_row n) = nj_job_id n" "qj_message (new_row n) = nj_message n" "qj_raw (new_row n) = RPending"
  "qj_turn_id (new_row n) = None" "qj_target (new_row n) = nj_target n" "qj_attempts (new_row n) = 0"
  by (simp_all add: new_row_def)

lemma enqueue_moves:
  assumes "enqueue n db = Inr (r, db')"
  shows "table_moves {KInsert} db db' \<and> (qd_jobs db' = qd_jobs db \<or> qd_jobs db' = qd_jobs db @ [new_row n])"
proof -
  obtain db1 created where d: "before_enqueue (nj_target n) db = Inr db1" "sql_insert (new_row n) db1 = Inr (created, db')"
    using assms by (auto simp: enqueue_def and_then_Inr)
  have f: "frame db db1" "qd_jobs db1 = qd_jobs db" using before_enqueue_frame [OF d(1)] by auto
  have f2: "frame db db'" using sql_insert_cases [OF d(2)] f frame_trans by blast
  show ?thesis
  proof (cases created)
    case True
    then have "fresh_row db (new_row n)" "qd_jobs db' = qd_jobs db @ [new_row n]"
      using sql_insert_cases [OF d(2)] f(2) row_guards_frame [OF f(1)] by (auto simp: fresh_row_def)
    then show ?thesis using table_moves_new [OF _ f2, of "{KInsert}"] by simp
  next
    case False
    then show ?thesis using sql_insert_cases [OF d(2)] f table_moves_same by auto
  qed
qed

lemma delete_observed_moves: "KRemove \<in> K \<Longrightarrow> table_moves K db (delete_observed js db)"
proof -
  assume K: "KRemove \<in> K"
  have step: "\<exists>keep. snd (sql_delete P d) = d\<lparr>qd_jobs := filter keep (qd_jobs d)\<rparr>" for P d
    by (auto simp: sql_delete_def Let_def)
  have "\<exists>keep. delete_observed js d = d\<lparr>qd_jobs := filter keep (qd_jobs d)\<rparr>" for d
  proof (induction js arbitrary: d)
    case Nil
    show ?case by (intro exI [of _ "\<lambda>_. True"]) (simp add: delete_observed_def)
  next
    case (Cons j js)
    obtain k1 where k1: "snd (sql_delete (\<lambda>x. qj_job_id x = qj_job_id j \<and> qj_generation x = qj_generation j) d) = d\<lparr>qd_jobs := filter k1 (qd_jobs d)\<rparr>"
      using step by blast
    obtain k2 where "delete_observed js (d\<lparr>qd_jobs := filter k1 (qd_jobs d)\<rparr>) = d\<lparr>qd_jobs := filter k2 (filter k1 (qd_jobs d))\<rparr>"
      using Cons.IH [of "d\<lparr>qd_jobs := filter k1 (qd_jobs d)\<rparr>"] by auto
    then show ?case using k1 by (intro exI [of _ "\<lambda>x. k1 x \<and> k2 x"]) (simp add: delete_observed_def)
  qed
  then obtain keep where "delete_observed js db = db\<lparr>qd_jobs := filter keep (qd_jobs db)\<rparr>" by blast
  then show ?thesis
    unfolding table_moves_def by (intro conjI exI [of _ id] exI [of _ keep] exI [of _ "[]"]) (simp_all add: frame_def K)
qed

lemma try_begin_moves:
  assumes "ids_ok db" "try_begin_attempt jid baseline generation now db = Inr (r, db')"
  shows "table_moves {KBegin} db db'"
proof (cases "db' = db")
  case False
  then obtain c n db1 where c: "select_job db jid = Inr c" "job_can_mutate db c" "reason_in db jid = None"
    and u: "sql_update True (\<lambda>j. qj_job_id j = jid \<and> qj_generation j = generation \<and> qj_raw j = RPending \<and> \<not> fork_fenced db (qj_target j))
      (\<lambda>j. j\<lparr>qj_raw := RStarting, qj_execution_generation := Some generation, qj_observation_generation := None,
         qj_goal_waiting := False, qj_attempts := next_attempt (qj_attempts j), qj_turn_id := None,
         qj_baseline := baseline, qj_last_error := [], qj_updated_at := now\<rparr>) db = Inr (n, db1)"
    and r: "claimed_result jid n db1 = Inr (r, db')"
    using assms(2) by (auto simp: try_begin_attempt_def and_then_Inr split: sum.splits if_splits)
  have same: "j = c" if "j \<in> set (qd_jobs db)" "qj_job_id j = jid" for j
    using that ids_ok_eq [OF assms(1)] select_job_in [OF c(1)] by blast
  have "table_moves {KBegin} db db1"
    by (rule sql_update_moves [OF u]) (use c same row_step.begins in \<open>auto simp: fenced_row_def\<close>)
  then show ?thesis using table_moves_jobs claimed_result_frame [OF r] by blast
qed simp

lemma ack_moves:
  assumes "mark_running_with_resident_if_claimed claimed turn late now db = Inr (r, db')"
  shows "table_moves {KAck} db db'"
proof (cases "db' = db")
  case False
  then obtain n db1 where c: "job_can_mutate db claimed"
    and u: "sql_update True (claim_stands db claimed) (\<lambda>j. j\<lparr>qj_raw := RRunning, qj_observation_generation := Some (qj_generation j),
      qj_goal_waiting := False, qj_turn_id := Some turn, qj_updated_at := now\<rparr>) db = Inr (n, db1)"
    and r: "claimed_result (qj_job_id claimed) n db1 = Inr (r, db')"
    using assms by (auto simp: mark_running_with_resident_if_claimed_def and_then_Inr split: if_splits)
  have "table_moves {KAck} db db1"
  proof (rule sql_update_moves [OF u])
    fix j assume "claim_stands db claimed j"
    then show "\<exists>k \<in> {KAck}. row_step db k j (j\<lparr>qj_raw := RRunning, qj_observation_generation := Some (qj_generation j),
        qj_goal_waiting := False, qj_turn_id := Some turn, qj_updated_at := now\<rparr>)"
      using c by (intro bexI [of _ KAck] row_step.ack) (auto simp: claim_stands_def job_can_mutate_def)
  qed
  then show ?thesis using table_moves_jobs claimed_result_frame [OF r] by blast
qed simp

lemma failure_moves:
  assumes "record_start_failure_if_claimed claimed e ambiguous now db = Inr (r, db')"
  shows "table_moves (if ambiguous then {KUnknown} else {KFail}) db db'"
proof (cases "db' = db")
  case False
  then obtain n db1 db2 where
    u: "sql_update True (claim_stands db claimed) (\<lambda>j. j\<lparr>qj_raw := (if ambiguous then RStarting else RPending),
      qj_last_error := bounded_error e, qj_updated_at := now\<rparr>) db = Inr (n, db1)"
    and h: "db2 = db1 \<or> db2 = stage_start_notice claimed (bounded_error e) (hold_in (qj_job_id claimed) (qj_target claimed) (bounded_error e) db1)"
    and r: "claimed_result (qj_job_id claimed) n db2 = Inr (r, db')"
    using assms by (auto simp: record_start_failure_if_claimed_def and_then_Inr Let_def split: if_splits)
  have "table_moves (if ambiguous then {KUnknown} else {KFail}) db db1"
    by (rule sql_update_moves [OF u]) (auto simp: claim_stands_def intro: row_step.unknown row_step.fail)
  moreover have "frame db1 db2 \<and> qd_jobs db2 = qd_jobs db1" using h side_tables(6-9) frame_trans frame_refl by metis
  ultimately show ?thesis using table_moves_jobs claimed_result_frame [OF r] by metis
qed simp

lemma table_moves_fold: "KRemove \<in> K \<Longrightarrow> frame db db1 \<Longrightarrow> qd_jobs db1 = qd_jobs db \<Longrightarrow> table_moves K db (snd (sql_delete P db1))"
  unfolding table_moves_def sql_delete_def
  by (intro conjI exI [of _ id] exI [of _ "\<lambda>j. \<not> (P j \<and> \<not> retired_row db1 (qj_job_id j))"] exI [of _ "[]"])
    (auto simp: frame_def Let_def)

lemma stage_rows_moves: "KRemove \<in> K \<Longrightarrow> table_moves K db (stage_rows j turn content now db)"
proof -
  assume K: "KRemove \<in> K"
  let ?db2 = "\<lambda>d. record_event (TurnOrigin (qj_target j) turn) (qj_target j) (outbox_insert d (record_job_origin j db))"
  have "frame db (?db2 d)" "qd_jobs (?db2 d) = qd_jobs db" for d
    using side_tables(1,3,10) frame_trans apply metis by (simp add: side_tables(2,4,11))
  then show ?thesis using K unfolding stage_rows_def Let_def by (intro table_moves_fold)
qed

lemma stage_completion_result:
  assumes "stage_completion_inner jid content now settled idle expected db = Inr (d, db')"
  obtains j turn where "select_job db jid = Inr j" "qj_turn_id j = Some turn" "\<not> target_is_held_in db (qj_target j)"
    "\<And>e. expected = Some e \<Longrightarrow> completion_owned db e j" "outbox_select (stage_rows j turn content now db) (qj_job_id j) = Inr d"
    "db' = (case idle of None \<Rightarrow> id | Some table \<Rightarrow> qd_idle_update (\<lambda>_. table)) (stage_rows j turn content now db)"
proof -
  have opt: "(case x of None \<Rightarrow> Inl e | Some t \<Rightarrow> Inr t) = Inr y \<longleftrightarrow> x = Some y" for x :: "rstr option" and e :: store_error and y
    by (cases x) simp_all
  show thesis
    using assms unfolding stage_completion_inner_def
    apply (elim and_thenE)
    subgoal for j u v turn w d'
      by (rule that [of j turn]) (simp_all add: opt ensure_target_available_def)
    done
qed

lemma stage_moves:
  assumes "stage_completion_inner jid content now settled idle expected db = Inr (r, db')" "KRemove \<in> K"
  shows "table_moves K db db'"
proof -
  obtain j turn where "db' = (case idle of None \<Rightarrow> id | Some table \<Rightarrow> qd_idle_update (\<lambda>_. table)) (stage_rows j turn content now db)"
    by (rule stage_completion_result [OF assms(1)])
  then have "frame (stage_rows j turn content now db) db' \<and> qd_jobs db' = qd_jobs (stage_rows j turn content now db)"
    by (auto simp: frame_def split: option.splits)
  then show ?thesis using table_moves_jobs stage_rows_moves [OF assms(2)] by blast
qed

lemma goal_turn_moves:
  assumes "ids_ok db" "set_goal_turn jid turn observed now db = Inr (n, db')" "j \<in> set (qd_jobs db)" "qj_job_id j = jid" "qj_raw j = RRunning"
  shows "table_moves {KGoalTurn} db db'"
proof -
  have "x = j" if "x \<in> set (qd_jobs db)" "qj_job_id x = jid" for x using that assms ids_ok_eq by blast
  then show ?thesis
    using assms(5) row_step.goal_turn by (intro sql_update_moves [OF assms(2) [unfolded set_goal_turn_def]]) blast
qed

lemma attach_moves:
  assumes "ids_ok db" "attach_goal_turn target turn generation now db = Inr (r, db')"
  shows "table_moves {KGoalTurn} db db'"
proof (cases "db' = db")
  case False
  let ?w = "filter (\<lambda>j. qj_target j = target \<and> qj_raw j = RRunning \<and> qj_goal_waiting j \<and> qj_generation j = generation) (qd_jobs db)"
  obtain j n where j: "?w = [j]" "set_goal_turn (qj_job_id j) turn generation now db = Inr (n, db')"
    using assms(2) False by (auto simp: attach_goal_turn_def and_then_Inr split: if_splits list.splits)
  have "j \<in> set ?w" using j(1) by (metis list.set_intros(1))
  then show ?thesis using goal_turn_moves [OF assms(1) j(2)] by auto
qed simp

lemma attach_observed_moves:
  assumes "ids_ok db" "attach_goal_turn_observed_if_owned expected turn observed handed now db = Inr (r, db')"
  shows "table_moves {KGoalOwned} db db'"
proof (cases "db' = db")
  case False
  then obtain n where c: "select_job db (qj_job_id expected) = Inr expected" "job_state expected = JRunning"
    and u: "set_goal_turn (qj_job_id expected) turn observed now db = Inr (n, db')"
    using assms(2) by (auto simp: attach_goal_turn_observed_if_owned_def and_then_Inr Let_def split: if_splits)
  have "x = expected" if "x \<in> set (qd_jobs db)" "qj_job_id x = qj_job_id expected" for x
    using that select_job_in [OF c(1)] ids_ok_eq [OF assms(1)] by blast
  then show ?thesis
    using c(2) row_step.goal_owned by (intro sql_update_moves [OF u [unfolded set_goal_turn_def]]) blast
qed simp

lemma hold_moves:
  assumes "hold_starting_for_ambiguous_candidates_if_claimed json claimed ids now db = Inr (r, db')"
  shows "table_moves {KHold} db db'"
proof (cases "starts_with (qj_last_error claimed) STARTING_CANDIDATE_HOLD_PREFIX")
  case True
  have "frame db db' \<and> qd_jobs db' = qd_jobs db"
    using assms True unfolding hold_starting_for_ambiguous_candidates_if_claimed_def Let_def
    by (simp add: and_then_Inr split: if_splits) (auto simp: refresh_notice_if_pending_def frame_def Let_def)
  then show ?thesis by (intro table_moves_same) simp_all
next
  case False
  show ?thesis
  proof (cases "matching_baseline db claimed")
    case True
    let ?u = "sql_update False (exact_starting db claimed)
        (\<lambda>j. j\<lparr>qj_last_error := hold_marker json claimed (candidate_summary_new ids), qj_updated_at := now\<rparr>) db"
    have "and_then ?u (\<lambda>(n, db1). if n \<noteq> 1 then Inr (None, db1)
        else and_then (select_job db1 (qj_job_id claimed)) (\<lambda>held.
             and_then (insert_notice held (hold_notice json held (candidate_summary_new ids)) now db1) (\<lambda>db2. Inr (Some held, db2)))) = Inr (r, db')"
      using assms False True by (simp add: hold_starting_for_ambiguous_candidates_if_claimed_def Let_def)
    then obtain n db1 where u: "?u = Inr (n, db1)" and rest: "(if n \<noteq> 1 then Inr (None, db1)
        else and_then (select_job db1 (qj_job_id claimed)) (\<lambda>held.
             and_then (insert_notice held (hold_notice json held (candidate_summary_new ids)) now db1) (\<lambda>db2. Inr (Some held, db2)))) = Inr (r, db')"
      by (elim and_thenE) (simp only: split_paired_all prod.case)
    have "frame db1 db' \<and> qd_jobs db' = qd_jobs db1"
      using rest by (auto simp: and_then_Inr insert_notice_def frame_def Let_def split: if_splits)
    moreover have "table_moves {KHold} db db1" using sql_update_moves [OF u] row_step.hold by (simp add: exact_starting_def)
    ultimately show ?thesis using table_moves_jobs by blast
  next
    case no: False
    then show ?thesis using assms False unfolding hold_starting_for_ambiguous_candidates_if_claimed_def Let_def by simp
  qed
qed

lemma qd_apply_moves:
  assumes "ids_ok db"
  shows "table_moves (qd_kinds e) db (qd_apply e db)"
proof (cases e)
  case (QEnqueueMirror n channel target)
  then show ?thesis
    using enqueue_moves by (auto simp: enqueue_if_mirror_matches_def and_then_Inr intro!: commit_moves)
next
  case (QFailure claimed err ambiguous now)
  show ?thesis unfolding QFailure qd_apply.simps qd_kinds.simps by (rule commit_moves) (rule failure_moves)
next
  case (QPreflight jid generation err now)
  have "table_moves {KPreflight} db db'" if pre: "record_preflight_failure jid generation err now db = Inr (r, db')" for r db'
  proof -
    obtain n where u: "sql_update False (\<lambda>j. qj_job_id j = jid \<and> qj_generation j = generation \<and> qj_raw j = RPending)
       (\<lambda>j. j\<lparr>qj_attempts := next_attempt (qj_attempts j), qj_last_error := bounded_error err, qj_updated_at := now\<rparr>) db = Inr (n, db')"
      using pre by (auto simp: record_preflight_failure_def and_then_Inr split: if_splits)
    show ?thesis using sql_update_moves [OF u] row_step.preflight by simp
  qed
  then show ?thesis using QPreflight by (auto intro!: commit_moves)
next
  case (QComplete jid)
  then show ?thesis using sql_delete_moves [of "{KRemove}" db] by (simp add: queue_complete_def Let_def case_prod_unfold)
next
  case (QRetract target channel owner)
  then show ?thesis
    using sql_delete_moves [of "{KRemove}" db] by (auto simp: queue_retract_def and_then_Inr Let_def intro!: commit_moves split: option.splits)
next
  case (QAdopt generation)
  have "table_moves {KAdopt} db db'" if "adopt_where P generation db = Inr (n, db')" for P n db'
    using sql_update_moves [OF that [unfolded adopt_where_def]] row_step.adopt by simp
  then show ?thesis using QAdopt by (auto simp: adopt_generation_def and_then_Inr intro!: commit_moves)
next
  case (QAdoptTarget target generation)
  have "table_moves {KAdopt} db db'" if "adopt_where P generation db = Inr (n, db')" for P n db'
    using sql_update_moves [OF that [unfolded adopt_where_def]] row_step.adopt by simp
  then show ?thesis using QAdoptTarget by (auto simp: adopt_target_generation_def and_then_Inr intro!: commit_moves)
next
  case (QGoalWaiting jid turn generation now)
  have "table_moves {KGoalWait} db db'" if pre: "mark_goal_waiting jid turn generation now db = Inr (b, db')" for b db'
  proof -
    obtain n where u: "sql_update False (\<lambda>j. qj_job_id j = jid \<and> qj_turn_id j = Some turn \<and> qj_raw j = RRunning \<and>
         qj_generation j = generation \<and> \<not> target_is_held_in db (qj_target j))
       (\<lambda>j. j\<lparr>qj_goal_waiting := True, qj_updated_at := now\<rparr>) db = Inr (n, db')"
      using pre by (auto simp: mark_goal_waiting_def and_then_Inr)
    show ?thesis using sql_update_moves [OF u] row_step.goal_wait by simp
  qed
  then show ?thesis using QGoalWaiting by (auto intro!: commit_moves)
next
  case (QDeliveryFailed d err now)
  then show ?thesis
    by (auto simp: delivery_record_failure_def and_then_Inr Let_def frame_def intro!: commit_moves table_moves_same)
next
  case (QDelivered d)
  then show ?thesis by (auto simp: delivery_complete_def frame_def intro!: table_moves_same)
qed (use assms enqueue_moves try_begin_moves ack_moves stage_moves delete_observed_moves attach_moves attach_observed_moves
      hold_moves in \<open>auto simp: discard_for_generation_def discard_observed_def queue_flush_def Let_def intro!: commit_moves\<close>)

section \<open>Invariants\<close>

definition row_ok :: "queue_job \<Rightarrow> bool" where
  "row_ok j \<longleftrightarrow> (qj_turn_id j = None \<longleftrightarrow> qj_raw j \<noteq> RRunning)"

definition queue_inv :: "queue_db \<Rightarrow> bool" where
  "queue_inv db \<longleftrightarrow> distinct (map qj_job_id (qd_jobs db)) \<and> distinct (List.map_filter qj_message (qd_jobs db)) \<and>
     (\<forall>j \<in> set (qd_jobs db). row_ok j)"

lemma queue_inv_ids: "queue_inv db \<Longrightarrow> ids_ok db"
  by (simp add: queue_inv_def ids_ok_def)

lemma job_state_running: "job_state j = JRunning \<Longrightarrow> qj_raw j = RRunning"
  by (auto simp: job_state_def split: raw_state.splits)

lemma row_step_ok: "row_step db k j j' \<Longrightarrow> row_ok j \<Longrightarrow> row_ok j'"
  by (induction rule: row_step.induct) (auto simp: row_ok_def dest: job_state_running)

lemma distinct_map_filter_filter: "distinct (List.map_filter f xs) \<Longrightarrow> distinct (List.map_filter f (filter P xs))"
  by (induction xs) (auto simp: List.map_filter_simps set_map_filter_iff split: option.splits)

lemma map_filter_map: "(\<And>x. x \<in> set xs \<Longrightarrow> f (g x) = f x) \<Longrightarrow> List.map_filter f (map g xs) = List.map_filter f xs"
  by (induction xs) (auto simp: List.map_filter_simps split: option.splits)

lemma table_movesE:
  assumes "table_moves K db db'"
  obtains g keep news where "qd_jobs db' = map g (filter keep (qd_jobs db)) @ news" "length news \<le> 1" "\<forall>n \<in> set news. fresh_row db n"
    "\<forall>j \<in> set (qd_jobs db). keep j \<longrightarrow> g j = j \<or> (\<exists>k \<in> K. row_step db k j (g j)) \<and> \<not> cancelled_row db j"
    "\<forall>j \<in> set (qd_jobs db). keep j \<longrightarrow> qj_job_id (g j) = qj_job_id j \<and> qj_message (g j) = qj_message j"
    "frame db db'"
proof -
  obtain g keep news where g: "qd_jobs db' = map g (filter keep (qd_jobs db)) @ news" "length news \<le> 1" "\<forall>n \<in> set news. fresh_row db n"
    "\<forall>j \<in> set (qd_jobs db). keep j \<longrightarrow> g j = j \<or> (\<exists>k \<in> K. row_step db k j (g j)) \<and> \<not> cancelled_row db j" "frame db db'"
    using assms unfolding table_moves_def by blast
  have "qj_job_id (g j) = qj_job_id j \<and> qj_message (g j) = qj_message j" if "j \<in> set (qd_jobs db)" "keep j" for j
    using g(4) that row_step_keeps by metis
  then show thesis using that [OF g(1-4) _ g(5)] by blast
qed

lemma queue_inv_moves:
  assumes "queue_inv db" "table_moves K db db'"
  shows "queue_inv db'"
proof -
  obtain g keep news where jobs: "qd_jobs db' = map g (filter keep (qd_jobs db)) @ news" "length news \<le> 1"
    and fresh: "\<forall>n \<in> set news. fresh_row db n"
    and step: "\<forall>j \<in> set (qd_jobs db). keep j \<longrightarrow> g j = j \<or> (\<exists>k \<in> K. row_step db k j (g j)) \<and> \<not> cancelled_row db j"
    and ids: "\<forall>j \<in> set (qd_jobs db). keep j \<longrightarrow> qj_job_id (g j) = qj_job_id j \<and> qj_message (g j) = qj_message j"
    and "frame db db'"
    by (rule table_movesE [OF assms(2)])
  let ?kept = "filter keep (qd_jobs db)"
  have ids_kept: "map qj_job_id (map g ?kept) = map qj_job_id ?kept" "List.map_filter qj_message (map g ?kept) = List.map_filter qj_message ?kept"
    using ids by (auto intro: map_filter_map)
  have kept: "distinct (map qj_job_id ?kept)" "distinct (List.map_filter qj_message ?kept)"
    using assms(1) by (auto simp: queue_inv_def distinct_map_filter distinct_map_filter_filter)
  have news: "news = [] \<or> (\<exists>n. news = [n])" using jobs(2) by (cases news) auto
  have "distinct (map qj_job_id (qd_jobs db'))"
    using kept(1) fresh news unfolding jobs(1) map_append ids_kept(1) by (auto simp: fresh_row_def)
  moreover have "distinct (List.map_filter qj_message (qd_jobs db'))"
    using kept(2) fresh news unfolding jobs(1) map_filter_append ids_kept(2)
    by (auto simp: fresh_row_def List.map_filter_simps set_map_filter_iff split: option.splits)
  moreover have "\<forall>j \<in> set (qd_jobs db'). row_ok j"
  proof
    fix j assume "j \<in> set (qd_jobs db')"
    then consider x where "x \<in> set (qd_jobs db)" "keep x" "j = g x" | "j \<in> set news" unfolding jobs(1) by auto
    then show "row_ok j"
    proof cases
      case 1
      then show ?thesis using step assms(1) row_step_ok by (metis queue_inv_def)
    next
      case 2
      then show ?thesis using fresh by (simp add: fresh_row_def row_ok_def)
    qed
  qed
  ultimately show ?thesis by (simp add: queue_inv_def)
qed

lemma queue_inv_apply: "queue_inv db \<Longrightarrow> queue_inv (qd_apply e db)"
  using queue_inv_moves qd_apply_moves queue_inv_ids by blast

lemma queue_inv_run: "queue_inv db \<Longrightarrow> queue_inv (run_events qd_apply es db)"
  by (rule run_events_inv [where I = queue_inv and P = "\<lambda>_ _. True"]) (simp_all add: queue_inv_apply all_events_True)

text \<open>C23: The rows of the queue stay well formed. Whatever operations run on a queue that starts empty, in whatever order and with
  whatever answers, job ids and Discord message ids stay unique, and a row has a turn exactly while it runs: a pending or
  starting job never carries the turn of an earlier attempt.\<close>

lemma queue_stays_well_formed:
  assumes "qd_jobs db = []"
  shows "queue_inv (run_events qd_apply es db)"
  using assms by (intro queue_inv_run) (simp add: queue_inv_def map_filter_def)

section \<open>Dispatches\<close>

text \<open>A successful claim is the authority to dispatch the job once.\<close>

fun began :: "rstr \<Rightarrow> qd_event \<Rightarrow> queue_db \<Rightarrow> bool" where
  "began jid (QTryBegin x baseline generation now) db \<longleftrightarrow> x = jid \<and>
     (case try_begin_attempt x baseline generation now db of Inr (Some _, _) \<Rightarrow> True | _ \<Rightarrow> False)"
| "began jid _ db \<longleftrightarrow> False"

text \<open>What ends the claim: the row is removed, or a definite failure of its start is recorded.\<close>

fun failed_definitely :: "rstr \<Rightarrow> qd_event \<Rightarrow> queue_db \<Rightarrow> bool" where
  "failed_definitely jid (QFailure claimed e ambiguous now) db \<longleftrightarrow> qj_job_id claimed = jid \<and> \<not> ambiguous \<and>
     (case record_start_failure_if_claimed claimed e ambiguous now db of Inr (Some _, _) \<Rightarrow> True | _ \<Rightarrow> False)"
| "failed_definitely jid _ db \<longleftrightarrow> False"

definition released :: "rstr \<Rightarrow> qd_event \<Rightarrow> queue_db \<Rightarrow> bool" where
  "released jid e db \<longleftrightarrow> failed_definitely jid e db \<or> is_ok (select_job db jid) \<and> \<not> is_ok (select_job (qd_apply e db) jid)"

definition in_flight :: "queue_db \<Rightarrow> rstr \<Rightarrow> bool" where
  "in_flight db jid \<longleftrightarrow> (\<exists>j \<in> set (qd_jobs db). qj_job_id j = jid \<and> qj_raw j \<noteq> RPending)"

lemma count_rows_le: "ids_ok db \<Longrightarrow> (\<And>j. P j \<Longrightarrow> qj_job_id j = jid) \<Longrightarrow> length (filter P (qd_jobs db)) \<le> 1"
proof -
  assume ok: "ids_ok db" and P: "\<And>j. P j \<Longrightarrow> qj_job_id j = jid"
  have "distinct (filter P (qd_jobs db))" using ok by (auto simp: ids_ok_def distinct_map)
  moreover have "\<forall>a \<in> set (filter P (qd_jobs db)). \<forall>b \<in> set (filter P (qd_jobs db)). a = b" using ids_ok_eq [OF ok] P by auto
  ultimately show ?thesis by (cases "filter P (qd_jobs db)" rule: list.exhaust) (auto simp: Suc_le_eq split: list.splits, metis distinct.simps(2) list.exhaust list.set_intros(1))
qed

lemma update_none_same:
  assumes "sql_update moves P f db = Inr (n, db1)" "n = 0"
  shows "qd_jobs db1 = qd_jobs db"
  using sql_update_jobs [OF assms(1)] assms(2) by (auto simp: filter_empty_conv intro!: map_idI)

lemma sql_update_in:
  assumes "sql_update moves P f db = Inr (n, db1)" "x \<in> set (qd_jobs db)" "P x" "\<not> frozen_row db (qj_job_id x)"
  shows "f x \<in> set (qd_jobs db1)"
  using sql_update_jobs [OF assms(1)] assms(2-4) by (auto intro!: image_eqI [of _ _ x])

lemma claimed_result_None: "claimed_result jid n db = Inr (None, db') \<Longrightarrow> n \<noteq> 1"
  by (auto simp: claimed_result_def and_then_Inr split: if_splits)

lemma claimed_result_Some: "claimed_result jid n db = Inr (Some j, db') \<Longrightarrow> n = 1 \<and> select_job db jid = Inr j"
  by (auto simp: claimed_result_def and_then_Inr split: if_splits)

lemma failure_refused_same:
  assumes "ids_ok db" "record_start_failure_if_claimed claimed e ambiguous now db = Inr (None, db')"
  shows "qd_jobs db' = qd_jobs db"
proof (cases "job_can_mutate db claimed \<and> matching_baseline db claimed")
  case True
  then obtain n db1 db2 where
    u: "sql_update True (claim_stands db claimed) (\<lambda>j. j\<lparr>qj_raw := (if ambiguous then RStarting else RPending),
      qj_last_error := bounded_error e, qj_updated_at := now\<rparr>) db = Inr (n, db1)"
    and h: "db2 = db1 \<or> db2 = stage_start_notice claimed (bounded_error e) (hold_in (qj_job_id claimed) (qj_target claimed) (bounded_error e) db1)"
    and r: "claimed_result (qj_job_id claimed) n db2 = Inr (None, db')"
    using assms(2) by (auto simp: record_start_failure_if_claimed_def and_then_Inr Let_def split: if_splits)
  have "n \<le> 1"
    using sql_update_jobs [OF u] count_rows_le [OF assms(1), of "\<lambda>j. claim_stands db claimed j \<and> \<not> frozen_row db (qj_job_id j)" "qj_job_id claimed"]
    by (auto simp: claim_stands_def)
  then have "n = 0" using claimed_result_None [OF r] by simp
  then have "qd_jobs db1 = qd_jobs db" using update_none_same [OF u] by simp
  then show ?thesis using h claimed_result_frame [OF r] by (auto simp: side_tables)
next
  case False
  then show ?thesis using assms(2) by (auto simp: record_start_failure_if_claimed_def)
qed

lemma failure_only_claimed:
  assumes "record_start_failure_if_claimed claimed e ambiguous now db = Inr (r, db')" "x \<in> set (qd_jobs db)" "qj_job_id x \<noteq> qj_job_id claimed"
  shows "x \<in> set (qd_jobs db')"
proof (cases "job_can_mutate db claimed \<and> matching_baseline db claimed")
  case True
  then obtain n db1 db2 where
    u: "sql_update True (claim_stands db claimed) (\<lambda>j. j\<lparr>qj_raw := (if ambiguous then RStarting else RPending),
      qj_last_error := bounded_error e, qj_updated_at := now\<rparr>) db = Inr (n, db1)"
    and h: "db2 = db1 \<or> db2 = stage_start_notice claimed (bounded_error e) (hold_in (qj_job_id claimed) (qj_target claimed) (bounded_error e) db1)"
    and r: "claimed_result (qj_job_id claimed) n db2 = Inr (r, db')"
    using assms(1) by (auto simp: record_start_failure_if_claimed_def and_then_Inr Let_def split: if_splits)
  have "qd_jobs db' = qd_jobs db1" using h claimed_result_frame [OF r] by (auto simp: side_tables)
  moreover have "x \<in> set (qd_jobs db1)" using sql_update_jobs [OF u] assms(2,3) by (force simp: claim_stands_def)
  ultimately show ?thesis by simp
next
  case False
  then show ?thesis using assms by (auto simp: record_start_failure_if_claimed_def)
qed

lemma kinds_fail: "KFail \<in> qd_kinds e \<Longrightarrow> \<exists>claimed err now. e = QFailure claimed err False now"
  by (cases e) (auto split: if_splits)

lemma in_flight_kept:
  assumes "ids_ok db" "in_flight db jid" "\<not> in_flight (qd_apply e db) jid"
  shows "released jid e db"
proof -
  obtain j where j: "j \<in> set (qd_jobs db)" "qj_job_id j = jid" "qj_raw j \<noteq> RPending" using assms(2) by (auto simp: in_flight_def)
  obtain g keep news where jobs: "qd_jobs (qd_apply e db) = map g (filter keep (qd_jobs db)) @ news"
    and "length news \<le> 1" and fresh: "\<forall>n \<in> set news. fresh_row db n"
    and step: "\<forall>j \<in> set (qd_jobs db). keep j \<longrightarrow> g j = j \<or> (\<exists>k \<in> qd_kinds e. row_step db k j (g j)) \<and> \<not> cancelled_row db j"
    and ids: "\<forall>j \<in> set (qd_jobs db). keep j \<longrightarrow> qj_job_id (g j) = qj_job_id j \<and> qj_message (g j) = qj_message j"
    and "frame db (qd_apply e db)"
    by (rule table_movesE [OF qd_apply_moves [OF assms(1), of e]])
  show ?thesis
  proof (cases "keep j")
    case False
    have "qj_job_id x \<noteq> jid" if "x \<in> set (qd_jobs (qd_apply e db))" for x
    proof -
      consider y where "y \<in> set (qd_jobs db)" "keep y" "x = g y" | "x \<in> set news" using \<open>x \<in> _\<close> unfolding jobs by auto
      then show ?thesis
      proof cases
        case 1
        then show ?thesis using ids False j ids_ok_eq [OF assms(1)] by metis
      next
        case 2
        then show ?thesis using fresh j(1,2) unfolding fresh_row_def by metis
      qed
    qed
    then have "\<not> is_ok (select_job (qd_apply e db) jid)" by (auto simp: is_ok_select)
    moreover have "is_ok (select_job db jid)" using j(1,2) by (auto simp: is_ok_select)
    ultimately show ?thesis by (simp add: released_def)
  next
    case True
    have "g j \<in> set (qd_jobs (qd_apply e db))" using j(1) True unfolding jobs by auto
    then have pend: "qj_raw (g j) = RPending" using assms(3) ids j(1,2) True by (auto simp: in_flight_def)
    then obtain k where "k \<in> qd_kinds e" "row_step db k j (g j)" using step j(1,3) True by auto
    then have "KFail \<in> qd_kinds e" using pend j(3) by (auto elim: row_step.cases)
    then obtain claimed err now where e: "e = QFailure claimed err False now" using kinds_fail by blast
    have "g j \<notin> set (qd_jobs db)" using pend j ids True ids_ok_eq [OF assms(1)] by metis
    then have moved: "qd_jobs (qd_apply e db) \<noteq> qd_jobs db" using \<open>g j \<in> set (qd_jobs (qd_apply e db))\<close> by auto
    then obtain r db' where r: "record_start_failure_if_claimed claimed err False now db = Inr (r, db')" "qd_apply e db = db'"
      using e by (cases "record_start_failure_if_claimed claimed err False now db") auto
    then obtain x where x: "r = Some x" using failure_refused_same [OF assms(1)] moved by (cases r) auto
    have "qj_job_id claimed = jid"
    proof (rule ccontr)
      assume "qj_job_id claimed \<noteq> jid"
      then have "j \<in> set (qd_jobs db')" using failure_only_claimed [OF r(1) j(1)] j(2) by simp
      then show False using assms(3) r(2) j by (auto simp: in_flight_def)
    qed
    then show ?thesis using e r x by (simp add: released_def)
  qed
qed

lemma began_effect:
  assumes "ids_ok db" "began jid e db"
  shows "\<not> in_flight db jid \<and> in_flight (qd_apply e db) jid \<and> reason_in db jid = None"
proof -
  obtain baseline generation now j db' where e: "e = QTryBegin jid baseline generation now"
    and t: "try_begin_attempt jid baseline generation now db = Inr (Some j, db')"
    using assms(2) by (cases e) (auto split: sum.splits prod.splits option.splits)
  obtain c n db1 where c: "select_job db jid = Inr c" "reason_in db jid = None"
    and u: "sql_update True (\<lambda>j. qj_job_id j = jid \<and> qj_generation j = generation \<and> qj_raw j = RPending \<and> \<not> fork_fenced db (qj_target j))
      (\<lambda>j. j\<lparr>qj_raw := RStarting, qj_execution_generation := Some generation, qj_observation_generation := None,
         qj_goal_waiting := False, qj_attempts := next_attempt (qj_attempts j), qj_turn_id := None,
         qj_baseline := baseline, qj_last_error := [], qj_updated_at := now\<rparr>) db = Inr (n, db1)"
    and r: "claimed_result jid n db1 = Inr (Some j, db')"
    using t by (auto simp: try_begin_attempt_def and_then_Inr split: sum.splits if_splits)
  have n: "n = 1" "qd_jobs db' = qd_jobs db1" using claimed_result_Some [OF r] claimed_result_frame [OF r] by auto
  let ?claims = "\<lambda>j. (qj_job_id j = jid \<and> qj_generation j = generation \<and> qj_raw j = RPending \<and> \<not> fork_fenced db (qj_target j)) \<and>
    \<not> frozen_row db (qj_job_id j)"
  have "filter ?claims (qd_jobs db) \<noteq> []" using sql_update_jobs [OF u] n(1) by force
  then obtain x where x: "x \<in> set (qd_jobs db)" "qj_job_id x = jid" "qj_generation x = generation" "qj_raw x = RPending"
    "\<not> fork_fenced db (qj_target x)" "\<not> frozen_row db jid"
    unfolding filter_empty_conv by blast
  have up: "x\<lparr>qj_raw := RStarting, qj_execution_generation := Some generation, qj_observation_generation := None,
         qj_goal_waiting := False, qj_attempts := next_attempt (qj_attempts x), qj_turn_id := None,
         qj_baseline := baseline, qj_last_error := [], qj_updated_at := now\<rparr> \<in> set (qd_jobs db1)"
    by (rule sql_update_in [OF u x(1)]) (simp_all add: x)
  have "in_flight db1 jid"
    unfolding in_flight_def by (rule bexI [OF _ up]) (simp add: x)
  then show ?thesis
    using x c(2) n(2) e t ids_ok_eq [OF assms(1)] by (auto simp: in_flight_def)
qed

lemma dispatch_step:
  assumes "ids_ok db"
  shows "(if began jid e db then 1 else 0) + (if in_flight (qd_apply e db) jid then 0 else 1)
    \<le> (if released jid e db then 1 else 0) + (if in_flight db jid then 0 else (1::nat))"
  using began_effect [OF assms, of jid e] in_flight_kept [OF assms, of jid e] by auto

text \<open>C3: A prompt is dispatched at most once per release. Over any run of queue operations, the claims that authorise a dispatch of a job
  number at most the definite failures of its start and its removals, plus one if it was not in flight at the beginning. In
  particular a job whose start has an unknown outcome, or that runs, is never dispatched again.\<close>

lemma dispatched_at_most_once_per_release:
  assumes "queue_inv db"
  shows "count_events qd_apply (began jid) es db \<le> count_events qd_apply (released jid) es db + (if in_flight db jid then 0 else 1)"
  using assms
proof (induction es arbitrary: db)
  case (Cons e es)
  have "count_events qd_apply (began jid) es (qd_apply e db)
    \<le> count_events qd_apply (released jid) es (qd_apply e db) + (if in_flight (qd_apply e db) jid then 0 else 1)"
    using Cons.IH queue_inv_apply [OF Cons.prems] by blast
  moreover have "(if began jid e db then 1 else 0) + (if in_flight (qd_apply e db) jid then 0 else 1)
    \<le> (if released jid e db then 1 else 0) + (if in_flight db jid then 0 else (1::nat))"
    by (rule dispatch_step [OF queue_inv_ids [OF Cons.prems]])
  ultimately show ?case by simp
qed simp

section \<open>Holds and cancellations\<close>

lemma reason_frame: "frame db db' \<Longrightarrow> reason_in db jid \<noteq> None \<Longrightarrow> reason_in db' jid \<noteq> None"
  by (auto simp: frame_def reason_in_def find_None_set dest!: find_Some_set)

lemma frame_apply: "ids_ok db \<Longrightarrow> frame db (qd_apply e db)"
  using qd_apply_moves unfolding table_moves_def by blast

lemma held_never_begins: "queue_inv db \<Longrightarrow> reason_in db jid \<noteq> None \<Longrightarrow> count_events qd_apply (began jid) es db = 0"
proof (induction es arbitrary: db)
  case (Cons e es)
  have ok: "ids_ok db" by (rule queue_inv_ids [OF Cons.prems(1)])
  have "\<not> began jid e db" using began_effect [OF ok] Cons.prems(2) by metis
  moreover have "count_events qd_apply (began jid) es (qd_apply e db) = 0"
    using Cons.IH queue_inv_apply [OF Cons.prems(1)] reason_frame [OF frame_apply [OF ok] Cons.prems(2)] by blast
  ultimately show ?case by simp
qed simp

lemma hold_in_reason: "reason_in (hold_in jid target reason db) jid \<noteq> None"
  by (auto simp: hold_in_def reason_in_def find_None_set)

lemma notice_staged: "qj_job_id j \<in> sn_job ` set (qd_start_notices (stage_start_notice j reason db))"
  by (force simp: stage_start_notice_def list_ex_iff)

lemma select_updated:
  assumes "ids_ok db" "sql_update moves P f db = Inr (n, db1)" "n = 1" "\<And>j. P j \<Longrightarrow> qj_job_id j = jid"
    "\<And>j. qj_job_id (f j) = qj_job_id j" "qd_jobs db2 = qd_jobs db1" "select_job db2 jid = Inr j"
  shows "\<exists>x \<in> set (qd_jobs db). P x \<and> j = f x"
proof -
  note u = sql_update_jobs [OF assms(2)]
  have "filter (\<lambda>j. P j \<and> \<not> frozen_row db (qj_job_id j)) (qd_jobs db) \<noteq> []" using u assms(3) by force
  then obtain x where x: "x \<in> set (qd_jobs db)" "P x" "\<not> frozen_row db (qj_job_id x)" unfolding filter_empty_conv by blast
  have "j \<in> set (qd_jobs db1)" "qj_job_id j = jid" using select_job_in [OF assms(7)] assms(6) by auto
  then obtain y where y: "y \<in> set (qd_jobs db)" "j = (if P y \<and> \<not> frozen_row db (qj_job_id y) then f y else y)"
    using u by auto
  then have "qj_job_id y = jid" using \<open>qj_job_id j = jid\<close> assms(5) by (auto split: if_splits)
  then have "y = x" using ids_ok_eq [OF assms(1) y(1) x(1)] assms(4) [OF x(2)] by simp
  then show ?thesis using x y by auto
qed

lemma failure_recorded:
  assumes "ids_ok db" "record_start_failure_if_claimed claimed e False now db = Inr (Some j, db')" "legacy_or_current_error e"
  shows "qj_raw j = RPending \<and> qj_job_id claimed \<in> sn_job ` set (qd_start_notices db') \<and> reason_in db' (qj_job_id claimed) \<noteq> None"
proof -
  let ?f = "\<lambda>j. j\<lparr>qj_raw := RPending, qj_last_error := bounded_error e, qj_updated_at := now\<rparr>"
  obtain n db1 where u: "sql_update True (claim_stands db claimed) ?f db = Inr (n, db1)"
    and r: "claimed_result (qj_job_id claimed) n (if n = 1
      then stage_start_notice claimed (bounded_error e) (hold_in (qj_job_id claimed) (qj_target claimed) (bounded_error e) db1) else db1) = Inr (Some j, db')"
    using assms(2,3) by (auto simp: record_start_failure_if_claimed_def and_then_Inr Let_def split: if_splits)
  let ?db2 = "stage_start_notice claimed (bounded_error e) (hold_in (qj_job_id claimed) (qj_target claimed) (bounded_error e) db1)"
  have n: "n = 1" and sel: "select_job ?db2 (qj_job_id claimed) = Inr j" using claimed_result_Some [OF r] by auto
  have "\<exists>x \<in> set (qd_jobs db). claim_stands db claimed x \<and> j = ?f x"
    by (rule select_updated [OF assms(1) u n _ _ _ sel]) (simp_all add: side_tables claim_stands_def)
  then have pend: "job_state j = JPending" "qj_raw j = RPending" "qj_turn_id j = None" by (auto simp: job_state_def claim_stands_def)
  then have "db' = ?db2" using r n sel by (auto simp: claimed_result_def and_then_Inr bind_running_in_def record_job_origin_def)
  moreover have "qd_exec_holds ?db2 = qd_exec_holds (hold_in (qj_job_id claimed) (qj_target claimed) (bounded_error e) db1)"
    by (simp add: stage_start_notice_def)
  ultimately show ?thesis
    using pend hold_in_reason [of "qj_job_id claimed" "qj_target claimed" "bounded_error e" db1] notice_staged by (simp add: reason_in_def)
qed

text \<open>C11: A held start is final. When the start of a job fails definitely with an execution hold, the job goes back to pending, a notice to
  its sender is staged, and whatever operations follow, on whatever generation, no claim ever authorises the job's dispatch
  again.\<close>

lemma held_start_is_final:
  assumes "queue_inv db" "record_start_failure_if_claimed claimed e False now db = Inr (Some j, db')" "legacy_or_current_error e"
  shows "qj_raw j = RPending \<and> qj_job_id claimed \<in> sn_job ` set (qd_start_notices db') \<and>
    count_events qd_apply (began (qj_job_id claimed)) es db' = 0"
proof -
  have "queue_inv (qd_apply (QFailure claimed e False now) db)" by (rule queue_inv_apply [OF assms(1)])
  then have "queue_inv db'" using assms(2) by simp
  then show ?thesis using failure_recorded [OF queue_inv_ids [OF assms(1)] assms(2,3)] held_never_begins by blast
qed

text \<open>C12: A cancelled request never runs again. Once a request is cancelled by its sender, by its job or by its Discord message, no
  operation creates a row for it or changes the row it has: every row of the request in the table after any run was there, as it
  is, before.\<close>

lemma cancelled_request_untouched:
  assumes "queue_inv db" "j \<in> set (qd_jobs (run_events qd_apply es db))" "cancelled_row db j"
  shows "j \<in> set (qd_jobs db)"
  using assms
proof (induction es arbitrary: db)
  case (Cons e es)
  have ok: "ids_ok db" by (rule queue_inv_ids [OF Cons.prems(1)])
  obtain g keep news where jobs: "qd_jobs (qd_apply e db) = map g (filter keep (qd_jobs db)) @ news"
    and "length news \<le> 1" and fresh: "\<forall>n \<in> set news. fresh_row db n"
    and step: "\<forall>j \<in> set (qd_jobs db). keep j \<longrightarrow> g j = j \<or> (\<exists>k \<in> qd_kinds e. row_step db k j (g j)) \<and> \<not> cancelled_row db j"
    and ids: "\<forall>j \<in> set (qd_jobs db). keep j \<longrightarrow> qj_job_id (g j) = qj_job_id j \<and> qj_message (g j) = qj_message j"
    and "frame db (qd_apply e db)"
    by (rule table_movesE [OF qd_apply_moves [OF ok, of e]])
  have "j \<in> set (qd_jobs (qd_apply e db))"
    using Cons.IH [of "qd_apply e db"] Cons.prems queue_inv_apply row_guards_frame(1) [OF frame_apply [OF ok]] by simp
  then consider x where "x \<in> set (qd_jobs db)" "keep x" "j = g x" | "j \<in> set news" unfolding jobs by auto
  then show ?case
  proof cases
    case 1
    then have "cancelled_row db x" using ids Cons.prems(3) by (auto simp: cancelled_row_def)
    then show ?thesis using step 1 by metis
  next
    case 2
    then show ?thesis using fresh Cons.prems(3) by (auto simp: fresh_row_def)
  qed
qed simp

section \<open>Redelivery and completion\<close>

lemma before_enqueue_again: "before_enqueue thread db = Inr db1 \<Longrightarrow> qd_idle db2 = qd_idle db1 \<Longrightarrow> before_enqueue thread db2 = Inr db2"
proof -
  assume b: "before_enqueue thread db = Inr db1" and same: "qd_idle db2 = qd_idle db1"
  have other: "lit ''Settled'' \<noteq> lit ''Candidate''" by (simp add: lit_def)
  show ?thesis
  proof (cases "find (\<lambda>i. ii_thread i = thread) (qd_idle db)")
    case None
    then show ?thesis using b same by (simp add: before_enqueue_def)
  next
    case (Some i)
    show ?thesis
    proof (cases "ii_state i = lit ''Candidate''")
      case True
      let ?f = "\<lambda>x. if x = i then x\<lparr>ii_state := lit ''Settled'', ii_detail := lit ''CancelledBeforeSend'', ii_revision := ii_revision x + 1\<rparr> else x"
      have "find (\<lambda>i. ii_thread i = thread) (map ?f xs) = map_option ?f (find (\<lambda>i. ii_thread i = thread) xs)" for xs
        by (induction xs) auto
      then have "find (\<lambda>i. ii_thread i = thread) (qd_idle db2) = Some (?f i)" using b Some True same by (auto simp: before_enqueue_def)
      then show ?thesis using other by (simp add: before_enqueue_def)
    next
      case False
      then have "db1 = db" using b Some by (auto simp: before_enqueue_def split: if_splits)
      then show ?thesis using b Some same False by (auto simp: before_enqueue_def split: if_splits)
    qed
  qed
qed

lemma find_append_None: "find P xs = None \<Longrightarrow> find P (xs @ ys) = find P ys"
  by (induction xs) (auto split: if_splits)

lemma sql_insert_tables:
  "sql_insert j db = Inr (created, db') \<Longrightarrow> qd_idle db' = qd_idle db \<and> qd_stop_held db' = qd_stop_held db \<and>
    qd_dispatching db' = qd_dispatching db \<and> qd_handoffs db' = qd_handoffs db \<and> qd_exact_routing db' = qd_exact_routing db"
  by (auto simp: sql_insert_def split: if_splits)

lemma sql_insert_again:
  assumes "sql_insert j db = Inr (created, db')"
  shows "sql_insert j db' = Inr (False, db')"
  using assms by (auto simp: sql_insert_def cancelled_row_def fenced_row_def split: if_splits)

text \<open>C18: Redelivering a request is idempotent. Whether a call created the job or found it, enqueueing the same request again answers with the
  same stored job, reports that it created nothing, and leaves the whole database as it is.\<close>

lemma enqueue_idempotent:
  assumes "enqueue n db = Inr ((job, created), db')"
  shows "enqueue n db' = Inr ((job, False), db')"
proof -
  obtain db1 where b: "before_enqueue (nj_target n) db = Inr db1" and o: "require_unheld_origin_in (nj_message n) db1 = Inr ()"
    and q: "nj_target n \<notin> set (qd_dispatching db1)" and h: "ensure_no_unresolved_handoff db1 (nj_target n) = Inr ()"
    and m: "ensure_source_not_moved db1 (nj_target n) = Inr ()" and i: "sql_insert (new_row n) db1 = Inr (created, db')"
    and sel: "(case nj_message n of Some message \<Rightarrow> if created then select_job db' (nj_job_id n) else select_by_message db' message
       | None \<Rightarrow> select_job db' (nj_job_id n)) = Inr job"
    using assms by (auto simp: enqueue_def and_then_Inr)
  note same = sql_insert_tables [OF i]
  have guards: "require_unheld_origin_in (nj_message n) db' = Inr ()" "ensure_no_unresolved_handoff db' (nj_target n) = Inr ()"
    "ensure_source_not_moved db' (nj_target n) = Inr ()"
    using o h m same by (simp_all add: require_unheld_origin_in_def ensure_no_unresolved_handoff_def unresolved_in_connection_def
      by_source_def ensure_source_not_moved_def completed_target_for_source_def split: option.splits if_splits)
  have "(case nj_message n of Some message \<Rightarrow> select_by_message db' message | None \<Rightarrow> select_job db' (nj_job_id n)) = Inr job"
  proof (cases "nj_message n")
    case (Some message)
    show ?thesis
    proof (cases created)
      case True
      then have "qd_jobs db' = qd_jobs db1 @ [new_row n]" "find (\<lambda>j. qj_message j = Some message) (qd_jobs db1) = None"
        using sql_insert_cases [OF i] Some by (auto simp: find_None_set)
      then have "find (\<lambda>j. qj_message j = Some message) (qd_jobs db') = Some (new_row n)" using Some by (simp add: find_append_None)
      then show ?thesis using sel Some True by (simp add: select_by_message_def)
    qed (use sel Some in simp)
  qed (use sel in simp)
  then show ?thesis
    using q same guards before_enqueue_again [OF b, of db'] sql_insert_again [OF i] by (simp add: enqueue_def split: option.splits)
qed

lemma find_filter_None: "find P (filter (\<lambda>x. \<not> (P x \<and> Q x)) xs) = None \<longleftrightarrow> (\<forall>x \<in> set xs. P x \<longrightarrow> Q x)"
  by (auto simp: find_None_set)

definition outbox_fresh :: "queue_db \<Rightarrow> rstr \<Rightarrow> bool" where
  "outbox_fresh db jid \<longleftrightarrow> \<not> list_ex (\<lambda>x. dl_id x = jid \<or> dl_job x = jid) (qd_outbox db)"

lemma record_event_tables:
  "qd_outbox (record_event m t db) = qd_outbox db" "qd_retired (record_event m t db) = qd_retired db"
  "qd_outbox (record_job_origin j db) = qd_outbox db" "qd_retired (record_job_origin j db) = qd_retired db"
  by (simp_all add: record_event_def record_job_origin_def split: option.splits)


section \<open>The canonical target of a moved thread\<close>

definition handoff_steps :: "queue_db \<Rightarrow> (rstr \<times> rstr) set" where
  "handoff_steps db = {(a, b). completed_target_for_source db a = Some b}"

lemma follow_handoffs_result:
  "follow_handoffs db source visited current = Inr t \<Longrightarrow>
     (current, t) \<in> (handoff_steps db)\<^sup>* \<and> completed_target_for_source db t = None \<and> \<not> target_is_held_in db t"
proof (induction db source visited current rule: follow_handoffs.induct)
  case (1 db source visited current)
  show ?case
  proof (cases "completed_target_for_source db current")
    case None
    then show ?thesis using "1.prems" by (auto simp: and_then_Inr ensure_target_available_def split: if_splits)
  next
    case (Some b)
    then have "follow_handoffs db source (current # visited) b = Inr t" "current \<notin> set visited" "ensure_target_available db current = Inr ()"
      using "1.prems" by (subst (asm) follow_handoffs.simps, auto simp: and_then_Inr split: if_splits)+
    then have "(b, t) \<in> (handoff_steps db)\<^sup>* \<and> completed_target_for_source db t = None \<and> \<not> target_is_held_in db t"
      using "1.IH" Some by blast
    moreover have "(current, b) \<in> handoff_steps db" using Some by (simp add: handoff_steps_def)
    ultimately show ?thesis by (meson converse_rtrancl_into_rtrancl)
  qed
qed

lemma follow_handoffs_error:
  "follow_handoffs db source visited current = Inl e \<Longrightarrow> (source, current) \<in> (handoff_steps db)\<^sup>* \<Longrightarrow>
   (\<forall>v \<in> set visited. (v, current) \<in> (handoff_steps db)\<^sup>+) \<Longrightarrow>
     e = ForkHandoffCycle source \<and> (\<exists>c. (source, c) \<in> (handoff_steps db)\<^sup>* \<and> (c, c) \<in> (handoff_steps db)\<^sup>+) \<or>
     (\<exists>x. e = DeadGenerationTargetHeld x \<and> target_is_held_in db x \<and> (source, x) \<in> (handoff_steps db)\<^sup>*)"
proof (induction db source visited current rule: follow_handoffs.induct)
  case (1 db source visited current)
  show ?case
  proof (cases "current \<in> set visited \<or> target_is_held_in db current")
    case True
    then show ?thesis
      using "1.prems" by (subst (asm) follow_handoffs.simps) (auto simp: and_then_def ensure_target_available_def split: if_splits)
  next
    case False
    then have ok: "ensure_target_available db current = Inr ()" by (simp add: ensure_target_available_def)
    obtain b where b: "completed_target_for_source db current = Some b" "follow_handoffs db source (current # visited) b = Inl e"
      using "1.prems"(1) False ok by (subst (asm) follow_handoffs.simps) (auto simp: and_then_def split: option.splits)
    have step: "(current, b) \<in> handoff_steps db" using b(1) by (simp add: handoff_steps_def)
    have "(source, b) \<in> (handoff_steps db)\<^sup>*" using "1.prems"(2) step by (rule rtrancl_into_rtrancl)
    moreover have "\<forall>v \<in> set (current # visited). (v, b) \<in> (handoff_steps db)\<^sup>+"
      using "1.prems"(3) step by (auto intro: trancl_into_trancl)
    ultimately show ?thesis using "1.IH" [OF _ b] False by blast
  qed
qed

text \<open>C28: A moved thread is followed to where it is now. Looking up the canonical target always ends: it answers with the end of the chain of
  completed handoffs from the thread, or with the thread itself when routing is exact, and the answer is not held; it refuses
  only when the chain runs into a cycle or meets a held thread.\<close>

lemma canonical_target_is_chain_end:
  "case canonical_completed_target db source of
     Inr t \<Rightarrow> \<not> target_is_held_in db t \<and> (if qd_exact_routing db then t = source
       else (source, t) \<in> (handoff_steps db)\<^sup>* \<and> completed_target_for_source db t = None)
   | Inl e \<Rightarrow> e = ForkHandoffCycle source \<and> (\<exists>c. (source, c) \<in> (handoff_steps db)\<^sup>* \<and> (c, c) \<in> (handoff_steps db)\<^sup>+) \<or>
       (\<exists>x. e = DeadGenerationTargetHeld x \<and> target_is_held_in db x \<and> (source, x) \<in> (handoff_steps db)\<^sup>*)"
proof (cases "qd_exact_routing db")
  case True
  then show ?thesis by (cases "target_is_held_in db source") (auto simp: canonical_completed_target_def ensure_target_available_def and_then_def)
next
  case False
  then show ?thesis
    using follow_handoffs_result [of db source "[]" source] follow_handoffs_error [of db source "[]" source]
    by (simp add: canonical_completed_target_def split: sum.splits)
qed

section \<open>Example runs\<close>

definition demo_new :: new_queue_job where
  "demo_new = \<lparr> nj_job_id = lit ''j'', nj_target = lit ''t'', nj_channel = 5, nj_owner = Some 9, nj_message = Some 7, nj_generation = 1,
     nj_prompt = lit ''hello'', nj_queued = True, nj_ack_sent = True, nj_created_at = 0 \<rparr>"

definition demo_db :: queue_db where
  "demo_db = \<lparr> qd_jobs = [], qd_cancellations = [(lit ''c'', None)], qd_archive_fences = [], qd_dispositions = [], qd_retired = [],
     qd_dead_holds = [], qd_runtime = Some (lit ''r''), qd_incidents = [], qd_exec_holds = [], qd_start_notices = [], qd_handoffs = [],
     qd_exact_routing = False, qd_mirrors = [], qd_idle = [], qd_stop_held = [], qd_dispatching = [], qd_async_held = [],
     qd_new_replies = [], qd_events = [], qd_outbox = [] \<rparr>"

definition demo_claim :: queue_job where
  "demo_claim = (new_row demo_new)\<lparr>qj_raw := RStarting, qj_execution_generation := Some 1, qj_attempts := 1, qj_updated_at := 1\<rparr>"

definition demo_claimed :: queue_db where
  "demo_claimed = run_events qd_apply [QEnqueue demo_new, QTryBegin (lit ''j'') [] 1 1] demo_db"

lemma demo_claimed_jobs: "qd_jobs demo_claimed = [demo_claim]"
  by code_simp

lemma demo_claimed_inv: "queue_inv demo_claimed"
  unfolding demo_claimed_def by (rule queue_inv_run) (simp add: queue_inv_def demo_db_def map_filter_def)

lemma queue_stays_well_formed_witness:
  "queue_inv (run_events qd_apply [QEnqueue demo_new, QTryBegin (lit ''j'') [] 1 1, QAck demo_claim (lit ''u'') None 2] demo_db) \<and>
   map qj_raw (qd_jobs (run_events qd_apply [QEnqueue demo_new, QTryBegin (lit ''j'') [] 1 1, QAck demo_claim (lit ''u'') None 2] demo_db)) = [RRunning]"
proof
  show "queue_inv (run_events qd_apply [QEnqueue demo_new, QTryBegin (lit ''j'') [] 1 1, QAck demo_claim (lit ''u'') None 2] demo_db)"
    by (rule queue_stays_well_formed) (simp add: demo_db_def)
qed code_simp

lemma dispatched_at_most_once_per_release_witness:
  "count_events qd_apply (began (lit ''j'')) [QTryBegin (lit ''j'') [] 1 2, QFailure demo_claim (lit ''x'') False 3, QTryBegin (lit ''j'') [] 1 4,
     QTryBegin (lit ''j'') [] 1 5] demo_claimed \<le> 1 \<and>
   count_events qd_apply (released (lit ''j'')) [QTryBegin (lit ''j'') [] 1 2, QFailure demo_claim (lit ''x'') False 3, QTryBegin (lit ''j'') [] 1 4,
     QTryBegin (lit ''j'') [] 1 5] demo_claimed = 1"
proof
  let ?es = "[QTryBegin (lit ''j'') [] 1 2, QFailure demo_claim (lit ''x'') False 3, QTryBegin (lit ''j'') [] 1 4, QTryBegin (lit ''j'') [] 1 5]"
  show one: "count_events qd_apply (released (lit ''j'')) ?es demo_claimed = 1" by code_simp
  have "in_flight demo_claimed (lit ''j'')" by (simp add: in_flight_def demo_claimed_jobs demo_claim_def demo_new_def)
  then show "count_events qd_apply (began (lit ''j'')) ?es demo_claimed \<le> 1"
    using dispatched_at_most_once_per_release [OF demo_claimed_inv, of "lit ''j''" ?es] one by simp
qed

definition demo_refusal :: rstr where
  "demo_refusal = HELD_PREFIX @ lit ''x''"

definition demo_held :: queue_db where
  "demo_held = qd_apply (QFailure demo_claim demo_refusal False 2) demo_claimed"

lemma demo_held_result:
  "record_start_failure_if_claimed demo_claim demo_refusal False 2 demo_claimed =
     Inr (Some (demo_claim\<lparr>qj_raw := RPending, qj_last_error := bounded_error demo_refusal, qj_updated_at := 2\<rparr>), demo_held)"
  by code_simp

lemma held_start_is_final_witness:
  "qj_job_id demo_claim \<in> sn_job ` set (qd_start_notices demo_held) \<and>
   count_events qd_apply (began (qj_job_id demo_claim)) [QTryBegin (lit ''j'') [] 1 3, QAdopt 2, QTryBegin (lit ''j'') [] 2 4] demo_held = 0"
proof -
  have "legacy_or_current_error demo_refusal" by code_simp
  from held_start_is_final [OF demo_claimed_inv demo_held_result this] show ?thesis by blast
qed

definition demo_cancelled :: queue_db where
  "demo_cancelled = demo_claimed\<lparr>qd_cancellations := [(lit ''other'', Some 7)]\<rparr>"

lemma cancelled_request_untouched_witness:
  "demo_claim \<in> set (qd_jobs (run_events qd_apply [QFailure demo_claim (lit ''x'') False 2, QAck demo_claim (lit ''u'') None 2] demo_cancelled)) \<and>
   demo_claim \<in> set (qd_jobs demo_cancelled)"
proof -
  have in_final: "demo_claim \<in> set (qd_jobs (run_events qd_apply [QFailure demo_claim (lit ''x'') False 2, QAck demo_claim (lit ''u'') None 2] demo_cancelled))"
    by code_simp
  have "queue_inv demo_cancelled" using demo_claimed_inv by (simp add: demo_cancelled_def queue_inv_def)
  moreover have "cancelled_row demo_cancelled demo_claim" by code_simp
  ultimately show ?thesis using cancelled_request_untouched [OF _ in_final] in_final by blast
qed

lemma enqueue_idempotent_witness:
  "case enqueue demo_new demo_db of
     Inl _ \<Rightarrow> False
   | Inr ((job, created), db') \<Rightarrow> created \<and> job = new_row demo_new \<and> enqueue demo_new db' = Inr ((job, False), db')"
proof -
  have "case enqueue demo_new demo_db of Inl _ \<Rightarrow> False | Inr ((job, created), _) \<Rightarrow> created \<and> job = new_row demo_new" by code_simp
  then obtain db' where "enqueue demo_new demo_db = Inr ((new_row demo_new, True), db')" by (auto split: sum.splits prod.splits)
  then show ?thesis using enqueue_idempotent by fastforce
qed

definition demo_running :: queue_db where
  "demo_running = qd_apply (QAck demo_claim (lit ''u'') None 2) demo_claimed"


end
