(* ===== verification/Restart_Drain.thy ===== *)
theory Restart_Drain
  imports Turn_Queue Lifecycle Hash_Map
begin

text \<open>
  The restart drain of the bot: the in-process admission gate (\<open>cdr-runtime/src/restart_readiness/drain.rs\<close>,
  \<open>drain/key.rs\<close>), the marker files of the handshake with the watchdog (\<open>drain_marker.rs\<close>), the controller
  that claims a prepare marker and acknowledges it (\<open>drain_controller.rs\<close>), the durable snapshot of unfinished work
  (\<open>cdr-store/src/restart_readiness.rs\<close>), the inspection of the live app-server (\<open>live_drain.rs\<close>,
  \<open>thread_state.rs\<close>) and the loop that drains before a restart (\<open>discord_runtime/gateway_drain.rs\<close>). Each operation of the gate
  holds its mutex, so it is one step; the loop is given, wait by wait, what the other tasks do meanwhile.
\<close>

section \<open>Keys (\<open>drain/key.rs\<close>)\<close>

record fence_key =
  fk_runtime :: rstr
  fk_process :: rstr
  fk_nonce :: rstr

datatype drain_error = InvalidKey | GateSealed | FenceMismatch | GateLockPoisoned | DrainTimeout nat

definition is_digit :: "int \<Rightarrow> bool" where
  "is_digit c \<longleftrightarrow> 48 \<le> c \<and> c \<le> 57"

definition is_alphanumeric :: "int \<Rightarrow> bool" where
  "is_alphanumeric c \<longleftrightarrow> is_digit c \<or> 65 \<le> c \<and> c \<le> 90 \<or> 97 \<le> c \<and> c \<le> 122"

definition valid_token :: "rstr \<Rightarrow> bool" where
  "valid_token v \<longleftrightarrow> v \<noteq> [] \<and> byte_len v \<le> 128 \<and> list_all (\<lambda>c. is_alphanumeric c \<or> c = 45 \<or> c = 95) v"

definition valid_process_identity :: "rstr \<Rightarrow> bool" where
  "valid_process_identity v = (case split_once 124 v of None \<Rightarrow> False
     | Some (pid, ticks) \<Rightarrow> pid \<noteq> [] \<and> ticks \<noteq> [] \<and> list_all is_digit pid \<and> list_all is_digit ticks)"

definition fence_key_new :: "rstr \<Rightarrow> rstr \<Rightarrow> rstr \<Rightarrow> (drain_error, fence_key) result" where
  "fence_key_new runtime process nonce =
     (if \<not> valid_token runtime \<or> \<not> valid_process_identity process \<or> \<not> valid_token nonce then Inl InvalidKey
      else Inr \<lparr> fk_runtime = runtime, fk_process = process, fk_nonce = nonce \<rparr>)"

section \<open>The gate (\<open>drain.rs\<close>)\<close>

record drain_gate =
  dg_active :: nat
  dg_sealed :: "fence_key option"
  dg_controls_open :: bool

definition gate_new :: drain_gate where
  "gate_new = \<lparr> dg_active = 0, dg_sealed = None, dg_controls_open = False \<rparr>"

text \<open>The answer tells whether the gate was sealed when the permit was given.\<close>

definition try_enter_kind :: "bool \<Rightarrow> drain_gate \<Rightarrow> (drain_error, bool \<times> drain_gate) result" where
  "try_enter_kind control g =
     (if dg_sealed g \<noteq> None \<and> \<not> (control \<and> dg_controls_open g) then Inl GateSealed
      else case checked_add64 (dg_active g) 1 of
        None \<Rightarrow> Inl GateLockPoisoned
      | Some n \<Rightarrow> Inr (dg_sealed g \<noteq> None, g\<lparr>dg_active := n\<rparr>))"

definition try_enter :: "drain_gate \<Rightarrow> (drain_error, drain_gate) result" where
  "try_enter g = (case try_enter_kind False g of Inl e \<Rightarrow> Inl e | Inr (_, g') \<Rightarrow> Inr g')"

definition try_enter_control :: "drain_gate \<Rightarrow> (drain_error, drain_gate) result" where
  "try_enter_control g = (case try_enter_kind True g of Inl e \<Rightarrow> Inl e | Inr (_, g') \<Rightarrow> Inr g')"

definition gate_seal :: "fence_key \<Rightarrow> drain_gate \<Rightarrow> (drain_error, drain_gate) result" where
  "gate_seal key g = (case dg_sealed g of
     None \<Rightarrow> Inr (g\<lparr>dg_sealed := Some key, dg_controls_open := True\<rparr>)
   | Some k \<Rightarrow> if k = key then Inr g else Inl FenceMismatch)"

definition gate_is_sealed :: "drain_gate \<Rightarrow> bool" where
  "gate_is_sealed g = (dg_sealed g \<noteq> None)"

definition close_controls :: "fence_key \<Rightarrow> drain_gate \<Rightarrow> (drain_error, drain_gate) result" where
  "close_controls key g = (if dg_sealed g \<noteq> Some key then Inl FenceMismatch else Inr (g\<lparr>dg_controls_open := False\<rparr>))"

definition open_controls :: "fence_key \<Rightarrow> drain_gate \<Rightarrow> (drain_error, drain_gate) result" where
  "open_controls key g = (if dg_sealed g \<noteq> Some key then Inl FenceMismatch else Inr (g\<lparr>dg_controls_open := True\<rparr>))"

definition is_drained_for :: "fence_key \<Rightarrow> drain_gate \<Rightarrow> bool" where
  "is_drained_for key g \<longleftrightarrow> dg_active g = 0 \<and> dg_sealed g = Some key"

definition gate_release :: "fence_key \<Rightarrow> drain_gate \<Rightarrow> bool \<times> drain_gate" where
  "gate_release key g = (if dg_active g \<noteq> 0 \<or> dg_sealed g \<noteq> Some key then (False, g)
     else (True, g\<lparr>dg_sealed := None, dg_controls_open := False\<rparr>))"

definition with_unsealed :: "drain_gate \<Rightarrow> 'r \<Rightarrow> (drain_error, 'r) result" where
  "with_unsealed g action = (if dg_sealed g \<noteq> None then Inl GateSealed else Inr action)"

definition permit_clone :: "drain_gate \<Rightarrow> drain_gate" where
  "permit_clone g = g\<lparr>dg_active := sat_add64 (dg_active g) 1\<rparr>"

definition permit_drop :: "drain_gate \<Rightarrow> drain_gate" where
  "permit_drop g = g\<lparr>dg_active := dg_active g - 1\<rparr>"

text \<open>What tasks do to the gate. A permit is cloned and dropped by a task that holds one. The drain loop alone closes and opens the
  controls, and nothing in the running bot releases the seal.\<close>

datatype gate_event = GEnter bool | GSeal fence_key | GClone | GDrop

fun gate_step :: "gate_event \<Rightarrow> drain_gate \<Rightarrow> drain_gate" where
  "gate_step (GEnter control) g = (case try_enter_kind control g of Inl _ \<Rightarrow> g | Inr (_, g') \<Rightarrow> g')"
| "gate_step (GSeal key) g = (case gate_seal key g of Inl _ \<Rightarrow> g | Inr g' \<Rightarrow> g')"
| "gate_step GClone g = (if dg_active g = 0 then g else permit_clone g)"
| "gate_step GDrop g = (if dg_active g = 0 then g else permit_drop g)"

section \<open>Marker files (\<open>drain_marker.rs\<close>)\<close>

record runtime_marker =
  rm_runtime :: rstr
  rm_process :: nat

datatype marker_file = Missing | Unreadable | Content rstr

record drain_fs =
  df_identity :: marker_file
  df_prepare :: marker_file
  df_ack :: marker_file
  df_restart :: marker_file
  df_stop :: bool

datatype marker_error = MarkerIo | Malformed rstr | MarkerKey drain_error

text \<open>\<open>str::lines\<close>: the pieces that end at a line feed, and a last one that is not empty; a carriage return before the line feed
  belongs to the line's end.\<close>

definition chomp :: "rstr \<Rightarrow> rstr" where
  "chomp l = (if l \<noteq> [] \<and> last l = 13 then butlast l else l)"

definition str_lines :: "rstr \<Rightarrow> rstr list" where
  "str_lines s = (let ps = split_at_char 10 s in map chomp (butlast ps) @ (if last ps = [] then [] else [last ps]))"

fun parse_fields :: "rstr list \<Rightarrow> (rstr, rstr) hmap \<Rightarrow> (marker_error, (rstr, rstr) hmap) result" where
  "parse_fields [] m = Inr m"
| "parse_fields (line # rest) m = (case split_once 61 line of
     None \<Rightarrow> Inl (Malformed (lit ''line does not contain '' @ [39, 61, 39]))
   | Some (name, value) \<Rightarrow>
       if name = [] \<or> value = [] \<or> hm_contains m name then Inl (Malformed (lit ''field is empty or duplicated''))
       else parse_fields rest (hm_insert name value m))"

definition read_fields :: "marker_file \<Rightarrow> (marker_error, (rstr, rstr) hmap option) result" where
  "read_fields f = (case f of Missing \<Rightarrow> Inr None | Unreadable \<Rightarrow> Inl MarkerIo
   | Content t \<Rightarrow> if byte_len t > 4096 then Inl (Malformed (lit ''marker exceeds 4096 bytes''))
       else and_then (parse_fields (str_lines t) []) (\<lambda>m. Inr (Some m)))"

definition field :: "(rstr, rstr) hmap \<Rightarrow> rstr \<Rightarrow> (marker_error, rstr) result" where
  "field m name = (case hm_get m name of None \<Rightarrow> Inl (Malformed (lit ''missing '' @ name)) | Some v \<Rightarrow> Inr v)"

definition require_field :: "(rstr, rstr) hmap \<Rightarrow> rstr \<Rightarrow> rstr \<Rightarrow> (marker_error, unit) result" where
  "require_field m name expected =
     and_then (field m name) (\<lambda>v. require (v = expected) (Malformed (lit ''invalid '' @ name)))"

definition read_fence :: "marker_file \<Rightarrow> rstr option \<Rightarrow> (marker_error, fence_key option) result" where
  "read_fence f expected_state =
     and_then (read_fields f) (\<lambda>r. case r of None \<Rightarrow> Inr None
     | Some m \<Rightarrow>
         and_then (require_field m (lit ''version'') (lit ''1'')) (\<lambda>_.
         and_then (case expected_state of None \<Rightarrow> Inr () | Some s \<Rightarrow> require_field m (lit ''state'') s) (\<lambda>_.
         and_then (field m (lit ''runtime_id'')) (\<lambda>runtime.
         and_then (field m (lit ''process_identity'')) (\<lambda>process.
         and_then (field m (lit ''nonce'')) (\<lambda>nonce.
         case fence_key_new runtime process nonce of Inl e \<Rightarrow> Inl (MarkerKey e) | Inr key \<Rightarrow> Inr (Some key)))))))"

definition read_prepare :: "drain_fs \<Rightarrow> (marker_error, fence_key option) result" where
  "read_prepare fs = read_fence (df_prepare fs) None"

definition read_ack :: "drain_fs \<Rightarrow> (marker_error, fence_key option) result" where
  "read_ack fs = read_fence (df_ack fs) (Some (lit ''sealed''))"

definition read_restart :: "drain_fs \<Rightarrow> (marker_error, fence_key option) result" where
  "read_restart fs = read_fence (df_restart fs) None"

definition marker_line :: "string \<Rightarrow> rstr \<Rightarrow> rstr" where
  "marker_line name value = lit name @ [61] @ value @ [10]"

definition ack_text :: "fence_key \<Rightarrow> rstr" where
  "ack_text key = marker_line ''version'' (lit ''1'') @ marker_line ''runtime_id'' (fk_runtime key) @
     marker_line ''process_identity'' (fk_process key) @ marker_line ''nonce'' (fk_nonce key) @ marker_line ''state'' (lit ''sealed'')"

definition identity_text :: "runtime_marker \<Rightarrow> rstr" where
  "identity_text m = marker_line ''version'' (lit ''1'') @ marker_line ''runtime_id'' (rm_runtime m) @
     marker_line ''pid'' (decimal (rm_process m)) @ marker_line ''state'' (lit ''open'')"

text \<open>\<open>atomic_write\<close> replaces the file as a whole, or fails; \<open>writable\<close> is what the file system answers.\<close>

definition publish_ack :: "bool \<Rightarrow> fence_key \<Rightarrow> drain_fs \<Rightarrow> (marker_error, drain_fs) result" where
  "publish_ack writable key fs = (if writable then Inr (fs\<lparr>df_ack := Content (ack_text key)\<rparr>) else Inl MarkerIo)"

definition publish_identity :: "bool \<Rightarrow> runtime_marker \<Rightarrow> drain_fs \<Rightarrow> (marker_error, drain_fs) result" where
  "publish_identity writable m fs = (if writable then Inr (fs\<lparr>df_identity := Content (identity_text m)\<rparr>) else Inl MarkerIo)"

definition remove_ack_if_owned :: "fence_key \<Rightarrow> drain_fs \<Rightarrow> (marker_error, drain_fs) result" where
  "remove_ack_if_owned expected fs = and_then (read_ack fs) (\<lambda>r. Inr (if r = Some expected then fs\<lparr>df_ack := Missing\<rparr> else fs))"

section \<open>The controller (\<open>drain_controller.rs\<close>)\<close>

datatype protocol_error = PMarker marker_error | PGate drain_error | OrphanedState | IdentityMismatch | PrepareChanged

record drain_controller =
  dc_fs :: drain_fs
  dc_identity :: runtime_marker
  dc_gate :: drain_gate
  dc_untrusted :: fence_key

definition lift_marker :: "(marker_error, 'a) result \<Rightarrow> (protocol_error, 'a) result" where
  "lift_marker r = (case r of Inl e \<Rightarrow> Inl (PMarker e) | Inr x \<Rightarrow> Inr x)"

definition lift_gate :: "(drain_error, 'a) result \<Rightarrow> (protocol_error, 'a) result" where
  "lift_gate r = (case r of Inl e \<Rightarrow> Inl (PGate e) | Inr x \<Rightarrow> Inr x)"

text \<open>\<open>runtime\<close> is the fresh UUID, \<open>pid\<close> the process id.\<close>

definition drain_initialize :: "rstr \<Rightarrow> nat \<Rightarrow> bool \<Rightarrow> drain_fs \<Rightarrow> (protocol_error, drain_controller) result" where
  "drain_initialize runtime pid writable fs =
     (if df_prepare fs \<noteq> Missing \<or> df_ack fs \<noteq> Missing then Inl OrphanedState
      else let identity = \<lparr> rm_runtime = runtime, rm_process = pid \<rparr> in
        and_then (lift_gate (fence_key_new runtime (decimal pid @ lit ''|0'') (lit ''untrusted-prepare''))) (\<lambda>untrusted.
        and_then (lift_marker (publish_identity writable identity fs)) (\<lambda>fs'.
        Inr \<lparr> dc_fs = fs', dc_identity = identity, dc_gate = gate_new, dc_untrusted = untrusted \<rparr>)))"

definition quarantine_untrusted_prepare :: "drain_controller \<Rightarrow> (protocol_error, drain_controller) result" where
  "quarantine_untrusted_prepare c = and_then (lift_gate (gate_seal (dc_untrusted c) (dc_gate c))) (\<lambda>g. Inr (c\<lparr>dc_gate := g\<rparr>))"

definition claim_prepare :: "drain_controller \<Rightarrow> (protocol_error, fence_key option \<times> drain_controller) result" where
  "claim_prepare c =
     and_then (lift_marker (read_prepare (dc_fs c))) (\<lambda>r. case r of None \<Rightarrow> Inr (None, c)
     | Some key \<Rightarrow>
         if fk_runtime key \<noteq> rm_runtime (dc_identity c) \<or>
            \<not> starts_with (fk_process key) (decimal (rm_process (dc_identity c)) @ lit ''|'') then Inl IdentityMismatch
         else and_then (lift_gate (gate_seal key (dc_gate c))) (\<lambda>g. Inr (Some key, c\<lparr>dc_gate := g\<rparr>)))"

text \<open>The acknowledgement is published between two reads of the prepare file; \<open>meanwhile\<close> is what other processes do to the files
  between the write and the second read. An error answers with the controller as the call leaves it.\<close>

definition acknowledge ::
  "bool \<Rightarrow> (drain_fs \<Rightarrow> drain_fs) \<Rightarrow> fence_key \<Rightarrow> drain_controller \<Rightarrow> (protocol_error, unit) result \<times> drain_controller" where
  "acknowledge writable meanwhile key c =
     (if \<not> is_drained_for key (dc_gate c) then (Inl PrepareChanged, c)
      else case read_prepare (dc_fs c) of
        Inl e \<Rightarrow> (Inl (PMarker e), c)
      | Inr r \<Rightarrow> if r \<noteq> Some key then (Inl PrepareChanged, c)
          else case publish_ack writable key (dc_fs c) of
            Inl e \<Rightarrow> (Inl (PMarker e), c)
          | Inr fs1 \<Rightarrow>
              let fs2 = meanwhile fs1; c2 = c\<lparr>dc_fs := fs2\<rparr> in
              (case read_prepare fs2 of
                 Inl e \<Rightarrow> (Inl (PMarker e), c2)
               | Inr r2 \<Rightarrow> if r2 = Some key then (Inr (), c2)
                   else (case remove_ack_if_owned key fs2 of
                     Inl e \<Rightarrow> (Inl (PMarker e), c2)
                   | Inr fs3 \<Rightarrow> (Inl PrepareChanged, c\<lparr>dc_fs := fs3\<rparr>))))"

text \<open>One round of \<open>wait_for_transition_inner\<close>: a stop is obeyed first, then the acknowledgement is published if it is still
  due, then the restart marker is read. \<open>None\<close> keeps waiting.\<close>

datatype drained_transition = RestartNow | StopNow

definition transition_tick ::
  "bool \<Rightarrow> (drain_fs \<Rightarrow> drain_fs) \<Rightarrow> fence_key \<Rightarrow> bool \<times> drain_controller \<Rightarrow> drained_transition option \<times> bool \<times> drain_controller" where
  "transition_tick writable meanwhile key s = (let (complete, c) = s in
     if df_stop (dc_fs c) then (Some StopNow, complete, c)
     else case (if complete then (Inr (), c) else acknowledge writable meanwhile key c) of
       (Inl _, c') \<Rightarrow> (None, False, c')
     | (Inr _, c') \<Rightarrow> ((if read_restart (dc_fs c') = Inr (Some key) then Some RestartNow else None), True, c'))"

section \<open>Unfinished work in the store (\<open>cdr-store/src/restart_readiness.rs\<close>)\<close>

record readiness_snapshot =
  rs_targets :: "rstr list"
  rs_blockers :: "rstr list"
  rs_observations :: "rstr list"

text \<open>The rows of the optional tables: prompt intakes with whether they are claimed, and managed targets; \<open>None\<close> is a table
  that does not exist. A \<open>BTreeSet\<close> is the sorted list of its members.\<close>

record readiness_tables =
  rt_db :: queue_db
  rt_mirrors :: "rstr list"
  rt_intakes :: "(rstr \<times> rstr \<times> bool) list option"
  rt_managed :: "rstr list option"
  rt_forks :: bool

definition validate_target :: "rstr \<Rightarrow> unit stored" where
  "validate_target target = require (target \<noteq> [] \<and> trim target = target) (InvalidAppServerManagedTarget target)"

fun read_targets :: "rstr list \<Rightarrow> rstr list \<Rightarrow> rstr list stored" where
  "read_targets [] targets = Inr targets"
| "read_targets (t # ts) targets = and_then (validate_target t) (\<lambda>_. read_targets ts (insort_insert t targets))"

definition raw_text :: "raw_state \<Rightarrow> rstr" where
  "raw_text r = (case r of RPending \<Rightarrow> lit ''pending'' | RStarting \<Rightarrow> lit ''starting'' | RRunning \<Rightarrow> lit ''running'')"

definition queue_semantic :: "queue_job \<Rightarrow> rstr \<times> bool" where
  "queue_semantic j = (case qj_raw j of
     RPending \<Rightarrow> (lit ''pending'', False)
   | RStarting \<Rightarrow> if starts_with (qj_last_error j) STARTING_CANDIDATE_HOLD_PREFIX then (lit ''starting_hold'', False)
       else (lit ''starting'', True)
   | RRunning \<Rightarrow> if is_quarantine_encoding (qj_raw j) (qj_turn_id j) (qj_last_error j) then (lit ''quarantined'', False)
       else (lit ''running'', True))"

fun read_queue_rows :: "queue_job list \<Rightarrow> readiness_snapshot \<Rightarrow> readiness_snapshot stored" where
  "read_queue_rows [] s = Inr s"
| "read_queue_rows (j # js) s =
     and_then (validate_target (qj_target j)) (\<lambda>_. read_queue_rows js
       (s\<lparr>rs_targets := insort_insert (qj_target j) (rs_targets s),
          rs_blockers := rs_blockers s @ (if snd (queue_semantic j) then [lit ''queue job '' @ qj_job_id j @ lit '' is '' @ raw_text (qj_raw j)] else []),
          rs_observations := rs_observations s @ [lit ''queue:'' @ qj_job_id j @ lit '':'' @ qj_target j @ lit '':'' @ fst (queue_semantic j)]\<rparr>))"

fun read_intake_rows :: "(rstr \<times> rstr \<times> bool) list \<Rightarrow> readiness_snapshot \<Rightarrow> readiness_snapshot stored" where
  "read_intake_rows [] s = Inr s"
| "read_intake_rows ((job, target, claimed) # rest) s =
     and_then (validate_target target) (\<lambda>_. read_intake_rows rest
       (s\<lparr>rs_targets := insort_insert target (rs_targets s),
          rs_blockers := rs_blockers s @ (if claimed then [lit ''prompt intake '' @ job @ lit '' is claimed''] else []),
          rs_observations := rs_observations s @ [lit ''intake:'' @ job @ lit '':'' @ target @ lit '':claimed='' @
            (if claimed then lit ''true'' else lit ''false'')]\<rparr>))"

fun read_fork_rows :: "fork_handoff list \<Rightarrow> readiness_snapshot \<Rightarrow> readiness_snapshot stored" where
  "read_fork_rows [] s = Inr s"
| "read_fork_rows (h # hs) s =
     and_then (read_targets (fh_source h # List.map_filter id [fh_observed h, fh_target h]) (rs_targets s)) (\<lambda>targets. read_fork_rows hs
       (s\<lparr>rs_targets := targets, rs_observations := rs_observations s @ [lit ''fork:'' @ fh_id h @ lit '':'' @ fh_source h @
          lit '':observed='' @ (case fh_observed h of None \<Rightarrow> lit ''none'' | Some t \<Rightarrow> t) @
          lit '':target='' @ (case fh_target h of None \<Rightarrow> lit ''none'' | Some t \<Rightarrow> t)]\<rparr>))"

definition readiness_of :: "readiness_tables \<Rightarrow> readiness_snapshot stored" where
  "readiness_of t =
     and_then (read_targets (sort (rt_mirrors t)) []) (\<lambda>mirrors.
     and_then (read_queue_rows (sort_key qj_job_id (qd_jobs (rt_db t))) \<lparr> rs_targets = mirrors, rs_blockers = [], rs_observations = [] \<rparr>) (\<lambda>s1.
     and_then (case rt_intakes t of None \<Rightarrow> Inr s1 | Some rows \<Rightarrow> read_intake_rows (sort_key fst rows) s1) (\<lambda>s2.
     and_then (case rt_managed t of None \<Rightarrow> Inr s2
       | Some rows \<Rightarrow> and_then (read_targets (sort rows) (rs_targets s2)) (\<lambda>ts. Inr (s2\<lparr>rs_targets := ts\<rparr>))) (\<lambda>s3.
     and_then (if rt_forks t then read_fork_rows (sort_key fh_id (qd_handoffs (rt_db t))) s3 else Inr s3) (\<lambda>s4.
     Inr (s4\<lparr>rs_blockers := sort (rs_blockers s4), rs_observations := sort (rs_observations s4)\<rparr>))))))"

section \<open>The live app-server (\<open>live_drain.rs\<close>)\<close>

record lifecycle_snapshot =
  ls_generation :: nat
  ls_healthy :: bool
  ls_quarantined :: bool
  ls_restart_pending :: bool
  ls_process_id :: "nat option"

record live_observation =
  lo_lifecycle :: lifecycle_snapshot
  lo_unsettled :: bool
  lo_active :: "(rstr \<times> rstr) list"

text \<open>What the server answers to one observation; \<open>None\<close> is an error of the app-server.\<close>

record live_server =
  lv_lifecycle :: lifecycle_snapshot
  lv_unsettled :: "bool option"
  lv_active_turn :: "rstr \<Rightarrow> rstr option option"

datatype live_drain_state = LiveReady | LiveBlocked rstr

datatype live_drain_error = LdStore store_error | LdAppServer

text \<open>\<open>debug\<close> renders a lifecycle snapshot.\<close>

definition live_blocker :: "(lifecycle_snapshot \<Rightarrow> rstr) \<Rightarrow> live_observation \<Rightarrow> rstr option" where
  "live_blocker debug ob = (let l = lo_lifecycle ob in
     if \<not> ls_healthy l \<or> ls_quarantined l \<or> ls_restart_pending l \<or> ls_process_id l = None
     then Some (lit ''resident app-server is not stably healthy: '' @ debug l)
     else if lo_unsettled ob then Some (lit ''resident app-server has an unsettled approval or input request'')
     else case lo_active ob of [] \<Rightarrow> None
       | (thread, turn) # _ \<Rightarrow> Some (lit ''resident app-server thread '' @ thread @ lit '' still has active turn '' @ turn))"

fun observe_active :: "live_server \<Rightarrow> rstr list \<Rightarrow> (live_drain_error, (rstr \<times> rstr) list) result" where
  "observe_active server [] = Inr []"
| "observe_active server (thread # rest) = (case lv_active_turn server thread of
     None \<Rightarrow> Inl LdAppServer
   | Some turn \<Rightarrow> and_then (observe_active server rest) (\<lambda>active.
       Inr (case turn of None \<Rightarrow> active | Some t \<Rightarrow> (thread, t) # active)))"

definition observe :: "live_server \<Rightarrow> readiness_snapshot \<Rightarrow> (live_drain_error, live_observation) result" where
  "observe server durable = (case lv_unsettled server of None \<Rightarrow> Inl LdAppServer
   | Some unsettled \<Rightarrow> and_then (observe_active server (rs_targets durable)) (\<lambda>active.
       Inr \<lparr> lo_lifecycle = lv_lifecycle server, lo_unsettled = unsettled, lo_active = active \<rparr>))"

text \<open>An inspection reads the store, the server, the store and the server; each read may see another state.\<close>

record inspection =
  in_before :: readiness_tables
  in_live :: live_server
  in_after :: readiness_tables
  in_live_after :: live_server

definition snapshot_of :: "readiness_tables \<Rightarrow> (live_drain_error, readiness_snapshot) result" where
  "snapshot_of t = (case readiness_of t of Inl e \<Rightarrow> Inl (LdStore e) | Inr s \<Rightarrow> Inr s)"

definition check_runtime_quiescence ::
  "(lifecycle_snapshot \<Rightarrow> rstr) \<Rightarrow> inspection \<Rightarrow> (live_drain_error, live_drain_state) result" where
  "check_runtime_quiescence debug i =
     and_then (snapshot_of (in_before i)) (\<lambda>before.
     if rs_blockers before \<noteq> [] then Inr (LiveBlocked (hd (rs_blockers before)))
     else and_then (observe (in_live i) before) (\<lambda>live_before.
     case live_blocker debug live_before of Some reason \<Rightarrow> Inr (LiveBlocked reason)
     | None \<Rightarrow> and_then (snapshot_of (in_after i)) (\<lambda>after.
       if before \<noteq> after then Inr (LiveBlocked (lit ''Rust durable restart state changed during live drain inspection''))
       else and_then (observe (in_live_after i) after) (\<lambda>live_after.
         if live_before \<noteq> live_after then Inr (LiveBlocked (lit ''resident app-server state changed during live drain inspection''))
         else Inr LiveReady))))"

section \<open>The drain loop (\<open>discord_runtime/gateway_drain.rs\<close>)\<close>

datatype admission_wait = WDrained | WTimedOut | WGateError drain_error | WShutdown

text \<open>\<open>wait_drained\<close> checks the gate now and after each change; \<open>None\<close> is the time-out of the slice.\<close>

fun wait_drained :: "fence_key \<Rightarrow> gate_event list \<Rightarrow> drain_gate \<Rightarrow> (drain_error, unit) result option \<times> drain_gate" where
  "wait_drained key es g =
     (if dg_sealed g \<noteq> Some key then (Some (Inl FenceMismatch), g)
      else if dg_active g = 0 then (Some (Inr ()), g)
      else case es of [] \<Rightarrow> (None, g) | e # rest \<Rightarrow> wait_drained key rest (gate_step e g))"

declare wait_drained.simps [simp del]

text \<open>One slice of a wait: whether a stop is requested, whether the deadline has passed, what the other tasks do to the gate
  during the slice, and whether the interrupt ends it.\<close>

record slice =
  sl_stop :: bool
  sl_expired :: bool
  sl_events :: "gate_event list"
  sl_interrupted :: bool

text \<open>The wait goes on while its slices last; \<open>None\<close> is a wait that has not ended yet.\<close>

fun wait_for_admission :: "fence_key \<Rightarrow> slice list \<Rightarrow> drain_gate \<Rightarrow> admission_wait option \<times> drain_gate" where
  "wait_for_admission key [] g = (None, g)"
| "wait_for_admission key (s # rest) g =
     (if sl_stop s then (Some WShutdown, g)
      else if sl_expired s then (Some WTimedOut, g)
      else case wait_drained key (sl_events s) g of
        (Some (Inr _), g') \<Rightarrow> (Some WDrained, g')
      | (Some (Inl e), g') \<Rightarrow> (Some (WGateError e), g')
      | (None, g') \<Rightarrow> if sl_interrupted s then (Some WShutdown, g') else wait_for_admission key rest g')"

datatype live_inspection = Finished "(live_drain_error, live_drain_state) result" | InspectionShutdown

datatype loop_outcome = LoopShutdown | LoopDrained fence_key

text \<open>One round of the loop: the two waits, the two inspections with what happens to the gate during each, and whether the pause at
  the end of the round is a shutdown.\<close>

record drain_round =
  dr_first :: "slice list"
  dr_inspect :: "inspection option"
  dr_inspect_events :: "gate_event list"
  dr_final :: "slice list"
  dr_reinspect :: "inspection option"
  dr_reinspect_events :: "gate_event list"
  dr_pause_stop :: bool
  dr_pause_events :: "gate_event list"

definition inspect_or_shutdown :: "(lifecycle_snapshot \<Rightarrow> rstr) \<Rightarrow> inspection option \<Rightarrow> live_inspection" where
  "inspect_or_shutdown debug i = (case i of None \<Rightarrow> InspectionShutdown | Some x \<Rightarrow> Finished (check_runtime_quiescence debug x))"

definition reopen_controls :: "fence_key \<Rightarrow> drain_gate \<Rightarrow> drain_gate" where
  "reopen_controls key g = (case open_controls key g of Inl _ \<Rightarrow> g | Inr g' \<Rightarrow> g')"

text \<open>A round answers with an outcome, or with whether the loop pauses before the next round.\<close>

datatype round_end = Done loop_outcome | Again | AgainAfterPause | Waiting

definition final_check ::
  "(lifecycle_snapshot \<Rightarrow> rstr) \<Rightarrow> fence_key \<Rightarrow> drain_round \<Rightarrow> drain_gate \<Rightarrow> round_end \<times> drain_gate" where
  "final_check debug key r g = (case close_controls key g of
     Inl _ \<Rightarrow> (AgainAfterPause, g)
   | Inr g1 \<Rightarrow> (case wait_for_admission key (dr_final r) g1 of
       (None, g2) \<Rightarrow> (Waiting, g2)
     | (Some WShutdown, g2) \<Rightarrow> (Done LoopShutdown, g2)
     | (Some WTimedOut, g2) \<Rightarrow> (Again, reopen_controls key g2)
     | (Some (WGateError _), g2) \<Rightarrow> (AgainAfterPause, reopen_controls key g2)
     | (Some WDrained, g2) \<Rightarrow>
         let g3 = run_events gate_step (dr_reinspect_events r) g2 in
         (case inspect_or_shutdown debug (dr_reinspect r) of
            InspectionShutdown \<Rightarrow> (Done LoopShutdown, g3)
          | Finished (Inr LiveReady) \<Rightarrow> (Done (LoopDrained key), g3)
          | Finished _ \<Rightarrow> (AgainAfterPause, reopen_controls key g3))))"

definition drain_round_step ::
  "(lifecycle_snapshot \<Rightarrow> rstr) \<Rightarrow> fence_key \<Rightarrow> drain_round \<Rightarrow> drain_gate \<Rightarrow> round_end \<times> drain_gate" where
  "drain_round_step debug key r g = (case wait_for_admission key (dr_first r) g of
     (None, g1) \<Rightarrow> (Waiting, g1)
   | (Some WShutdown, g1) \<Rightarrow> (Done LoopShutdown, g1)
   | (Some WTimedOut, g1) \<Rightarrow> (Again, g1)
   | (Some (WGateError _), g1) \<Rightarrow> (AgainAfterPause, g1)
   | (Some WDrained, g1) \<Rightarrow>
       let g2 = run_events gate_step (dr_inspect_events r) g1 in
       (case inspect_or_shutdown debug (dr_inspect r) of
          InspectionShutdown \<Rightarrow> (Done LoopShutdown, g2)
        | Finished (Inr LiveReady) \<Rightarrow> final_check debug key r g2
        | Finished _ \<Rightarrow> (AgainAfterPause, g2)))"

text \<open>The loop, over the rounds it is given; \<open>None\<close> is a loop that still runs.\<close>

fun drain_until_quiescent ::
  "(lifecycle_snapshot \<Rightarrow> rstr) \<Rightarrow> fence_key \<Rightarrow> drain_round list \<Rightarrow> drain_gate \<Rightarrow> loop_outcome option \<times> drain_gate" where
  "drain_until_quiescent debug key [] g = (None, g)"
| "drain_until_quiescent debug key (r # rs) g = (case drain_round_step debug key r g of
     (Done outcome, g1) \<Rightarrow> (Some outcome, g1)
   | (Waiting, g1) \<Rightarrow> (None, g1)
   | (Again, g1) \<Rightarrow> drain_until_quiescent debug key rs g1
   | (AgainAfterPause, g1) \<Rightarrow>
       let g2 = run_events gate_step (dr_pause_events r) g1 in
       if dr_pause_stop r then (Some LoopShutdown, g2) else drain_until_quiescent debug key rs g2)"

end
