(* ===== verification/Drain_Safety.thy ===== *)
theory Drain_Safety
  imports Restart_Drain Queue_Safety
begin

text \<open>
  What the restart drain promises: a sealed gate with closed controls admits nothing, the drain loop reports success only when
  the gate is in that state and both the store and the app-server were found idle, and the acknowledgement file carries the key
  of the prepare file it answers.
\<close>

section \<open>The gate\<close>

definition gate_enters :: "gate_event \<Rightarrow> drain_gate \<Rightarrow> bool" where
  "gate_enters e g = (case e of GEnter control \<Rightarrow> is_ok (try_enter_kind control g) | _ \<Rightarrow> False)"

definition gate_shut :: "drain_gate \<Rightarrow> bool" where
  "gate_shut g \<longleftrightarrow> dg_sealed g \<noteq> None \<and> \<not> dg_controls_open g"

definition gate_load :: "drain_gate \<Rightarrow> nat" where
  "gate_load g = (if dg_active g = 0 then 0 else 1)"

lemmas gate_defs = try_enter_kind_def gate_seal_def permit_clone_def permit_drop_def

lemma gate_step_sealed: "dg_sealed g = Some k \<Longrightarrow> dg_sealed (gate_step e g) = Some k \<and> dg_controls_open (gate_step e g) = dg_controls_open g"
  by (cases e) (auto simp: gate_defs split: option.splits)

interpretation dg: quiescent_gate gate_step gate_shut gate_enters gate_load
proof unfold_locales
  fix g e
  show "gate_shut g \<Longrightarrow> gate_shut (gate_step e g)" using gate_step_sealed [of g _ e] by (auto simp: gate_shut_def)
  show "gate_shut g \<Longrightarrow> \<not> gate_enters e g" by (auto simp: gate_shut_def gate_enters_def gate_defs split: gate_event.splits)
  show "\<not> gate_enters e g \<Longrightarrow> gate_load (gate_step e g) \<le> gate_load g"
    by (cases e) (auto simp: gate_load_def gate_enters_def gate_defs is_ok_def split: option.splits sum.splits)
qed

definition ordinary_enters :: "gate_event \<Rightarrow> drain_gate \<Rightarrow> bool" where
  "ordinary_enters e g = (e = GEnter False \<and> is_ok (try_enter_kind False g))"

interpretation og: sealed_gate gate_step gate_is_sealed ordinary_enters
proof unfold_locales
  fix g e
  show "gate_is_sealed g \<Longrightarrow> gate_is_sealed (gate_step e g)" using gate_step_sealed [of g _ e] by (auto simp: gate_is_sealed_def)
  show "gate_is_sealed g \<Longrightarrow> \<not> ordinary_enters e g" by (auto simp: gate_is_sealed_def ordinary_enters_def gate_defs)
qed

lemma gate_run_sealed:
  "dg_sealed g = Some k \<Longrightarrow> dg_sealed (run_events gate_step es g) = Some k \<and>
    dg_controls_open (run_events gate_step es g) = dg_controls_open g"
  by (induction es arbitrary: g) (use gate_step_sealed in auto)

lemma gate_run_shut:
  assumes "dg_sealed g = Some k" "\<not> dg_controls_open g" "dg_active g = 0"
  shows "dg_active (run_events gate_step es g) = 0 \<and> count_events gate_step gate_enters es g = 0"
proof -
  have "gate_shut g" "gate_load g = 0" using assms by (auto simp: gate_shut_def gate_load_def)
  then show ?thesis
    using dg.quiescent_forever [of g es] dg.no_entry_after_seal [of g es] by (auto simp: gate_load_def split: if_splits)
qed

section \<open>Waits\<close>

lemma wait_drained_result:
  "wait_drained key es g = (r, g') \<Longrightarrow>
     (r = Some (Inr ()) \<longrightarrow> is_drained_for key g') \<and> (\<exists>done. g' = run_events gate_step done g)"
proof (induction key es g rule: wait_drained.induct)
  case (1 key es g)
  show ?case
  proof (cases "dg_sealed g = Some key \<and> dg_active g \<noteq> 0")
    case False
    then show ?thesis
      using "1.prems" by (subst (asm) wait_drained.simps) (auto simp: is_drained_for_def split: if_splits intro: exI [of _ "[]"])
  next
    case True
    show ?thesis
    proof (cases es)
      case Nil
      then show ?thesis using "1.prems" True by (subst (asm) wait_drained.simps) (auto intro: exI [of _ "[]"])
    next
      case (Cons e rest)
      then have "wait_drained key rest (gate_step e g) = (r, g')" using "1.prems" True by (subst (asm) wait_drained.simps) simp
      then obtain "done" where "(r = Some (Inr ()) \<longrightarrow> is_drained_for key g')" "g' = run_events gate_step done (gate_step e g)"
        using "1.IH" [of e rest] True Cons by auto
      then show ?thesis by (intro conjI exI [of _ "e # done"]) simp_all
    qed
  qed
qed

lemma wait_for_admission_result:
  "wait_for_admission key ss g = (r, g') \<Longrightarrow>
     (r = Some WDrained \<longrightarrow> is_drained_for key g') \<and> (\<exists>done. g' = run_events gate_step done g)"
proof (induction key ss g rule: wait_for_admission.induct)
  case (1 key g)
  then show ?case by (auto intro: exI [of _ "[]"])
next
  case (2 key s rest g)
  obtain w g1 where w: "wait_drained key (sl_events s) g = (w, g1)" by (cases "wait_drained key (sl_events s) g")
  note step = wait_drained_result [OF w]
  show ?case
  proof (cases "sl_stop s \<or> sl_expired s \<or> w \<noteq> None \<or> sl_interrupted s")
    case True
    then show ?thesis
      using "2.prems" w step by (auto split: if_splits option.splits sum.splits intro: exI [of _ "[]"])
  next
    case False
    then have "wait_for_admission key rest g1 = (r, g')" using "2.prems" w by simp
    then obtain d2 where d2: "r = Some WDrained \<longrightarrow> is_drained_for key g'" "g' = run_events gate_step d2 g1"
      using "2.IH" [OF _ _ w [symmetric]] False by auto
    obtain d1 where "g1 = run_events gate_step d1 g" using step by blast
    then have "g' = run_events gate_step (d1 @ d2) g" using d2(2) by (simp add: run_events_append)
    then show ?thesis using d2(1) by blast
  qed
qed

section \<open>Inspections\<close>

lemma read_queue_rows_blockers:
  "read_queue_rows js s = Inr s' \<Longrightarrow> (\<exists>more. rs_blockers s' = rs_blockers s @ more) \<and>
     (rs_blockers s' = [] \<longrightarrow> (\<forall>j \<in> set js. \<not> snd (queue_semantic j)))"
proof (induction js arbitrary: s)
  case (Cons j js)
  let ?b = "if snd (queue_semantic j) then [lit ''queue job '' @ qj_job_id j @ lit '' is '' @ raw_text (qj_raw j)] else []"
  let ?s1 = "s\<lparr>rs_targets := insort_insert (qj_target j) (rs_targets s), rs_blockers := rs_blockers s @ ?b,
    rs_observations := rs_observations s @ [lit ''queue:'' @ qj_job_id j @ lit '':'' @ qj_target j @ lit '':'' @ fst (queue_semantic j)]\<rparr>"
  have s1: "read_queue_rows js ?s1 = Inr s'" using Cons.prems unfolding read_queue_rows.simps by (elim and_thenE)
  show ?case using Cons.IH [OF s1] by (cases "snd (queue_semantic j)") auto
qed simp

lemma read_intake_rows_blockers:
  "read_intake_rows rows s = Inr s' \<Longrightarrow> (\<exists>more. rs_blockers s' = rs_blockers s @ more) \<and>
     (rs_blockers s' = [] \<longrightarrow> (\<forall>(job, target, claimed) \<in> set rows. \<not> claimed))"
proof (induction rows arbitrary: s)
  case (Cons row rows)
  obtain job target claimed where row: "row = (job, target, claimed)" by (cases row)
  let ?s1 = "s\<lparr>rs_targets := insort_insert target (rs_targets s),
    rs_blockers := rs_blockers s @ (if claimed then [lit ''prompt intake '' @ job @ lit '' is claimed''] else []),
    rs_observations := rs_observations s @ [lit ''intake:'' @ job @ lit '':'' @ target @ lit '':claimed='' @
      (if claimed then lit ''true'' else lit ''false'')]\<rparr>"
  have s1: "read_intake_rows rows ?s1 = Inr s'" using Cons.prems unfolding row read_intake_rows.simps by (elim and_thenE)
  show ?case using Cons.IH [OF s1] row by (cases claimed) auto
qed simp

lemma read_fork_rows_blockers: "read_fork_rows hs s = Inr s' \<Longrightarrow> rs_blockers s' = rs_blockers s"
  by (induction hs arbitrary: s) (auto simp: and_then_Inr)

lemma readiness_no_blockers:
  assumes "readiness_of t = Inr s" "rs_blockers s = []"
  shows "(\<forall>j \<in> set (qd_jobs (rt_db t)). \<not> snd (queue_semantic j)) \<and>
    (\<forall>rows. rt_intakes t = Some rows \<longrightarrow> (\<forall>(job, target, claimed) \<in> set rows. \<not> claimed))"
proof -
  obtain mirrors s1 s2 s3 s4 where
    q: "read_queue_rows (sort_key qj_job_id (qd_jobs (rt_db t))) \<lparr> rs_targets = mirrors, rs_blockers = [], rs_observations = [] \<rparr> = Inr s1"
    and i: "(case rt_intakes t of None \<Rightarrow> Inr s1 | Some rows \<Rightarrow> read_intake_rows (sort_key fst rows) s1) = Inr s2"
    and m: "(case rt_managed t of None \<Rightarrow> Inr s2
       | Some rows \<Rightarrow> and_then (read_targets (sort rows) (rs_targets s2)) (\<lambda>ts. Inr (s2\<lparr>rs_targets := ts\<rparr>))) = Inr s3"
    and f: "(if rt_forks t then read_fork_rows (sort_key fh_id (qd_handoffs (rt_db t))) s3 else Inr s3) = Inr s4"
    and s: "s = s4\<lparr>rs_blockers := sort (rs_blockers s4), rs_observations := sort (rs_observations s4)\<rparr>"
    using assms(1) unfolding readiness_of_def by (elim and_thenE) (simp only: sum.inject)
  have "sort (rs_blockers s4) = []" using assms(2) s by simp
  then have "rs_blockers s4 = []" by (metis set_empty set_sort)
  then have "rs_blockers s3 = []" using f read_fork_rows_blockers by (auto split: if_splits)
  then have s2: "rs_blockers s2 = []" using m by (auto simp: and_then_Inr split: option.splits)
  then have "rs_blockers s1 = []"
    using i read_intake_rows_blockers [of "sort_key fst (the (rt_intakes t))" s1 s2] by (cases "rt_intakes t") auto
  then have "\<forall>j \<in> set (qd_jobs (rt_db t)). \<not> snd (queue_semantic j)" using read_queue_rows_blockers [OF q] by simp
  moreover have "\<forall>(job, target, claimed) \<in> set rows. \<not> claimed" if "rt_intakes t = Some rows" for rows
    using i s2 that read_intake_rows_blockers [of "sort_key fst rows" s1 s2] by simp
  ultimately show ?thesis by blast
qed

lemma observe_active_empty: "observe_active server ts = Inr [] \<Longrightarrow> \<forall>t \<in> set ts. lv_active_turn server t = Some None"
  by (induction ts) (auto simp: and_then_Inr split: option.splits)

definition store_idle :: "queue_db \<Rightarrow> bool" where
  "store_idle db \<longleftrightarrow> (\<forall>j \<in> set (qd_jobs db). job_state j \<in> {JPending, JQuarantined} \<or>
     qj_raw j = RStarting \<and> starts_with (qj_last_error j) STARTING_CANDIDATE_HOLD_PREFIX)"

definition server_idle :: "live_server \<Rightarrow> bool" where
  "server_idle v \<longleftrightarrow> ls_healthy (lv_lifecycle v) \<and> \<not> ls_quarantined (lv_lifecycle v) \<and> \<not> ls_restart_pending (lv_lifecycle v) \<and>
     ls_process_id (lv_lifecycle v) \<noteq> None \<and> lv_unsettled v = Some False"

lemma semantic_idle: "\<not> snd (queue_semantic j) \<Longrightarrow> job_state j \<in> {JPending, JQuarantined} \<or>
     qj_raw j = RStarting \<and> starts_with (qj_last_error j) STARTING_CANDIDATE_HOLD_PREFIX"
  by (auto simp: queue_semantic_def job_state_def split: raw_state.splits if_splits)

lemma observe_no_blocker:
  assumes "observe v s = Inr ob" "live_blocker debug ob = None"
  shows "server_idle v \<and> (\<forall>t \<in> set (rs_targets s). lv_active_turn v t = Some None)"
proof -
  have "lo_active ob = []" using assms(2) by (auto simp: live_blocker_def Let_def split: if_splits list.splits prod.splits)
  then show ?thesis
    using assms observe_active_empty [of v "rs_targets s"]
    by (auto simp: observe_def server_idle_def live_blocker_def Let_def and_then_Inr split: option.splits if_splits)
qed

lemma quiescent_means_idle:
  assumes "check_runtime_quiescence debug i = Inr LiveReady"
  shows "store_idle (rt_db (in_before i)) \<and> store_idle (rt_db (in_after i)) \<and> server_idle (in_live i) \<and> server_idle (in_live_after i) \<and>
    (\<exists>s. readiness_of (in_after i) = Inr s \<and> (\<forall>t \<in> set (rs_targets s). lv_active_turn (in_live_after i) t = Some None))"
proof -
  obtain b l1 l2 where b: "readiness_of (in_before i) = Inr b" "rs_blockers b = []"
    and l1: "observe (in_live i) b = Inr l1" "live_blocker debug l1 = None"
    and a: "readiness_of (in_after i) = Inr b" and l2: "observe (in_live_after i) b = Inr l2" "l1 = l2"
    using assms unfolding check_runtime_quiescence_def
    by (elim and_thenE) (auto simp: snapshot_of_def elim!: and_thenE split: if_splits option.splits sum.splits)
  have "live_blocker debug l2 = None" using l1 l2 by simp
  then show ?thesis
    using readiness_no_blockers [OF b] readiness_no_blockers [OF a b(2)] observe_no_blocker [OF l1] observe_no_blocker [OF l2(1)] a
      semantic_idle by (auto simp: store_idle_def)
qed

section \<open>The loop\<close>

lemma final_check_drained:
  assumes "final_check debug key r g = (Done (LoopDrained k), g')"
  shows "k = key \<and> dg_sealed g' = Some key \<and> \<not> dg_controls_open g' \<and> dg_active g' = 0 \<and>
    (\<exists>i. dr_reinspect r = Some i \<and> check_runtime_quiescence debug i = Inr LiveReady)"
proof -
  obtain g1 g2 i where c: "close_controls key g = Inr g1" and w: "wait_for_admission key (dr_final r) g1 = (Some WDrained, g2)"
    and i: "dr_reinspect r = Some i" "check_runtime_quiescence debug i = Inr LiveReady"
    and g': "g' = run_events gate_step (dr_reinspect_events r) g2" "k = key"
  proof -
    obtain g1 where c: "close_controls key g = Inr g1" using assms by (cases "close_controls key g") (auto simp: final_check_def)
    obtain w g2 where w: "wait_for_admission key (dr_final r) g1 = (w, g2)" by (cases "wait_for_admission key (dr_final r) g1")
    have drained: "w = Some WDrained" using assms c w by (auto simp: final_check_def split: option.splits admission_wait.splits)
    have "inspect_or_shutdown debug (dr_reinspect r) = Finished (Inr LiveReady)"
      using assms c w drained by (auto simp: final_check_def Let_def split: live_inspection.splits sum.splits live_drain_state.splits)
    then obtain i where "dr_reinspect r = Some i" "check_runtime_quiescence debug i = Inr LiveReady"
      by (auto simp: inspect_or_shutdown_def split: option.splits)
    then show thesis using that [OF c, of g2 i] w drained assms c by (simp add: final_check_def inspect_or_shutdown_def Let_def)
  qed
  have g1: "dg_sealed g1 = Some key" "\<not> dg_controls_open g1" using c by (auto simp: close_controls_def split: if_splits)
  obtain d where d: "is_drained_for key g2" "g2 = run_events gate_step d g1" using wait_for_admission_result [OF w] by auto
  have g2: "dg_sealed g2 = Some key" "\<not> dg_controls_open g2" "dg_active g2 = 0"
    using gate_run_sealed [OF g1(1), of d] g1(2) d by (auto simp: is_drained_for_def)
  then show ?thesis
    using gate_run_sealed [OF g2(1), of "dr_reinspect_events r"] gate_run_shut [OF g2, of "dr_reinspect_events r"] g' i by simp
qed

lemma round_drained:
  assumes "drain_round_step debug key r g = (Done (LoopDrained k), g')"
  shows "\<exists>g0. final_check debug key r g0 = (Done (LoopDrained k), g')"
  using assms by (auto simp: drain_round_step_def Let_def split: prod.splits option.splits admission_wait.splits live_inspection.splits
    sum.splits live_drain_state.splits)

lemma loop_drained:
  assumes "drain_until_quiescent debug key rs g = (Some (LoopDrained k), g')"
  shows "\<exists>r \<in> set rs. \<exists>g0. final_check debug key r g0 = (Done (LoopDrained k), g')"
  using assms
proof (induction debug key rs g rule: drain_until_quiescent.induct)
  case (2 debug key r rs g)
  obtain e g1 where st: "drain_round_step debug key r g = (e, g1)" by (cases "drain_round_step debug key r g")
  show ?case
  proof (cases e)
    case (Done outcome)
    then show ?thesis using "2.prems" st round_drained [of debug key r g k g'] by auto
  next
    case Again
    then show ?thesis using "2.IH"(1) [OF st [symmetric]] "2.prems" st by simp
  next
    case AgainAfterPause
    then show ?thesis using "2.IH"(2) [OF st [symmetric]] "2.prems" st by (auto simp: Let_def split: if_splits)
  next
    case Waiting
    then show ?thesis using "2.prems" st by simp
  qed
qed simp


definition demo_key :: fence_key where
  "demo_key = \<lparr> fk_runtime = lit ''r'', fk_process = lit ''7|1'', fk_nonce = lit ''n'' \<rparr>"

definition demo_server :: live_server where
  "demo_server = \<lparr> lv_lifecycle = \<lparr> ls_generation = 1, ls_healthy = True, ls_quarantined = False, ls_restart_pending = False,
     ls_process_id = Some 5 \<rparr>, lv_unsettled = Some False, lv_active_turn = (\<lambda>_. Some None) \<rparr>"

definition demo_tables :: readiness_tables where
  "demo_tables = \<lparr> rt_db = qd_apply (QEnqueue demo_new) demo_db, rt_mirrors = [lit ''t''], rt_intakes = None, rt_managed = Some [lit ''m''],
     rt_forks = True \<rparr>"

definition demo_round :: drain_round where
  "demo_round = (let s = \<lparr> sl_stop = False, sl_expired = False, sl_events = [GDrop], sl_interrupted = False \<rparr>;
       i = \<lparr> in_before = demo_tables, in_live = demo_server, in_after = demo_tables, in_live_after = demo_server \<rparr>
     in \<lparr> dr_first = [s], dr_inspect = Some i, dr_inspect_events = [GEnter False], dr_final = [s], dr_reinspect = Some i,
       dr_reinspect_events = [GEnter True, GEnter False], dr_pause_stop = False, dr_pause_events = [] \<rparr>)"

definition demo_gate :: drain_gate where
  "demo_gate = \<lparr> dg_active = 1, dg_sealed = Some demo_key, dg_controls_open = True \<rparr>"


section \<open>Marker files\<close>

lemma split_at_char_append: "d \<notin> set l \<Longrightarrow> split_at_char d (l @ d # s) = l # split_at_char d s"
  by (induction l) auto

lemma str_lines_line: "10 \<notin> set l \<Longrightarrow> 13 \<notin> set l \<Longrightarrow> str_lines (l @ 10 # s) = l # str_lines s"
proof -
  assume l: "10 \<notin> set l" "13 \<notin> set l"
  have "chomp l = l" using l(2) last_in_set [of l] by (metis chomp_def)
  then show ?thesis
    using split_at_char_nonempty [of 10 s] by (simp add: str_lines_def Let_def split_at_char_append [OF l(1)])
qed

lemma str_lines_Nil [simp]: "str_lines [] = []"
  by (simp add: str_lines_def)

definition plain :: "rstr \<Rightarrow> bool" where
  "plain v \<longleftrightarrow> v \<noteq> [] \<and> 10 \<notin> set v \<and> 13 \<notin> set v"

lemma parse_marker_line:
  assumes "plain v" "plain (lit name)" "61 \<notin> set (lit name)" "hm_get m (lit name) = None"
  shows "parse_fields (str_lines (marker_line name v @ rest)) m = parse_fields (str_lines rest) (hm_insert (lit name) v m)"
proof -
  have "str_lines (marker_line name v @ rest) = (lit name @ 61 # v) # str_lines rest"
    using str_lines_line [of "lit name @ 61 # v" rest] assms(1,2) by (simp add: marker_line_def plain_def)
  then show ?thesis using assms by (simp add: split_once_field plain_def hm_contains_def)
qed

lemma valid_token_plain: "valid_token v \<Longrightarrow> plain v"
  by (auto simp: valid_token_def plain_def list_all_iff is_alphanumeric_def is_digit_def)

lemma valid_process_plain: "valid_process_identity v \<Longrightarrow> plain v"
proof -
  assume "valid_process_identity v"
  then obtain a b where v: "split_once 124 v = Some (a, b)" "a \<noteq> []" "list_all is_digit a" "list_all is_digit b"
    by (auto simp: valid_process_identity_def split: option.splits)
  then have "v = a @ 124 # b" using split_once_Some by blast
  then show ?thesis using v by (auto simp: plain_def list_all_iff is_digit_def)
qed

text \<open>C30: An acknowledgement reads back as the key it answers. For every key that \<open>DrainFenceKey::new\<close> accepts and whose file keeps within
  the size limit of a marker, reading the acknowledgement that was published gives that very key.\<close>

lemma ack_roundtrip:
  assumes "fence_key_new (fk_runtime key) (fk_process key) (fk_nonce key) = Inr key" "byte_len (ack_text key) \<le> 4096"
    "publish_ack True key fs = Inr fs'"
  shows "read_ack fs' = Inr (Some key)"
proof -
  have valid: "valid_token (fk_runtime key)" "valid_process_identity (fk_process key)" "valid_token (fk_nonce key)"
    using assms(1) by (auto simp: fence_key_new_def split: if_splits)
  have names: "plain (lit n) \<and> 61 \<notin> set (lit n)" if "n \<in> {''version'', ''runtime_id'', ''process_identity'', ''nonce'', ''state''}" for n
    using that by (auto simp: plain_def lit_def)
  have vals: "plain (lit ''1'')" "plain (lit ''sealed'')" by (auto simp: plain_def lit_def)
  let ?m = "hm_insert (lit ''state'') (lit ''sealed'') (hm_insert (lit ''nonce'') (fk_nonce key)
    (hm_insert (lit ''process_identity'') (fk_process key) (hm_insert (lit ''runtime_id'') (fk_runtime key)
    (hm_insert (lit ''version'') (lit ''1'') []))))"
  have "parse_fields (str_lines (ack_text key)) [] = Inr ?m"
    using valid valid_token_plain valid_process_plain names vals parse_marker_line [of "lit ''sealed''" "''state''" _ "[]"]
    by (simp add: ack_text_def parse_marker_line)
  then have "read_fields (Content (ack_text key)) = Inr (Some ?m)" using assms(2) by (simp add: read_fields_def)
  moreover have "df_ack fs' = Content (ack_text key)" using assms(3) by (auto simp: publish_ack_def)
  ultimately show ?thesis
    using assms(1) by (simp add: read_ack_def read_fence_def require_field_def field_def)
qed

lemma ack_roundtrip_witness:
  "read_ack (\<lparr> df_identity = Missing, df_prepare = Missing, df_ack = Content (ack_text demo_key), df_restart = Missing, df_stop = False \<rparr>)
    = Inr (Some demo_key)"
proof -
  let ?fs = "\<lparr> df_identity = Missing, df_prepare = Missing, df_ack = Missing, df_restart = Missing, df_stop = False \<rparr>"
  have k: "fence_key_new (fk_runtime demo_key) (fk_process demo_key) (fk_nonce demo_key) = Inr demo_key" by code_simp
  have l: "byte_len (ack_text demo_key) \<le> 4096" by code_simp
  show ?thesis
    by (rule ack_roundtrip [OF k l, of ?fs]) (simp add: publish_ack_def)
qed

lemma claim_prepare_own:
  assumes "claim_prepare d = Inr (Some k, d')"
  shows "fk_runtime k = rm_runtime (dc_identity d) \<and> starts_with (fk_process k) (decimal (rm_process (dc_identity d)) @ lit ''|'') \<and>
    dg_sealed (dc_gate d') = Some k"
proof -
  obtain r where r: "read_prepare (dc_fs d) = Inr r" using assms by (auto simp: claim_prepare_def and_then_Inr lift_marker_def split: sum.splits)
  then obtain key where key: "r = Some key" using assms by (cases r) (auto simp: claim_prepare_def lift_marker_def)
  have id: "fk_runtime key = rm_runtime (dc_identity d)" "starts_with (fk_process key) (decimal (rm_process (dc_identity d)) @ lit ''|'')"
    using assms r key by (auto simp: claim_prepare_def lift_marker_def split: if_splits)
  then obtain g where g: "gate_seal key (dc_gate d) = Inr g" "k = key" "d' = d\<lparr>dc_gate := g\<rparr>"
    using assms r key by (cases "gate_seal key (dc_gate d)") (auto simp: claim_prepare_def lift_marker_def lift_gate_def)
  then show ?thesis using id by (auto simp: gate_seal_def split: option.splits if_splits)
qed

lemma acknowledge_result:
  assumes "acknowledge writable meanwhile key c = (Inr (), c')"
  shows "is_drained_for key (dc_gate c) \<and> dc_gate c' = dc_gate c \<and> read_prepare (dc_fs c) = Inr (Some key) \<and>
    read_prepare (dc_fs c') = Inr (Some key) \<and> dc_fs c' = meanwhile ((dc_fs c)\<lparr>df_ack := Content (ack_text key)\<rparr>)"
proof -
  let ?fs2 = "meanwhile ((dc_fs c)\<lparr>df_ack := Content (ack_text key)\<rparr>)"
  have d: "is_drained_for key (dc_gate c)" using assms by (auto simp: acknowledge_def split: if_splits)
  have p: "read_prepare (dc_fs c) = Inr (Some key)" using assms d by (auto simp: acknowledge_def split: if_splits sum.splits)
  have w: "writable" using assms d p by (auto simp: acknowledge_def publish_ack_def split: if_splits)
  have "read_prepare ?fs2 = Inr (Some key)"
    using assms d p w by (auto simp: acknowledge_def publish_ack_def Let_def split: if_splits sum.splits)
  then have "c' = c\<lparr>dc_fs := ?fs2\<rparr>" using assms d p w by (simp add: acknowledge_def publish_ack_def Let_def)
  then show ?thesis using d p \<open>read_prepare ?fs2 = Inr (Some key)\<close> by simp
qed

text \<open>C29: A restart is acknowledged only to the one who asked, and only by a drained bot. When the acknowledgement succeeds the gate is
  sealed by the key and holds no permit, the prepare file carried the key both before the acknowledgement was written and
  after, and a key that \<open>claim_prepare\<close> takes names this very runtime and process.\<close>

lemma acknowledge_only_drained:
  assumes "acknowledge writable meanwhile key c = (Inr (), c')"
  shows "is_drained_for key (dc_gate c) \<and> dc_gate c' = dc_gate c \<and> read_prepare (dc_fs c) = Inr (Some key) \<and>
    read_prepare (dc_fs c') = Inr (Some key) \<and> dc_fs c' = meanwhile ((dc_fs c)\<lparr>df_ack := Content (ack_text key)\<rparr>) \<and>
    (\<forall>d d' k. claim_prepare d = Inr (Some k, d') \<longrightarrow> fk_runtime k = rm_runtime (dc_identity d) \<and>
       starts_with (fk_process k) (decimal (rm_process (dc_identity d)) @ lit ''|'') \<and> dg_sealed (dc_gate d') = Some k)"
proof -
  have "fk_runtime k = rm_runtime (dc_identity d) \<and> starts_with (fk_process k) (decimal (rm_process (dc_identity d)) @ lit ''|'') \<and>
    dg_sealed (dc_gate d') = Some k" if "claim_prepare d = Inr (Some k, d')" for d d' k
    by (rule claim_prepare_own [OF that])
  then show ?thesis using acknowledge_result [OF assms] by blast
qed

definition demo_controller :: drain_controller where
  "demo_controller = \<lparr> dc_fs = \<lparr> df_identity = Missing, df_prepare = Content (ack_text demo_key), df_ack = Missing, df_restart = Missing,
     df_stop = False \<rparr>, dc_identity = \<lparr> rm_runtime = lit ''r'', rm_process = 7 \<rparr>,
     dc_gate = \<lparr> dg_active = 0, dg_sealed = Some demo_key, dg_controls_open = False \<rparr>, dc_untrusted = demo_key \<rparr>"

lemma acknowledge_only_drained_witness:
  "is_drained_for demo_key (dc_gate demo_controller) \<and> fst (acknowledge True id demo_key demo_controller) = Inr () \<and>
   dc_gate (snd (acknowledge True id demo_key demo_controller)) = dc_gate demo_controller"
proof -
  have ok: "fst (acknowledge True id demo_key demo_controller) = Inr ()" by code_simp
  obtain r c' where p: "acknowledge True id demo_key demo_controller = (r, c')" by (rule prod.exhaust)
  have "r = Inr ()" using ok unfolding p by simp
  then show ?thesis using acknowledge_only_drained [OF p [unfolded \<open>r = Inr ()\<close>]] unfolding p by simp
qed

end
