(* ===== verification/Queue_Runner.thy ===== *)
theory Queue_Runner
  imports Turn_Queue Scheduler Outcomes Restart_Drain
begin

text \<open>
  The queue coordinator of the bot: \<open>cdr-runtime/src/queue_runner.rs\<close> and \<open>queue_runner/types.rs\<close>, \<open>retry.rs\<close>,
  \<open>retry_deadlines.rs\<close>, \<open>unavailable_log.rs\<close>, \<open>target_lease.rs\<close>, \<open>submission.rs\<close>, \<open>completion.rs\<close>, \<open>recovery.rs\<close>,
  \<open>recovery/state.rs\<close>, \<open>recovery/target.rs\<close>. It decides which job of a thread starts next, calls the
  app-server backend, and records the outcome in the durable queue.

  An operation runs under the lock of its target. Each call of the backend is an await: the answer is a field of
  \<open>backend\<close>, and \<open>be_while\<close> is what the other tasks of the bot do to the coordinator until it returns. A step of the
  store is atomic. Wall-clock times are rational seconds, instants are nanoseconds; a lock that a panic has poisoned is not modelled.
\<close>

section \<open>Types (\<open>types.rs\<close>)\<close>

datatype failure_kind = FkOther | FkActiveWriter | FkQuarantined | FkForkFenced | FkStartingCandidatesHeld | FkUsageLimit | FkExecutionHeld

record backend_failure =
  bf_message :: rstr
  bf_ambiguous :: bool
  bf_kind :: failure_kind

definition failure_definite :: "rstr \<Rightarrow> backend_failure" where
  "failure_definite m = \<lparr> bf_message = m, bf_ambiguous = False, bf_kind = FkOther \<rparr>"

definition failure_quarantined :: "rstr \<Rightarrow> backend_failure" where
  "failure_quarantined m = \<lparr> bf_message = m, bf_ambiguous = True, bf_kind = FkQuarantined \<rparr>"

definition failure_fork_fenced :: "rstr \<Rightarrow> backend_failure" where
  "failure_fork_fenced m = \<lparr> bf_message = m, bf_ambiguous = True, bf_kind = FkForkFenced \<rparr>"

definition failure_starting_candidates_held :: "rstr \<Rightarrow> backend_failure" where
  "failure_starting_candidates_held m = \<lparr> bf_message = m, bf_ambiguous = True, bf_kind = FkStartingCandidatesHeld \<rparr>"

definition failure_execution_held :: "rstr \<Rightarrow> backend_failure" where
  "failure_execution_held m = \<lparr> bf_message = HELD_PREFIX @ m, bf_ambiguous = False, bf_kind = FkExecutionHeld \<rparr>"

text \<open>\<open>str::contains\<close>\<close>

fun contains :: "rstr \<Rightarrow> rstr \<Rightarrow> bool" where
  "contains [] p = (p = [])"
| "contains (c # s) p = (starts_with (c # s) p \<or> contains s p)"

definition is_active_writer_message :: "rstr \<Rightarrow> bool" where
  "is_active_writer_message m \<longleftrightarrow> contains m (lit ''thread/resume'') \<and> contains m (lit ''already has an active writer'')"

definition UNRESOLVED_FORK_ERROR_PREFIX :: rstr where
  "UNRESOLVED_FORK_ERROR_PREFIX = lit ''[cdr-rust:app-server-fork-unresolved:v1] ''"

definition failure_persisted :: "rstr \<Rightarrow> bool \<Rightarrow> backend_failure" where
  "failure_persisted m ambiguous = \<lparr> bf_message = m, bf_ambiguous = ambiguous, bf_kind =
     (if starts_with m UNRESOLVED_FORK_ERROR_PREFIX then FkForkFenced
      else if starts_with m STARTING_CANDIDATE_HOLD_PREFIX then FkStartingCandidatesHeld
      else if legacy_or_current_error m then FkExecutionHeld
      else if \<not> ambiguous \<and> is_active_writer_message m then FkActiveWriter else FkOther) \<rparr>"

record turn_record =
  tr_turn_id :: rstr
  tr_status :: turn_status

record submission =
  sb_job_id :: rstr
  sb_queued :: bool
  sb_turn_id :: "rstr option"
  sb_warning :: "backend_failure option"

record busy_status =
  bs_busy :: bool
  bs_allow_steer :: bool

datatype runner_error = RestartDrain drain_error | QueueStore store_error | QueueBackend backend_failure
  | AttemptClaimLost rstr "rstr option" | IntegerRange

section \<open>Retry delays (\<open>retry.rs\<close>)\<close>

definition retry_delay_seconds :: "int \<Rightarrow> int" where
  "retry_delay_seconds n = (if n \<le> 0 then 0 else if n = 1 then 30 else if n = 2 then 60 else if n = 3 then 120
     else if n = 4 then 240 else if n = 5 then 480 else 900)"

definition is_definite_writer_rejection :: "rstr \<Rightarrow> bool" where
  "is_definite_writer_rejection e = (case Option.bind
       (strip_prefix (lit ''app-server returned error -32600 for thread/resume: thread '') e)
       (strip_suffix (lit '' already has an active writer'')) of
     None \<Rightarrow> False | Some thread \<Rightarrow> thread \<noteq> [] \<and> \<not> list_ex is_whitespace thread)"

definition retry_delay_for_error :: "int \<Rightarrow> rstr \<Rightarrow> int" where
  "retry_delay_for_error n e = (if is_definite_writer_rejection e
     then (if n \<le> 0 then 0 else if n = 1 then 5 else if n = 2 then 10 else 15)
     else retry_delay_seconds n)"

definition pending_retry_due_at :: "int \<Rightarrow> rstr \<Rightarrow> rat \<Rightarrow> rat option" where
  "pending_retry_due_at n last_error updated_at =
     (if n \<le> 0 \<or> last_error = [] then None else Some (updated_at + of_int (retry_delay_for_error n last_error)))"

definition pending_retry_is_due :: "int \<Rightarrow> rstr \<Rightarrow> rat \<Rightarrow> rat \<Rightarrow> bool" where
  "pending_retry_is_due n last_error updated_at now = (case pending_retry_due_at n last_error updated_at of
     None \<Rightarrow> True | Some due \<Rightarrow> due \<le> now)"

definition occupies :: "queue_job \<Rightarrow> bool" where
  "occupies j \<longleftrightarrow> job_state j = JStarting \<or> job_state j = JRunning"

definition eligible_pending_head :: "queue_job list \<Rightarrow> queue_job option" where
  "eligible_pending_head js = (if list_ex occupies js then None
     else find (\<lambda>j. job_state j = JPending \<and> \<not> legacy_or_current_error (qj_last_error j)) js)"

definition pending_job_is_due :: "queue_job \<Rightarrow> rat \<Rightarrow> bool" where
  "pending_job_is_due j now = pending_retry_is_due (qj_attempts j) (qj_last_error j) (qj_updated_at j) now"

definition replay_existing :: "queue_job \<Rightarrow> submission" where
  "replay_existing j =
     (let quarantined = (job_state j = JQuarantined); held = starts_with (qj_last_error j) STARTING_CANDIDATE_HOLD_PREFIX;
          warning = (if quarantined then Some (failure_quarantined (qj_last_error j))
            else if starts_with (qj_last_error j) UNRESOLVED_FORK_ERROR_PREFIX then Some (failure_fork_fenced (qj_last_error j))
            else if held then Some (failure_starting_candidates_held (qj_last_error j))
            else if legacy_or_current_error (qj_last_error j) then Some (failure_execution_held (qj_last_error j))
            else if qj_last_error j = [] then None
            else Some (failure_persisted (qj_last_error j) (job_state j = JStarting)))
      in \<lparr> sb_job_id = qj_job_id j, sb_queued = (\<not> quarantined \<and> \<not> held \<and> qj_turn_id j = None),
           sb_turn_id = (if quarantined \<or> held then None else qj_turn_id j), sb_warning = warning \<rparr>)"

section \<open>Unavailable targets (\<open>unavailable_log.rs\<close>)\<close>

definition secs :: "int \<Rightarrow> int" where
  "secs n = n * 1000000000"

record target_failure =
  tf_error :: rstr
  tf_suppressed :: nat
  tf_next_report_at :: int
  tf_failure_count :: int
  tf_next_retry_at :: int

type_synonym unavailable_log = "(rstr, target_failure) hmap"

record unavailable_report =
  ur_error :: rstr
  ur_suppressed :: nat

definition next_report_at :: "int \<Rightarrow> int" where
  "next_report_at now = now + secs 60"

definition next_retry_at :: "int \<Rightarrow> int \<Rightarrow> rstr \<Rightarrow> int" where
  "next_retry_at now n e = now + secs (retry_delay_for_error n e)"

definition target_failure_new :: "rstr \<Rightarrow> int \<Rightarrow> target_failure" where
  "target_failure_new e now = \<lparr> tf_error = e, tf_suppressed = 0, tf_next_report_at = next_report_at now, tf_failure_count = 1,
     tf_next_retry_at = next_retry_at now 1 e \<rparr>"

definition log_retry_at :: "rstr \<Rightarrow> unavailable_log \<Rightarrow> int option" where
  "log_retry_at target l = map_option tf_next_retry_at (hm_get l target)"

definition log_retry_due :: "rstr \<Rightarrow> int \<Rightarrow> unavailable_log \<Rightarrow> bool" where
  "log_retry_due target now l = (case hm_get l target of None \<Rightarrow> True | Some f \<Rightarrow> tf_next_retry_at f \<le> now)"

definition sat_incr_i64 :: "int \<Rightarrow> int" where
  "sat_incr_i64 n = min (n + 1) I64_MAX"

definition log_on_failure :: "rstr \<Rightarrow> rstr \<Rightarrow> int \<Rightarrow> unavailable_log \<Rightarrow> unavailable_report option \<times> unavailable_log" where
  "log_on_failure target e now l = (case hm_get l target of
     None \<Rightarrow> (Some \<lparr> ur_error = e, ur_suppressed = 0 \<rparr>, hm_insert target (target_failure_new e now) l)
   | Some f \<Rightarrow>
       if tf_error f \<noteq> e then (Some \<lparr> ur_error = e, ur_suppressed = 0 \<rparr>, hm_insert target (target_failure_new e now) l)
       else let n = sat_incr_i64 (tf_failure_count f);
                f1 = f\<lparr>tf_failure_count := n, tf_next_retry_at := next_retry_at now n e\<rparr>
            in if now < tf_next_report_at f1
               then (None, hm_insert target (f1\<lparr>tf_suppressed := sat_add64 (tf_suppressed f1) 1\<rparr>) l)
               else (Some \<lparr> ur_error = e, ur_suppressed = tf_suppressed f1 \<rparr>,
                     hm_insert target (f1\<lparr>tf_suppressed := 0, tf_next_report_at := next_report_at now\<rparr>) l))"

definition log_on_success :: "rstr \<Rightarrow> unavailable_log \<Rightarrow> unavailable_log" where
  "log_on_success target l = hm_remove target l"

definition log_retain_targets :: "rstr list \<Rightarrow> unavailable_log \<Rightarrow> unavailable_log" where
  "log_retain_targets targets l = hm_retain (\<lambda>t _. t \<in> set targets) l"

section \<open>The coordinator (\<open>queue_runner.rs\<close>)\<close>

text \<open>\<open>co_delivery_ready\<close> is the stored permit of the notification that wakes the delivery worker.\<close>

record coordinator =
  co_db :: queue_db
  co_gate :: "drain_gate option"
  co_initialized :: bool
  co_cold :: "rstr list"
  co_unavailable :: unavailable_log
  co_hints :: "(rstr, retry_hint) hmap"
  co_delivery_ready :: bool

definition coordinator_new :: "queue_db \<Rightarrow> drain_gate option \<Rightarrow> coordinator" where
  "coordinator_new db gate = \<lparr> co_db = db, co_gate = gate, co_initialized = False, co_cold = [], co_unavailable = [],
     co_hints = [], co_delivery_ready = False \<rparr>"

type_synonym 'a ran = "(runner_error, 'a) result \<times> coordinator"

definition then_run :: "'a ran \<Rightarrow> ('a \<Rightarrow> coordinator \<Rightarrow> 'b ran) \<Rightarrow> 'b ran" where
  "then_run r k = (case r of (Inl e, c) \<Rightarrow> (Inl e, c) | (Inr x, c) \<Rightarrow> k x c)"

lemma then_run_simps [simp]: "then_run (Inl e, c) k = (Inl e, c)" "then_run (Inr x, c) k = k x c"
  by (simp_all add: then_run_def)

definition store_call :: "(queue_db \<Rightarrow> ('a \<times> queue_db) stored) \<Rightarrow> coordinator \<Rightarrow> 'a ran" where
  "store_call f c = (case f (co_db c) of Inl e \<Rightarrow> (Inl (QueueStore e), c) | Inr (x, db) \<Rightarrow> (Inr x, c\<lparr>co_db := db\<rparr>))"

datatype await = AwActive | AwResume | AwRead | AwStart

text \<open>The answers one operation meets. \<open>be_generation_again\<close> and \<open>be_resident_again\<close> are a second reading of the same values;
  \<open>be_late_stop\<close>, \<open>be_settled\<close>, \<open>be_handed_off\<close> and \<open>be_idle\<close> are the answers of the tables beside the queue; \<open>be_json\<close>
  prints a list of strings.\<close>

record backend =
  be_generation :: nat
  be_generation_again :: nat
  be_resident :: "rstr option"
  be_resident_again :: "rstr option"
  be_active :: "(backend_failure, rstr option) result"
  be_resume :: "(backend_failure, unit) result"
  be_read :: "(backend_failure, turn_record list) result"
  be_start :: "queue_job \<Rightarrow> (backend_failure, rstr) result"
  be_late_stop :: "unit stored"
  be_settled :: "unit stored"
  be_handed_off :: "unit stored"
  be_idle :: "idle_intent list"
  be_json :: "rstr list \<Rightarrow> rstr"
  be_now :: rat
  be_instant :: int
  be_while :: "await \<Rightarrow> coordinator \<Rightarrow> coordinator"

definition generation_i64 :: "nat \<Rightarrow> (runner_error, int) result" where
  "generation_i64 g = (if int g \<le> I64_MAX then Inr (int g) else Inl IntegerRange)"

definition target_dispatch_held :: "queue_db \<Rightarrow> rstr \<Rightarrow> bool" where
  "target_dispatch_held db target \<longleftrightarrow> target \<in> set (qd_async_held db) \<or> target \<in> set (qd_dispatching db)"

definition target_jobs :: "queue_db \<Rightarrow> rstr \<Rightarrow> queue_job list" where
  "target_jobs db target = list_filtered (Some target) None db"

definition notify_delivery_ready :: "coordinator \<Rightarrow> coordinator" where
  "notify_delivery_ready c = c\<lparr>co_delivery_ready := True\<rparr>"

text \<open>The registry of target locks: \<open>strong\<close> counts the owners and waiters of a lock, \<open>fresh\<close> is a new lock.\<close>

definition target_lock :: "(nat \<Rightarrow> nat) \<Rightarrow> nat \<Rightarrow> rstr \<Rightarrow> (rstr, nat) hmap \<Rightarrow> nat \<times> (rstr, nat) hmap" where
  "target_lock strong fresh target locks =
     (let kept = hm_retain (\<lambda>_ l. strong l \<noteq> 0) locks
      in case hm_get kept target of Some l \<Rightarrow> (l, kept) | None \<Rightarrow> (fresh, hm_insert target fresh kept))"

definition run_busy_status :: "backend \<Rightarrow> rstr \<Rightarrow> coordinator \<Rightarrow> busy_status ran" where
  "run_busy_status be target c = (let c1 = be_while be AwActive c in
     case be_active be of Inl e \<Rightarrow> (Inl (QueueBackend e), c1)
     | Inr active \<Rightarrow>
         let queued = list_ex (\<lambda>j. job_state j \<noteq> JQuarantined) (eligible_jobs (co_db c1) (target_jobs (co_db c1) target))
         in (Inr \<lparr> bs_busy = (active \<noteq> None \<or> queued), bs_allow_steer = (active \<noteq> None) \<rparr>, c1))"

definition control_binding :: "backend \<Rightarrow> rstr \<Rightarrow> coordinator \<Rightarrow> (rstr option \<times> rstr option) ran" where
  "control_binding be target c = (let c1 = be_while be AwActive c in
     case be_active be of Inl e \<Rightarrow> (Inl (QueueBackend e), c1)
     | Inr (Some turn) \<Rightarrow> (Inr (Some turn, None), c1)
     | Inr None \<Rightarrow> (case filter (\<lambda>j. occupies j \<and> \<not> qj_goal_waiting j) (target_jobs (co_db c1) target) of
         [j] \<Rightarrow> (Inr (qj_turn_id j, Some (qj_job_id j)), c1)
       | _ \<Rightarrow> (Inr (None, None), c1)))"

section \<open>Writer retry hints (\<open>retry_deadlines.rs\<close>)\<close>

definition HINT_CAP :: nat where
  "HINT_CAP = 128"

text \<open>\<open>Duration::try_from_secs_f64\<close> rounds to nanoseconds, ties to even, and fails from \<open>2 ^ 64\<close> seconds on.\<close>

definition round_half_even :: "rat \<Rightarrow> int" where
  "round_half_even x = (let n = \<lfloor>x\<rfloor>; f = x - of_int n in
     if f < 1 / 2 then n else if f > 1 / 2 then n + 1 else if even n then n else n + 1)"

definition delay_nanos :: "rat \<Rightarrow> int" where
  "delay_nanos x = (if x \<ge> 18446744073709551616 then secs 900 else round_half_even (x * 1000000000))"

definition schedule_writer_retry :: "rat \<Rightarrow> int \<Rightarrow> queue_job \<Rightarrow> coordinator \<Rightarrow> coordinator" where
  "schedule_writer_retry now instant j c =
     (let target = qj_target j in
      if \<not> is_definite_writer_rejection (qj_last_error j) then c\<lparr>co_hints := hm_remove target (co_hints c)\<rparr>
      else if hm_len (co_hints c) \<ge> HINT_CAP \<and> \<not> hm_contains (co_hints c) target \<or>
              byte_len target + byte_len (qj_job_id j) > MAX_METADATA_BYTES then c
      else case pending_retry_due_at (qj_attempts j) (qj_last_error j) (qj_updated_at j) of
        None \<Rightarrow> c
      | Some wall_due \<Rightarrow>
          let due = max (instant + delay_nanos (max (wall_due - now) 0))
                (case log_retry_at target (co_unavailable c) of None \<Rightarrow> instant | Some gate \<Rightarrow> gate)
          in c\<lparr>co_hints := hm_insert target \<lparr> rh_target = target, rh_job_id = qj_job_id j, rh_generation = qj_generation j,
               rh_attempt = qj_attempts j, rh_updated_at = qj_updated_at j, rh_due = due \<rparr> (co_hints c)\<rparr>)"

definition extend_writer_retry_gate :: "rstr \<Rightarrow> coordinator \<Rightarrow> coordinator" where
  "extend_writer_retry_gate target c = (case (hm_get (co_hints c) target, log_retry_at target (co_unavailable c)) of
     (Some h, Some gate) \<Rightarrow> c\<lparr>co_hints := hm_insert target (h\<lparr>rh_due := max (rh_due h) gate\<rparr>) (co_hints c)\<rparr>
   | _ \<Rightarrow> c)"

text \<open>A \<open>BTreeMap\<close> lists its values in the order of the keys.\<close>

definition due_writer_retries :: "int \<Rightarrow> coordinator \<Rightarrow> retry_hint list" where
  "due_writer_retries instant c = filter (\<lambda>h. rh_due h \<le> instant) (map snd (sort_key fst (co_hints c)))"

text \<open>\<open>lease\<close> is the target of the lease that calls.\<close>

definition consume_writer_retry :: "rstr \<Rightarrow> retry_hint \<Rightarrow> coordinator \<Rightarrow> bool ran" where
  "consume_writer_retry lease expected c =
     (if lease \<noteq> rh_target expected then (Inl (QueueStore (InvalidQueueState (lit ''queue target lease mismatch''))), c)
      else if hm_get (co_hints c) (rh_target expected) \<noteq> Some expected then (Inr False, c)
      else let c1 = c\<lparr>co_hints := hm_remove (rh_target expected) (co_hints c)\<rparr> in
        case eligible_pending_head (eligible_jobs (co_db c1) (target_jobs (co_db c1) (rh_target expected))) of
          None \<Rightarrow> (Inr False, c1)
        | Some head \<Rightarrow> (Inr (qj_job_id head = rh_job_id expected \<and> qj_generation head = rh_generation expected \<and>
            qj_attempts head = rh_attempt expected \<and> qj_updated_at head = rh_updated_at expected \<and>
            is_definite_writer_rejection (qj_last_error head)), c1))"

section \<open>Starting the next job (\<open>retry.rs\<close>)\<close>

definition enter_gate :: "coordinator \<Rightarrow> (drain_error, coordinator) result" where
  "enter_gate c = (case co_gate c of None \<Rightarrow> Inr c
     | Some g \<Rightarrow> (case try_enter g of Inl e \<Rightarrow> Inl e | Inr g' \<Rightarrow> Inr (c\<lparr>co_gate := Some g'\<rparr>)))"

definition leave_gate :: "coordinator \<Rightarrow> coordinator" where
  "leave_gate c = c\<lparr>co_gate := map_option permit_drop (co_gate c)\<rparr>"

definition record_preflight :: "backend \<Rightarrow> rstr \<Rightarrow> int \<Rightarrow> rstr \<Rightarrow> coordinator \<Rightarrow> unit ran" where
  "record_preflight be jid generation message c =
     then_run (store_call (record_preflight_failure jid generation message (be_now be)) c) (\<lambda>recorded c1.
       (Inr (), case recorded of None \<Rightarrow> c1 | Some j \<Rightarrow> schedule_writer_retry (be_now be) (be_instant be) j c1))"

definition preflight_baseline ::
  "backend \<Rightarrow> rstr \<Rightarrow> int \<Rightarrow> queue_job \<Rightarrow> turn_record list option \<Rightarrow> coordinator \<Rightarrow> rstr list ran" where
  "preflight_baseline be target generation job recovered c = (case recovered of
     Some turns \<Rightarrow> (Inr (map tr_turn_id turns), c)
   | None \<Rightarrow> (let c1 = be_while be AwResume c in case be_resume be of
       Inl e \<Rightarrow> then_run (record_preflight be (qj_job_id job) generation (bf_message e) c1) (\<lambda>_ c2. (Inl (QueueBackend e), c2))
     | Inr _ \<Rightarrow> (let c2 = be_while be AwRead c1 in case be_read be of
         Inl e \<Rightarrow> then_run (record_preflight be (qj_job_id job) generation (bf_message e) c2) (\<lambda>_ c3. (Inl (QueueBackend e), c3))
       | Inr turns \<Rightarrow> (Inr (map tr_turn_id turns), c2))))"

text \<open>The dispatch of a claimed job and the record of its outcome.\<close>

definition dispatch_claimed :: "backend \<Rightarrow> rstr \<Rightarrow> queue_job \<Rightarrow> coordinator \<Rightarrow> queue_job option ran" where
  "dispatch_claimed be jid claimed c = (let c1 = be_while be AwStart c in
     case be_start be claimed of
       Inl e \<Rightarrow>
         let message = (if bf_kind e = FkUsageLimit then HELD_PREFIX @ bf_message e else bf_message e)
         in then_run (store_call (record_start_failure_if_claimed claimed message (bf_ambiguous e) (be_now be)) c1) (\<lambda>recorded c2.
              if recorded = None then (Inl (AttemptClaimLost jid None), c2)
              else (Inl (QueueBackend e), if bf_kind e = FkUsageLimit then notify_delivery_ready c2 else c2))
     | Inr turn \<Rightarrow>
         then_run (store_call (mark_running_with_resident_if_claimed claimed turn
             (if be_resident be = None then None else Some (be_late_stop be)) (be_now be)) c1) (\<lambda>running c2.
           case running of Some j \<Rightarrow> (Inr (Some j), c2) | None \<Rightarrow> (Inl (AttemptClaimLost jid (Some turn)), c2)))"

definition start_admitted ::
  "backend \<Rightarrow> rstr \<Rightarrow> int \<Rightarrow> turn_record list option \<Rightarrow> coordinator \<Rightarrow> queue_job option ran" where
  "start_admitted be target generation recovered c =
     (if target_is_held_in (co_db c) target then (Inr None, c)
      else case eligible_pending_head (eligible_jobs (co_db c) (target_jobs (co_db c) target)) of
        None \<Rightarrow> (Inr None, c)
      | Some job \<Rightarrow>
          if qj_generation job \<noteq> generation then (Inr None, c)
          else if \<not> pending_job_is_due job (be_now be) then (Inr None, c)
          else let c1 = be_while be AwActive c in (case be_active be of
            Inl e \<Rightarrow> (Inl (QueueBackend e), c1)
          | Inr (Some _) \<Rightarrow> (Inr None, c1)
          | Inr None \<Rightarrow>
              then_run (preflight_baseline be target generation job recovered c1) (\<lambda>baseline c2.
              then_run (store_call (try_begin_attempt (qj_job_id job) baseline generation (be_now be)) c2) (\<lambda>claim c3.
              case claim of None \<Rightarrow> (Inr None, c3) | Some claimed \<Rightarrow> dispatch_claimed be (qj_job_id job) claimed c3))))"

text \<open>The permit of the gate is held until the operation returns.\<close>

definition start_next_with_baseline_locked ::
  "backend \<Rightarrow> rstr \<Rightarrow> int \<Rightarrow> turn_record list option \<Rightarrow> coordinator \<Rightarrow> queue_job option ran" where
  "start_next_with_baseline_locked be target generation recovered c =
     (if target_dispatch_held (co_db c) target then (Inr None, c)
      else case enter_gate c of
        Inl e \<Rightarrow> if e = GateSealed then (Inr None, c) else (Inl (RestartDrain e), c)
      | Inr c1 \<Rightarrow> (let (r, c2) = start_admitted be target generation recovered c1 in (r, leave_gate c2)))"

definition start_next_locked :: "backend \<Rightarrow> rstr \<Rightarrow> int \<Rightarrow> coordinator \<Rightarrow> queue_job option ran" where
  "start_next_locked be target generation c = start_next_with_baseline_locked be target generation None c"

definition start_next_recovered_locked :: "backend \<Rightarrow> rstr \<Rightarrow> int \<Rightarrow> turn_record list \<Rightarrow> coordinator \<Rightarrow> queue_job option ran" where
  "start_next_recovered_locked be target generation turns c = start_next_with_baseline_locked be target generation (Some turns) c"

definition kick_target :: "backend \<Rightarrow> rstr \<Rightarrow> coordinator \<Rightarrow> unit ran" where
  "kick_target be target c = (case generation_i64 (be_generation be) of
     Inl e \<Rightarrow> (Inl e, c)
   | Inr generation \<Rightarrow> then_run (start_next_locked be target generation c) (\<lambda>_ c1. (Inr (), c1)))"

section \<open>Submission (\<open>submission.rs\<close>)\<close>

record submission_request =
  rq_job_id :: rstr
  rq_target :: rstr
  rq_channel :: nat
  rq_owner :: nat
  rq_message :: "nat option"
  rq_prompt :: rstr
  rq_require_mirror :: bool
  rq_intake :: bool

definition id_i64 :: "nat \<Rightarrow> (runner_error, int) result" where
  "id_i64 n = (if int n \<le> I64_MAX then Inr (int n) else Inl IntegerRange)"

definition with_target_hold :: "queue_db \<Rightarrow> rstr \<Rightarrow> submission \<Rightarrow> bool \<Rightarrow> submission" where
  "with_target_hold db target s starting =
     (if sb_turn_id s \<noteq> None \<or>
         (case sb_warning s of None \<Rightarrow> False
          | Some w \<Rightarrow> bf_kind w \<in> {FkQuarantined, FkForkFenced, FkStartingCandidatesHeld, FkExecutionHeld}) \<or>
         \<not> target_dispatch_held db target then s
      else let ambiguous = (starting \<or> (case sb_warning s of None \<Rightarrow> False | Some w \<Rightarrow> bf_ambiguous w));
               previous = (case sb_warning s of None \<Rightarrow> [] | Some w \<Rightarrow> lit ''; saved warning: '' @ bf_message w);
               warning = failure_execution_held (lit ''target async execution or recovery authorization remains unresolved; saved request and attempts are unchanged; no automatic replay while this target is held'' @ previous)
        in s\<lparr>sb_warning := Some (warning\<lparr>bf_ambiguous := ambiguous\<rparr>)\<rparr>)"

definition present_saved_submission :: "queue_db \<Rightarrow> queue_job \<Rightarrow> submission" where
  "present_saved_submission db j = (if job_state j = JPending \<or> job_state j = JStarting
     then with_target_hold db (qj_target j) (replay_existing j) (job_state j = JStarting) else replay_existing j)"

text \<open>\<open>promote\<close> is \<open>promote_prompt_intake_to_queue\<close>, asked when the request carries an intake claim.\<close>

definition submit_with_mapping ::
  "backend \<Rightarrow> (new_queue_job \<Rightarrow> queue_db \<Rightarrow> ((queue_job \<times> bool) \<times> queue_db) stored) \<Rightarrow> submission_request \<Rightarrow> coordinator \<Rightarrow> submission ran" where
  "submit_with_mapping be promote rq c =
     (let target = rq_target rq; existing = eligible_jobs (co_db c) (target_jobs (co_db c) target) in
      if target_is_held_in (co_db c) target then (Inl (QueueStore (DeadGenerationTargetHeld target)), c)
      else case and_then (generation_i64 (be_generation be)) (\<lambda>generation.
          and_then (id_i64 (rq_channel rq)) (\<lambda>channel.
          and_then (id_i64 (rq_owner rq)) (\<lambda>owner.
          and_then (case rq_message rq of None \<Rightarrow> Inr None | Some m \<Rightarrow> and_then (id_i64 m) (\<lambda>i. Inr (Some i))) (\<lambda>message.
          Inr (generation, channel, owner, message))))) of
        Inl e \<Rightarrow> (Inl e, c)
      | Inr (generation, channel, owner, message) \<Rightarrow>
          let queued = list_ex (\<lambda>j. job_state j \<noteq> JQuarantined) existing;
              stale = list_ex (\<lambda>j. job_state j \<noteq> JQuarantined \<and> qj_generation j \<noteq> generation) existing;
              n = \<lparr> nj_job_id = rq_job_id rq, nj_target = target, nj_channel = channel, nj_owner = Some owner, nj_message = message,
                nj_generation = generation, nj_prompt = rq_prompt rq, nj_queued = queued, nj_ack_sent = True, nj_created_at = be_now be \<rparr>
          in then_run (store_call (if rq_intake rq then promote n
               else if rq_require_mirror rq then enqueue_if_mirror_matches n channel target else enqueue n) c) (\<lambda>(job, created) c1.
             if \<not> created then (Inr (present_saved_submission (co_db c1) job), c1)
             else if stale then (Inr (with_target_hold (co_db c1) target
               \<lparr> sb_job_id = qj_job_id job, sb_queued = True, sb_turn_id = None, sb_warning = None \<rparr> False), c1)
             else case start_next_locked be target generation c1 of
               (Inl (QueueBackend failure), c2) \<Rightarrow>
                 (case find (\<lambda>j. qj_job_id j = qj_job_id job) (list_filtered (Some target) (Some generation) (co_db c2)) of
                    None \<Rightarrow> (Inl (QueueBackend failure), c2)
                  | Some j \<Rightarrow> if qj_last_error j \<noteq> [] then (Inr (present_saved_submission (co_db c2) j), c2)
                      else (Inl (QueueBackend failure), c2))
             | (Inl e, c2) \<Rightarrow> (Inl e, c2)
             | (Inr started, c2) \<Rightarrow>
                 let turn = Option.bind (opt_filter (\<lambda>j. qj_job_id j = qj_job_id job) started) qj_turn_id
                 in (Inr (with_target_hold (co_db c2) target \<lparr> sb_job_id = qj_job_id job, sb_queued = (turn = None), sb_turn_id = turn,
                      sb_warning = None \<rparr> False), c2)))"

definition replay_submission_for_message :: "nat \<Rightarrow> queue_db \<Rightarrow> (runner_error, submission option) result" where
  "replay_submission_for_message message db = and_then (id_i64 message) (\<lambda>m.
     Inr (map_option (present_saved_submission db) (find (\<lambda>j. qj_message j = Some m) (list_filtered None None db))))"

definition replay_submission_with_target_for_job :: "rstr \<Rightarrow> queue_db \<Rightarrow> (rstr \<times> submission) option" where
  "replay_submission_with_target_for_job jid db = map_option (\<lambda>j. (qj_target j, present_saved_submission db j))
     (find (\<lambda>j. qj_job_id j = jid) (list_filtered None None db))"

section \<open>Completion (\<open>completion.rs\<close>)\<close>

record completion_evidence =
  ce_expected :: "queue_job option"
  ce_observed :: "int option"
  ce_start_next :: bool

definition running_turn :: "rstr \<Rightarrow> queue_job \<Rightarrow> bool" where
  "running_turn turn j \<longleftrightarrow> job_state j = JRunning \<and> qj_turn_id j = Some turn"

definition turn_completed :: "backend \<Rightarrow> rstr \<Rightarrow> rstr \<Rightarrow> coordinator \<Rightarrow> bool ran" where
  "turn_completed be target turn c =
     (if target_is_held_in (co_db c) target then (Inr False, c)
      else case generation_i64 (be_generation be) of Inl e \<Rightarrow> (Inl e, c)
      | Inr generation \<Rightarrow> (case find (running_turn turn) (target_jobs (co_db c) target) of
          None \<Rightarrow> (Inr False, c)
        | Some j \<Rightarrow> let (removed, db) = queue_complete (qj_job_id j) (co_db c); c1 = c\<lparr>co_db := db\<rparr>
            in if removed then then_run (start_next_locked be target generation c1) (\<lambda>_ c2. (Inr True, c2)) else (Inr False, c1)))"

definition stage_turn_completion_locked ::
  "backend \<Rightarrow> rstr \<Rightarrow> rstr \<Rightarrow> rstr \<Rightarrow> completion_evidence \<Rightarrow> coordinator \<Rightarrow> delivery option ran" where
  "stage_turn_completion_locked be target turn content ev c =
     (if target_is_held_in (co_db c) target then (Inr None, c)
      else case generation_i64 (be_generation be) of Inl e \<Rightarrow> (Inl e, c)
      | Inr before \<Rightarrow> (case filter (running_turn turn) (target_jobs (co_db c) target) of
          [] \<Rightarrow> (Inr None, c)
        | job # others \<Rightarrow>
            if others \<noteq> [] \<or> (ce_expected ev \<noteq> None \<and> ce_expected ev \<noteq> Some job)
            then (Inl (QueueStore (InvalidQueueState (lit ''completion ownership changed during observation''))), c)
            else case generation_i64 (be_generation_again be) of Inl e \<Rightarrow> (Inl e, c)
            | Inr generation \<Rightarrow>
                let release = (be_resident be \<noteq> None \<and> ce_observed ev = Some generation \<and> generation = before \<and>
                      be_resident_again be = be_resident be \<and> completion_evidence_generation job = generation);
                    idle = (if release \<and> qj_generation job = generation then Some (be_idle be) else None)
                in then_run (store_call (stage_completion_inner (qj_job_id job) content (be_now be) (be_settled be) idle (Some job)) c) (\<lambda>d c1.
                   let c2 = notify_delivery_ready c1 in
                   if ce_start_next ev then then_run (start_next_locked be target generation c2) (\<lambda>_ c3. (Inr (Some d), c3))
                   else (Inr (Some d), c2))))"

definition save_owned_turn_completion_observed ::
  "backend \<Rightarrow> rstr \<Rightarrow> queue_job \<Rightarrow> rstr \<Rightarrow> int option \<Rightarrow> coordinator \<Rightarrow> delivery option ran" where
  "save_owned_turn_completion_observed be lease expected content observed c =
     (if lease \<noteq> qj_target expected then (Inl (QueueStore (InvalidQueueState (lit ''queue target lease mismatch''))), c)
      else case qj_turn_id expected of
        None \<Rightarrow> (Inl (QueueStore (InvalidQueueState (lit ''completion owner has no turn''))), c)
      | Some turn \<Rightarrow> stage_turn_completion_locked be lease turn content
          \<lparr> ce_expected = Some expected, ce_observed = observed, ce_start_next = False \<rparr> c)"

definition goal_continues :: "backend \<Rightarrow> rstr \<Rightarrow> rstr \<Rightarrow> coordinator \<Rightarrow> bool ran" where
  "goal_continues be target turn c =
     (if target_is_held_in (co_db c) target then (Inr False, c)
      else case find (running_turn turn) (target_jobs (co_db c) target) of
        None \<Rightarrow> (Inr False, c)
      | Some j \<Rightarrow> store_call (mark_goal_waiting (qj_job_id j) turn (qj_generation j) (be_now be)) c)"

definition goal_turn_started_observed_locked ::
  "backend \<Rightarrow> rstr \<Rightarrow> rstr \<Rightarrow> nat \<Rightarrow> queue_job option \<Rightarrow> coordinator \<Rightarrow> bool ran" where
  "goal_turn_started_observed_locked be target turn observed expected_owner c =
     (if observed \<noteq> be_generation be \<or> target_is_held_in (co_db c) target then (Inr False, c)
      else case filter (\<lambda>j. job_state j = JRunning \<and> qj_goal_waiting j) (target_jobs (co_db c) target) of
        [] \<Rightarrow> (Inr False, c)
      | job # others \<Rightarrow>
          if others \<noteq> [] then (Inl (QueueStore (InvalidQueueState (lit ''multiple goal-waiting jobs for '' @ target))), c)
          else if expected_owner \<noteq> None \<and> expected_owner \<noteq> Some job then (Inr False, c)
          else case generation_i64 observed of Inl e \<Rightarrow> (Inl e, c)
          | Inr g \<Rightarrow> store_call (attach_goal_turn_observed_if_owned job turn g (be_handed_off be) (be_now be)) c)"

section \<open>Recovery (\<open>recovery.rs\<close>, \<open>recovery/state.rs\<close>, \<open>recovery/target.rs\<close>)\<close>

record recovery_report =
  rp_adopted :: nat
  rp_recovered_running :: nat
  rp_unresolved :: nat
  rp_started :: nat
  rp_read_unavailable :: "rstr list"
  rp_mutation_unavailable :: "rstr list"
  rp_unavailable :: "rstr list"
  rp_active_writer :: "rstr list"

definition report_default :: recovery_report where
  "report_default = \<lparr> rp_adopted = 0, rp_recovered_running = 0, rp_unresolved = 0, rp_started = 0, rp_read_unavailable = [],
     rp_mutation_unavailable = [], rp_unavailable = [], rp_active_writer = [] \<rparr>"

definition STARTING_ATTEMPT_LEASE_SECONDS :: rat where
  "STARTING_ATTEMPT_LEASE_SECONDS = 120"

definition initialize_recovery :: "rstr list \<Rightarrow> coordinator \<Rightarrow> coordinator" where
  "initialize_recovery targets c0 = (let c = c0\<lparr>co_unavailable := log_retain_targets targets (co_unavailable c0)\<rparr> in
     if co_initialized c then c else c\<lparr>co_initialized := True, co_cold := remdups (co_cold c @ targets)\<rparr>)"

definition is_cold_target :: "rstr \<Rightarrow> coordinator \<Rightarrow> bool" where
  "is_cold_target target c = (target \<in> set (co_cold c))"

definition mark_reconciled :: "rstr \<Rightarrow> coordinator \<Rightarrow> coordinator" where
  "mark_reconciled target c = c\<lparr>co_cold := removeAll target (co_cold c)\<rparr>"

definition clear_unavailable_log :: "rstr \<Rightarrow> coordinator \<Rightarrow> coordinator" where
  "clear_unavailable_log target c = c\<lparr>co_unavailable := log_on_success target (co_unavailable c)\<rparr>"

definition mark_unavailable ::
  "int \<Rightarrow> queue_job list \<Rightarrow> rstr \<Rightarrow> backend_failure \<Rightarrow> recovery_report \<times> coordinator \<Rightarrow> recovery_report \<times> coordinator" where
  "mark_unavailable instant jobs target e s = (let (rep, c) = s;
       affected = length (filter (\<lambda>j. qj_target j = target \<and> job_state j \<noteq> JQuarantined) jobs)
     in (rep\<lparr>rp_unresolved := rp_unresolved rep + affected, rp_unavailable := insort_insert target (rp_unavailable rep)\<rparr>,
         extend_writer_retry_gate target (c\<lparr>co_unavailable := snd (log_on_failure target (bf_message e) instant (co_unavailable c))\<rparr>)))"

definition mark_read_unavailable ::
  "int \<Rightarrow> queue_job list \<Rightarrow> rstr \<Rightarrow> backend_failure \<Rightarrow> recovery_report \<times> coordinator \<Rightarrow> recovery_report \<times> coordinator" where
  "mark_read_unavailable instant jobs target e s = (let (rep, c) = s in
     mark_unavailable instant jobs target e (rep\<lparr>rp_read_unavailable := insort_insert target (rp_read_unavailable rep)\<rparr>, c))"

definition mark_mutation_unavailable ::
  "int \<Rightarrow> queue_job list \<Rightarrow> rstr \<Rightarrow> backend_failure \<Rightarrow> recovery_report \<times> coordinator \<Rightarrow> recovery_report \<times> coordinator" where
  "mark_mutation_unavailable instant jobs target e s = (let (rep, c) = s in
     mark_unavailable instant jobs target e (rep\<lparr>rp_mutation_unavailable := insort_insert target (rp_mutation_unavailable rep),
       rp_active_writer := (if bf_kind e = FkActiveWriter then insort_insert target (rp_active_writer rep) else rp_active_writer rep)\<rparr>, c))"

text \<open>An error of an operation loses the report of the caller, but not the state.\<close>

type_synonym 'a reported = "(runner_error, 'a \<times> recovery_report) result \<times> coordinator"

definition unknown_acceptance :: rstr where
  "unknown_acceptance = lit ''turn/start acceptance remains unknown; empty history does not authorize retry''"

definition candidate_turn_ids :: "queue_job \<Rightarrow> turn_record list \<Rightarrow> rstr list" where
  "candidate_turn_ids j turns = sort (remdups (filter (\<lambda>t. t \<notin> set (qj_baseline j)) (map tr_turn_id turns)))"

definition lease_active :: "queue_job \<Rightarrow> rat \<Rightarrow> bool" where
  "lease_active j now \<longleftrightarrow> qj_last_error j = [] \<and> now < qj_updated_at j + STARTING_ATTEMPT_LEASE_SECONDS"

definition one_more_unresolved :: "recovery_report \<Rightarrow> recovery_report" where
  "one_more_unresolved rep = rep\<lparr>rp_unresolved := rp_unresolved rep + 1\<rparr>"

definition recover_starting ::
  "backend \<Rightarrow> queue_job \<Rightarrow> int \<Rightarrow> bool \<Rightarrow> turn_record list \<Rightarrow> recovery_report \<Rightarrow> coordinator \<Rightarrow> bool reported" where
  "recover_starting be job generation cold turns rep c =
     (let ids = candidate_turn_ids job turns;
          unresolved = (\<lambda>_ c1. (Inr (False, one_more_unresolved rep), c1));
          hold = store_call (hold_starting_for_ambiguous_candidates_if_claimed (be_json be) job ids (be_now be)) c in
      if starts_with (qj_last_error job) STARTING_CANDIDATE_HOLD_PREFIX then then_run hold unresolved
      else if lease_active job (be_now be) then unresolved None c
      else if length ids = 1 then
        then_run (store_call (mark_running_if_claimed job (hd ids) (be_now be)) c) (\<lambda>running c1.
          (Inr (running \<noteq> None, if running \<noteq> None then rep\<lparr>rp_recovered_running := rp_recovered_running rep + 1\<rparr> else rep), c1))
      else if ids = [] \<and> (cold \<or> qj_generation job \<noteq> generation) then
        (if qj_last_error job = []
         then then_run (store_call (record_start_failure_if_claimed job unknown_acceptance True (be_now be)) c) unresolved
         else unresolved None c)
      else if length ids > 1 then then_run hold unresolved
      else unresolved None c)"

definition recover_running :: "queue_job \<Rightarrow> turn_record list \<Rightarrow> recovery_report \<Rightarrow> recovery_report" where
  "recover_running job turns rep = (case qj_turn_id job of
     None \<Rightarrow> one_more_unresolved rep
   | Some turn \<Rightarrow> (case map_option tr_status (find (\<lambda>t. tr_turn_id t = turn) turns) of
       Some InProgress \<Rightarrow> rep
     | _ \<Rightarrow> one_more_unresolved rep))"

text \<open>The loop of \<open>reconcile_observed_jobs\<close> over the jobs; \<open>False\<close> stops it.\<close>

fun reconcile_jobs ::
  "backend \<Rightarrow> int \<Rightarrow> bool \<Rightarrow> turn_record list \<Rightarrow> queue_job list \<Rightarrow> recovery_report \<Rightarrow> coordinator \<Rightarrow> bool reported" where
  "reconcile_jobs be generation cold turns [] rep c = (Inr (True, rep), c)"
| "reconcile_jobs be generation cold turns (j # js) rep c = (case job_state j of
     JStarting \<Rightarrow> then_run (recover_starting be j generation cold turns rep c) (\<lambda>(go_on, rep1) c1.
       if go_on then reconcile_jobs be generation cold turns js rep1 c1 else (Inr (False, rep1), c1))
   | JRunning \<Rightarrow> reconcile_jobs be generation cold turns js (recover_running j turns rep) c
   | _ \<Rightarrow> reconcile_jobs be generation cold turns js rep c)"

definition reconcile_observed_jobs ::
  "backend \<Rightarrow> rstr \<Rightarrow> int \<Rightarrow> queue_job list \<Rightarrow> turn_record list \<Rightarrow> bool \<Rightarrow> recovery_report \<Rightarrow> coordinator \<Rightarrow> bool reported" where
  "reconcile_observed_jobs be target generation jobs turns force_cold rep c =
     then_run (reconcile_jobs be generation (force_cold \<or> is_cold_target target c) turns jobs rep c) (\<lambda>(go_on, rep1) c1.
       if \<not> go_on then (Inr (False, rep1), c1)
       else then_run (store_call (adopt_target_generation target generation) c1) (\<lambda>(_, adopted) c2.
         (Inr (True, rep1\<lparr>rp_adopted := rp_adopted rep1 + adopted\<rparr>), mark_reconciled target c2)))"

text \<open>\<open>history\<close> is what the review of the asynchronous history answers: the count of open obligations, or \<open>None\<close> for an error.\<close>

definition observe_one_locked ::
  "backend \<Rightarrow> nat option \<Rightarrow> rstr \<Rightarrow> int \<Rightarrow> bool \<Rightarrow> recovery_report \<Rightarrow> coordinator \<Rightarrow> unit reported" where
  "observe_one_locked be history target generation force_cold rep c =
     (if target_dispatch_held (co_db c) target then
        (Inr ((), case history of Some n \<Rightarrow> rep\<lparr>rp_unresolved := rp_unresolved rep + n\<rparr>
          | None \<Rightarrow> rep\<lparr>rp_unresolved := rp_unresolved rep + 1, rp_read_unavailable := insort_insert target (rp_read_unavailable rep),
              rp_unavailable := insort_insert target (rp_unavailable rep)\<rparr>), c)
      else if target_is_held_in (co_db c) target then (Inr ((), rep), c)
      else let jobs = target_jobs (co_db c) target in
        if \<not> list_ex occupies jobs then (Inr ((), rep), c)
        else let c1 = be_while be AwRead c in (case be_read be of
          Inl e \<Rightarrow> (let (rep1, c2) = mark_read_unavailable (be_instant be) jobs target e (rep, c1) in (Inr ((), rep1), c2))
        | Inr turns \<Rightarrow>
            then_run (reconcile_observed_jobs be target generation jobs turns force_cold rep (clear_unavailable_log target c1))
              (\<lambda>(_, rep1) c2. (Inr ((), rep1), c2))))"

definition mutate_one_locked :: "backend \<Rightarrow> rstr \<Rightarrow> int \<Rightarrow> recovery_report \<Rightarrow> coordinator \<Rightarrow> unit reported" where
  "mutate_one_locked be target generation rep c =
     (if target_dispatch_held (co_db c) target \<or> target_is_held_in (co_db c) target then (Inr ((), rep), c)
      else let jobs = eligible_jobs (co_db c) (target_jobs (co_db c) target) in
      case eligible_pending_head jobs of
        None \<Rightarrow> (Inr ((), rep), c)
      | Some pending \<Rightarrow> (case unresolved_in_connection (co_db c) target of
          Some h \<Rightarrow>
            (let (rep1, c1) = mark_mutation_unavailable (be_instant be) jobs target (failure_definite (lit ''app-server fork handoff '' @
               fh_id h @ lit '' is unresolved; duplicate fork retry is fenced'')) (rep, c) in (Inr ((), rep1), c1))
        | None \<Rightarrow>
            if \<not> pending_job_is_due pending (be_now be) \<or> \<not> log_retry_due target (be_instant be) (co_unavailable c)
            then (Inr ((), rep), schedule_writer_retry (be_now be) (be_instant be) pending c)
            else let c1 = be_while be AwResume c in (case be_resume be of
              Inl e \<Rightarrow> then_run (record_preflight be (qj_job_id pending) (qj_generation pending) (bf_message e) c1) (\<lambda>_ c2.
                let (rep1, c3) = mark_mutation_unavailable (be_instant be) jobs target e (rep, c2) in (Inr ((), rep1), c3))
            | Inr _ \<Rightarrow> let c2 = be_while be AwRead c1 in (case be_read be of
                Inl e \<Rightarrow> then_run (record_preflight be (qj_job_id pending) (qj_generation pending) (bf_message e) c2) (\<lambda>_ c3.
                  let (rep1, c4) = mark_read_unavailable (be_instant be) jobs target e (rep, c3) in (Inr ((), rep1), c4))
              | Inr turns \<Rightarrow>
                  then_run (store_call (adopt_target_generation target generation) c2) (\<lambda>(_, adopted) c3.
                  let rep1 = rep\<lparr>rp_adopted := rp_adopted rep + adopted\<rparr> in
                  case start_next_recovered_locked be target generation turns (mark_reconciled target c3) of
                    (Inr started, c4) \<Rightarrow>
                      (Inr ((), if started \<noteq> None then rep1\<lparr>rp_started := rp_started rep1 + 1\<rparr> else rep1), clear_unavailable_log target c4)
                  | (Inl (QueueBackend e), c4) \<Rightarrow>
                      (let (rep2, c5) = mark_mutation_unavailable (be_instant be) (target_jobs (co_db c4) target) target e (rep1, c4)
                       in (Inr ((), rep2), c5))
                  | (Inl e, c4) \<Rightarrow> (Inl e, c4))))))"

end
