(* ===== verification/Runner_Safety.thy ===== *)
theory Runner_Safety
  imports Queue_Runner Queue_Safety
begin

text \<open>
  What the coordinator promises. The operations on one target exclude each other by the lock of the target; what runs
  during an await is a sequence of store operations that claims no job of that target. Under this condition
  at most one job of a target is starting or running, and an operation on one target is itself such a sequence for every
  other target, so the condition can be discharged by the operations themselves.
\<close>

section \<open>Rows that occupy their target\<close>

definition occupied :: "queue_db \<Rightarrow> rstr \<Rightarrow> queue_job list" where
  "occupied db target = filter (\<lambda>j. qj_target j = target \<and> occupies j \<and> live_row db j) (qd_jobs db)"

definition single_flight :: "queue_db \<Rightarrow> rstr \<Rightarrow> bool" where
  "single_flight db target \<longleftrightarrow> length (occupied db target) \<le> 1"

text \<open>A claim of a job of the target.\<close>

fun begins_on :: "rstr \<Rightarrow> qd_event \<Rightarrow> queue_db \<Rightarrow> bool" where
  "begins_on target (QTryBegin jid b g now) db \<longleftrightarrow>
     began jid (QTryBegin jid b g now) db \<and> (\<exists>j \<in> set (qd_jobs db). qj_job_id j = jid \<and> qj_target j = target)"
| "begins_on target _ db \<longleftrightarrow> False"

text \<open>A job id names one job: \<open>tgt\<close> gives the target of a job id, as the ids that are ever issued are random.\<close>

fun named :: "(rstr \<Rightarrow> rstr) \<Rightarrow> qd_event \<Rightarrow> bool" where
  "named tgt (QEnqueue n) \<longleftrightarrow> nj_target n = tgt (nj_job_id n)"
| "named tgt (QEnqueueMirror n _ _) \<longleftrightarrow> nj_target n = tgt (nj_job_id n)"
| "named tgt (QGoalAttach _ _ _ _) \<longleftrightarrow> False"
| "named tgt _ \<longleftrightarrow> True"

definition quiet :: "(rstr \<Rightarrow> rstr) \<Rightarrow> rstr \<Rightarrow> qd_event \<Rightarrow> queue_db \<Rightarrow> bool" where
  "quiet tgt target e db \<longleftrightarrow> named tgt e \<and> \<not> begins_on target e db"

definition consistent :: "(rstr \<Rightarrow> rstr) \<Rightarrow> queue_db \<Rightarrow> bool" where
  "consistent tgt db \<longleftrightarrow> (\<forall>j \<in> set (qd_jobs db). qj_target j = tgt (qj_job_id j))"

lemma live_frame:
  assumes "frame db db'" "live_row db' j'" "qj_job_id j' = qj_job_id j" "qj_target j' = qj_target j" "qj_channel j' = qj_channel j"
  shows "live_row db j"
  using assms by (auto simp: frame_def live_row_def retired_row_def list_ex_iff)

lemma begin_row:
  "sql_update True (\<lambda>j. qj_job_id j = jid \<and> qj_generation j = generation \<and> qj_raw j = RPending \<and> \<not> fork_fenced db (qj_target j))
      (\<lambda>j. j\<lparr>qj_raw := RStarting, qj_execution_generation := Some generation, qj_observation_generation := None,
         qj_goal_waiting := False, qj_attempts := next_attempt (qj_attempts j), qj_turn_id := None,
         qj_baseline := baseline, qj_last_error := [], qj_updated_at := now\<rparr>) db = Inr (n, db1) \<Longrightarrow> ids_ok db \<Longrightarrow> n \<noteq> 0 \<Longrightarrow>
   \<exists>j db'. claimed_result jid n db1 = Inr (Some j, db')"
proof -
  let ?P = "\<lambda>j. qj_job_id j = jid \<and> qj_generation j = generation \<and> qj_raw j = RPending \<and> \<not> fork_fenced db (qj_target j)"
  let ?f = "\<lambda>j. j\<lparr>qj_raw := RStarting, qj_execution_generation := Some generation, qj_observation_generation := None,
         qj_goal_waiting := False, qj_attempts := next_attempt (qj_attempts j), qj_turn_id := None,
         qj_baseline := baseline, qj_last_error := [], qj_updated_at := now\<rparr>"
  assume u: "sql_update True ?P ?f db = Inr (n, db1)" and ok: "ids_ok db" and n: "n \<noteq> 0"
  note r = sql_update_jobs [OF u]
  have "n \<le> 1" using r count_rows_le [OF ok, of "\<lambda>j. ?P j \<and> \<not> frozen_row db (qj_job_id j)" jid] by simp
  then have n1: "n = 1" using n by simp
  then have "filter (\<lambda>j. ?P j \<and> \<not> frozen_row db (qj_job_id j)) (qd_jobs db) \<noteq> []" using r by force
  then obtain x where x: "x \<in> set (qd_jobs db)" "?P x" "\<not> frozen_row db (qj_job_id x)" unfolding filter_empty_conv by blast
  have "is_ok (select_job db1 jid)"
    using sql_update_in [OF u x] x(2) by (auto simp: is_ok_select intro!: bexI [of _ "?f x"])
  then obtain j where j: "select_job db1 jid = Inr j" by (auto simp: is_ok_iff)
  have "\<exists>y \<in> set (qd_jobs db). ?P y \<and> j = ?f y" by (rule select_updated [OF ok u n1 _ _ refl j]) auto
  then have "job_state j = JStarting" by (auto simp: job_state_def)
  then show ?thesis using n1 j by (simp add: claimed_result_def bind_running_in_def)
qed

text \<open>A claim changes the claimed row only, and a refused claim none.\<close>

lemma try_begin_rows:
  assumes "ids_ok db"
  shows "\<exists>f. (\<forall>j. qj_target (f j) = qj_target j \<and> qj_job_id (f j) = qj_job_id j) \<and> qd_jobs (qd_apply (QTryBegin jid b g now) db) =
    map (\<lambda>j. if qj_job_id j = jid \<and> began jid (QTryBegin jid b g now) db then f j else j) (qd_jobs db)"
proof (cases "try_begin_attempt jid b g now db")
  case (Inl e)
  then show ?thesis by (auto intro!: exI [of _ id])
next
  case (Inr rd)
  obtain r db' where rd: "rd = (r, db')" by (cases rd)
  show ?thesis
  proof (cases "db' = db")
    case True
    then show ?thesis using Inr rd by (intro exI [of _ id]) (simp add: map_idI)
  next
    case False
    let ?P = "\<lambda>j. qj_job_id j = jid \<and> qj_generation j = g \<and> qj_raw j = RPending \<and> \<not> fork_fenced db (qj_target j)"
    let ?f = "\<lambda>j. j\<lparr>qj_raw := RStarting, qj_execution_generation := Some g, qj_observation_generation := None,
         qj_goal_waiting := False, qj_attempts := next_attempt (qj_attempts j), qj_turn_id := None,
         qj_baseline := b, qj_last_error := [], qj_updated_at := now\<rparr>"
    obtain n db1 where u: "sql_update True ?P ?f db = Inr (n, db1)" and c: "claimed_result jid n db1 = Inr (r, db')"
      using Inr rd False by (auto simp: try_begin_attempt_def and_then_Inr split: sum.splits if_splits)
    have jobs: "qd_jobs db' = map (\<lambda>j. if ?P j \<and> \<not> frozen_row db (qj_job_id j) then ?f j else j) (qd_jobs db)"
      using sql_update_jobs [OF u] claimed_result_frame [OF c] by simp
    show ?thesis
    proof (cases "n = 0")
      case True
      then have "qd_jobs db' = qd_jobs db" using update_none_same [OF u] claimed_result_frame [OF c] by simp
      then show ?thesis using Inr rd by (intro exI [of _ id]) (simp add: map_idI)
    next
      case False
      then have "r \<noteq> None" using begin_row [OF u assms] c by auto
      then have "began jid (QTryBegin jid b g now) db" using Inr rd by auto
      then show ?thesis
        using Inr rd jobs by (intro exI [of _ "\<lambda>j. if ?P j \<and> \<not> frozen_row db (qj_job_id j) then ?f j else j"]) auto
    qed
  qed
qed

lemma try_begin_rowsE:
  assumes "ids_ok db"
  obtains f where "\<forall>j. qj_target (f j) = qj_target j \<and> qj_job_id (f j) = qj_job_id j"
    "qd_jobs (qd_apply (QTryBegin jid b g now) db) =
       map (\<lambda>j. if qj_job_id j = jid \<and> began jid (QTryBegin jid b g now) db then f j else j) (qd_jobs db)"
  using try_begin_rows [OF assms, of jid b g now] that by (elim exE conjE) (erule that)

lemma occupies_step: "row_step db k j j' \<Longrightarrow> k \<noteq> KBegin \<Longrightarrow> k \<noteq> KGoalTurn \<Longrightarrow> occupies j' \<Longrightarrow> occupies j"
  by (induction rule: row_step.induct) (auto simp: occupies_def job_state_def split: raw_state.splits if_splits)

lemma fresh_not_occupying: "fresh_row db n \<Longrightarrow> \<not> occupies n"
  by (simp add: fresh_row_def occupies_def job_state_def)

lemma length_filter_map_le:
  assumes "\<And>j. j \<in> set js \<Longrightarrow> keep j \<Longrightarrow> Q (g j) \<Longrightarrow> P j"
  shows "length (filter Q (map g (filter keep js))) \<le> length (filter P js)"
  using assms by (induction js) (auto simp: le_SucI)

lemma length_filter_weaken: "(\<And>x. x \<in> set xs \<Longrightarrow> P x \<Longrightarrow> Q x) \<Longrightarrow> length (filter P xs) \<le> length (filter Q xs)"
  by (induction xs) (auto simp: le_SucI)

lemma occupied_moves:
  assumes "table_moves K db db'" "KBegin \<notin> K" "KGoalTurn \<notin> K"
  shows "length (occupied db' target) \<le> length (occupied db target)"
proof -
  obtain g keep news where jobs: "qd_jobs db' = map g (filter keep (qd_jobs db)) @ news" and fresh: "\<forall>n \<in> set news. fresh_row db n"
    and step: "\<forall>j \<in> set (qd_jobs db). keep j \<longrightarrow> g j = j \<or> (\<exists>k \<in> K. row_step db k j (g j)) \<and> \<not> cancelled_row db j" and fr: "frame db db'"
    using assms(1) unfolding table_moves_def by blast
  let ?Q = "\<lambda>j. qj_target j = target \<and> occupies j \<and> live_row db' j"
  have "filter ?Q news = []" using fresh fresh_not_occupying by (auto simp: filter_empty_conv)
  moreover have "length (filter ?Q (map g (filter keep (qd_jobs db)))) \<le> length (occupied db target)"
    unfolding occupied_def
  proof (rule length_filter_map_le)
    fix j assume j: "j \<in> set (qd_jobs db)" "keep j" and q: "qj_target (g j) = target \<and> occupies (g j) \<and> live_row db' (g j)"
    show "qj_target j = target \<and> occupies j \<and> live_row db j"
    proof (cases "g j = j")
      case True
      then show ?thesis using q live_frame [OF fr] by auto
    next
      case False
      then obtain k where k: "k \<in> K" "row_step db k j (g j)" using step j by blast
      then show ?thesis using q row_step_keeps [OF k(2)] occupies_step [OF k(2)] live_frame [OF fr, of "g j" j] assms(2,3) by metis
    qed
  qed
  ultimately show ?thesis by (simp add: occupied_def jobs)
qed

lemma occupied_quiet:
  assumes "ids_ok db" "quiet tgt target e db"
  shows "length (occupied (qd_apply e db) target) \<le> length (occupied db target)"
proof (cases "\<exists>jid b g now. e = QTryBegin jid b g now")
  case True
  then obtain jid b g now where e: "e = QTryBegin jid b g now" by blast
  obtain f where keeps: "\<forall>j. qj_target (f j) = qj_target j \<and> qj_job_id (f j) = qj_job_id j"
    and f: "qd_jobs (qd_apply e db) = map (\<lambda>j. if qj_job_id j = jid \<and> began jid e db then f j else j) (qd_jobs db)"
    unfolding e by (rule try_begin_rowsE [OF assms(1)])
  have fr: "frame db (qd_apply e db)" by (rule frame_apply [OF assms(1)])
  show ?thesis
  proof (cases "began jid e db")
    case False
    then have "qd_jobs (qd_apply e db) = qd_jobs db" using f by (simp add: map_idI)
    then show ?thesis using live_frame [OF fr] by (auto simp: occupied_def intro!: length_filter_weaken)
  next
    case True
    then have other: "qj_target j \<noteq> target" if "j \<in> set (qd_jobs db)" "qj_job_id j = jid" for j
      using that assms(2) e by (auto simp: quiet_def)
    let ?g = "\<lambda>j. if qj_job_id j = jid \<and> began jid e db then f j else j"
    have "length (filter (\<lambda>j. qj_target j = target \<and> occupies j \<and> live_row (qd_apply e db) j) (map ?g (filter (\<lambda>_. True) (qd_jobs db))))
      \<le> length (occupied db target)"
      unfolding occupied_def
    proof (rule length_filter_map_le)
      fix j assume j: "j \<in> set (qd_jobs db)" and q: "qj_target (?g j) = target \<and> occupies (?g j) \<and> live_row (qd_apply e db) (?g j)"
      have "qj_job_id j \<noteq> jid"
      proof
        assume jid: "qj_job_id j = jid"
        then show False using q other [OF j jid] True keeps by simp
      qed
      then show "qj_target j = target \<and> occupies j \<and> live_row db j" using q live_frame [OF fr] by auto
    qed
    then show ?thesis using f by (simp add: occupied_def)
  qed
next
  case False
  have "KBegin \<notin> qd_kinds e" "KGoalTurn \<notin> qd_kinds e" using False assms(2) by (cases e; simp add: quiet_def)+
  then show ?thesis using occupied_moves [OF qd_apply_moves [OF assms(1)]] by blast
qed

section \<open>Rely and guarantee\<close>

lemma consistent_quiet:
  assumes "ids_ok db" "consistent tgt db" "named tgt e"
  shows "consistent tgt (qd_apply e db)"
proof (cases "KInsert \<in> qd_kinds e")
  case True
  then obtain n where n: "qd_jobs (qd_apply e db) = qd_jobs db \<or> qd_jobs (qd_apply e db) = qd_jobs db @ [new_row n]"
    "nj_target n = tgt (nj_job_id n)"
  proof (cases e)
    case (QEnqueue n)
    then show ?thesis
      using that [of n] enqueue_moves [of n db] assms(3) by (cases "enqueue n db") auto
  next
    case (QEnqueueMirror n channel target)
    then show ?thesis
      using that [of n] enqueue_moves [of n db] assms(3)
      by (cases "enqueue_if_mirror_matches n channel target db") (auto simp: enqueue_if_mirror_matches_def and_then_Inr)
  qed (auto split: if_splits)
  then show ?thesis using assms(2) by (auto simp: consistent_def)
next
  case False
  obtain g keep where jobs: "qd_jobs (qd_apply e db) = map g (filter keep (qd_jobs db))"
    and step: "\<forall>j \<in> set (qd_jobs db). keep j \<longrightarrow> g j = j \<or> (\<exists>k \<in> qd_kinds e. row_step db k j (g j)) \<and> \<not> cancelled_row db j"
    using qd_apply_moves [OF assms(1), of e] False unfolding table_moves_def by auto
  show ?thesis
    unfolding consistent_def
  proof
    fix x assume "x \<in> set (qd_jobs (qd_apply e db))"
    then obtain j where j: "j \<in> set (qd_jobs db)" "keep j" "x = g j" unfolding jobs by auto
    then have "qj_target x = qj_target j \<and> qj_job_id x = qj_job_id j" using step row_step_keeps by metis
    then show "qj_target x = tgt (qj_job_id x)" using assms(2) j(1) by (simp add: consistent_def)
  qed
qed

text \<open>What happens between two states of the coordinator is a run of store operations that claims no job of the target.\<close>

definition steps :: "(rstr \<Rightarrow> rstr) \<Rightarrow> rstr \<Rightarrow> coordinator \<Rightarrow> coordinator \<Rightarrow> bool" where
  "steps tgt target c c' \<longleftrightarrow>
     (\<exists>es. co_db c' = run_events qd_apply es (co_db c) \<and> all_events qd_apply (quiet tgt target) es (co_db c))"

definition lets :: "(rstr \<Rightarrow> rstr) \<Rightarrow> rstr \<Rightarrow> backend \<Rightarrow> bool" where
  "lets tgt target be \<longleftrightarrow> (\<forall>w c. steps tgt target c (be_while be w c))"

definition good :: "(rstr \<Rightarrow> rstr) \<Rightarrow> coordinator \<Rightarrow> bool" where
  "good tgt c \<longleftrightarrow> queue_inv (co_db c) \<and> consistent tgt (co_db c)"

lemma steps_refl: "co_db c' = co_db c \<Longrightarrow> steps tgt target c c'"
  by (auto simp: steps_def intro: exI [of _ "[]"])

lemma steps_chain:
  assumes "steps tgt target a b" "steps tgt target b c"
  shows "steps tgt target a c"
proof -
  obtain xs ys where "co_db b = run_events qd_apply xs (co_db a)" "all_events qd_apply (quiet tgt target) xs (co_db a)"
    "co_db c = run_events qd_apply ys (co_db b)" "all_events qd_apply (quiet tgt target) ys (co_db b)"
    using assms by (auto simp: steps_def)
  then show ?thesis unfolding steps_def by (intro exI [of _ "xs @ ys"]) (simp add: run_events_append all_events_append)
qed

lemma steps_event:
  assumes "co_db c' = qd_apply e (co_db c)" "quiet tgt target e (co_db c)"
  shows "steps tgt target c c'"
  unfolding steps_def using assms by (intro exI [of _ "[e]"]) simp

lemma run_quiet:
  "queue_inv db \<Longrightarrow> consistent tgt db \<Longrightarrow> all_events qd_apply (quiet tgt target) es db \<Longrightarrow>
     queue_inv (run_events qd_apply es db) \<and> consistent tgt (run_events qd_apply es db) \<and>
     length (occupied (run_events qd_apply es db) target) \<le> length (occupied db target)"
proof (induction es arbitrary: db)
  case (Cons e es)
  have ok: "ids_ok db" by (rule queue_inv_ids [OF Cons.prems(1)])
  have q: "quiet tgt target e db" "all_events qd_apply (quiet tgt target) es (qd_apply e db)" using Cons.prems(3) by auto
  have "consistent tgt (qd_apply e db)" using consistent_quiet [OF ok Cons.prems(2)] q(1) by (simp add: quiet_def)
  then have "queue_inv (run_events qd_apply es (qd_apply e db)) \<and> consistent tgt (run_events qd_apply es (qd_apply e db)) \<and>
     length (occupied (run_events qd_apply es (qd_apply e db)) target) \<le> length (occupied (qd_apply e db) target)"
    using Cons.IH [OF queue_inv_apply [OF Cons.prems(1)] _ q(2)] by blast
  then show ?case using occupied_quiet [OF ok q(1)] by simp
qed simp

lemma steps_good:
  assumes "good tgt c" "steps tgt target c c'"
  shows "good tgt c' \<and> length (occupied (co_db c') target) \<le> length (occupied (co_db c) target)"
  using assms run_quiet unfolding good_def steps_def by metis

lemma store_call_db: "co_db (snd (store_call f c)) = commit (co_db c) (f (co_db c))"
  by (cases "f (co_db c)") (auto simp: store_call_def)

lemma then_run_steps:
  assumes "steps tgt target c (snd r)" "\<And>x. fst r = Inr x \<Longrightarrow> steps tgt target (snd r) (snd (k x (snd r)))"
  shows "steps tgt target c (snd (then_run r k))"
  using assms steps_chain by (cases r; cases "fst r") auto

lemma record_preflight_steps: "steps tgt target c (snd (record_preflight be jid generation message c))"
  unfolding record_preflight_def
proof (rule then_run_steps)
  show "steps tgt target c (snd (store_call (record_preflight_failure jid generation message (be_now be)) c))"
    by (rule steps_event [where e = "QPreflight jid generation message (be_now be)"]) (simp_all add: store_call_db quiet_def)
qed (auto intro!: steps_refl simp: schedule_writer_retry_def Let_def split: option.splits if_splits)

lemma preflight_steps:
  assumes "lets tgt target be"
  shows "steps tgt target c (snd (preflight_baseline be u generation job recovered c))"
proof -
  have w: "steps tgt target x (be_while be a x)" for a x using assms by (simp add: lets_def)
  have err: "steps tgt target c (snd (then_run (record_preflight be jid generation m x) (\<lambda>_ c2. (Inl (QueueBackend e), c2))))"
    if "steps tgt target c x" for jid m e x
    using steps_chain [OF that record_preflight_steps] by (rule then_run_steps) (simp add: steps_refl)
  show ?thesis
  proof (cases recovered)
    case (Some turns)
    then show ?thesis by (simp add: preflight_baseline_def steps_refl)
  next
    case None
    have ww: "steps tgt target c (be_while be AwRead (be_while be AwResume c))" by (rule steps_chain [OF w w])
    show ?thesis
    proof (cases "be_resume be")
      case (Inl e)
      then show ?thesis using None by (simp add: preflight_baseline_def Let_def err w)
    next
      case (Inr x)
      then show ?thesis using None ww by (cases "be_read be") (simp_all add: preflight_baseline_def Let_def err)
    qed
  qed
qed

lemma dispatch_steps:
  assumes "lets tgt target be"
  shows "steps tgt target c (snd (dispatch_claimed be jid claimed c))"
proof -
  let ?c1 = "be_while be AwStart c"
  have w: "steps tgt target c ?c1" using assms by (simp add: lets_def)
  show ?thesis
  proof (cases "be_start be claimed")
    case (Inl e)
    let ?m = "if bf_kind e = FkUsageLimit then HELD_PREFIX @ bf_message e else bf_message e"
    have "steps tgt target ?c1 (snd (store_call (record_start_failure_if_claimed claimed ?m (bf_ambiguous e) (be_now be)) ?c1))"
      by (rule steps_event [where e = "QFailure claimed ?m (bf_ambiguous e) (be_now be)"]) (simp_all add: store_call_db quiet_def)
    from steps_chain [OF w this] show ?thesis
      unfolding dispatch_claimed_def Let_def Inl sum.case
      by (rule then_run_steps) (simp add: steps_refl notify_delivery_ready_def)
  next
    case (Inr turn)
    let ?late = "if be_resident be = None then None else Some (be_late_stop be)"
    have "steps tgt target ?c1 (snd (store_call (mark_running_with_resident_if_claimed claimed turn ?late (be_now be)) ?c1))"
      by (rule steps_event [where e = "QAck claimed turn ?late (be_now be)"]) (simp_all add: store_call_db quiet_def)
    from steps_chain [OF w this] show ?thesis
      unfolding dispatch_claimed_def Let_def Inr sum.case
      by (rule then_run_steps) (simp add: steps_refl split: option.splits)
  qed
qed

section \<open>Starting a job\<close>

lemma head_unoccupied:
  assumes "eligible_pending_head (eligible_jobs db (target_jobs db target)) = Some job"
  shows "job \<in> set (qd_jobs db) \<and> qj_target job = target \<and> occupied db target = []"
proof -
  let ?js = "target_jobs db target"
  have none: "\<not> occupies j" if "j \<in> set ?js" for j
  proof
    assume o: "occupies j"
    then have "job_state j \<noteq> JPending" by (auto simp: occupies_def)
    then have "j \<in> set (eligible_jobs db ?js)" using that by (auto simp: eligible_jobs_def)
    then show False using assms o by (auto simp: eligible_pending_head_def list_ex_iff split: if_splits)
  qed
  have js: "j \<in> set ?js \<longleftrightarrow> j \<in> set (qd_jobs db) \<and> live_row db j \<and> qj_target j = target" for j
    by (auto simp: target_jobs_def list_filtered_def all_jobs_def)
  have "job \<in> set (eligible_jobs db ?js)"
    using assms by (auto simp: eligible_pending_head_def split: if_splits dest: find_Some_set)
  then have "job \<in> set ?js" by (auto simp: eligible_jobs_def)
  then show ?thesis using js none by (auto simp: occupied_def filter_empty_conv)
qed

lemma claim_single:
  assumes "queue_inv db" "occupied db target = []"
  shows "length (occupied (qd_apply (QTryBegin jid b g now) db) target) \<le> 1"
proof -
  let ?e = "QTryBegin jid b g now"
  let ?db' = "qd_apply ?e db"
  let ?Q = "\<lambda>j. qj_target j = target \<and> occupies j \<and> live_row ?db' j"
  note ok = queue_inv_ids [OF assms(1)]
  have ok': "ids_ok ?db'" "frame db ?db'" by (rule queue_inv_ids [OF queue_inv_apply [OF assms(1)]], rule frame_apply [OF ok])
  obtain f where keeps: "\<forall>j. qj_target (f j) = qj_target j \<and> qj_job_id (f j) = qj_job_id j"
    and f: "qd_jobs ?db' = map (\<lambda>j. if qj_job_id j = jid \<and> began jid ?e db then f j else j) (qd_jobs db)"
    by (rule try_begin_rowsE [OF ok])
  have only: "qj_job_id x = jid" if x: "x \<in> set (qd_jobs ?db')" "?Q x" for x
  proof (rule ccontr)
    assume ne: "qj_job_id x \<noteq> jid"
    obtain j where j: "j \<in> set (qd_jobs db)" "x = (if qj_job_id j = jid \<and> began jid ?e db then f j else j)"
      using x(1) unfolding f set_map by blast
    then have "x = j" using ne keeps by (metis (no_types))
    then show False using assms(2) j(1) x(2) live_frame [OF ok'(2), of x x] unfolding occupied_def filter_empty_conv by blast
  qed
  have "occupied ?db' target = filter (\<lambda>j. ?Q j \<and> qj_job_id j = jid) (qd_jobs ?db')"
    unfolding occupied_def by (rule filter_cong) (use only in blast)+
  then show ?thesis using count_rows_le [OF ok'(1), of "\<lambda>j. ?Q j \<and> qj_job_id j = jid" jid] by simp
qed

text \<open>A start is quiet, or quiet but for one claim, of the head of the queue it saw first.\<close>

lemma start_shape:
  assumes "lets tgt u be"
  shows "steps tgt u c (snd (start_admitted be target generation recovered c)) \<or>
    (\<exists>job b c2 c3. eligible_pending_head (eligible_jobs (co_db c) (target_jobs (co_db c) target)) = Some job \<and> steps tgt u c c2 \<and>
       co_db c3 = qd_apply (QTryBegin (qj_job_id job) b generation (be_now be)) (co_db c2) \<and>
       steps tgt u c3 (snd (start_admitted be target generation recovered c)))"
proof -
  let ?r = "start_admitted be target generation recovered c"
  let ?head = "eligible_pending_head (eligible_jobs (co_db c) (target_jobs (co_db c) target))"
  let ?c1 = "be_while be AwActive c"
  have w: "steps tgt u c ?c1" using assms by (simp add: lets_def)
  show ?thesis
  proof (cases "\<exists>job. \<not> target_is_held_in (co_db c) target \<and> ?head = Some job \<and> qj_generation job = generation \<and>
      pending_job_is_due job (be_now be) \<and> be_active be = Inr None")
    case False
    then have "snd ?r = c \<or> snd ?r = ?c1"
      by (auto simp: start_admitted_def Let_def split: option.splits sum.splits if_splits)
    then show ?thesis using w steps_refl [OF refl, of tgt u c] by metis
  next
    case True
    then obtain job where job: "?head = Some job" and r: "?r = then_run (preflight_baseline be target generation job recovered ?c1) (\<lambda>b c2.
        then_run (store_call (try_begin_attempt (qj_job_id job) b generation (be_now be)) c2) (\<lambda>claim c3.
        case claim of None \<Rightarrow> (Inr None, c3) | Some claimed \<Rightarrow> dispatch_claimed be (qj_job_id job) claimed c3))"
      by (auto simp: start_admitted_def Let_def)
    obtain p c2 where p: "preflight_baseline be target generation job recovered ?c1 = (p, c2)" by (rule prod.exhaust)
    have s2: "steps tgt u c c2" using steps_chain [OF w preflight_steps [OF assms]] p by (metis snd_conv)
    show ?thesis
    proof (cases p)
      case (Inl e)
      then show ?thesis using s2 r p by simp
    next
      case (Inr b)
      obtain q c3 where q: "store_call (try_begin_attempt (qj_job_id job) b generation (be_now be)) c2 = (q, c3)" by (rule prod.exhaust)
      then have c3: "co_db c3 = qd_apply (QTryBegin (qj_job_id job) b generation (be_now be)) (co_db c2)"
        using store_call_db [of "try_begin_attempt (qj_job_id job) b generation (be_now be)" c2] by simp
      have "steps tgt u c3 (snd ?r)"
        using Inr r p q dispatch_steps [OF assms] steps_refl [OF refl, of tgt u c3]
        by (cases q) (auto split: option.splits)
      then show ?thesis using job s2 c3 by blast
    qed
  qed
qed

lemma start_admitted_single:
  assumes "good tgt c" "single_flight (co_db c) target" "lets tgt target be"
  shows "good tgt (snd (start_admitted be target generation recovered c)) \<and>
    single_flight (co_db (snd (start_admitted be target generation recovered c))) target"
proof -
  let ?c' = "snd (start_admitted be target generation recovered c)"
  show ?thesis
    using start_shape [OF assms(3), of c target generation recovered]
  proof (elim disjE exE conjE)
    assume "steps tgt target c ?c'"
    then show ?thesis using steps_good [OF assms(1)] assms(2) by (auto simp: single_flight_def intro: order_trans)
  next
    fix job :: queue_job and b c2 and c3 :: coordinator
    let ?e = "QTryBegin (qj_job_id job) b generation (be_now be)"
    assume head: "eligible_pending_head (eligible_jobs (co_db c) (target_jobs (co_db c) target)) = Some job"
      and s: "steps tgt target c c2" "steps tgt target c3 ?c'" and c3: "co_db c3 = qd_apply ?e (co_db c2)"
    have "length (occupied (co_db c2) target) \<le> length (occupied (co_db c) target)" and g2: "good tgt c2"
      using steps_good [OF assms(1) s(1)] by blast+
    then have "occupied (co_db c2) target = []" using head_unoccupied [OF head] by simp
    moreover have inv: "queue_inv (co_db c2)" "consistent tgt (co_db c2)" using g2 by (simp_all add: good_def)
    ultimately have "length (occupied (co_db c3) target) \<le> 1" unfolding c3 by (intro claim_single)
    moreover have "good tgt c3"
      unfolding good_def c3 using queue_inv_apply [OF inv(1)] consistent_quiet [OF queue_inv_ids [OF inv(1)] inv(2), of ?e]
      by (metis named.simps(4-))
    ultimately show ?thesis using steps_good [OF _ s(2)] by (auto simp: single_flight_def intro: order_trans)
  qed
qed

text \<open>For every other target a start is quiet.\<close>

lemma start_admitted_other:
  assumes "good tgt c" "u \<noteq> target" "lets tgt u be"
  shows "steps tgt u c (snd (start_admitted be target generation recovered c))"
  using start_shape [OF assms(3), of c target generation recovered]
proof (elim disjE exE conjE)
  let ?c' = "snd (start_admitted be target generation recovered c)"
  fix job :: queue_job and b c2 and c3 :: coordinator
  let ?e = "QTryBegin (qj_job_id job) b generation (be_now be)"
  assume head: "eligible_pending_head (eligible_jobs (co_db c) (target_jobs (co_db c) target)) = Some job"
    and s: "steps tgt u c c2" "steps tgt u c3 ?c'" and c3: "co_db c3 = qd_apply ?e (co_db c2)"
  have "tgt (qj_job_id job) = target" using head_unoccupied [OF head] assms(1) by (auto simp: good_def consistent_def)
  moreover have "consistent tgt (co_db c2)" using steps_good [OF assms(1) s(1)] by (simp add: good_def)
  ultimately have "\<not> begins_on u ?e (co_db c2)" using assms(2) by (auto simp: consistent_def)
  then have "steps tgt u c2 c3" by (intro steps_event [OF c3]) (simp add: quiet_def)
  then show ?thesis using s steps_chain by metis
qed

lemma enter_gate_db: "enter_gate c = Inr c1 \<Longrightarrow> co_db c1 = co_db c"
  by (auto simp: enter_gate_def split: option.splits sum.splits)

lemma start_next_shape:
  "\<exists>c1 c2. co_db c1 = co_db c \<and> co_db (snd (start_next_with_baseline_locked be target generation recovered c)) = co_db c2 \<and>
     (c2 = c1 \<or> c2 = snd (start_admitted be target generation recovered c1))"
proof (cases "target_dispatch_held (co_db c) target")
  case False
  then show ?thesis
  proof (cases "enter_gate c")
    case (Inr c1)
    obtain r c2 where "start_admitted be target generation recovered c1 = (r, c2)" by (rule prod.exhaust)
    then show ?thesis using False Inr enter_gate_db [OF Inr]
      by (intro exI [of _ c1] exI [of _ c2]) (simp add: start_next_with_baseline_locked_def leave_gate_def)
  qed (use False in \<open>auto simp: start_next_with_baseline_locked_def\<close>)
qed (auto simp: start_next_with_baseline_locked_def)

lemma good_db: "co_db a = co_db b \<Longrightarrow> good tgt a \<longleftrightarrow> good tgt b"
  by (simp add: good_def)

lemma start_next_single:
  assumes "good tgt c" "single_flight (co_db c) target" "lets tgt target be"
  shows "good tgt (snd (start_next_with_baseline_locked be target generation recovered c)) \<and>
    single_flight (co_db (snd (start_next_with_baseline_locked be target generation recovered c))) target"
  using start_next_shape [of c be target generation recovered] start_admitted_single [OF _ _ assms(3), of _ generation recovered] assms(1,2)
  by (metis good_db)

lemma start_next_other:
  assumes "good tgt c" "u \<noteq> target" "lets tgt u be"
  shows "steps tgt u c (snd (start_next_with_baseline_locked be target generation recovered c))"
  using start_next_shape [of c be target generation recovered]
proof (elim exE conjE)
  fix c1 c2 :: coordinator
  let ?c' = "snd (start_next_with_baseline_locked be target generation recovered c)"
  assume *: "co_db c1 = co_db c" "co_db ?c' = co_db c2" "c2 = c1 \<or> c2 = snd (start_admitted be target generation recovered c1)"
  have "steps tgt u c1 c2" using *(1,3) start_admitted_other [OF _ assms(2,3)] steps_refl good_db assms(1) by metis
  then show ?thesis using *(1,2) by (simp add: steps_def)
qed

section \<open>Every operation\<close>

text \<open>What an operation on \<open>target\<close> promises the target \<open>u\<close>: to its own target that at most one job is in flight, to another that it is
  quiet.\<close>

definition safe :: "(rstr \<Rightarrow> rstr) \<Rightarrow> rstr \<Rightarrow> rstr \<Rightarrow> coordinator \<Rightarrow> coordinator \<Rightarrow> bool" where
  "safe tgt target u c c' \<longleftrightarrow> (good tgt c \<longrightarrow> (if u = target
     then single_flight (co_db c) u \<longrightarrow> good tgt c' \<and> single_flight (co_db c') u else steps tgt u c c'))"

lemma safe_steps: "steps tgt u c c' \<Longrightarrow> safe tgt target u c c'"
  using steps_good [of tgt c u c'] by (auto simp: safe_def single_flight_def intro: order_trans)

lemma safe_refl: "co_db c' = co_db c \<Longrightarrow> safe tgt target u c c'"
  by (rule safe_steps [OF steps_refl])

lemma safe_trans: "safe tgt target u a b \<Longrightarrow> safe tgt target u b c \<Longrightarrow> safe tgt target u a c"
  using steps_chain [of tgt u a b c] steps_good [of tgt a u b] by (auto simp: safe_def split: if_splits)

lemma safe_event: "co_db c' = qd_apply e (co_db c) \<Longrightarrow> quiet tgt u e (co_db c) \<Longrightarrow> safe tgt target u c c'"
  by (rule safe_steps [OF steps_event])

lemma safe_then_run:
  assumes "safe tgt target u c (snd r)" "\<And>x c1. r = (Inr x, c1) \<Longrightarrow> safe tgt target u c1 (snd (k x c1))"
  shows "safe tgt target u c (snd (then_run r k))"
  using assms safe_trans by (cases r; cases "fst r") auto

lemma safe_start:
  assumes "lets tgt u be"
  shows "safe tgt target u c (snd (start_next_with_baseline_locked be target generation recovered c))"
  using start_next_single [of tgt c target be generation recovered] start_next_other [of tgt c u target be generation recovered] assms
  by (auto simp: safe_def)

lemma safe_start_next: "lets tgt u be \<Longrightarrow> safe tgt target u c (snd (start_next_locked be target generation c))"
  "lets tgt u be \<Longrightarrow> safe tgt target u c (snd (start_next_recovered_locked be target generation turns c))"
  by (simp_all add: start_next_locked_def start_next_recovered_locked_def safe_start)

lemma safe_await: "lets tgt u be \<Longrightarrow> safe tgt target u c (be_while be w c)"
  by (rule safe_steps) (simp add: lets_def)

lemma safe_preflight: "safe tgt target u c (snd (record_preflight be jid generation message c))"
  by (rule safe_steps [OF record_preflight_steps])

lemma safe_kick: "lets tgt u be \<Longrightarrow> safe tgt target u c (snd (kick_target be target c))"
  by (auto simp: kick_target_def safe_refl intro!: safe_then_run safe_start_next split: sum.splits)

lemma safe_turn_completed:
  assumes "lets tgt u be"
  shows "safe tgt target u c (snd (turn_completed be target turn c))"
proof (cases "find (running_turn turn) (target_jobs (co_db c) target)")
  case (Some j)
  obtain removed db where q: "queue_complete (qj_job_id j) (co_db c) = (removed, db)" by (rule prod.exhaust)
  have first: "safe tgt target u c (c\<lparr>co_db := db\<rparr>)" by (rule safe_event [where e = "QComplete (qj_job_id j)"]) (simp_all add: q quiet_def)
  have second: "safe tgt target u c1 (snd (then_run (start_next_locked be target g c1) (\<lambda>_ c2. (Inr True, c2))))" for c1 g
    by (rule safe_then_run [OF safe_start_next(1) [OF assms]]) (simp add: safe_refl)
  show ?thesis
    using Some q first safe_trans [OF first second] by (auto simp: turn_completed_def safe_refl Let_def split: sum.splits)
qed (auto simp: turn_completed_def safe_refl split: sum.splits)

lemma safe_stage:
  assumes "lets tgt u be"
  shows "safe tgt target u c (snd (stage_turn_completion_locked be target turn content ev c))"
proof -
  have stage: "safe tgt target u c (snd (store_call (stage_completion_inner jid content now settled idle expected) c))"
    for jid now settled idle expected
    by (rule safe_event [where e = "QStage jid content now settled idle expected"]) (simp_all add: store_call_db quiet_def)
  have rest: "safe tgt target u c1 (snd (let c2 = notify_delivery_ready c1 in
      if ce_start_next ev then then_run (start_next_locked be target g c2) (\<lambda>_ c3. (Inr (Some d), c3)) else (Inr (Some d), c2)))" for c1 g d
  proof -
    have "safe tgt target u c1 (notify_delivery_ready c1)" by (rule safe_refl) (simp add: notify_delivery_ready_def)
    moreover have "safe tgt target u c2 (snd (then_run (start_next_locked be target g c2) (\<lambda>_ c3. (Inr (Some d), c3))))" for c2
      by (rule safe_then_run [OF safe_start_next(1) [OF assms]]) (simp add: safe_refl)
    ultimately show ?thesis using safe_trans by (auto simp: Let_def)
  qed
  show ?thesis
    unfolding stage_turn_completion_locked_def
    by (auto simp: safe_refl Let_def [where s = "_ \<and> _"] Let_def [where s = "if _ then _ else _"]
        intro!: safe_then_run [OF stage] rest split: sum.splits list.splits)
qed

lemma safe_save: "lets tgt u be \<Longrightarrow> safe tgt target u c (snd (save_owned_turn_completion_observed be target expected content observed c))"
  by (auto simp: save_owned_turn_completion_observed_def safe_refl intro: safe_stage split: option.splits)

lemma safe_goal_continues: "safe tgt target u c (snd (goal_continues be target turn c))"
proof -
  have "safe tgt target u c (snd (store_call (mark_goal_waiting jid turn g now) c))" for jid g now
    by (rule safe_event [where e = "QGoalWaiting jid turn g now"]) (simp_all add: store_call_db quiet_def)
  then show ?thesis by (auto simp: goal_continues_def safe_refl split: option.splits)
qed

lemma safe_goal_turn: "safe tgt target u c (snd (goal_turn_started_observed_locked be target turn observed owner c))"
proof -
  have "safe tgt target u c (snd (store_call (attach_goal_turn_observed_if_owned job turn g handed now) c))" for job g handed now
    by (rule safe_event [where e = "QGoalObserved job turn g handed now"]) (simp_all add: store_call_db quiet_def)
  then show ?thesis by (auto simp: goal_turn_started_observed_locked_def safe_refl split: list.splits sum.splits)
qed

text \<open>Recovery looks and records. What it does is a chain of these store operations, so a relation between states that
  holds across each of them holds across a whole reconciliation.\<close>

fun recovery_event :: "qd_event \<Rightarrow> bool" where
  "recovery_event (QAck _ _ late _) \<longleftrightarrow> late = None"
| "recovery_event (QFailure _ _ ambiguous _) \<longleftrightarrow> ambiguous"
| "recovery_event (QHoldStarting _ _ _ _) \<longleftrightarrow> True"
| "recovery_event (QAdoptTarget _ _) \<longleftrightarrow> True"
| "recovery_event _ \<longleftrightarrow> False"

locale recovery_run =
  fixes R :: "coordinator \<Rightarrow> coordinator \<Rightarrow> bool"
  assumes same: "co_db c' = co_db c \<Longrightarrow> R c c'"
    and chain: "R a b \<Longrightarrow> R b c \<Longrightarrow> R a c"
    and event: "recovery_event e \<Longrightarrow> co_db c' = qd_apply e (co_db c) \<Longrightarrow> R c c'"
begin

lemma then_run_holds:
  assumes "R c (snd r)" "\<And>x. fst r = Inr x \<Longrightarrow> R (snd r) (snd (k x (snd r)))"
  shows "R c (snd (then_run r k))"
  using assms chain by (cases r; cases "fst r") auto

lemma recover_starting_holds: "R c (snd (recover_starting be job generation cold turns rep c))"
proof -
  have hold: "R c (snd (store_call (hold_starting_for_ambiguous_candidates_if_claimed (be_json be) job ids (be_now be)) c))" for ids
    by (rule event [where e = "QHoldStarting (be_json be) job ids (be_now be)"]) (simp_all add: store_call_db)
  have fail: "R c (snd (store_call (record_start_failure_if_claimed job unknown_acceptance True (be_now be)) c))"
    by (rule event [where e = "QFailure job unknown_acceptance True (be_now be)"]) (simp_all add: store_call_db)
  have ack: "R c (snd (store_call (mark_running_if_claimed job turn (be_now be)) c))" for turn
    by (rule event [where e = "QAck job turn None (be_now be)"]) (simp_all add: store_call_db mark_running_if_claimed_def)
  show ?thesis
    by (auto simp: recover_starting_def Let_def same intro!: then_run_holds [OF hold] then_run_holds [OF fail] then_run_holds [OF ack])
qed

lemma reconcile_jobs_holds: "R c (snd (reconcile_jobs be generation cold turns js rep c))"
proof (induction js arbitrary: rep c)
  case (Cons j js)
  have "R c (snd (then_run (recover_starting be j generation cold turns rep c) (\<lambda>(go_on, rep1) c1.
       if go_on then reconcile_jobs be generation cold turns js rep1 c1 else (Inr (False, rep1), c1))))"
    by (rule then_run_holds [OF recover_starting_holds]) (auto simp: same intro: Cons.IH split: prod.splits)
  then show ?case using Cons.IH by (auto split: queue_job_state.splits)
qed (simp add: same)

lemma adopt_holds: "R c (snd (store_call (adopt_target_generation target generation) c))"
  by (rule event [where e = "QAdoptTarget target generation"]) (simp_all add: store_call_db)

lemma reconcile_holds: "R c (snd (reconcile_observed_jobs be target generation jobs turns force_cold rep c))"
  unfolding reconcile_observed_jobs_def
proof (rule then_run_holds [OF reconcile_jobs_holds], goal_cases)
  case (1 x)
  then show ?case
    by (auto simp: same mark_reconciled_def split: prod.splits intro!: then_run_holds [OF adopt_holds])
qed

end

lemma recovery_quiet: "recovery_event e \<Longrightarrow> quiet tgt u e db"
  by (cases e) (simp_all add: quiet_def)

interpretation seen: recovery_run "steps tgt u" for tgt u
  by unfold_locales (auto intro: steps_refl steps_chain steps_event recovery_quiet)

lemma mark_unavailable_db [simp]:
  "co_db (snd (mark_unavailable instant jobs target e s)) = co_db (snd s)"
  "co_db (snd (mark_read_unavailable instant jobs target e s)) = co_db (snd s)"
  "co_db (snd (mark_mutation_unavailable instant jobs target e s)) = co_db (snd s)"
  by (cases s; auto simp: mark_unavailable_def mark_read_unavailable_def mark_mutation_unavailable_def extend_writer_retry_gate_def Let_def
      split: option.splits)+

lemma schedule_db [simp]: "co_db (schedule_writer_retry now instant j c) = co_db c"
  by (auto simp: schedule_writer_retry_def Let_def split: option.splits)

lemma snd_case_pair: "snd (case p of (a, b) \<Rightarrow> (f a, b)) = snd p"
  by (cases p) simp

lemma safe_observe:
  assumes "lets tgt u be"
  shows "safe tgt target u c (snd (observe_one_locked be history target generation force_cold rep c))"
proof -
  let ?c1 = "be_while be AwRead c"
  have w: "safe tgt target u c ?c1" by (rule safe_await [OF assms])
  have bad: "safe tgt target u c (snd (mark_read_unavailable i jobs target e (rep, ?c1)))" for i jobs e
    using safe_trans [OF w safe_refl] by simp
  have "safe tgt target u ?c1 (clear_unavailable_log target ?c1)" by (rule safe_refl) (simp add: clear_unavailable_log_def)
  then have "safe tgt target u c (snd (reconcile_observed_jobs be target generation jobs turns force_cold rep (clear_unavailable_log target ?c1)))" for jobs turns
    using safe_trans [OF w] safe_trans safe_steps [OF seen.reconcile_holds] by metis
  then have good: "safe tgt target u c (snd (then_run (reconcile_observed_jobs be target generation jobs turns force_cold rep
      (clear_unavailable_log target ?c1)) (\<lambda>(_, rep1) c2. (Inr ((), rep1), c2))))" for jobs turns
    by (rule safe_then_run) (auto simp: safe_refl split: prod.splits)
  show ?thesis
    using bad good by (cases "be_read be") (auto simp: observe_one_locked_def Let_def snd_case_pair safe_refl)
qed

lemma mutate_started_steps:
  assumes "lets tgt u be"
  shows "safe tgt target u c (snd (case start_next_recovered_locked be target generation turns c of
      (Inr started, c4) \<Rightarrow> (Inr ((), f started), clear_unavailable_log target c4)
    | (Inl (QueueBackend e), c4) \<Rightarrow>
        (let (rep2, c5) = mark_mutation_unavailable (be_instant be) (target_jobs (co_db c4) target) target e (rep1, c4) in (Inr ((), rep2), c5))
    | (Inl e, c4) \<Rightarrow> (Inl e, c4)))" (is "safe _ _ _ _ (snd ?r)")
proof -
  obtain r c4 where r: "start_next_recovered_locked be target generation turns c = (r, c4)" by (rule prod.exhaust)
  have "safe tgt target u c c4" using safe_start_next(2) [OF assms, of target c generation turns] r by simp
  moreover have "co_db (snd ?r) = co_db c4"
  proof (cases r)
    case (Inl e)
    then show ?thesis unfolding r by (cases e) (simp_all add: snd_case_pair)
  next
    case (Inr x)
    then show ?thesis unfolding r by (simp add: clear_unavailable_log_def)
  qed
  ultimately show ?thesis by (rule safe_trans [OF _ safe_refl])
qed

lemma preflight_marked:
  assumes "safe tgt target u c x" "\<And>s. co_db (snd (mark s)) = co_db (snd s)"
  shows "safe tgt target u c (snd (then_run (record_preflight be jid g m x) (\<lambda>_ c2. case mark (rep, c2) of (rep1, c3) \<Rightarrow> (Inr ((), rep1), c3))))"
  using safe_trans [OF assms(1) safe_preflight] by (rule safe_then_run) (simp add: snd_case_pair safe_refl assms(2))

lemma safe_adopt_start:
  assumes "lets tgt u be" "safe tgt target u c x"
  shows "safe tgt target u c (snd (then_run (store_call (adopt_target_generation target generation) x) (\<lambda>(_, adopted) c3.
      let rep1 = rep\<lparr>rp_adopted := rp_adopted rep + adopted\<rparr> in
      case start_next_recovered_locked be target generation turns (mark_reconciled target c3) of
        (Inr started, c4) \<Rightarrow>
          (Inr ((), if started \<noteq> None then rep1\<lparr>rp_started := rp_started rep1 + 1\<rparr> else rep1), clear_unavailable_log target c4)
      | (Inl (QueueBackend e), c4) \<Rightarrow>
          (let (rep2, c5) = mark_mutation_unavailable (be_instant be) (target_jobs (co_db c4) target) target e (rep1, c4)
           in (Inr ((), rep2), c5))
      | (Inl e, c4) \<Rightarrow> (Inl e, c4))))"
  using safe_trans [OF assms(2) safe_steps [OF seen.adopt_holds]]
proof (rule safe_then_run, goal_cases)
  case (1 r c3)
  have "safe tgt target u c3 (mark_reconciled target c3)" by (rule safe_refl) (simp add: mark_reconciled_def)
  note safe_trans [OF this mutate_started_steps [OF assms(1)]]
  then show ?case by (cases r) (simp only: prod.case Let_def [where s = "rep\<lparr>rp_adopted := _\<rparr>"])
qed

lemma safe_mutate:
  assumes "lets tgt u be"
  shows "safe tgt target u c (snd (mutate_one_locked be target generation rep c))"
proof -
  let ?c1 = "be_while be AwResume c"
  let ?head = "eligible_pending_head (eligible_jobs (co_db c) (target_jobs (co_db c) target))"
  have w: "safe tgt target u c ?c1" "safe tgt target u c (be_while be AwRead ?c1)"
    using safe_await [OF assms] safe_trans by metis+
  show ?thesis
  proof (cases "\<exists>j. \<not> target_dispatch_held (co_db c) target \<and> \<not> target_is_held_in (co_db c) target \<and> ?head = Some j \<and>
      unresolved_in_connection (co_db c) target = None \<and> pending_job_is_due j (be_now be) \<and>
      log_retry_due target (be_instant be) (co_unavailable c)")
    case False
    then show ?thesis by (auto simp: mutate_one_locked_def Let_def snd_case_pair safe_refl split: option.splits)
  next
    case True
    then obtain j where j: "\<not> target_dispatch_held (co_db c) target" "\<not> target_is_held_in (co_db c) target" "?head = Some j"
      "unresolved_in_connection (co_db c) target = None" "pending_job_is_due j (be_now be)"
      "log_retry_due target (be_instant be) (co_unavailable c)" by blast
    show ?thesis
    proof (cases "be_resume be")
      case (Inl e)
      have "safe tgt target u c (snd (then_run (record_preflight be jid g m ?c1) (\<lambda>_ c2.
          case mark_mutation_unavailable i js target e (rep, c2) of (rep1, c3) \<Rightarrow> (Inr ((), rep1), c3))))" for jid g m i js
        by (rule preflight_marked [OF w(1)]) simp
      then show ?thesis using j Inl by (simp add: mutate_one_locked_def Let_def)
    next
      case (Inr x)
      show ?thesis
      proof (cases "be_read be")
        case (Inl e)
        have "safe tgt target u c (snd (then_run (record_preflight be jid g m (be_while be AwRead ?c1)) (\<lambda>_ c2.
            case mark_read_unavailable i js target e (rep, c2) of (rep1, c3) \<Rightarrow> (Inr ((), rep1), c3))))" for jid g m i js
          by (rule preflight_marked [OF w(2)]) simp
        then show ?thesis using j Inr Inl by (simp add: mutate_one_locked_def Let_def)
      next
        case (Inr turns)
        show ?thesis using safe_adopt_start [OF assms w(2)] j Inr \<open>be_resume be = Inr x\<close>
          by (simp add: mutate_one_locked_def Let_def)
      qed
    qed
  qed
qed

lemma safe_if: "safe tgt target u c (snd a) \<Longrightarrow> safe tgt target u c (snd b) \<Longrightarrow> safe tgt target u c (snd (if P then a else b))"
  by simp

lemma submit_started:
  assumes "lets tgt u be"
  shows "safe tgt target u c (snd (case start_next_locked be target generation c of
      (Inl (QueueBackend failure), c2) \<Rightarrow> (case find (P c2) (F c2) of
          None \<Rightarrow> (Inl (QueueBackend failure), c2)
        | Some j \<Rightarrow> if qj_last_error j \<noteq> [] then (Inr (A c2 j), c2) else (Inl (QueueBackend failure), c2))
    | (Inl e, c2) \<Rightarrow> (Inl e, c2)
    | (Inr started, c2) \<Rightarrow> (Inr (B started c2), c2)))" (is "safe _ _ _ _ (snd ?r)")
proof -
  obtain r c2 where r: "start_next_locked be target generation c = (r, c2)" by (rule prod.exhaust)
  have "snd ?r = c2"
  proof (cases r)
    case (Inl e)
    then show ?thesis unfolding r by (cases e) (simp_all split: option.split)
  qed (simp add: r)
  then show ?thesis using safe_start_next(1) [OF assms, of target c generation] r by simp
qed

lemma safe_submit:
  assumes "lets tgt u be" "\<not> rq_intake rq" "tgt (rq_job_id rq) = rq_target rq"
  shows "safe tgt (rq_target rq) u c (snd (submit_with_mapping be promote rq c))"
proof -
  have store: "safe tgt (rq_target rq) u c (snd (store_call (if rq_intake rq then promote n
      else if rq_require_mirror rq then enqueue_if_mirror_matches n channel (rq_target rq) else enqueue n) c))"
    if "nj_job_id n = rq_job_id rq" "nj_target n = rq_target rq" for n channel
  proof -
    let ?e = "if rq_require_mirror rq then QEnqueueMirror n channel (rq_target rq) else QEnqueue n"
    show ?thesis by (rule safe_event [where e = ?e]) (simp_all add: store_call_db quiet_def assms(2,3) that)
  qed
  let ?ids = "and_then (generation_i64 (be_generation be)) (\<lambda>generation.
          and_then (id_i64 (rq_channel rq)) (\<lambda>channel.
          and_then (id_i64 (rq_owner rq)) (\<lambda>owner.
          and_then (case rq_message rq of None \<Rightarrow> Inr None | Some m \<Rightarrow> and_then (id_i64 m) (\<lambda>i. Inr (Some i))) (\<lambda>message.
          Inr (generation, channel, owner, message)))))"
  show ?thesis
  proof (cases "target_is_held_in (co_db c) (rq_target rq)")
    case True
    then show ?thesis by (simp add: submit_with_mapping_def safe_refl)
  next
    case False
    show ?thesis
    proof (cases ?ids)
      case (Inl e)
      then show ?thesis using False by (simp add: submit_with_mapping_def safe_refl)
    next
      case (Inr r)
      obtain generation channel owner message where r: "r = (generation, channel, owner, message)" by (cases r)
      show ?thesis
        unfolding submit_with_mapping_def Let_def Inr r if_not_P [OF False] sum.case prod.case
      proof (rule safe_then_run [OF store], goal_cases)
        case (3 x c1)
        then show ?case
          by (cases x) (simp only: prod.case, intro safe_if submit_started [OF assms(1)]; simp add: safe_refl)
      qed simp_all
    qed
  qed
qed

text \<open>The operations on one target.\<close>

datatype runner_op = OpKick
  | OpSubmit submission_request "new_queue_job \<Rightarrow> queue_db \<Rightarrow> ((queue_job \<times> bool) \<times> queue_db) stored"
  | OpTurnCompleted rstr
  | OpStage rstr rstr completion_evidence
  | OpSave queue_job rstr "int option"
  | OpGoalContinues rstr
  | OpGoalTurn rstr nat "queue_job option"
  | OpObserve "nat option" int bool recovery_report
  | OpMutate int recovery_report

fun operate :: "backend \<Rightarrow> rstr \<Rightarrow> runner_op \<Rightarrow> coordinator \<Rightarrow> coordinator" where
  "operate be target OpKick c = snd (kick_target be target c)"
| "operate be target (OpSubmit rq promote) c = snd (submit_with_mapping be promote (rq\<lparr>rq_target := target\<rparr>) c)"
| "operate be target (OpTurnCompleted turn) c = snd (turn_completed be target turn c)"
| "operate be target (OpStage turn content ev) c = snd (stage_turn_completion_locked be target turn content ev c)"
| "operate be target (OpSave expected content observed) c = snd (save_owned_turn_completion_observed be target expected content observed c)"
| "operate be target (OpGoalContinues turn) c = snd (goal_continues be target turn c)"
| "operate be target (OpGoalTurn turn observed owner) c = snd (goal_turn_started_observed_locked be target turn observed owner c)"
| "operate be target (OpObserve history generation force_cold rep) c = snd (observe_one_locked be history target generation force_cold rep c)"
| "operate be target (OpMutate generation rep) c = snd (mutate_one_locked be target generation rep c)"

text \<open>A submission brings a job id of its target, and no intake claim, which another table would have to promote.\<close>

fun op_named :: "(rstr \<Rightarrow> rstr) \<Rightarrow> rstr \<Rightarrow> runner_op \<Rightarrow> bool" where
  "op_named tgt target (OpSubmit rq promote) \<longleftrightarrow> tgt (rq_job_id rq) = target \<and> \<not> rq_intake rq"
| "op_named tgt target _ \<longleftrightarrow> True"

lemma operate_safe: "lets tgt u be \<Longrightarrow> op_named tgt target op \<Longrightarrow> safe tgt target u c (operate be target op c)"
proof (cases op)
  case (OpSubmit rq promote)
  assume *: "lets tgt u be" "op_named tgt target op"
  then show ?thesis using safe_submit [OF *(1), of "rq\<lparr>rq_target := target\<rparr>" c promote] OpSubmit by simp
qed (simp_all add: safe_kick safe_turn_completed safe_stage safe_save safe_goal_continues safe_goal_turn safe_observe safe_mutate)



section \<open>Recovery does not replay\<close>

lemma recovery_step_raw:
  "row_step db k j j' \<Longrightarrow> k \<in> {KAck, KUnknown, KHold, KAdopt} \<Longrightarrow> qj_raw j' = RPending \<longleftrightarrow> qj_raw j = RPending"
  by (induction rule: row_step.induct) simp_all

lemma recovery_kinds: "recovery_event e \<Longrightarrow> qd_kinds e \<subseteq> {KAck, KUnknown, KHold, KAdopt}"
  by (cases e) auto

definition same_work :: "queue_db \<Rightarrow> queue_db \<Rightarrow> bool" where
  "same_work db db' \<longleftrightarrow> map (\<lambda>j. (qj_job_id j, qj_target j, qj_prompt j, qj_raw j = RPending)) (qd_jobs db') =
     map (\<lambda>j. (qj_job_id j, qj_target j, qj_prompt j, qj_raw j = RPending)) (qd_jobs db)"

lemma recovery_event_work:
  assumes "ids_ok db" "recovery_event e"
  shows "same_work db (qd_apply e db)"
proof -
  have k: "qd_kinds e \<subseteq> {KAck, KUnknown, KHold, KAdopt}" by (rule recovery_kinds [OF assms(2)])
  then have "KRemove \<notin> qd_kinds e" "KInsert \<notin> qd_kinds e" by auto
  then obtain g keep where jobs: "qd_jobs (qd_apply e db) = map g (filter keep (qd_jobs db)) @ []" and all: "\<forall>j \<in> set (qd_jobs db). keep j"
    and step: "\<forall>j \<in> set (qd_jobs db). keep j \<longrightarrow> g j = j \<or> (\<exists>k \<in> qd_kinds e. row_step db k j (g j)) \<and> \<not> cancelled_row db j"
    using qd_apply_moves [OF assms(1), of e] unfolding table_moves_def by blast
  have "filter keep (qd_jobs db) = qd_jobs db" using all by (simp add: filter_id_conv)
  moreover have "(qj_job_id (g j), qj_target (g j), qj_prompt (g j), qj_raw (g j) = RPending) =
      (qj_job_id j, qj_target j, qj_prompt j, qj_raw j = RPending)" if j: "j \<in> set (qd_jobs db)" for j
  proof (cases "g j = j")
    case False
    then obtain x where x: "x \<in> qd_kinds e" "row_step db x j (g j)" using step all j by blast
    then have "x \<in> {KAck, KUnknown, KHold, KAdopt}" using k by blast
    then show ?thesis using recovery_step_raw [OF x(2)] row_step_keeps [OF x(2)] by simp
  qed simp
  ultimately show ?thesis by (simp add: same_work_def jobs)
qed

interpretation work: recovery_run "\<lambda>c c'. queue_inv (co_db c) \<longrightarrow> queue_inv (co_db c') \<and> same_work (co_db c) (co_db c')"
proof (unfold_locales, goal_cases)
  case (3 e c' c)
  then show ?case using queue_inv_apply recovery_event_work queue_inv_ids by simp
qed (auto simp: same_work_def)

text \<open>C6: Recovery does not replay a prompt. When the saved jobs of a thread are compared with the turns the app server reports, whatever that history
  is, no job is removed, added or reordered, none that was handed to the app server becomes pending again, and no pending one
  is taken. An attempt of unknown outcome therefore stays in flight until it is settled by other evidence.\<close>

theorem recovery_never_replays:
  assumes "queue_inv (co_db c)"
  shows "same_work (co_db c) (co_db (snd (reconcile_observed_jobs be target generation jobs turns force_cold rep c)))"
  using work.reconcile_holds [of c be target generation jobs turns force_cold rep] assms by blast

section \<open>Retries\<close>

lemma retry_delay_range: "0 \<le> retry_delay_for_error n e \<and> retry_delay_for_error n e \<le> (if is_definite_writer_rejection e then 15 else 900)"
  by (simp add: retry_delay_for_error_def retry_delay_seconds_def)

lemma retry_delay_mono: "retry_delay_for_error n e \<le> retry_delay_for_error (n + int k) e"
proof (cases "is_definite_writer_rejection e")
  case True
  then show ?thesis by (simp add: retry_delay_for_error_def)
next
  case False
  then show ?thesis by (simp add: retry_delay_for_error_def retry_delay_seconds_def)
qed

text \<open>C38: The delay before the next try of a job never exceeds fifteen minutes and never decreases with the attempts; when the app server has refused
  because another writer holds the thread, it is at most fifteen seconds. A job with no recorded attempt or no recorded error is due at
  once, and every job is due when its delay has passed.\<close>

theorem retry_delay_bounded:
  "0 \<le> retry_delay_for_error n e \<and> retry_delay_for_error n e \<le> (if is_definite_writer_rejection e then 15 else 900) \<and>
   retry_delay_for_error n e \<le> retry_delay_for_error (n + int k) e \<and>
   (pending_retry_is_due n e updated now \<longleftrightarrow> \<not> (0 < n \<and> e \<noteq> [] \<and> now < updated + of_int (retry_delay_for_error n e)))"
  using retry_delay_range [of n e] retry_delay_mono [of n e k] by (auto simp: pending_retry_is_due_def pending_retry_due_at_def)

definition hints_ok :: "coordinator \<Rightarrow> bool" where
  "hints_ok c \<longleftrightarrow> hm_wf (co_hints c) \<and> hm_len (co_hints c) \<le> HINT_CAP \<and>
     (\<forall>t h. hm_get (co_hints c) t = Some h \<longrightarrow> rh_target h = t \<and> byte_len t + byte_len (rh_job_id h) \<le> MAX_METADATA_BYTES)"

lemma hint_len: "hm_wf m \<Longrightarrow> hm_len m \<le> HINT_CAP \<Longrightarrow> \<not> (HINT_CAP \<le> hm_len m \<and> \<not> hm_contains m k) \<Longrightarrow> hm_len (hm_insert k v m) \<le> HINT_CAP"
  by (cases "hm_get m k") (simp_all add: hm_contains_def hm_len_insert_new hm_len_insert_old)

lemma hints_ok_insert:
  assumes "hints_ok c" "\<not> (HINT_CAP \<le> hm_len (co_hints c) \<and> \<not> hm_contains (co_hints c) k)" "rh_target h = k"
    "byte_len k + byte_len (rh_job_id h) \<le> MAX_METADATA_BYTES"
  shows "hints_ok (c\<lparr>co_hints := hm_insert k h (co_hints c)\<rparr>)"
  using assms hint_len [of "co_hints c" k h] by (simp add: hints_ok_def)

lemma hints_ok_remove: "hints_ok c \<Longrightarrow> hints_ok (c\<lparr>co_hints := hm_remove k (co_hints c)\<rparr>)"
  using order_trans [OF hm_len_remove_le] by (auto simp: hints_ok_def)

lemma hints_ok_schedule: "hints_ok c \<Longrightarrow> hints_ok (schedule_writer_retry now instant j c)"
  by (auto simp: schedule_writer_retry_def Let_def hints_ok_remove intro!: hints_ok_insert split: option.split)

lemma hints_ok_extend:
  assumes "hints_ok c"
  shows "hints_ok (extend_writer_retry_gate target c)"
proof -
  have "hints_ok (c\<lparr>co_hints := hm_insert target (h\<lparr>rh_due := due\<rparr>) (co_hints c)\<rparr>)" if "hm_get (co_hints c) target = Some h" for h due
    using assms that by (intro hints_ok_insert) (auto simp: hints_ok_def hm_contains_def)
  then show ?thesis using assms by (auto simp: extend_writer_retry_gate_def split: option.splits)
qed

lemma hints_ok_consume: "hints_ok c \<Longrightarrow> hints_ok (snd (consume_writer_retry lease h c))"
  by (auto simp: consume_writer_retry_def Let_def hints_ok_remove split: option.splits)

text \<open>The operations that write the hints.\<close>

datatype hint_op = HSchedule rat int queue_job | HExtend rstr | HConsume rstr retry_hint | HUnavailable int "queue_job list" rstr backend_failure

fun hint_apply :: "hint_op \<Rightarrow> coordinator \<Rightarrow> coordinator" where
  "hint_apply (HSchedule now instant j) c = schedule_writer_retry now instant j c"
| "hint_apply (HExtend target) c = extend_writer_retry_gate target c"
| "hint_apply (HConsume lease h) c = snd (consume_writer_retry lease h c)"
| "hint_apply (HUnavailable instant jobs target e) c = snd (mark_unavailable instant jobs target e (report_default, c))"

lemma hints_ok_apply: "hints_ok c \<Longrightarrow> hints_ok (hint_apply op c)"
proof (induction op)
  case (HUnavailable instant jobs target e)
  then have "hints_ok (c\<lparr>co_unavailable := l\<rparr>)" for l by (simp add: hints_ok_def)
  then show ?case by (simp add: mark_unavailable_def Let_def hints_ok_extend)
qed (simp_all add: hints_ok_schedule hints_ok_extend hints_ok_consume)

text \<open>The writer retry hints stay bounded. After any sequence of the operations that write them the coordinator keeps at most one hint per
  thread, at most 128 hints, and in each at most the permitted bytes of identifiers.\<close>

theorem writer_hints_bounded:
  assumes "co_hints c = []"
  shows "hints_ok (run_events hint_apply ops c)"
proof -
  have "hints_ok c" using assms by (simp add: hints_ok_def)
  then show ?thesis by (induction ops arbitrary: c) (simp_all add: hints_ok_apply)
qed

lemma head_pending:
  assumes "eligible_pending_head js = Some j"
  shows "j \<in> set js \<and> job_state j = JPending \<and> \<not> legacy_or_current_error (qj_last_error j) \<and> \<not> list_ex occupies js"
proof -
  have "\<not> list_ex occupies js" and f: "find (\<lambda>j. job_state j = JPending \<and> \<not> legacy_or_current_error (qj_last_error j)) js = Some j"
    using assms by (simp_all add: eligible_pending_head_def split: if_splits)
  moreover obtain i where "i < length js" "job_state (js ! i) = JPending \<and> \<not> legacy_or_current_error (qj_last_error (js ! i))" "j = js ! i"
    using f unfolding find_Some_iff by blast
  ultimately show ?thesis by simp
qed


section \<open>Example runs\<close>

definition demo_tgt :: "rstr \<Rightarrow> rstr" where
  "demo_tgt jid = (if jid = lit ''j'' then lit ''t'' else lit ''u'')"

definition demo_other :: new_queue_job where
  "demo_other = demo_new\<lparr>nj_job_id := lit ''k'', nj_target := lit ''u'', nj_message := Some 8\<rparr>"

text \<open>While the app server starts a turn, a prompt for another thread arrives.\<close>

definition runner_backend :: backend where
  "runner_backend = \<lparr> be_generation = 1, be_generation_again = 1, be_resident = None, be_resident_again = None, be_active = Inr None,
     be_resume = Inr (), be_read = Inr [], be_start = (\<lambda>_. Inr (lit ''turn'')), be_late_stop = Inr (), be_settled = Inr (),
     be_handed_off = Inr (), be_idle = [], be_json = concat, be_now = 2, be_instant = 0,
     be_while = (\<lambda>w c. if w = AwStart then c\<lparr>co_db := qd_apply (QEnqueue demo_other) (co_db c)\<rparr> else c) \<rparr>"

definition demo_coordinator :: coordinator where
  "demo_coordinator = coordinator_new (qd_apply (QEnqueue demo_new) demo_db) None"

lemma demo_lets: "lets demo_tgt target runner_backend"
proof -
  have "steps demo_tgt target c (be_while runner_backend AwStart c)" for c
    by (rule steps_event [where e = "QEnqueue demo_other"])
      (simp_all add: runner_backend_def quiet_def demo_other_def demo_new_def demo_tgt_def)
  moreover have "steps demo_tgt target c (be_while runner_backend w c)" if "w \<noteq> AwStart" for c w
    by (rule steps_refl) (use that in \<open>simp add: runner_backend_def\<close>)
  ultimately show ?thesis unfolding lets_def by metis
qed

lemma demo_good: "good demo_tgt demo_coordinator"
proof -
  have "queue_inv demo_db" by (simp add: queue_inv_def demo_db_def map_filter_def)
  moreover have "consistent demo_tgt (co_db demo_coordinator)" unfolding consistent_def by code_simp
  ultimately show ?thesis by (simp add: good_def demo_coordinator_def coordinator_new_def queue_inv_apply del: qd_apply.simps)
qed



theorem recovery_never_replays_witness:
  "same_work demo_claimed (co_db (snd (reconcile_observed_jobs (runner_backend\<lparr>be_now := 500\<rparr>) (lit ''t'') 1 (qd_jobs demo_claimed)
     [\<lparr> tr_turn_id = lit ''v'', tr_status = InProgress \<rparr>] False report_default (coordinator_new demo_claimed None)))) \<and>
   map job_state (qd_jobs (co_db (snd (reconcile_observed_jobs (runner_backend\<lparr>be_now := 500\<rparr>) (lit ''t'') 1 (qd_jobs demo_claimed)
     [\<lparr> tr_turn_id = lit ''v'', tr_status = InProgress \<rparr>] False report_default (coordinator_new demo_claimed None))))) = [JRunning]"
proof
  have "queue_inv (co_db (coordinator_new demo_claimed None))" using demo_claimed_inv by (simp add: coordinator_new_def)
  from recovery_never_replays [OF this]
  show "same_work demo_claimed (co_db (snd (reconcile_observed_jobs (runner_backend\<lparr>be_now := 500\<rparr>) (lit ''t'') 1 (qd_jobs demo_claimed)
     [\<lparr> tr_turn_id = lit ''v'', tr_status = InProgress \<rparr>] False report_default (coordinator_new demo_claimed None))))"
    by (simp add: coordinator_new_def)
qed code_simp

definition demo_writer_error :: rstr where
  "demo_writer_error = lit ''app-server returned error -32600 for thread/resume: thread t already has an active writer''"

definition demo_refused :: coordinator where
  "demo_refused = snd (record_preflight (runner_backend\<lparr>be_now := 2\<rparr>) (lit ''j'') 1 demo_writer_error demo_coordinator)"

definition demo_hint :: retry_hint where
  "demo_hint = \<lparr> rh_target = lit ''t'', rh_job_id = lit ''j'', rh_generation = 1, rh_attempt = 1, rh_updated_at = 2, rh_due = secs 5 \<rparr>"

theorem writer_hints_bounded_witness:
  "hints_ok (run_events hint_apply [HSchedule 2 0 (hd (qd_jobs (co_db demo_refused))), HExtend (lit ''t'')] demo_coordinator) \<and>
   co_hints (run_events hint_apply [HSchedule 2 0 (hd (qd_jobs (co_db demo_refused))), HExtend (lit ''t'')] demo_coordinator) = [(lit ''t'', demo_hint)]"
proof
  show "hints_ok (run_events hint_apply [HSchedule 2 0 (hd (qd_jobs (co_db demo_refused))), HExtend (lit ''t'')] demo_coordinator)"
    by (rule writer_hints_bounded) (simp add: demo_coordinator_def coordinator_new_def)
qed code_simp


end
