(* ===== verification/Replies.thy ===== *)
theory Replies
  imports Rpc
begin

text \<open>
  The replies a user's text becomes (\<open>cdr-app-server/src/approval_replies.rs\<close>, \<open>input_replies.rs\<close>,
  \<open>input_validation.rs\<close>, \<open>mcp_forms.rs\<close>, \<open>mcp_forms/input.rs\<close>, \<open>mcp_forms/schema.rs\<close>): the answer to an approval, to a list of
  questions, to a form. The JSON parser, the length of a printed value and the schema validator are packages the
  sources call; they are fields of \<open>form_env\<close>.
\<close>

section \<open>Approvals (\<open>approval_replies.rs\<close>)\<close>

record approval_answer =
  aa_decision :: rstr
  aa_legacy_decision :: rstr
  aa_scope :: rstr

text \<open>\<open>str::to_lowercase\<close>, as far as a comparison with words of ASCII letters and Hangul sees it: besides the ASCII capitals only the
  Kelvin sign and the dotted capital I have a lower case with an ASCII letter, and Hangul has no case.\<close>

definition lowercase_char :: "int \<Rightarrow> rstr" where
  "lowercase_char c = (if c = 8490 then [107] else if c = 304 then [105, 775] else [to_ascii_lower c])"

definition to_lowercase :: "rstr \<Rightarrow> rstr" where
  "to_lowercase s = concat (map lowercase_char s)"

definition approve_words :: "rstr list" where
  "approve_words = map lit [''approve'', ''approved'', ''accept'', ''yes'', ''y'', ''ok''] @ [[50696], [45348], [49849, 51064]]"

definition session_words :: "rstr list" where
  "session_words = map lit [''approve session'', ''accept session'', ''session'', ''approve_for_session'']"

definition decline_words :: "rstr list" where
  "decline_words = map lit [''decline'', ''reject'', ''no'', ''n''] @ [[50500, 45768, 50836], [44144, 51208]]"

definition cancel_words :: "rstr list" where
  "cancel_words = map lit [''cancel'', ''skip'', ''dismiss''] @ [[44148, 45320, 46832, 44592], [52712, 49548]]"

definition parse_approval_answer :: "rstr \<Rightarrow> (app_server_error, approval_answer) result" where
  "parse_approval_answer answer = (let normalized = trim answer; lowered = to_lowercase normalized in
     if normalized = lit ''1'' \<or> lowered \<in> set approve_words then
       Inr \<lparr> aa_decision = lit ''accept'', aa_legacy_decision = lit ''approved'', aa_scope = lit ''turn'' \<rparr>
     else if normalized = lit ''2'' \<or> lowered \<in> set session_words then
       Inr \<lparr> aa_decision = lit ''acceptForSession'', aa_legacy_decision = lit ''approved_for_session'', aa_scope = lit ''session'' \<rparr>
     else if normalized = lit ''3'' \<or> lowered \<in> set decline_words then
       Inr \<lparr> aa_decision = lit ''decline'', aa_legacy_decision = lit ''denied'', aa_scope = lit ''turn'' \<rparr>
     else if lowered \<in> set cancel_words then
       Inr \<lparr> aa_decision = lit ''cancel'', aa_legacy_decision = lit ''abort'', aa_scope = lit ''turn'' \<rparr>
     else Inl (InvalidReply (lit ''Unrecognized approval reply. Use 1 to approve, 2 to approve for this session, 3 to decline, or cancel to skip.'')))"

section \<open>Input questions (\<open>input_validation.rs\<close>)\<close>

text \<open>\<open>get(key).and_then(Value::as_str).map(str::trim).filter(not empty)\<close>\<close>

definition trimmed_field :: "string \<Rightarrow> json \<Rightarrow> rstr option" where
  "trimmed_field k v = opt_filter (\<lambda>s. s \<noteq> []) (map_option trim (jget_str v k))"

definition input_option_labels :: "json \<Rightarrow> (app_server_error, rstr list) result" where
  "input_option_labels question = (case opt_filter (\<lambda>options. \<not> is_null options) (jget question ''options'') of
     None \<Rightarrow> Inr []
   | Some options \<Rightarrow> (case as_array options of
       None \<Rightarrow> Inl (InvalidReply (lit ''Pending input options were not an array.''))
     | Some os \<Rightarrow>
         if list_all (\<lambda>option. trimmed_field ''label'' option \<noteq> None) os then Inr (map (the \<circ> trimmed_field ''label'') os)
         else Inl (InvalidReply (lit ''Pending input option had a missing or empty label.''))))"

fun validate_questions :: "rstr list \<Rightarrow> json list \<Rightarrow> (app_server_error, unit) result" where
  "validate_questions ids [] = Inr ()"
| "validate_questions ids (q # qs) = (case trimmed_field ''id'' q of
     None \<Rightarrow> Inl (InvalidReply (lit ''Pending input question did not include an id.''))
   | Some i \<Rightarrow>
       if i \<in> set ids then Inl (InvalidReply (lit ''Pending input contained duplicate question ids.''))
       else (case input_option_labels q of Inl e \<Rightarrow> Inl e | Inr _ \<Rightarrow> validate_questions (i # ids) qs))"

definition validate_input_questions :: "json \<Rightarrow> (app_server_error, json list) result" where
  "validate_input_questions params = (case opt_filter (\<lambda>qs. qs \<noteq> []) (Option.bind (jget params ''questions'') as_array) of
     None \<Rightarrow> Inl (InvalidReply (lit ''No pending input questions were available.''))
   | Some qs \<Rightarrow> (case validate_questions [] qs of Inl e \<Rightarrow> Inl e | Inr _ \<Rightarrow> Inr qs))"

section \<open>Input replies (\<open>input_replies.rs\<close>)\<close>

text \<open>A \<open>BTreeMap\<close> with string keys.\<close>

fun bt_insert :: "rstr \<Rightarrow> 'a \<Rightarrow> (rstr \<times> 'a) list \<Rightarrow> (rstr \<times> 'a) list" where
  "bt_insert k v [] = [(k, v)]"
| "bt_insert k v ((k', v') # r) =
    (if k = k' then (k, v) # r else if k < k' then (k, v) # (k', v') # r else (k', v') # bt_insert k v r)"

record input_response =
  ir_payload :: json
  ir_answers_by_question :: "(rstr \<times> rstr list) list"

definition split_input_values :: "rstr \<Rightarrow> rstr list" where
  "split_input_values raw = filter (\<lambda>v. v \<noteq> []) (map trim (split_at_char 124 raw))"

text \<open>\<open>str::parse::<usize>\<close>: an optional plus sign and decimal digits, within 64 bits.\<close>

definition parse_usize :: "rstr \<Rightarrow> nat option" where
  "parse_usize s = (let digits = (if s \<noteq> [] \<and> hd s = 43 then tl s else s);
       n = fold (\<lambda>c n. 10 * n + (c - 48)) digits 0
     in if digits = [] \<or> \<not> list_all (\<lambda>c. 48 \<le> c \<and> c \<le> 57) digits \<or> n > 18446744073709551615 then None else Some (nat n))"

definition resolve_value :: "rstr list \<Rightarrow> rstr \<Rightarrow> rstr" where
  "resolve_value labels v =
     (let named = (case find (\<lambda>l. eq_ignore_ascii_case l v) labels of None \<Rightarrow> v | Some l \<Rightarrow> l)
      in case parse_usize v of None \<Rightarrow> named
      | Some n \<Rightarrow> if 0 < n \<and> n - 1 < length labels then labels ! (n - 1) else named)"

definition resolve_input_answers :: "json \<Rightarrow> rstr \<Rightarrow> (app_server_error, rstr list) result" where
  "resolve_input_answers question raw = (let vs = split_input_values raw in
     if vs = [] then Inl (InvalidReply (lit ''Answer text was empty.''))
     else case input_option_labels question of Inl e \<Rightarrow> Inl e | Inr labels \<Rightarrow> Inr (map (resolve_value labels) vs))"

fun index_questions :: "nat \<Rightarrow> json list \<Rightarrow> (rstr \<times> json) list \<Rightarrow> (app_server_error, (rstr \<times> json) list) result" where
  "index_questions n [] m = Inr m"
| "index_questions n (q # qs) m =
     (if \<not> is_object q then Inl (InvalidReply (lit ''Pending input question '' @ decimal (n + 1) @ lit '' was invalid.''))
      else case trimmed_field ''id'' q of
        None \<Rightarrow> Inl (InvalidReply (lit ''Pending input question '' @ decimal (n + 1) @ lit '' did not include an id.''))
      | Some i \<Rightarrow> index_questions (n + 1) qs (bt_insert i q m))"

fun assign_segments :: "rstr list \<Rightarrow> (rstr \<times> rstr) list \<Rightarrow> (app_server_error, (rstr \<times> rstr) list) result" where
  "assign_segments [] m = Inr m"
| "assign_segments (s # ss) m = (case split_once 61 s of
     None \<Rightarrow> Inl (InvalidReply (lit ''Multi-question replies must use question_id=value; other_id=value format.''))
   | Some (i, v) \<Rightarrow>
       if trim i = [] then Inl (InvalidReply (lit ''A reply_input assignment was missing the question id.''))
       else assign_segments ss (bt_insert (trim i) (trim v) m))"

definition parse_assignments :: "(rstr \<times> json) list \<Rightarrow> rstr \<Rightarrow> (app_server_error, (rstr \<times> rstr) list) result" where
  "parse_assignments questions normalized =
     (if length questions = 1 \<and> 61 \<notin> set normalized then Inr [(fst (hd questions), normalized)]
      else assign_segments (filter (\<lambda>s. s \<noteq> []) (map trim (split_at_char 59 normalized))) [])"

text \<open>The loop over the assignments, in the order of the ids.\<close>

fun resolve_all :: "(rstr \<times> json) list \<Rightarrow> (rstr \<times> rstr) list \<Rightarrow> (app_server_error, (rstr \<times> rstr list) list) result" where
  "resolve_all questions [] = Inr []"
| "resolve_all questions ((i, raw) # r) = (case resolve_input_answers (the (map_of questions i)) raw of
     Inl e \<Rightarrow> Inl e
   | Inr vs \<Rightarrow> (case resolve_all questions r of Inl e \<Rightarrow> Inl e | Inr as \<Rightarrow> Inr ((i, vs) # as)))"

definition answers_payload :: "(rstr \<times> rstr list) list \<Rightarrow> json" where
  "answers_payload as = json_object [(''answers'', JObj (map (\<lambda>(i, vs). (i, json_object [(''answers'', JArr (map JStr vs))])) as))]"

definition build_input_response :: "json \<Rightarrow> rstr \<Rightarrow> (app_server_error, input_response) result" where
  "build_input_response params answer = (case validate_input_questions params of Inl e \<Rightarrow> Inl e | Inr qs \<Rightarrow>
     (case index_questions 0 qs [] of Inl e \<Rightarrow> Inl e | Inr questions \<Rightarrow>
      let normalized = trim answer in
      if normalized = [] then Inl (InvalidReply (lit ''Answer text was empty.''))
      else (case parse_assignments questions normalized of Inl e \<Rightarrow> Inl e | Inr assignments \<Rightarrow>
        let missing = filter (\<lambda>i. i \<notin> fst ` set assignments) (map fst questions);
            unknown = filter (\<lambda>i. i \<notin> fst ` set questions) (map fst assignments)
        in if missing \<noteq> [] then Inl (InvalidReply (lit ''Missing answers for question ids: '' @ join (lit '', '') missing))
           else if unknown \<noteq> [] then Inl (InvalidReply (lit ''Unknown question ids: '' @ join (lit '', '') unknown))
           else (case resolve_all questions assignments of Inl e \<Rightarrow> Inl e
             | Inr answers \<Rightarrow> Inr \<lparr> ir_payload = answers_payload answers, ir_answers_by_question = answers \<rparr>))))"

section \<open>Forms (\<open>mcp_forms.rs\<close>)\<close>

text \<open>\<open>fe_build draft7 schema\<close> is the validator the builder makes, offline and with formats, with the draft fixed when the schema names none; a
  validator answers the masked error of a value it rejects. \<open>fe_len\<close> is the length in bytes of a printed value.\<close>

record form_env =
  fe_parse :: "rstr \<Rightarrow> json option"
  fe_len :: "json \<Rightarrow> nat"
  fe_build :: "bool \<Rightarrow> json \<Rightarrow> (json \<Rightarrow> rstr option) option"

definition is_form_request :: "rstr \<Rightarrow> json \<Rightarrow> bool" where
  "is_form_request method_name params \<longleftrightarrow> method_name = lit ''mcpServer/elicitation/request'' \<and>
     (jget_str params ''mode'' = Some (lit ''form'') \<or> jget_str params ''mode'' = Some (lit ''openai/form'') \<or>
      jget params ''mode'' = None \<and> jget params ''requestedSchema'' \<noteq> None)"

definition is_string :: "json \<Rightarrow> bool" where
  "is_string v = (as_str v \<noteq> None)"

definition schema_entry_ok :: "rstr \<Rightarrow> json \<Rightarrow> bool" where
  "schema_entry_ok k v = (if k \<in> set (map lit [''type'', ''properties'', ''required'', ''additionalProperties'']) then True
     else if k \<in> set (map lit [''title'', ''description'', ''$schema'', ''$id'', ''$comment'']) then is_string v else False)"

definition empty_approval_schema :: "json option \<Rightarrow> bool" where
  "empty_approval_schema schema = (case Option.bind schema as_object of None \<Rightarrow> False
     | Some ob \<Rightarrow> obj_get_str ob ''type'' = Some (lit ''object'') \<and>
         Option.bind (obj_get ob ''properties'') as_object = Some [] \<and>
         (case obj_get ob ''required'' of None \<Rightarrow> True | Some v \<Rightarrow> as_array v = Some []) \<and>
         (case obj_get ob ''additionalProperties'' of None \<Rightarrow> True | Some v \<Rightarrow> as_bool v \<noteq> None) \<and>
         list_all (\<lambda>(k, v). schema_entry_ok k v) ob)"

definition needs_input :: "rstr \<Rightarrow> json \<Rightarrow> bool" where
  "needs_input method_name params \<longleftrightarrow> is_form_request method_name params \<and> \<not> empty_approval_schema (jget params ''requestedSchema'')"

subsection \<open>The text (\<open>mcp_forms/input.rs\<close>)\<close>

definition fence :: rstr where
  "fence = [96, 96, 96]"

definition unfence :: "rstr \<Rightarrow> (app_server_error, rstr) result" where
  "unfence input = (let t = trim input in
     if \<not> starts_with t fence then Inr t
     else case split_once 10 t of
       None \<Rightarrow> Inl (InvalidReply (lit ''Use a complete JSON code block or a JSON object. The request remains pending.''))
     | Some (header, rest) \<Rightarrow>
         if rev (dropWhile (\<lambda>c. c = 13) (rev header)) \<notin> {fence, fence @ lit ''json''}
         then Inl (InvalidReply (lit ''Use a JSON code block or a JSON object. The request remains pending.''))
         else case strip_suffix (10 # fence) rest of
           None \<Rightarrow> Inl (InvalidReply (lit ''Use a complete JSON code block or a JSON object. The request remains pending.''))
         | Some body \<Rightarrow> Inr (trim body))"

definition parse_form :: "form_env \<Rightarrow> json \<Rightarrow> rstr \<Rightarrow> (app_server_error, json) result" where
  "parse_form env schema answer = (let parsed = fe_parse env answer in
     if parsed = None \<and> answer \<noteq> [] \<and> hd answer \<in> {123, 91, 34}
     then Inl (InvalidReply (lit ''Invalid JSON input. Correct it and reply again; the request remains pending.''))
     else case opt_filter is_object parsed of Some v \<Rightarrow> Inr v
     | None \<Rightarrow> (case opt_filter (\<lambda>fs. length fs = 1) (Option.bind (jget schema ''properties'') as_object) of
         None \<Rightarrow> Inl (InvalidReply (lit ''Reply with a JSON object containing the requested field names; the request remains pending.''))
       | Some fs \<Rightarrow>
           let (key, field) = hd fs in
           if jget_str field ''type'' = Some (lit ''string'')
           then Inr (JObj [(key, case opt_filter is_string parsed of Some v \<Rightarrow> v | None \<Rightarrow> JStr answer)])
           else (case parsed of Some v \<Rightarrow> Inr (JObj [(key, v)])
             | None \<Rightarrow> Inl (InvalidReply (lit ''Enter a valid JSON number, true/false, or array for this field; the request remains pending.'')))))"

subsection \<open>The schema (\<open>mcp_forms/schema.rs\<close>)\<close>

lemma size_values: "size_list (size \<circ> snd) ob \<le> size_list (size_prod f size) ob"
  by (induction ob) auto

function check_extensions :: "json \<Rightarrow> (app_server_error, unit) result" and
  check_extensions_all :: "json list \<Rightarrow> (app_server_error, unit) result" where
  "check_extensions v = (case v of
     JObj fs \<Rightarrow>
       if obj_get fs ''$async'' = Some (JBool True) \<or>
          list_ex (\<lambda>k. case obj_get fs k of None \<Rightarrow> False | Some x \<Rightarrow> is_string x) [''$ref'', ''$dynamicRef'', ''$recursiveRef'']
       then Inl (InvalidReply (lit ''MCP forms must use synchronous, self-contained field schemas; the request remains pending.''))
       else check_extensions_all (map snd fs)
   | JArr vs \<Rightarrow> check_extensions_all vs
   | _ \<Rightarrow> Inr ())"
| "check_extensions_all [] = Inr ()"
| "check_extensions_all (v # vs) = (case check_extensions v of Inl e \<Rightarrow> Inl e | Inr _ \<Rightarrow> check_extensions_all vs)"
  by pat_completeness auto
termination
  by (relation "measure (case_sum (\<lambda>v. size v) (size_list size))") (auto simp: less_Suc_eq_le intro: order_trans [OF size_values])

text \<open>A number whose absolute value exceeds \<open>2 ^ 53 - 1\<close>: a finite floating-point number orders by its bits without the sign.\<close>

definition beyond_exact :: "jnum \<Rightarrow> bool" where
  "beyond_exact n = (case n of JInt i \<Rightarrow> \<bar>i\<bar> > 9007199254740991 | JFloat w \<Rightarrow> uint (take_bit 63 w) > 4845873199050653695)"

function visit :: "json \<Rightarrow> nat \<Rightarrow> (app_server_error, unit) result" and
  visit_all :: "json list \<Rightarrow> nat \<Rightarrow> (app_server_error, unit) result" where
  "visit v depth =
     (if depth > 32 then Inl (InvalidReply (lit ''MCP form nesting exceeds the supported limit; the request remains pending.''))
      else case v of
        JNum n \<Rightarrow> if beyond_exact n then Inl (InvalidReply (lit ''MCP numeric values must be within the exact integer range; use a string for a large identifier if the form permits it.''))
          else Inr ()
      | JArr vs \<Rightarrow> visit_all vs (depth + 1)
      | JObj fs \<Rightarrow> visit_all (map snd fs) (depth + 1)
      | _ \<Rightarrow> Inr ())"
| "visit_all [] depth = Inr ()"
| "visit_all (v # vs) depth = (case visit v depth of Inl e \<Rightarrow> Inl e | Inr _ \<Rightarrow> visit_all vs depth)"
  by pat_completeness auto
termination
  by (relation "measure (case_sum (\<lambda>(v, _). size v) (\<lambda>(vs, _). size_list size vs))")
    (auto simp: less_Suc_eq_le intro: order_trans [OF size_values])

declare check_extensions.simps [simp del] visit.simps [simp del]

definition check_limits :: "form_env \<Rightarrow> json \<Rightarrow> (app_server_error, unit) result" where
  "check_limits env v = (if fe_len env v > 65536
     then Inl (InvalidReply (lit ''MCP form exceeds the 64 KiB input limit; the request remains pending.'')) else visit v 0)"

definition compile :: "form_env \<Rightarrow> json \<Rightarrow> (app_server_error, json \<Rightarrow> rstr option) result" where
  "compile env params = (case opt_filter (\<lambda>s. is_object s \<and> jget_str s ''type'' = Some (lit ''object'')) (jget params ''requestedSchema'') of
     None \<Rightarrow> Inl (InvalidReply (lit ''MCP input needs an object schema; the request remains pending.''))
   | Some schema \<Rightarrow> (case check_limits env schema of Inl e \<Rightarrow> Inl e | Inr _ \<Rightarrow>
      (case check_extensions schema of Inl e \<Rightarrow> Inl e | Inr _ \<Rightarrow>
       (case fe_build env (jget schema ''$schema'' = None) schema of
          None \<Rightarrow> Inl (InvalidReply (lit ''The MCP input schema is invalid or references an unavailable schema; the request remains pending.''))
        | Some validator \<Rightarrow> Inr validator))))"

definition validate_schema :: "form_env \<Rightarrow> json \<Rightarrow> (app_server_error, unit) result" where
  "validate_schema env params = (case compile env params of Inl e \<Rightarrow> Inl e | Inr _ \<Rightarrow> Inr ())"

definition elicitation :: "rstr \<Rightarrow> json \<Rightarrow> json" where
  "elicitation action content = json_object [(''action'', JStr action), (''content'', content), (''_meta'', JNull)]"

definition form_response :: "form_env \<Rightarrow> json \<Rightarrow> rstr \<Rightarrow> (app_server_error, json \<times> rstr) result" where
  "form_response env params answer =
     (if byte_len answer > 65536 then Inl (InvalidReply (lit ''MCP input exceeds the 64 KiB input limit; the request remains pending.''))
      else case unfence answer of Inl e \<Rightarrow> Inl e | Inr body \<Rightarrow>
        if body \<in> {lit ''/cancel'', lit ''/decline''} then Inr (elicitation (tl body) JNull, tl body)
        else case compile env params of Inl e \<Rightarrow> Inl e | Inr validator \<Rightarrow>
          (case parse_form env (the (jget params ''requestedSchema'')) body of Inl e \<Rightarrow> Inl e | Inr content \<Rightarrow>
            (case check_limits env content of Inl e \<Rightarrow> Inl e | Inr _ \<Rightarrow>
              (case validator content of
                 Some masked \<Rightarrow> Inl (InvalidReply (lit ''MCP input does not satisfy the schema: '' @ masked @
                   lit ''. Correct the field and reply again; the request remains pending.''))
               | None \<Rightarrow> Inr (elicitation (lit ''accept'') content, lit ''accept'')))))"

section \<open>The answer to an approval (\<open>approval_replies.rs\<close>)\<close>

definition no_permissions :: json where
  "no_permissions = json_object [(''network'', JNull), (''fileSystem'', JNull)]"

definition build_approval_response :: "form_env \<Rightarrow> rstr \<Rightarrow> json \<Rightarrow> rstr \<Rightarrow> (app_server_error, json \<times> rstr) result" where
  "build_approval_response env method_name params answer =
     (if needs_input method_name params then form_response env params answer
      else case parse_approval_answer answer of Inl e \<Rightarrow> Inl e | Inr a \<Rightarrow>
        if method_name = lit ''mcpServer/elicitation/request'' then
          (let action = (if aa_decision a = lit ''acceptForSession'' then lit ''accept'' else aa_decision a);
               content = (if action = lit ''accept'' then JObj [] else JNull)
           in Inr (elicitation action content, action))
        else if method_name = lit ''item/commandExecution/requestApproval'' \<or> method_name = lit ''item/fileChange/requestApproval'' then
          Inr (json_object [(''decision'', JStr (aa_decision a))], aa_decision a)
        else if method_name = lit ''item/permissions/requestApproval'' \<and> (aa_decision a = lit ''accept'' \<or> aa_decision a = lit ''acceptForSession'') then
          (let permissions = (case opt_filter is_object (jget params ''permissions'') of Some v \<Rightarrow> v | None \<Rightarrow> no_permissions)
           in Inr (json_object [(''permissions'', permissions), (''scope'', JStr (aa_scope a))], aa_decision a))
        else if method_name = lit ''item/permissions/requestApproval'' then
          Inr (json_object [(''permissions'', no_permissions), (''scope'', JStr (lit ''turn'')), (''strictAutoReview'', JBool False)], aa_decision a)
        else if method_name = lit ''execCommandApproval'' \<or> method_name = lit ''applyPatchApproval'' then
          Inr (json_object [(''decision'', JStr (aa_legacy_decision a))], aa_legacy_decision a)
        else Inl (InvalidReply (lit ''Unsupported app-server approval request method: '' @ method_name)))"

end
