(* ===== verification/Reply_Safety.thy ===== *)
theory Reply_Safety
  imports Replies
begin

text \<open>
  What the replies promise: an approval needs the user's word, a reply to questions answers each of them, and a form is accepted
  only with content that was checked.
\<close>

section \<open>Approvals\<close>

definition approves :: "rstr \<Rightarrow> bool" where
  "approves answer \<longleftrightarrow> trim answer = lit ''1'' \<or> to_lowercase (trim answer) \<in> set approve_words"

definition approves_session :: "rstr \<Rightarrow> bool" where
  "approves_session answer \<longleftrightarrow> trim answer = lit ''2'' \<or> to_lowercase (trim answer) \<in> set session_words"

text \<open>A reply the app server takes as permission.\<close>

definition grants :: "json \<Rightarrow> bool" where
  "grants payload \<longleftrightarrow>
     jget payload ''decision'' \<in> Some ` JStr ` lit ` {''accept'', ''acceptForSession'', ''approved'', ''approved_for_session''} \<or>
     jget payload ''action'' = Some (JStr (lit ''accept'')) \<or> jget payload ''permissions'' \<notin> {None, Some no_permissions}"

definition grants_session :: "json \<Rightarrow> bool" where
  "grants_session payload \<longleftrightarrow>
     jget payload ''decision'' \<in> Some ` JStr ` lit ` {''acceptForSession'', ''approved_for_session''} \<or>
     jget payload ''scope'' = Some (JStr (lit ''session''))"

lemma parse_approval_cases:
  assumes "parse_approval_answer answer = Inr a"
  obtains (accept) "approves answer" "aa_decision a = lit ''accept''" "aa_legacy_decision a = lit ''approved''" "aa_scope a = lit ''turn''"
  | (session) "approves_session answer" "aa_decision a = lit ''acceptForSession''" "aa_legacy_decision a = lit ''approved_for_session''"
      "aa_scope a = lit ''session''"
  | (decline) "aa_decision a = lit ''decline''" "aa_legacy_decision a = lit ''denied''" "aa_scope a = lit ''turn''"
  | (cancel) "aa_decision a = lit ''cancel''" "aa_legacy_decision a = lit ''abort''" "aa_scope a = lit ''turn''"
  using assms by (auto simp: parse_approval_answer_def approves_def approves_session_def Let_def split: if_splits)

text \<open>The fields of the reply, by the method.\<close>

lemma approval_reply_fields:
  assumes "\<not> needs_input name params" "build_approval_response env name params answer = Inr (payload, action)"
    "parse_approval_answer answer = Inr a"
  shows "jget payload ''decision'' \<in> {None, Some (JStr (aa_decision a)), Some (JStr (aa_legacy_decision a))} \<and>
     (jget payload ''action'' = Some (JStr (lit ''accept'')) \<longrightarrow> aa_decision a \<in> {lit ''accept'', lit ''acceptForSession''}) \<and>
     jget payload ''scope'' \<in> {None, Some (JStr (aa_scope a)), Some (JStr (lit ''turn''))} \<and>
     (jget payload ''permissions'' \<in> {None, Some no_permissions} \<or>
      jget payload ''permissions'' = jget params ''permissions'' \<and> aa_decision a \<in> {lit ''accept'', lit ''acceptForSession''})"
  using assms
  by (auto simp: build_approval_response_def elicitation_def Let_def opt_filter_def split: if_splits option.splits)

text \<open>C15: No permission without consent. A reply to an approval request that the app server takes as permission (an accepting decision, an
  accepted elicitation, permissions other than none) is built only from an answer that is one of the approving words, and one that
  lasts for the session only from an answer that asks for the session; granted permissions are exactly those the request
  named.\<close>

theorem approval_needs_consent:
  assumes "\<not> needs_input name params" "build_approval_response env name params answer = Inr (payload, action)"
  shows "(grants payload \<longrightarrow> approves answer \<or> approves_session answer) \<and> (grants_session payload \<longrightarrow> approves_session answer) \<and>
     jget payload ''permissions'' \<in> {None, Some no_permissions, jget params ''permissions''}"
proof -
  obtain a where a: "parse_approval_answer answer = Inr a"
    using assms by (auto simp: build_approval_response_def split: sum.splits)
  note f = approval_reply_fields [OF assms a]
  from a show ?thesis
    by (cases rule: parse_approval_cases) (use f in \<open>auto simp: grants_def grants_session_def\<close>)
qed

section \<open>Forms\<close>

text \<open>The values inside a value, and how deep they nest.\<close>

primrec subvalues :: "json \<Rightarrow> json list" where
  "subvalues JNull = [JNull]"
| "subvalues (JBool b) = [JBool b]"
| "subvalues (JNum n) = [JNum n]"
| "subvalues (JStr s) = [JStr s]"
| "subvalues (JArr vs) = JArr vs # concat (map subvalues vs)"
| "subvalues (JObj fs) = JObj fs # concat (map snd (map (map_prod id subvalues) fs))"

primrec nesting :: "json \<Rightarrow> nat" where
  "nesting JNull = 0"
| "nesting (JBool b) = 0"
| "nesting (JNum n) = 0"
| "nesting (JStr s) = 0"
| "nesting (JArr vs) = foldr max (map Suc (map nesting vs)) 0"
| "nesting (JObj fs) = foldr max (map Suc (map snd (map (map_prod id nesting) fs))) 0"

lemma foldr_max_le: "foldr max xs 0 \<le> (n::nat) \<longleftrightarrow> (\<forall>x \<in> set xs. x \<le> n)"
  by (induction xs) auto

definition exact_numbers :: "json \<Rightarrow> bool" where
  "exact_numbers v \<longleftrightarrow> (\<forall>n. JNum n \<in> set (subvalues v) \<longrightarrow> \<not> beyond_exact n)"

lemma subvalues_obj: "subvalues (JObj fs) = JObj fs # concat (map subvalues (map snd fs))"
  by (simp add: comp_def)

lemma nesting_obj: "nesting (JObj fs) = foldr max (map Suc (map nesting (map snd fs))) 0"
  by (simp add: comp_def)

lemma visit_iff:
  "visit v d = Inr () \<longleftrightarrow> d + nesting v \<le> 32 \<and> exact_numbers v"
  "visit_all vs d = Inr () \<longleftrightarrow> (\<forall>v \<in> set vs. d + nesting v \<le> 32 \<and> exact_numbers v)"
proof (induction v d and vs d rule: visit_visit_all.induct)
  case (1 v d)
  have nest: "d + foldr max (map Suc ns) 0 \<le> 32 \<longleftrightarrow> d \<le> 32 \<and> (\<forall>n \<in> set ns. d + 1 + n \<le> 32)" for ns
  proof (cases "d \<le> 32")
    case True
    then have "d + foldr max (map Suc ns) 0 \<le> 32 \<longleftrightarrow> foldr max (map Suc ns) 0 \<le> 32 - d" by linarith
    moreover have "Suc n \<le> 32 - d \<longleftrightarrow> d + 1 + n \<le> 32" for n using True by linarith
    ultimately show ?thesis using True by (simp add: foldr_max_le)
  qed simp
  show ?case
  proof (cases v)
    case (JArr vs)
    have "exact_numbers v \<longleftrightarrow> (\<forall>x \<in> set vs. exact_numbers x)" by (auto simp: JArr exact_numbers_def)
    moreover have "d + nesting v \<le> 32 \<longleftrightarrow> d \<le> 32 \<and> (\<forall>x \<in> set vs. d + 1 + nesting x \<le> 32)"
      using nest [of "map nesting vs"] by (simp add: JArr)
    moreover have "visit v d = Inr () \<longleftrightarrow> d \<le> 32 \<and> visit_all vs (d + 1) = Inr ()" by (subst visit.simps) (simp add: JArr)
    ultimately show ?thesis using "1.IH"(1) [OF _ JArr] by (cases "d \<le> 32") auto
  next
    case (JObj fs)
    have "exact_numbers v \<longleftrightarrow> (\<forall>x \<in> set (map snd fs). exact_numbers x)"
      unfolding exact_numbers_def JObj subvalues_obj by auto
    moreover have "d + nesting v \<le> 32 \<longleftrightarrow> d \<le> 32 \<and> (\<forall>x \<in> set (map snd fs). d + 1 + nesting x \<le> 32)"
      unfolding JObj nesting_obj using nest [of "map nesting (map snd fs)"] by simp
    moreover have "visit v d = Inr () \<longleftrightarrow> d \<le> 32 \<and> visit_all (map snd fs) (d + 1) = Inr ()" by (subst visit.simps) (simp add: JObj)
    ultimately show ?thesis using "1.IH"(2) [OF _ JObj] by (cases "d \<le> 32") auto
  qed (subst visit.simps, force simp: exact_numbers_def)+
qed (auto split: sum.split)

definition refers_elsewhere :: "json \<Rightarrow> bool" where
  "refers_elsewhere v \<longleftrightarrow> jget v ''$async'' = Some (JBool True) \<or>
     (\<exists>k \<in> {''$ref'', ''$dynamicRef'', ''$recursiveRef''}. jget_str v k \<noteq> None)"

lemma check_extensions_iff:
  "check_extensions v = Inr () \<longleftrightarrow> (\<forall>x \<in> set (subvalues v). \<not> refers_elsewhere x)"
  "check_extensions_all vs = Inr () \<longleftrightarrow> (\<forall>v \<in> set vs. \<forall>x \<in> set (subvalues v). \<not> refers_elsewhere x)"
proof (induction v and vs rule: check_extensions_check_extensions_all.induct)
  case (1 v)
  show ?case
  proof (cases v)
    case (JArr vs)
    have "\<not> refers_elsewhere v" by (simp add: JArr refers_elsewhere_def jget_def)
    moreover have "set (subvalues v) = insert v (\<Union>x \<in> set vs. set (subvalues x))" by (simp add: JArr)
    moreover have "check_extensions v = check_extensions_all vs" by (subst check_extensions.simps) (simp add: JArr)
    ultimately show ?thesis using "1.IH"(1) [OF JArr] by auto
  next
    case (JObj fs)
    have "refers_elsewhere v \<longleftrightarrow> obj_get fs ''$async'' = Some (JBool True) \<or>
        list_ex (\<lambda>k. case obj_get fs k of None \<Rightarrow> False | Some x \<Rightarrow> is_string x) [''$ref'', ''$dynamicRef'', ''$recursiveRef'']"
      by (auto simp: JObj refers_elsewhere_def is_string_def split: option.splits)
    moreover have "set (subvalues v) = insert v (\<Union>x \<in> set (map snd fs). set (subvalues x))"
      unfolding JObj subvalues_obj by simp
    moreover have "check_extensions v = Inr () \<longleftrightarrow> \<not> refers_elsewhere v \<and> check_extensions_all (map snd fs) = Inr ()"
      unfolding calculation(1) by (subst check_extensions.simps) (simp add: JObj)
    ultimately show ?thesis using "1.IH"(2) [OF JObj] by auto
  qed (subst check_extensions.simps, simp add: refers_elsewhere_def jget_def)+
qed (auto split: sum.split)

lemma compile_ok:
  assumes "compile env params = Inr validator"
  obtains schema where "jget params ''requestedSchema'' = Some schema" "fe_len env schema \<le> 65536" "nesting schema \<le> 32" "exact_numbers schema"
    "\<forall>x \<in> set (subvalues schema). \<not> refers_elsewhere x" "fe_build env (jget schema ''$schema'' = None) schema = Some validator"
proof -
  obtain schema where s: "opt_filter (\<lambda>s. is_object s \<and> jget_str s ''type'' = Some (lit ''object'')) (jget params ''requestedSchema'') = Some schema"
    "check_limits env schema = Inr ()" "check_extensions schema = Inr ()" "fe_build env (jget schema ''$schema'' = None) schema = Some validator"
    using assms by (auto simp: compile_def split: option.splits sum.splits)
  have "jget params ''requestedSchema'' = Some schema" using s(1) by (auto simp: opt_filter_def split: option.splits if_splits)
  moreover have "fe_len env schema \<le> 65536" "visit schema 0 = Inr ()" using s(2) by (auto simp: check_limits_def split: if_splits)
  ultimately show thesis using that s(3,4) visit_iff(1) [of schema 0] check_extensions_iff(1) by simp
qed

lemma parse_form_object: "parse_form env schema body = Inr content \<Longrightarrow> is_object content"
  by (auto simp: parse_form_def Let_def opt_filter_def is_object_def split: if_splits option.splits prod.splits)


section \<open>Questions\<close>

lemma bt_insert_keys [simp]: "fst ` set (bt_insert k v m) = insert k (fst ` set m)"
proof (induction m)
  case (Cons e m)
  then show ?case by (cases e) (simp add: insert_commute)
qed simp

definition bt_wf :: "(rstr \<times> 'a) list \<Rightarrow> bool" where
  "bt_wf m = sorted_wrt (<) (map fst m)"

lemma bt_wf_Cons: "bt_wf (e # m) \<longleftrightarrow> (\<forall>k \<in> fst ` set m. fst e < k) \<and> bt_wf m"
  by (simp add: bt_wf_def)

lemma bt_wf_insert: "bt_wf m \<Longrightarrow> bt_wf (bt_insert k v m)"
proof (induction m)
  case (Cons e m)
  obtain k' v' where e: "e = (k', v')" by (cases e)
  have tail: "\<forall>j \<in> fst ` set m. k' < j" "bt_wf m" using Cons.prems e by (simp_all add: bt_wf_Cons)
  consider "k = k'" | "k < k'" | "k' < k" by (rule linorder_cases [of k k'])
  then show ?case
  proof cases
    case 3
    then show ?thesis using Cons.IH tail by (auto simp: e bt_wf_Cons)
  qed (use tail in \<open>auto simp: e bt_wf_Cons intro: less_trans\<close>)
qed (simp add: bt_wf_def)

definition question_ids :: "json list \<Rightarrow> rstr set" where
  "question_ids qs = {i. \<exists>q \<in> set qs. trimmed_field ''id'' q = Some i}"

lemma index_questions_keys: "index_questions n qs m = Inr m' \<Longrightarrow> fst ` set m' = fst ` set m \<union> question_ids qs"
proof (induction n qs m rule: index_questions.induct)
  case (2 n q qs m)
  then show ?case by (auto simp: question_ids_def split: if_splits option.splits)
qed (simp add: question_ids_def)

lemma assign_segments_wf: "assign_segments ss m = Inr m' \<Longrightarrow> bt_wf m \<Longrightarrow> bt_wf m'"
  by (induction ss m rule: assign_segments.induct) (auto simp: bt_wf_insert split: option.splits if_splits)

lemma parse_assignments_wf: "parse_assignments questions s = Inr m \<Longrightarrow> bt_wf m"
  using assign_segments_wf [of _ "[]"] by (auto simp: parse_assignments_def bt_wf_def split: if_splits)

lemma labels_nonempty: "input_option_labels q = Inr labels \<Longrightarrow> [] \<notin> set labels"
proof -
  assume "input_option_labels q = Inr labels"
  then consider os where "labels = map (the \<circ> trimmed_field ''label'') os" "\<forall>x \<in> set os. trimmed_field ''label'' x \<noteq> None" | "labels = []"
    by (auto simp: input_option_labels_def list_all_iff split: option.splits if_splits)
  then show ?thesis
  proof cases
    case (1 os)
    have "trimmed_field ''label'' x \<noteq> Some []" for x by (auto simp: trimmed_field_def opt_filter_def split: option.splits)
    then have "the (trimmed_field ''label'' x) \<noteq> []" if "x \<in> set os" for x using 1(2) that by (metis option.collapse)
    then show ?thesis using 1(1) by (auto dest: sym)
  qed simp
qed

lemma resolve_value_nonempty:
  assumes "v \<noteq> []" "[] \<notin> set labels"
  shows "resolve_value labels v \<noteq> []"
proof -
  have "l \<noteq> []" if "find P labels = Some l" for P l using that assms(2) nth_mem [of _ labels] by (metis find_Some_iff)
  then have "(case find (\<lambda>l. eq_ignore_ascii_case l v) labels of None \<Rightarrow> v | Some l \<Rightarrow> l) \<noteq> []"
    using assms(1) by (auto split: option.splits)
  moreover have "labels ! i \<noteq> []" if "i < length labels" for i using nth_mem [OF that] assms(2) by metis
  ultimately show ?thesis by (auto simp: resolve_value_def Let_def split: option.split)
qed

lemma resolve_answers_nonempty: "resolve_input_answers q raw = Inr vs \<Longrightarrow> vs \<noteq> [] \<and> [] \<notin> set vs"
proof -
  assume "resolve_input_answers q raw = Inr vs"
  then obtain labels where l: "input_option_labels q = Inr labels" "vs = map (resolve_value labels) (split_input_values raw)" "split_input_values raw \<noteq> []"
    by (auto simp: resolve_input_answers_def Let_def split: if_splits sum.splits)
  have "resolve_value labels v \<noteq> []" if "v \<in> set (split_input_values raw)" for v
    using that resolve_value_nonempty labels_nonempty [OF l(1)] by (auto simp: split_input_values_def)
  then show ?thesis using l(2,3) by (auto dest: sym)
qed

lemma resolve_all_answers:
  "resolve_all questions m = Inr as \<Longrightarrow> map fst as = map fst m \<and> (\<forall>(i, vs) \<in> set as. vs \<noteq> [] \<and> [] \<notin> set vs)"
proof (induction questions m arbitrary: as rule: resolve_all.induct)
  case (2 questions i raw r)
  obtain vs rest where v: "resolve_input_answers (the (map_of questions i)) raw = Inr vs" "resolve_all questions r = Inr rest" "as = (i, vs) # rest"
    using "2.prems" by (auto split: sum.splits)
  show ?case using "2.IH" [OF v(1,2)] resolve_answers_nonempty [OF v(1)] v(3) by simp
qed simp

text \<open>C17: A reply to questions answers all of them and nothing else. When it is built, the ids it answers are exactly the ids of the pending questions,
  each once, each with at least one answer and no empty one, and the payload carries these answers under these ids.\<close>

theorem input_reply_answers_exactly:
  assumes "build_input_response params answer = Inr r"
  shows "\<exists>qs. jget params ''questions'' = Some (JArr qs) \<and> fst ` set (ir_answers_by_question r) = question_ids qs \<and>
     distinct (map fst (ir_answers_by_question r)) \<and> (\<forall>(i, vs) \<in> set (ir_answers_by_question r). vs \<noteq> [] \<and> [] \<notin> set vs) \<and>
     ir_payload r = answers_payload (ir_answers_by_question r)"
proof -
  obtain qs questions m as where qs: "validate_input_questions params = Inr qs" "index_questions 0 qs [] = Inr questions"
    and m: "parse_assignments questions (trim answer) = Inr m"
    and ids: "filter (\<lambda>i. i \<notin> fst ` set m) (map fst questions) = []" "filter (\<lambda>i. i \<notin> fst ` set questions) (map fst m) = []"
    and as: "resolve_all questions m = Inr as" and r: "r = \<lparr> ir_payload = answers_payload as, ir_answers_by_question = as \<rparr>"
    using assms by (auto simp: build_input_response_def Let_def split: sum.splits if_splits)
  have "jget params ''questions'' = Some (JArr qs)"
    using qs(1) by (auto simp: validate_input_questions_def opt_filter_def split: option.splits sum.splits if_splits bind_splits)
  moreover have "fst ` set m = fst ` set questions" using ids by (force simp: filter_empty_conv)
  moreover have "fst ` set questions = question_ids qs" using index_questions_keys [OF qs(2)] by simp
  moreover have "fst ` set as = fst ` set m" "\<forall>(i, vs) \<in> set as. vs \<noteq> [] \<and> [] \<notin> set vs"
    using resolve_all_answers [OF as] by (metis list.set_map, blast)
  moreover have "distinct (map fst as)"
    using resolve_all_answers [OF as] parse_assignments_wf [OF m] strict_sorted_iff by (auto simp: bt_wf_def)
  ultimately show ?thesis using r by (intro exI [of _ qs]) simp
qed

section \<open>Example replies\<close>

text \<open>A parser that reads one form, a printer of constant length, and a validator that rejects an empty object.\<close>

definition demo_forms :: form_env where
  "demo_forms = \<lparr> fe_parse = (\<lambda>t. if t = lit ''x'' then Some (JObj [(lit ''n'', JNum (JInt 7))]) else None), fe_len = (\<lambda>_. 20),
     fe_build = (\<lambda>_ _. Some (\<lambda>v. if v = JObj [] then Some (lit ''empty'') else None)) \<rparr>"

definition demo_permissions :: json where
  "demo_permissions = json_object [(''permissions'', json_object [(''network'', JBool True)])]"

theorem approval_needs_consent_witness:
  "build_approval_response demo_forms (lit ''item/permissions/requestApproval'') demo_permissions (lit '' 2 '') =
     Inr (json_object [(''permissions'', json_object [(''network'', JBool True)]), (''scope'', JStr (lit ''session''))], lit ''acceptForSession'') \<and>
   grants_session (json_object [(''permissions'', json_object [(''network'', JBool True)]), (''scope'', JStr (lit ''session''))]) \<and>
   approves_session (lit '' 2 '')"
proof (intro conjI)
  show *: "build_approval_response demo_forms (lit ''item/permissions/requestApproval'') demo_permissions (lit '' 2 '') =
     Inr (json_object [(''permissions'', json_object [(''network'', JBool True)]), (''scope'', JStr (lit ''session''))], lit ''acceptForSession'')"
    by code_simp
  have "\<not> needs_input (lit ''item/permissions/requestApproval'') demo_permissions" by code_simp
  note consent = approval_needs_consent [OF this *]
  show granted: "grants_session (json_object [(''permissions'', json_object [(''network'', JBool True)]), (''scope'', JStr (lit ''session''))])"
    by (simp add: grants_session_def)
  show "approves_session (lit '' 2 '')" using consent granted by blast
qed

definition demo_form_params :: json where
  "demo_form_params = json_object [(''mode'', JStr (lit ''form'')), (''requestedSchema'', json_object [(''type'', JStr (lit ''object'')),
     (''properties'', json_object [(''n'', json_object [(''type'', JStr (lit ''integer''))])])])]"

lemma demo_compile: "compile demo_forms demo_form_params = Inr (\<lambda>v. if v = JObj [] then Some (lit ''empty'') else None)"
proof -
  let ?schema = "json_object [(''type'', JStr (lit ''object'')), (''properties'', json_object [(''n'', json_object [(''type'', JStr (lit ''integer''))])])]"
  have "visit ?schema 0 = Inr ()" "check_extensions ?schema = Inr ()" "is_object ?schema" by code_simp+
  then show ?thesis by (simp add: compile_def demo_form_params_def demo_forms_def opt_filter_def check_limits_def)
qed

lemma demo_unfenced: "unfence (lit '' x'') = Inr (lit ''x'')"
  by code_simp

lemma demo_limits: "check_limits demo_forms (JObj [(lit ''n'', JNum (JInt 7))]) = Inr ()"
proof -
  have "visit (JObj [(lit ''n'', JNum (JInt 7))]) 0 = Inr ()" by code_simp
  then show ?thesis by (simp add: check_limits_def demo_forms_def)
qed

lemma demo_parse: "parse_form demo_forms (the (jget demo_form_params ''requestedSchema'')) (lit ''x'') = Inr (JObj [(lit ''n'', JNum (JInt 7))])"
  by code_simp


definition demo_questions :: json where
  "demo_questions = json_object [(''questions'', JArr [
     json_object [(''id'', JStr (lit ''b'')), (''options'', JArr [json_object [(''label'', JStr (lit ''Yes''))], json_object [(''label'', JStr (lit ''No''))]])],
     json_object [(''id'', JStr (lit ''a''))]])]"

theorem input_reply_answers_exactly_witness:
  "\<exists>r. build_input_response demo_questions (lit ''b = 2|yes; a=x'') = Inr r \<and>
     ir_answers_by_question r = [(lit ''a'', [lit ''x'']), (lit ''b'', [lit ''No'', lit ''Yes''])] \<and> distinct (map fst (ir_answers_by_question r))"
proof -
  have e: "(case build_input_response demo_questions (lit ''b = 2|yes; a=x'') of Inl _ \<Rightarrow> False
      | Inr r \<Rightarrow> ir_answers_by_question r = [(lit ''a'', [lit ''x'']), (lit ''b'', [lit ''No'', lit ''Yes''])])" by code_simp
  then obtain r where r: "build_input_response demo_questions (lit ''b = 2|yes; a=x'') = Inr r"
    by (cases "build_input_response demo_questions (lit ''b = 2|yes; a=x'')") auto
  have "distinct (map fst (ir_answers_by_question r))" using input_reply_answers_exactly [OF r] by blast
  then show ?thesis using e r by simp
qed

end
