(* ===== verification/Spec2Isabelle.thy ===== *)
theory Spec2Isabelle
  imports Client Target_Gate Resident Outcomes Text_Chunks Requests Gateway_Ingress Broker_Safety Agent_Safety Scheduler_Safety Queue_Safety Drain_Safety Runner_Safety Reply_Safety
begin

text \<open>
  \<^bold>\<open>A verification development of Codex Discord Remote (Rust).\<close>

  The program is a Discord bot that drives a Codex \<open>app-server\<close> child process over
  JSON-RPC lines. Discord events enter through the gateway's ingress
  (\<open>crates/cdr-discord\<close>); the bot turns them into requests of a resident app-server
  client (\<open>crates/cdr-app-server\<close>), relays the server's own requests (approvals, user
  input) back to Discord, and delivers answers as message chunks. Crashes, restarts,
  time-outs and lost messages are the hard part, and the code answers them with
  generation-bound admission, a ledger of server requests, a tracker of message gaps, a durable
  queue of prompts whose claims authorise one dispatch each, gates that exclude maintenance from
  work, and a drain that lets a restart wait for quiescence. Beside the bot, an MCP server
  (\<open>crates/cdr-mcp-server\<close>) brokers tool calls to agents on remote machines
  (\<open>crates/cdr-remote-agent\<close>) over \<open>crates/cdr-remote-protocol\<close>. Those parts are modelled here.

  \<^bold>\<open>Theories, and the code they model\<close> (paths under \<open>src/crates/\<close>):
  \<^item> \<open>Prelude\<close>, \<open>Hash_Map\<close>, \<open>Rust_Str\<close>, \<open>Json\<close>, \<open>Ordering\<close>: what the code uses of the
    language and of serde: checked and saturating 64-bit arithmetic, \<open>Option::filter\<close>, runs
    of events, maps with the interface \<open>key_store\<close>, strings as lists of code points with
    UTF-8 lengths, trimming and splitting, JSON values with their objects and pointers,
    comparators and the stable sort.
  \<^item> \<open>Rpc\<close>: \<open>cdr-app-server/src/rpc.rs\<close>, \<open>error.rs\<close>. Message classification and the wire
    values; a round trip for each of the four shapes.
  \<^item> \<open>Server_Requests\<close>: \<open>state/server_requests.rs\<close>. The ledger of requests the server makes
    of the bot: recorded, claimed for a response, indeterminate, resolved. The interface
    \<open>response_ledger\<close> states the phases of an occurrence; the ledger implements it.
  \<^item> \<open>Runtime_State\<close>: \<open>state.rs\<close>, \<open>state/idle_observation.rs\<close>, \<open>state/observation_window.rs\<close>,
    \<open>state/settings.rs\<close>, \<open>state/dead_generation.rs\<close>. Notification revisions, the bounded
    retained suffix, the windows over it, the idle cursor, the work of a dead generation.
  \<^item> \<open>Diagnostics\<close>: \<open>diagnostics.rs\<close>. \<open>Lifecycle\<close>: \<open>client/lifecycle.rs\<close>, with the interfaces
    \<open>sealed_gate\<close> and \<open>quiescent_gate\<close>. \<open>Requests\<close>: \<open>requests.rs\<close>.
  \<^item> \<open>Client\<close>: \<open>client.rs\<close>, \<open>client/pending.rs\<close>, \<open>transport.rs\<close>, \<open>control/*.rs\<close>. Pending
    responses and their permits, the reader of the child's lines, writes with their
    preflight, response claims, close. Compound operations are shown to be runs of the
    atomic steps \<open>client_step\<close>, and the safety properties are proved on those runs.
  \<^item> \<open>Target_Gate\<close>: \<open>idle_release/gate.rs\<close>. \<open>Resident\<close>: \<open>manager/admission*.rs\<close>,
    \<open>manager/death.rs\<close>, \<open>manager/dead_generation.rs\<close>, \<open>manager/supervisor.rs\<close>.
  \<^item> \<open>Outcomes\<close>: \<open>outcomes.rs\<close>, \<open>goal.rs\<close>. \<open>Text_Chunks\<close>: \<open>cdr-discord/src/text.rs\<close>.
  \<^item> \<open>Gateway_Gaps\<close>, \<open>Gateway_Ingress\<close>: \<open>cdr-discord/src/gateway/ingress*\<close>,
    \<open>gateway_identity.rs\<close>, \<open>runtime_publication.rs\<close>, \<open>intake.rs\<close>. This theory joins the two.
  \<^item> \<open>Replies\<close>, \<open>Reply_Safety\<close>: \<open>approval_replies.rs\<close>, \<open>input_replies.rs\<close>, \<open>input_validation.rs\<close>, \<open>mcp_forms.rs\<close>: what a user's
    text becomes as an answer to an approval, to questions, to a form.
  \<^item> \<open>Remote_Protocol\<close>: \<open>cdr-remote-protocol/src\<close>: requests, commands, outputs and envelopes with their
    validation. \<open>Broker\<close>, \<open>Broker_Safety\<close>: \<open>cdr-mcp-server/src/broker\<close>: connections, routes of chat sessions,
    pending tool calls. \<open>Agent\<close>, \<open>Agent_Safety\<close>: \<open>cdr-remote-agent/src/dispatcher\<close>: project bindings, sessions, the
    cache of mutations. This theory joins broker and agent.
  \<^item> \<open>Scheduler\<close>, \<open>Scheduler_Safety\<close>: \<open>cdr-runtime/src/completion_worker/scheduler\<close> and \<open>cdr-store/src/completion_work.rs\<close>:
    ready queues, discovery in pages, launches. The interface of a FIFO per target is a locale that the
    ready queues interpret.
  \<^item> \<open>Turn_Queue\<close>, \<open>Queue_Safety\<close>: \<open>cdr-store/src/queue\<close>, \<open>delivery.rs\<close>, \<open>dead_generation.rs\<close>, \<open>execution_hold.rs\<close>: the queue
    table with its triggers, and every operation on it. \<open>row_step\<close> is the life of a row as an inductive relation; each
    operation moves the table along it.
  \<^item> \<open>Restart_Drain\<close>, \<open>Drain_Safety\<close>: \<open>cdr-runtime/src/restart_readiness\<close> and \<open>gateway_drain.rs\<close>: the admission gate, the marker
    files, the controller, the drain loop.
  \<^item> \<open>Queue_Runner\<close>, \<open>Runner_Safety\<close>: \<open>cdr-runtime/src/queue_runner\<close>: which job of a thread starts next, its claim and
    dispatch, completion, recovery and retries, over \<open>Turn_Queue\<close> and the gate of \<open>Restart_Drain\<close>.

  \<^bold>\<open>How state and effects correspond.\<close> A struct behind a mutex is a record and a method that
  locks it is a function on the record: each is one atomic step, and interleavings of threads are
  sequences of such steps. A method that releases the lock and takes it again (request,
  respond, close) is several steps. A table of the store is a list of rows in a record, a transaction a
  function on it, an SQL trigger a condition of the update. An \<open>await\<close> is an argument that says what the other tasks
  did to the state meanwhile; where a property depends on that, it is a named condition (\<open>lets\<close>), and the
  operations are shown to meet the condition they put on each other. Random identities, the clock, the child process, the
  write and the journal are arguments. Sent values are recorded in the state (\<open>ci_delivered\<close>, \<open>bk_sent\<close>), so
  that "at most once" is a statement about that list. A \<open>u64\<close> counter is a natural number with
  its check or saturation written out, or a 64-bit word where the gap epoch wraps at its top. Wall-clock seconds of the
  store, floating point in the code, are rational numbers.

  \<^bold>\<open>What the theorems show.\<close> A server request is answered at most once and a pending
  request gets at most one outcome, whatever the interleaving; closing settles every pending
  request; a response claim cannot outlive its generation; a stale generation never admits work;
  an ambiguous write quarantines the generation; the terminal close
  is final; maintenance excludes mutations; gap clearing needs that no gap came later; windows
  over notifications are contiguous and make progress; a message the gateway refuses stays
  covered by a gap of its channel until a later notice is acknowledged; text splits preserve
  content and fit Discord's limit; journal payloads and wire values round-trip. No permission is given without an
  approving word, a reply to questions answers exactly these, and a form is accepted only with validated content. A queued prompt is dispatched at most once per
  release, a held or cancelled one never; at most one job of a thread is in flight, and operations on different
  threads do not interfere; recovery neither drops nor replays a job; a completed job moves to the outbox in one
  step; retries are bounded. The drain reports a drained bot only when nothing is admitted, and only then is the
  restart acknowledged. A broker session is served for its principal only, a replaced connection has no power, the agent
  replays a retried mutation instead of repeating it, and the two speak the same language. The scheduler delivers live events in
  order within its bounds.

  \<^bold>\<open>Bounds and termination.\<close> Every definition is total: loops are structural recursion on
  the list they consume, and the loops that are not (\<open>split_whitespace\<close>, \<open>split_loop\<close>,
  \<open>exact_loop\<close>, \<open>check_extensions\<close>, \<open>visit\<close>, \<open>launch_state\<close>, \<open>launch_http\<close>, \<open>follow_handoffs\<close>) have their own termination proofs. A discovery pass
  recurses on a bound of pages, which is shown to suffice; the drain loop consumes the list of the rounds it meets, so what is
  shown of it holds for every number of rounds. Capacities are the source's constants.

  \<^bold>\<open>Not modelled.\<close> Network and process I/O (shards, HTTP, web sockets, spawning), the file, Git, terminal and
  desktop backends of the remote agent and the Windows helpers: they are arguments or I/O. The store's tables beside the
  prompt queue (ingress journal, prompt intakes, the writes of fork handoffs, async questions, idle-release journal) are
  seen only through the flags and answers the queue reads. Of the bot, commands, approvals, mirrors, completion delivery and
  the loop of recovery over all threads are left out; of the app-server crate the resident manager's asynchronous
  dispatch; of the MCP server the OAuth provider.
\<close>

section \<open>The ingress drives the gap tracker\<close>

text \<open>The tracker inside an ingress only moves by the tracker's own events: a message that
  is refused records, an acknowledgement acknowledges, everything else leaves it alone.\<close>

definition gap_events_of :: "ingress_event \<Rightarrow> gateway_ingress \<Rightarrow> gap_event list" where
  "gap_events_of e g = (case e of
     IAck n \<Rightarrow> [GAck n]
   | IPublish (MessageCreate m) seen_at nonce \<Rightarrow>
       (case fst (publish_message m nonce g) of
          MessageRecoverableGap reason _ \<Rightarrow> [GRecord (msg_channel_id m) (message_position m) reason]
        | _ \<Rightarrow> [])
   | _ \<Rightarrow> [])"

fun gap_trace :: "ingress_event list \<Rightarrow> gateway_ingress \<Rightarrow> gap_event list" where
  "gap_trace [] g = []"
| "gap_trace (e # es) g = gap_events_of e g @ gap_trace es (ingress_step e g)"

lemma message_gap_tracker:
  "fst (message_gap m r g) = MessageRecoverableGap r
      (fst (gap_record (msg_channel_id m) (message_position m) r (message_gaps g)))"
  "message_gaps (snd (message_gap m r g)) =
     snd (gap_record (msg_channel_id m) (message_position m) r (message_gaps g))"
  by (simp_all add: message_gap_def record_recoverable_gap_def case_prod_beta)

lemma publish_message_tracker:
  "message_gaps (snd (publish_message m nonce g)) =
     run_events gap_step (case fst (publish_message m nonce g) of
        MessageRecoverableGap reason _ \<Rightarrow> [GRecord (msg_channel_id m) (message_position m) reason]
      | _ \<Rightarrow> []) (message_gaps g)"
  by (cases rule: publish_message_cases [of g m nonce])
    (simp_all add: message_gap_tracker gap_step_def)

lemma publish_interaction_tracker: "message_gaps (snd (publish_interaction i seen_at g)) = message_gaps g"
proof -
  have "message_gaps (snd (try_reserved x h)) = message_gaps h" for x h
    by (simp add: try_reserved_def record_hard_drop_def split: sum.split)
  then show ?thesis
    using next_sequence_cases [of g]
    by (auto simp: publish_interaction_def record_hard_drop_def Let_def split: sum.split)
qed

lemma on_lane_tracker: "message_gaps (on_lane f h k l em g) = message_gaps g"
  by (simp add: on_lane_def split: ingress_lane.split)

lemma ingress_step_tracker:
  "message_gaps (ingress_step e g) = run_events gap_step (gap_events_of e g) (message_gaps g)"
proof (cases e)
  case (IPublish ev seen_at nonce)
  then show ?thesis
    by (cases ev) (simp_all add: ingress_step_def gap_events_of_def publish_with_nonce_def
        publish_gateway_event_identity_def publish_interaction_tracker publish_message_tracker)
next
  case (IReceiveError shard body)
  then show ?thesis
    by (simp add: ingress_step_def gap_events_of_def publish_receive_error_def split: sum.split)
qed (simp_all add: ingress_step_def gap_events_of_def gap_step_def stop_accepting_def on_lane_tracker)

lemma ingress_run_tracker:
  "message_gaps (run_events ingress_step es g) = run_events gap_step (gap_trace es g) (message_gaps g)"
  by (induction es arbitrary: g) (simp_all add: ingress_step_tracker run_events_append)

fun ingress_acks_later :: "nat \<Rightarrow> nat \<Rightarrow> ingress_event \<Rightarrow> bool" where
  "ingress_acks_later c since (IAck n) = acks_later c since (GAck n)"
| "ingress_acks_later c since e = False"

lemma gap_trace_acks:
  "\<exists>e \<in> set (gap_trace es g). acks_later c since e \<Longrightarrow> \<exists>e \<in> set es. ingress_acks_later c since e"
proof (induction es arbitrary: g)
  case (Cons e es)
  then show ?case
    by (cases e) (auto simp: gap_events_of_def split: gateway_event.splits publish_outcome.splits)
qed simp

text \<open>C7: a refused message stays recoverable through everything the gateway does. When a
  reachable ingress refuses a message, then after any further events (other messages and
  interactions, consumers, the stop, acknowledgements of notices taken before the refusal)
  the message's channel still has an active gap that starts at or before the message and
  carries the reason; only acknowledging a notice taken after the refusal ends it.\<close>

theorem refused_message_stays_recoverable:
  assumes built: "ingress_build ident config sequence = Inr g0" "sequence \<le> u64_max"
    and g: "g = run_events ingress_step before g0"
    and refused: "publish_message m nonce g = (MessageRecoverableGap reason tracking, g')"
    and old: "\<not> (\<exists>e \<in> set es. ingress_acks_later (msg_channel_id m)
                 (revision_at (message_gaps g) (msg_channel_id m)) e)"
  shows "gap_covers (message_gaps (run_events ingress_step es g')) m reason"
proof -
  let ?c = "msg_channel_id m" and ?t = "message_gaps g"
  have inv: "ingress_inv g" unfolding g by (intro ingress_run_inv ingress_build_inv [OF built])
  have g': "message_gaps g' = snd (gap_record ?c (message_position m) reason ?t)"
    using publish_message_tracker [of m nonce g] refused by (simp add: gap_step_def)
  have "\<not> (\<exists>e \<in> set (gap_trace es g'). acks_later ?c (revision_at ?t ?c) e)"
    using gap_trace_acks old by blast
  then show ?thesis
    using recorded_gap_covered_run [of ?t "gap_trace es g'" ?c "message_position m" reason] inv
    by (auto simp: ingress_run_tracker g' gap_covers_def ingress_inv_def)
qed

theorem refused_message_stays_recoverable_witness:
  "\<exists>g'. publish_message hello_message None (run_events ingress_step [IStop] tiny_ingress)
        = (MessageRecoverableGap Stopping (Inr ()), g') \<and>
      gap_covers (message_gaps (run_events ingress_step
        [IPublish (MessageCreate hello_message) 9 None, IDropReceiver MessageLane False] g')) hello_message Stopping"
proof -
  let ?g = "run_events ingress_step [IStop] tiny_ingress"
  obtain g' where r: "publish_message hello_message None ?g = (MessageRecoverableGap Stopping (Inr ()), g')"
    by (simp add: ingress_eval tiny_ingress_def)
  show ?thesis
    using refused_message_stays_recoverable [OF tiny_build _ refl r,
        of "[IPublish (MessageCreate hello_message) 9 None, IDropReceiver MessageLane False]"] r
    by (simp del: run_events.simps)
qed

section \<open>The broker and the agent that serves it\<close>

text \<open>A bridge that answers the last command it was sent with the dispatcher's reply, over its own
  connection, and the world of a broker call that such a bridge serves.\<close>

definition agent_serves ::
  "digest \<Rightarrow> 'w agent_backend \<Rightarrow> 'w call_env \<Rightarrow> nat option \<Rightarrow> 'w agent_state \<Rightarrow> bridge_identity \<Rightarrow> broker_state \<Rightarrow> broker_state" where
  "agent_serves digest be env connection a i s = (if bk_sent s = [] then s
     else Broker.complete i (fst (execute_cancellable digest be env (snd (last (bk_sent s))) connection a)) s)"

lemma complete_delivered:
  "bk_delivered (Broker.complete i r s) = bk_delivered s \<or> (\<exists>x. bk_delivered (Broker.complete i r s) = bk_delivered s @ [(x, r)])"
  by (auto simp: Broker.complete_def Let_def split: option.split)

lemma served_reply:
  assumes "cw_during1 w = id" "cw_during2 w = agent_serves digest be env connection a i"
    and "cw_response w \<notin> set (map fst (bk_delivered s))"
    and "dispatch_in w route command s = (Inr r, s')"
  shows "r = fst (execute_cancellable digest be env command connection a)"
proof -
  obtain x s1 where b: "dispatch_begin route (command_request_id command) (cw_response w) s = (Inr x, s1)"
    and sent: "cw_sent w = SendDone" and cancel: "\<not> cw_cancelled w"
    using assms(4) by (auto simp: dispatch_in_def dispatch_on_route_def Let_def await_reply_def
        split: prod.splits sum.splits send_outcome.splits if_splits)
  let ?reply = "fst (execute_cancellable digest be env command connection a)"
  let ?s2 = "Broker.complete i ?reply (s1\<lparr>bk_sent := bk_sent s1 @ [(x, command)]\<rparr>)"
  have "bk_delivered s1 = bk_delivered s" using b by (auto simp: dispatch_begin_def split: option.splits)
  moreover have "map_of (bk_delivered ?s2) (cw_response w) = Some r"
    using assms(1,2,4) b sent cancel
    by (auto simp: dispatch_in_def dispatch_on_route_def agent_serves_def await_reply_def Let_def split: option.splits if_splits)
  ultimately show ?thesis
    using complete_delivered [of i ?reply "s1\<lparr>bk_sent := bk_sent s1 @ [(x, command)]\<rparr>"] assms(3)
    by (force dest!: map_of_SomeD)
qed

lemma understood_call:
  assumes "\<And>route s r s'. bk_delivered s = bk_delivered s0 \<Longrightarrow>
      dispatch_in w route (command (session_head w route)) s = (Inr r, s') \<Longrightarrow> pick r = None \<Longrightarrow> is_operation_error r"
  shows "fst (route_call w session subject command pick s0) \<noteq> Inl WrongResultType"
proof -
  obtain got s1 where a: "active_route session subject (cw_now w) s0 = (got, s1)" by fastforce
  have same: "bk_delivered s1 = bk_delivered s0" using pending_kept(10) [of session subject "cw_now w" s0] a by simp
  have active: "got \<noteq> Inl WrongResultType" using a by (auto simp: active_route_def Let_def split: option.splits if_splits)
  have sent: "dispatch_in w route c s \<noteq> (Inl WrongResultType, s')" for route c s s'
    by (auto simp: dispatch_in_def dispatch_on_route_def dispatch_begin_def await_reply_def Let_def
        split: option.splits send_outcome.splits if_splits)
  show ?thesis
  proof (cases got)
    case (Inr route)
    obtain out s2 where d: "dispatch_in w route (command (session_head w route)) s1 = (out, s2)" by fastforce
    then show ?thesis
      using assms [OF same, of route] sent [of route _ s1 s2] a Inr
      by (auto simp: route_call_def split: sum.split option.split bridge_result.split)
  qed (use a active in \<open>simp add: route_call_def\<close>)
qed


definition served_agent :: "nat agent_state" where
  "served_agent = \<lparr> ag_connection = Some 1, ag_projects = [(lit ''t'', 0)],
     ag_heap = [(0, \<lparr> ap_root = lit ''root'', ap_expires_at = 900,
       ap_session = Some \<lparr> sa_connection = Some 1, sa_generation = 1, sa_session_id = lit ''u1'', sa_mode = ModeProject \<rparr>,
       ap_mutations = cache_empty \<rparr>)], ag_next = 1, ag_world = 0 \<rparr>"

definition served_world :: call_world where
  "served_world = \<lparr> cw_during1 = id, cw_sent = SendDone,
     cw_during2 = agent_serves kind_digest demo_backend calm (Some 1) served_agent demo_identity, cw_cancelled = False,
     cw_request_id = lit ''r1'', cw_response = 9, cw_now = 25 \<rparr>"


end
